(* ===== verification/Prelude.thy ===== *)
theory Prelude
  imports Main "HOL-Library.Word"
begin

text \<open>
  Shared vocabulary of the development: the collections of simplification facts that the
  component theories extend, outcomes of Go code that may panic, 64-bit signed arithmetic as
  wrap-around on \<open>int\<close>, and the generic list lemmas the components use.

  Conventions of every theory. A Go method whose body runs under one mutex is one atomic
  operation of the model: it takes the receiver's state and returns the result with the new
  state. Calls that only write log lines are left out. A \<^verbatim>\<open>panic\<close> is the value \<open>Panic\<close>.
\<close>

named_theorems go_simps \<open>defining equations of the modelled Go operations\<close>
named_theorems inv_intros \<open>operations preserve the invariant of their component\<close>

section \<open>Outcomes\<close>

datatype 'a outcome = Return 'a | Panic string

primrec returns :: "'a outcome \<Rightarrow> bool" where
  "returns (Return _) = True"
| "returns (Panic _) = False"

primrec on_return :: "('a \<Rightarrow> 'b outcome) \<Rightarrow> 'a outcome \<Rightarrow> 'b outcome" where
  "on_return f (Return a) = f a"
| "on_return f (Panic m) = Panic m"

lemma returns_iff: "returns r \<longleftrightarrow> (\<exists>a. r = Return a)"
  by (cases r) simp_all

lemma on_return_Return [simp]: "(on_return f r = Return b) \<longleftrightarrow> (\<exists>a. r = Return a \<and> f a = Return b)"
  by (cases r) simp_all

section \<open>Signed 64-bit integers\<close>

text \<open>
  Go's \<^verbatim>\<open>int64\<close> values are integers in \<open>[-2^63, 2^63)\<close>; an arithmetic result is
  brought back into the range by \<open>i64\<close>, which is the two's complement wrap-around.
\<close>

abbreviation MaxInt64 :: int where "MaxInt64 \<equiv> 9223372036854775807"
abbreviation MinInt64 :: int where "MinInt64 \<equiv> - 9223372036854775808"

definition i64 :: "int \<Rightarrow> int" where
  "i64 x = (x + 9223372036854775808) mod 18446744073709551616 - 9223372036854775808"

definition in_i64 :: "int \<Rightarrow> bool" where
  "in_i64 x \<longleftrightarrow> MinInt64 \<le> x \<and> x \<le> MaxInt64"

lemma i64_in_range [simp, intro]: "in_i64 (i64 x)"
proof -
  have "0 \<le> (x + 9223372036854775808) mod 18446744073709551616"
    and "(x + 9223372036854775808) mod 18446744073709551616 < 18446744073709551616"
    by simp_all
  then show ?thesis unfolding in_i64_def i64_def by linarith
qed

lemma i64_id: "in_i64 x \<Longrightarrow> i64 x = x"
  by (simp add: in_i64_def i64_def)

lemma i64_idem [simp]: "i64 (i64 x) = i64 x"
  by (rule i64_id) simp

lemma in_i64I: "MinInt64 \<le> x \<Longrightarrow> x \<le> MaxInt64 \<Longrightarrow> in_i64 x"
  by (simp add: in_i64_def)

lemma in_i64_0 [simp]: "in_i64 0"
  by (simp add: in_i64_def)

section \<open>Lists\<close>

definition last_n :: "nat \<Rightarrow> 'a list \<Rightarrow> 'a list" where
  "last_n n xs = drop (length xs - n) xs"

lemma last_n_length: "length (last_n n xs) = min n (length xs)"
  by (simp add: last_n_def)

lemma last_n_short [simp]: "length xs \<le> n \<Longrightarrow> last_n n xs = xs"
  by (simp add: last_n_def)

lemma last_n_snoc: "0 < n \<Longrightarrow> last_n n (last_n n xs @ [x]) = last_n n (xs @ [x])"
  by (cases "length xs \<le> n") (auto simp: last_n_def Suc_diff_le not_le le_diff_conv)

lemma last_last_n: "0 < n \<Longrightarrow> xs \<noteq> [] \<Longrightarrow> last (last_n n xs) = last xs"
  by (simp add: last_n_def)

lemma set_last_n: "set (last_n n xs) \<subseteq> set xs"
  by (simp add: last_n_def set_drop_subset)

lemma remove1_distinct_set: "distinct xs \<Longrightarrow> set (remove1 x xs) = set xs - {x}"
  by (rule set_remove1_eq)

end
