(* ===== verification/Channel.thy ===== *)
theory Channel
  imports Prelude
begin

text \<open>
  Go channels, as far as the daemon uses them: a buffer with a capacity and a closed flag.
  \<open>chan_send\<close> and \<open>chan_recv\<close> are the two communication clauses of a \<^verbatim>\<open>select\<close>; a clause
  that cannot proceed is \<open>Blocks\<close>, which is when \<^verbatim>\<open>select\<close> takes its \<^verbatim>\<open>default\<close> clause.
  A nil channel is \<open>None\<close>: both clauses block on it for ever.
\<close>

record 'a chan =
  ccap :: nat
  cbuf :: "'a list"
  cclosed :: bool

definition make_chan :: "nat \<Rightarrow> 'a chan" where
  "make_chan n = \<lparr>ccap = n, cbuf = [], cclosed = False\<rparr>"

datatype 'r comm = Proceeds 'r | Blocks | CommPanics string

definition chan_send :: "'a \<Rightarrow> 'a chan option \<Rightarrow> 'a chan comm" where
  "chan_send x c =
     (case c of
        None \<Rightarrow> Blocks
      | Some c \<Rightarrow>
          if cclosed c then CommPanics ''send on closed channel''
          else if length (cbuf c) < ccap c then Proceeds (c\<lparr>cbuf := cbuf c @ [x]\<rparr>)
          else Blocks)"

text \<open>A receive yields the oldest value, or the zero value (\<open>None\<close>) of a drained closed channel.\<close>

definition chan_recv :: "'a chan option \<Rightarrow> ('a option \<times> 'a chan) comm" where
  "chan_recv c =
     (case c of
        None \<Rightarrow> Blocks
      | Some c \<Rightarrow>
          (case cbuf c of
             x # xs \<Rightarrow> Proceeds (Some x, c\<lparr>cbuf := xs\<rparr>)
           | [] \<Rightarrow> if cclosed c then Proceeds (None, c) else Blocks))"

definition chan_close :: "'a chan option \<Rightarrow> 'a chan outcome" where
  "chan_close c =
     (case c of
        None \<Rightarrow> Panic ''close of nil channel''
      | Some c \<Rightarrow>
          if cclosed c then Panic ''close of closed channel''
          else Return (c\<lparr>cclosed := True\<rparr>))"

definition chan_wf :: "'a chan \<Rightarrow> bool" where
  "chan_wf c \<longleftrightarrow> length (cbuf c) \<le> ccap c"

lemma make_chan_simps [simp]:
  "ccap (make_chan n) = n" "cbuf (make_chan n) = []" "\<not> cclosed (make_chan n)"
  by (simp_all add: make_chan_def)

lemma make_chan_wf [inv_intros]: "chan_wf (make_chan n)"
  by (simp add: chan_wf_def)

lemma chan_send_wf [inv_intros]: "chan_send x c = Proceeds c' \<Longrightarrow> chan_wf c'"
  by (auto simp: chan_send_def chan_wf_def split: option.splits if_splits)

lemma chan_recv_wf [inv_intros]: "chan_wf c \<Longrightarrow> chan_recv (Some c) = Proceeds (v, c') \<Longrightarrow> chan_wf c'"
  by (auto simp: chan_recv_def chan_wf_def split: list.splits if_splits)

text \<open>A value that was sent into an empty open channel is the one received next.\<close>

lemma chan_send_recv:
  "cbuf c = [] \<Longrightarrow> chan_send x (Some c) = Proceeds c' \<Longrightarrow> chan_recv (Some c') = Proceeds (Some x, c)"
  by (cases c) (auto simp: chan_send_def chan_recv_def split: if_splits)

end
