(* ===== verification/Ring_Buffer.thy ===== *)
theory Ring_Buffer
  imports Prelude
begin

text \<open>
  The contract of a rolling buffer: a bounded sequence in which a new item pushes out the
  oldest ones. Two parts of the daemon keep such a buffer, the sink channels through which
  console lines reach the websockets, and the console history of the Windows backend; both
  interpret this locale, and what the readers rely on is proved once here.
\<close>

locale ring_buffer =
  fixes put :: "'a \<Rightarrow> 'b \<Rightarrow> 'b"
    and contents :: "'b \<Rightarrow> 'a list"
    and room :: "'b \<Rightarrow> nat"
    and rinv :: "'b \<Rightarrow> bool"
  assumes contents_put: "rinv b \<Longrightarrow> contents (put x b) = last_n (room b) (contents b @ [x])"
    and room_put: "rinv b \<Longrightarrow> room (put x b) = room b"
    and rinv_put: "rinv b \<Longrightarrow> rinv (put x b)"
    and room_pos: "rinv b \<Longrightarrow> 0 < room b"
    and contents_room: "rinv b \<Longrightarrow> length (contents b) \<le> room b"
begin

lemma rinv_puts: "rinv b \<Longrightarrow> rinv (fold put xs b)"
  by (induction xs arbitrary: b) (simp_all add: rinv_put)

lemma room_puts: "rinv b \<Longrightarrow> room (fold put xs b) = room b"
  by (induction xs arbitrary: b) (simp_all add: rinv_put room_put)

text \<open>After any number of puts the buffer holds the most recent items, in order.\<close>

lemma contents_puts: "rinv b \<Longrightarrow> contents (fold put xs b) = last_n (room b) (contents b @ xs)"
proof (induction xs rule: rev_induct)
  case Nil
  then show ?case by (simp add: contents_room)
next
  case (snoc x xs)
  let ?b = "fold put xs b"
  have "contents (put x ?b) = last_n (room b) (contents ?b @ [x])"
    by (simp add: contents_put rinv_puts room_puts snoc.prems)
  also have "contents ?b = last_n (room b) (contents b @ xs)"
    using snoc.IH snoc.prems by simp
  finally show ?case by (simp add: last_n_snoc room_pos snoc.prems)
qed

lemma newest_kept: "rinv b \<Longrightarrow> xs \<noteq> [] \<Longrightarrow> last (contents (fold put xs b)) = last xs"
  using room_pos [of b] by (simp add: contents_puts last_last_n)

end

end
