(* ===== verification/Sink_Pool.thy ===== *)
theory Sink_Pool
  imports Channel Ring_Buffer
begin

text \<open>
  \<^verbatim>\<open>system/sink_pool.go\<close> and the event bus of \<^verbatim>\<open>events/events.go\<close> on top of it. Channels
  live in a store indexed by an identity, since the same channel can be registered in a pool
  and held by its reader; a registered nil channel is \<open>None\<close>.

  \<^verbatim>\<open>Push\<close> starts one goroutine per sink and waits for all of them; \<open>push_one\<close> is the body of
  such a goroutine. Its argument says whether the reader of the channel takes a value during
  the ten milliseconds the goroutine waits; the values handed to the reader are returned.
\<close>

type_synonym bytes = string
type_synonym chan_store = "nat \<rightharpoonup> bytes chan"

record pool =
  sinks :: "nat option list"

definition NewSinkPool :: pool where
  "NewSinkPool = \<lparr>sinks = []\<rparr>"

definition On :: "nat option \<Rightarrow> pool \<Rightarrow> pool" where
  "On c p = p\<lparr>sinks := sinks p @ [c]\<rparr>"

definition close_sink :: "nat option \<Rightarrow> chan_store \<Rightarrow> chan_store outcome" where
  "close_sink c m =
     (case c of
        None \<Rightarrow> Return m
      | Some i \<Rightarrow> (case chan_close (m i) of Return k \<Rightarrow> Return (m(i \<mapsto> k)) | Panic e \<Rightarrow> Panic e))"

text \<open>The scan of \<^verbatim>\<open>Off\<close>: the first matching sink is cut out, keeping the order of the others.\<close>

fun off_from :: "nat option \<Rightarrow> nat option list \<Rightarrow> nat option list \<Rightarrow> nat option list option" where
  "off_from c seen [] = None"
| "off_from c seen (s # rest) = (if c \<noteq> s then off_from c (seen @ [s]) rest else Some (seen @ rest))"

definition Off :: "nat option \<Rightarrow> pool \<Rightarrow> chan_store \<Rightarrow> (pool \<times> chan_store) outcome" where
  "Off c p m =
     (case off_from c [] (sinks p) of
        None \<Rightarrow> Return (p, m)
      | Some ss \<Rightarrow> on_return (\<lambda>m'. Return (p\<lparr>sinks := ss\<rparr>, m')) (close_sink c m))"

fun close_all :: "nat option list \<Rightarrow> chan_store \<Rightarrow> chan_store outcome" where
  "close_all [] m = Return m"
| "close_all (c # cs) m = on_return (close_all cs) (close_sink c m)"

definition Destroy_pool :: "pool \<Rightarrow> chan_store \<Rightarrow> (pool \<times> chan_store) outcome" where
  "Destroy_pool p m = on_return (\<lambda>m'. Return (p\<lparr>sinks := []\<rparr>, m')) (close_all (sinks p) m)"

definition push_one :: "bool \<Rightarrow> 'a \<Rightarrow> 'a chan option \<Rightarrow> ('a list \<times> 'a chan option) outcome" where
  "push_one reader data c =
     (case chan_send data c of
        Proceeds k \<Rightarrow> Return ([], Some k)
      | CommPanics e \<Rightarrow> Panic e
      | Blocks \<Rightarrow>
          (case c of
             None \<Rightarrow> Return ([], None)
           | Some k \<Rightarrow>
               if reader
               then (case cbuf k of
                       [] \<Rightarrow> Return ([data], Some k)
                     | x # xs \<Rightarrow> Return ([x], Some (k\<lparr>cbuf := xs @ [data]\<rparr>)))
               else (case chan_recv (Some k) of
                       Proceeds (_, k') \<Rightarrow>
                         (case chan_send data (Some k') of
                            Proceeds k'' \<Rightarrow> Return ([], Some k'')
                          | CommPanics e \<Rightarrow> Panic e
                          | Blocks \<Rightarrow> Return ([], Some k'))
                     | CommPanics e \<Rightarrow> Panic e
                     | Blocks \<Rightarrow> Return ([], Some k))))"

definition push_sink :: "(nat \<Rightarrow> bool) \<Rightarrow> bytes \<Rightarrow> nat option \<Rightarrow> chan_store \<Rightarrow> chan_store outcome" where
  "push_sink reader data c m =
     (case c of
        None \<Rightarrow> Return m
      | Some i \<Rightarrow> on_return (\<lambda>(_, k). Return (m(i := k))) (push_one (reader i) data (m i)))"

fun push_all :: "(nat \<Rightarrow> bool) \<Rightarrow> bytes \<Rightarrow> nat option list \<Rightarrow> chan_store \<Rightarrow> chan_store outcome" where
  "push_all reader data [] m = Return m"
| "push_all reader data (c # cs) m = on_return (push_all reader data cs) (push_sink reader data c m)"

definition Push :: "(nat \<Rightarrow> bool) \<Rightarrow> bytes \<Rightarrow> pool \<Rightarrow> chan_store \<Rightarrow> chan_store outcome" where
  "Push reader data p m = push_all reader data (sinks p) m"

section \<open>The invariant of a pool\<close>

text \<open>Every registered channel is allocated, open, not over-full, and registered once.\<close>

definition open_chan :: "chan_store \<Rightarrow> nat \<Rightarrow> bool" where
  "open_chan m i \<longleftrightarrow> (\<exists>k. m i = Some k \<and> \<not> cclosed k \<and> chan_wf k)"

definition pool_inv :: "pool \<Rightarrow> chan_store \<Rightarrow> bool" where
  "pool_inv p m \<longleftrightarrow> distinct (sinks p) \<and> (\<forall>i. Some i \<in> set (sinks p) \<longrightarrow> open_chan m i)"

lemma NewSinkPool_inv [inv_intros]: "pool_inv NewSinkPool m"
  by (simp add: pool_inv_def NewSinkPool_def)

lemma On_inv [inv_intros]:
  "pool_inv p m \<Longrightarrow> open_chan m i \<Longrightarrow> Some i \<notin> set (sinks p) \<Longrightarrow> pool_inv (On (Some i) p) m"
  by (auto simp: pool_inv_def On_def)

lemma off_from_eq:
  "off_from c seen xs = (if c \<in> set xs then Some (seen @ remove1 c xs) else None)"
  by (induction c seen xs rule: off_from.induct) auto

lemma close_sink_open:
  "open_chan m i \<Longrightarrow>
   \<exists>k. m i = Some k \<and> close_sink (Some i) m = Return (m(i \<mapsto> k\<lparr>cclosed := True\<rparr>))"
  by (auto simp: open_chan_def close_sink_def chan_close_def)

lemma Off_spec:
  assumes "pool_inv p m" "Some i \<in> set (sinks p)"
  shows "\<exists>k. m i = Some k \<and>
    Off (Some i) p m = Return (p\<lparr>sinks := remove1 (Some i) (sinks p)\<rparr>, m(i \<mapsto> k\<lparr>cclosed := True\<rparr>))"
proof -
  have "open_chan m i" using assms by (simp add: pool_inv_def)
  then obtain k where "m i = Some k" "close_sink (Some i) m = Return (m(i \<mapsto> k\<lparr>cclosed := True\<rparr>))"
    using close_sink_open by blast
  with assms(2) show ?thesis by (simp add: Off_def off_from_eq)
qed

lemma Off_unknown: "c \<notin> set (sinks p) \<Longrightarrow> Off c p m = Return (p, m)"
  by (simp add: Off_def off_from_eq)

lemma Off_inv [inv_intros]:
  assumes "pool_inv p m" "Off (Some i) p m = Return (p', m')"
  shows "pool_inv p' m'"
proof (cases "Some i \<in> set (sinks p)")
  case True
  then obtain k where "p' = p\<lparr>sinks := remove1 (Some i) (sinks p)\<rparr>" "m' = m(i \<mapsto> k\<lparr>cclosed := True\<rparr>)"
    using Off_spec [OF assms(1) True] assms(2) by auto
  with assms(1) show ?thesis by (auto simp: pool_inv_def open_chan_def)
next
  case False
  then show ?thesis using assms by (simp add: Off_unknown)
qed

lemma close_all_open:
  assumes "distinct cs" "\<And>i. Some i \<in> set cs \<Longrightarrow> open_chan m i"
  shows "\<exists>m'. close_all cs m = Return m'
    \<and> (\<forall>i. m' i = (if Some i \<in> set cs then map_option (cclosed_update (\<lambda>_. True)) (m i) else m i))"
  using assms
proof (induction cs arbitrary: m)
  case (Cons c cs)
  show ?case
  proof (cases c)
    case None
    then show ?thesis using Cons.IH [of m] Cons.prems by (simp add: close_sink_def)
  next
    case (Some i)
    then obtain k where k: "m i = Some k" "close_sink (Some i) m = Return (m(i \<mapsto> k\<lparr>cclosed := True\<rparr>))"
      using close_sink_open [of m i] Cons.prems(2) by auto
    let ?m = "m(i \<mapsto> k\<lparr>cclosed := True\<rparr>)"
    have "open_chan ?m j" if "Some j \<in> set cs" for j
      using that Some Cons.prems by (auto simp: open_chan_def)
    moreover have "distinct cs" using Cons.prems(1) by simp
    ultimately obtain m' where m': "close_all cs ?m = Return m'"
      "\<forall>j. m' j = (if Some j \<in> set cs then map_option (cclosed_update (\<lambda>_. True)) (?m j) else ?m j)"
      using Cons.IH [of ?m] by blast
    show ?thesis using Some k m' Cons.prems(1) by auto
  qed
qed simp

section \<open>Pushing\<close>

lemma push_one_open:
  assumes "\<not> cclosed k" "chan_wf k"
  shows "\<exists>out k'. push_one r data (Some k) = Return (out, Some k') \<and> \<not> cclosed k' \<and> chan_wf k' \<and> ccap k' = ccap k"
  using assms
  by (auto simp: push_one_def chan_send_def chan_recv_def chan_wf_def split: list.splits)

text \<open>With no reader, a buffered channel is a rolling buffer.\<close>

definition push_quiet :: "'a \<Rightarrow> 'a chan \<Rightarrow> 'a chan" where
  "push_quiet data k = (case push_one False data (Some k) of Return (_, Some k') \<Rightarrow> k' | _ \<Rightarrow> k)"

definition sink_inv :: "'a chan \<Rightarrow> bool" where
  "sink_inv k \<longleftrightarrow> \<not> cclosed k \<and> chan_wf k \<and> 0 < ccap k"

lemma push_quiet_eq:
  assumes "sink_inv k"
  shows "push_quiet x k = k\<lparr>cbuf := last_n (ccap k) (cbuf k @ [x])\<rparr>"
proof (cases "length (cbuf k) < ccap k")
  case True
  then show ?thesis using assms
    by (simp add: push_quiet_def push_one_def chan_send_def sink_inv_def)
next
  case False
  with assms obtain y ys where "cbuf k = y # ys" "ccap k = Suc (length ys)"
    by (cases "cbuf k") (auto simp: sink_inv_def chan_wf_def)
  then show ?thesis using assms
    by (simp add: push_quiet_def push_one_def chan_send_def chan_recv_def sink_inv_def last_n_def)
qed

interpretation sink: ring_buffer push_quiet cbuf ccap sink_inv
  by unfold_locales
     (auto simp: push_quiet_eq sink_inv_def chan_wf_def last_n_length)

lemma push_one_quiet:
  "sink_inv k \<Longrightarrow> push_one False x (Some k) = Return ([], Some (push_quiet x k))"
  using push_one_open [of k False x]
  by (auto simp: push_quiet_def push_one_def sink_inv_def split: comm.splits list.splits)

lemma push_sink_other [simp]: "push_sink r d c m = Return m' \<Longrightarrow> c \<noteq> Some i \<Longrightarrow> m' i = m i"
  by (auto simp: push_sink_def split: option.splits)

lemma push_all_other: "push_all r d cs m = Return m' \<Longrightarrow> Some i \<notin> set cs \<Longrightarrow> m' i = m i"
  by (induction cs arbitrary: m) auto

lemma push_sink_open:
  assumes "\<And>i. c = Some i \<Longrightarrow> open_chan m i"
  shows "\<exists>m'. push_sink r d c m = Return m' \<and> (\<forall>i. open_chan m i \<longrightarrow> open_chan m' i)"
proof (cases c)
  case None
  then show ?thesis by (simp add: push_sink_def)
next
  case (Some i)
  with assms obtain k where k: "m i = Some k" "\<not> cclosed k" "chan_wf k" by (auto simp: open_chan_def)
  from push_one_open [OF k(2,3), of "r i" d]
  obtain out k' where "push_one (r i) d (Some k) = Return (out, Some k')" "\<not> cclosed k'" "chan_wf k'"
    by blast
  with Some k(1) show ?thesis by (auto simp: push_sink_def open_chan_def)
qed

lemma push_all_open:
  assumes "\<And>i. Some i \<in> set cs \<Longrightarrow> open_chan m i"
  shows "\<exists>m'. push_all r d cs m = Return m' \<and> (\<forall>i. open_chan m i \<longrightarrow> open_chan m' i)"
  using assms
proof (induction cs arbitrary: m)
  case (Cons c cs)
  from push_sink_open [of c m r d] Cons.prems
  obtain m1 where m1: "push_sink r d c m = Return m1" "\<forall>i. open_chan m i \<longrightarrow> open_chan m1 i" by auto
  then obtain m' where "push_all r d cs m1 = Return m'" "\<forall>i. open_chan m1 i \<longrightarrow> open_chan m' i"
    using Cons.IH [of m1] Cons.prems by auto
  with m1 show ?case by auto
qed simp

lemma Push_inv:
  assumes "pool_inv p m"
  shows "\<exists>m'. Push r d p m = Return m' \<and> pool_inv p m'"
  using assms push_all_open [of "sinks p" m r d] by (auto simp: Push_def pool_inv_def)

lemma push_all_quiet:
  assumes "push_all r d cs m = Return m'" "distinct cs" "Some i \<in> set cs" "\<not> r i" "m i = Some k" "sink_inv k"
  shows "m' i = Some (push_quiet d k)"
  using assms
proof (induction cs arbitrary: m)
  case (Cons c cs)
  then obtain m1 where m1: "push_sink r d c m = Return m1" "push_all r d cs m1 = Return m'" by auto
  show ?case
  proof (cases "c = Some i")
    case True
    then have "m1 i = Some (push_quiet d k)"
      using m1(1) Cons.prems by (auto simp: push_sink_def push_one_quiet)
    moreover have "Some i \<notin> set cs" using True Cons.prems(2) by auto
    ultimately show ?thesis using push_all_other [OF m1(2)] by simp
  next
    case False
    then show ?thesis using Cons.IH [OF m1(2)] Cons.prems m1(1) by auto
  qed
qed simp

text \<open>A sequence of pushes while the reader of channel \<open>i\<close> is stuck.\<close>

fun pushes :: "(nat \<Rightarrow> bool) \<Rightarrow> bytes list \<Rightarrow> pool \<Rightarrow> chan_store \<Rightarrow> chan_store outcome" where
  "pushes r [] p m = Return m"
| "pushes r (d # ds) p m = on_return (pushes r ds p) (Push r d p m)"

lemma pushes_return: "pool_inv p m \<Longrightarrow> \<exists>m'. pushes r ds p m = Return m' \<and> pool_inv p m'"
proof (induction ds arbitrary: m)
  case (Cons d ds)
  then obtain m1 where "Push r d p m = Return m1" "pool_inv p m1" using Push_inv by blast
  with Cons.IH [of m1] show ?case by auto
qed simp

lemma pushes_quiet:
  assumes "pushes r ds p m = Return m'" "pool_inv p m" "Some i \<in> set (sinks p)" "\<not> r i"
    "m i = Some k" "sink_inv k"
  shows "m' i = Some (fold push_quiet ds k)"
  using assms
proof (induction ds arbitrary: m k)
  case (Cons d ds)
  then obtain m1 where m1: "Push r d p m = Return m1" "pushes r ds p m1 = Return m'" by auto
  have "pool_inv p m1" using Push_inv [OF Cons.prems(2), of r d] m1(1) by auto
  moreover have "m1 i = Some (push_quiet d k)"
    using push_all_quiet [of r d "sinks p" m m1 i k] m1(1) Cons.prems by (simp add: Push_def pool_inv_def)
  moreover have "sink_inv (push_quiet d k)" using Cons.prems(6) by (rule sink.rinv_put)
  ultimately show ?case using Cons.IH [OF m1(2)] Cons.prems by simp
qed simp

section \<open>Properties\<close>

text \<open>Pushing to a pool never panics and never blocks for good; a sink whose reader is stuck
  keeps the most recent values, in order, as many as its channel has room for.\<close>

theorem sink_keeps_newest:
  assumes "pool_inv p m" "Some i \<in> set (sinks p)" "\<not> r i" "m i = Some k" "sink_inv k"
  shows "\<exists>m' k'. pushes r ds p m = Return m' \<and> m' i = Some k' \<and> cbuf k' = last_n (ccap k) (cbuf k @ ds)"
proof -
  obtain m' where m': "pushes r ds p m = Return m'" using pushes_return [OF assms(1)] by blast
  then have "m' i = Some (fold push_quiet ds k)" using pushes_quiet [of r ds p m m' i k] assms by simp
  with m' show ?thesis using sink.contents_puts [OF assms(5)] by auto
qed

theorem sink_keeps_newest_witness:
  "\<exists>m' k'. pushes (\<lambda>_. False) [''a'', ''b'', ''c''] (On (Some 7) NewSinkPool) [7 \<mapsto> make_chan 2] = Return m'
     \<and> m' 7 = Some k' \<and> cbuf k' = [''b'', ''c'']"
proof -
  let ?m = "[7 \<mapsto> make_chan 2] :: chan_store"
  have "open_chan ?m 7" by (simp add: open_chan_def make_chan_def chan_wf_def)
  then have "pool_inv (On (Some 7) NewSinkPool) ?m"
    by (intro On_inv NewSinkPool_inv) (simp_all add: NewSinkPool_def)
  from sink_keeps_newest [OF this, of 7 "\<lambda>_. False" "make_chan 2" "[''a'', ''b'', ''c'']"] show ?thesis
    by (simp add: On_def NewSinkPool_def sink_inv_def make_chan_def chan_wf_def last_n_def)
qed

text \<open>Destroying a pool closes every registered channel once, leaves all others as they are,
  and empties the pool.\<close>

theorem pool_destroy_closes:
  assumes "pool_inv p m"
  shows "\<exists>m'. Destroy_pool p m = Return (p\<lparr>sinks := []\<rparr>, m') \<and>
    m' = (\<lambda>i. if Some i \<in> set (sinks p) then map_option (cclosed_update (\<lambda>_. True)) (m i) else m i)"
  using assms close_all_open [of "sinks p" m] by (auto simp: pool_inv_def Destroy_pool_def intro!: ext)

theorem pool_destroy_closes_witness:
  "\<exists>m'. Destroy_pool (On (Some 7) NewSinkPool) [7 \<mapsto> make_chan 1, 8 \<mapsto> make_chan 1] = Return (NewSinkPool, m') \<and>
     m' = [7 \<mapsto> (make_chan 1)\<lparr>cclosed := True\<rparr>, 8 \<mapsto> make_chan 1]"
proof -
  let ?m = "[7 \<mapsto> make_chan 1, 8 \<mapsto> make_chan 1] :: chan_store"
  have "open_chan ?m 7" by (simp add: open_chan_def make_chan_def chan_wf_def)
  then have "pool_inv (On (Some 7) NewSinkPool) ?m"
    by (intro On_inv NewSinkPool_inv) (simp_all add: NewSinkPool_def)
  from pool_destroy_closes [OF this] show ?thesis
    by (auto simp: On_def NewSinkPool_def intro!: ext)
qed

end
