(* ===== verification/Go_Strings.thy ===== *)
theory Go_Strings
  imports Prelude
begin

text \<open>
  The functions of Go's \<^verbatim>\<open>strings\<close>, \<^verbatim>\<open>strconv\<close> and \<^verbatim>\<open>path/filepath\<close> packages (Unix rules)
  that the daemon calls. A string is its list of bytes; the case mappings act on ASCII letters.
\<close>

section \<open>Prefixes, suffixes, searching\<close>

definition HasPrefix :: "string \<Rightarrow> string \<Rightarrow> bool" where
  "HasPrefix s p \<longleftrightarrow> take (length p) s = p"

definition HasSuffix :: "string \<Rightarrow> string \<Rightarrow> bool" where
  "HasSuffix s p \<longleftrightarrow> length p \<le> length s \<and> drop (length s - length p) s = p"

definition TrimPrefix :: "string \<Rightarrow> string \<Rightarrow> string" where
  "TrimPrefix s p = (if HasPrefix s p then drop (length p) s else s)"

definition TrimSuffix :: "string \<Rightarrow> string \<Rightarrow> string" where
  "TrimSuffix s p = (if HasSuffix s p then take (length s - length p) s else s)"

fun Contains :: "string \<Rightarrow> string \<Rightarrow> bool" where
  "Contains [] t \<longleftrightarrow> t = []"
| "Contains (c # s) t \<longleftrightarrow> HasPrefix (c # s) t \<or> Contains s t"

fun IndexByte :: "string \<Rightarrow> char \<Rightarrow> nat option" where
  "IndexByte [] c = None"
| "IndexByte (x # xs) c = (if x = c then Some 0 else map_option Suc (IndexByte xs c))"

fun Split :: "string \<Rightarrow> char \<Rightarrow> string list" where
  "Split [] c = [[]]"
| "Split (x # xs) c =
     (if x = c then [] # Split xs c
      else (case Split xs c of w # ws \<Rightarrow> (x # w) # ws | [] \<Rightarrow> [[x]]))"

fun Join :: "string list \<Rightarrow> string \<Rightarrow> string" where
  "Join [] sep = []"
| "Join [w] sep = w"
| "Join (w # v # ws) sep = w @ sep @ Join (v # ws) sep"

lemma HasPrefix_iff: "HasPrefix s p \<longleftrightarrow> (\<exists>t. s = p @ t)"
  by (metis HasPrefix_def append_eq_conv_conj append_take_drop_id)

lemma Contains_iff: "Contains s t \<longleftrightarrow> (\<exists>a b. s = a @ t @ b)"
proof (induction s)
  case (Cons c s)
  have "(\<exists>a b. c # s = a @ t @ b) \<longleftrightarrow> (\<exists>b. c # s = t @ b) \<or> (\<exists>a b. s = a @ t @ b)"
    by (metis append_Cons append_Nil list.exhaust list.inject)
  with Cons show ?case by (auto simp: HasPrefix_iff)
qed simp

lemma HasPrefix_append [simp]: "HasPrefix (p @ t) p"
  by (simp add: HasPrefix_def)

lemma TrimPrefix_append [simp]: "TrimPrefix (p @ t) p = t"
  by (simp add: TrimPrefix_def)

lemma TrimPrefix_not [simp]: "\<not> HasPrefix s p \<Longrightarrow> TrimPrefix s p = s"
  by (simp add: TrimPrefix_def)

lemma HasSuffix_iff: "HasSuffix s p \<longleftrightarrow> (\<exists>t. s = t @ p)"
  by (auto simp: HasSuffix_def) (metis append_take_drop_id)

lemma TrimSuffix_append [simp]: "TrimSuffix (t @ p) p = t"
  by (simp add: TrimSuffix_def HasSuffix_def)

lemma TrimSuffix_not [simp]: "\<not> HasSuffix s p \<Longrightarrow> TrimSuffix s p = s"
  by (simp add: TrimSuffix_def)

lemma HasSuffix_char: "HasSuffix s [c] \<longleftrightarrow> s \<noteq> [] \<and> last s = c"
  by (metis HasSuffix_iff append_butlast_last_id last_snoc snoc_eq_iff_butlast)

lemma IndexByte_None: "IndexByte s c = None \<longleftrightarrow> c \<notin> set s"
  by (induction s) auto

lemma IndexByte_Some:
  "IndexByte s c = Some i \<Longrightarrow> s = take i s @ c # drop (Suc i) s \<and> c \<notin> set (take i s)"
  by (induction s arbitrary: i) (auto split: if_splits)

lemma Split_nonempty [simp]: "Split s c \<noteq> []"
  by (induction s) (auto split: list.splits)

lemma Split_no_sep: "w \<in> set (Split s c) \<Longrightarrow> c \<notin> set w"
  by (induction s arbitrary: w) (fastforce split: list.splits if_splits)+

lemma Split_plain: "c \<notin> set s \<Longrightarrow> Split s c = [s]"
  by (induction s) auto

lemma Split_append: "Split (p @ c # q) c = Split p c @ Split q c"
  by (induction p) (auto split: list.splits)

lemma Split_append_sep: "c \<notin> set w \<Longrightarrow> Split (w @ c # s) c = w # Split s c"
  by (induction w) auto

lemma Join_Cons: "ws \<noteq> [] \<Longrightarrow> Join (w # ws) sep = w @ sep @ Join ws sep"
  by (cases ws) auto

lemma Join_append: "xs \<noteq> [] \<Longrightarrow> ys \<noteq> [] \<Longrightarrow> Join (xs @ ys) sep = Join xs sep @ sep @ Join ys sep"
proof (induction xs)
  case (Cons x xs)
  then show ?case by (cases xs) (auto simp: Join_Cons)
qed simp

text \<open>Joining and splitting are inverse as long as no word contains the separator.\<close>

lemma Split_Join:
  assumes "ws \<noteq> []" "\<And>w. w \<in> set ws \<Longrightarrow> c \<notin> set w"
  shows "Split (Join ws [c]) c = ws"
  using assms
proof (induction ws)
  case (Cons w ws)
  then show ?case by (cases ws) (auto simp: Split_plain Split_append_sep)
qed simp

lemma Join_Split: "Join (Split s c) [c] = s"
proof (induction s)
  case (Cons x xs)
  then show ?case
    by (cases "Split xs c") (auto simp: Join_Cons, (cases "tl (Split xs c)"; auto)+)
qed simp

section \<open>Case, blanks and numbers\<close>

definition upper_char :: "char \<Rightarrow> char" where
  "upper_char c = (let n = (of_char c :: nat) in if 97 \<le> n \<and> n \<le> 122 then char_of (n - 32) else c)"

definition lower_char :: "char \<Rightarrow> char" where
  "lower_char c = (let n = (of_char c :: nat) in if 65 \<le> n \<and> n \<le> 90 then char_of (n + 32) else c)"

definition ToUpper :: "string \<Rightarrow> string" where
  "ToUpper s = map upper_char s"

definition ToLower :: "string \<Rightarrow> string" where
  "ToLower s = map lower_char s"

definition is_space :: "char \<Rightarrow> bool" where
  "is_space c \<longleftrightarrow> (let n = (of_char c :: nat) in n = 32 \<or> 9 \<le> n \<and> n \<le> 13)"

definition TrimSpace :: "string \<Rightarrow> string" where
  "TrimSpace s = rev (dropWhile is_space (rev (dropWhile is_space s)))"

fun nat_digits :: "nat \<Rightarrow> string" where
  "nat_digits n =
     (if n < 10 then [char_of (n + 48)] else nat_digits (n div 10) @ [char_of (n mod 10 + 48)])"

declare nat_digits.simps [simp del]

definition Itoa :: "int \<Rightarrow> string" where
  "Itoa i = (if i < 0 then CHR ''-'' # nat_digits (nat (- i)) else nat_digits (nat i))"

text \<open>
  \<^verbatim>\<open>strconv.Atoi\<close>: the number a string of digits with an optional sign stands for, and the value it returns: zero
  when there is no number, the nearest 64-bit integer when it is out of range.
\<close>

fun digits_value :: "string \<Rightarrow> int \<Rightarrow> int option" where
  "digits_value [] n = Some n"
| "digits_value (c # cs) n =
     (let d = int (of_char c) - 48 in if 0 \<le> d \<and> d \<le> 9 then digits_value cs (n * 10 + d) else None)"

definition parse_int :: "string \<Rightarrow> int option" where
  "parse_int s =
     (let neg = HasPrefix s ''-''; ds = (if neg \<or> HasPrefix s ''+'' then tl s else s)
      in if ds = [] then None else map_option (\<lambda>n. if neg then - n else n) (digits_value ds 0))"

definition Atoi :: "string \<Rightarrow> int" where
  "Atoi s = (case parse_int s of None \<Rightarrow> 0 | Some n \<Rightarrow> max (- (2 ^ 63)) (min (2 ^ 63 - 1) n))"

lemma ToUpper_append [simp]: "ToUpper (xs @ ys) = ToUpper xs @ ToUpper ys"
  by (simp add: ToUpper_def)

lemma nat_digits_nonempty [simp]: "nat_digits n \<noteq> []"
  by (subst nat_digits.simps) simp

lemma digit_char_neq: "d < 10 \<Longrightarrow> c \<notin> set ''0123456789'' \<Longrightarrow> (char_of (d + 48 :: nat) :: char) \<noteq> c"
proof -
  assume "d < 10" and c: "c \<notin> set ''0123456789''"
  then have "d \<in> {0,1,2,3,4,5,6,7,8,9}" by auto
  then have "(char_of (d + 48 :: nat) :: char) \<in> set ''0123456789''"
    by (elim insertE) (auto simp: char_of_def bit_Suc_0_iff)
  with c show ?thesis by auto
qed

lemma nat_digits_no: "c \<notin> set ''0123456789'' \<Longrightarrow> c \<notin> set (nat_digits n)"
proof (induction n rule: nat_digits.induct)
  case (1 n)
  note IH = "1.IH" and c = "1.prems"
  show ?case
  proof (cases "n < 10")
    case True
    then have "nat_digits n = [char_of (n + 48)]" by (subst nat_digits.simps) simp
    then show ?thesis using digit_char_neq [OF True c] by auto
  next
    case False
    then have "nat_digits n = nat_digits (n div 10) @ [char_of (n mod 10 + 48)]"
      by (subst nat_digits.simps) simp
    then show ?thesis using IH [OF False c] digit_char_neq [of "n mod 10", OF _ c] by auto
  qed
qed

section \<open>Lexical path processing\<close>

text \<open>
  \<^verbatim>\<open>filepath.Clean\<close>: the components of the path are pushed on a stack (kept reversed), empty
  and dot components are skipped, and a dot-dot pops a component that is not itself dot-dot; a
  dot-dot with nothing to pop is dropped in a rooted path and kept otherwise.
\<close>

definition clean_step :: "bool \<Rightarrow> string \<Rightarrow> string list \<Rightarrow> string list" where
  "clean_step rooted c st =
     (if c = [] \<or> c = ''.'' then st
      else if c = ''..''
      then (case st of
              t # ts \<Rightarrow> if t = ''..'' then c # st else ts
            | [] \<Rightarrow> if rooted then [] else [c])
      else c # st)"

definition clean_comps :: "bool \<Rightarrow> string list \<Rightarrow> string list" where
  "clean_comps rooted cs = rev (fold (clean_step rooted) cs [])"

definition rooted :: "string \<Rightarrow> bool" where
  "rooted p \<longleftrightarrow> p \<noteq> [] \<and> hd p = CHR ''/''"

definition Clean :: "string \<Rightarrow> string" where
  "Clean p =
     (let r = rooted p; cs = clean_comps r (Split p (CHR ''/''))
      in if r then CHR ''/'' # Join cs ''/''
         else if cs = [] then ''.'' else Join cs ''/'')"

definition path_Join :: "string list \<Rightarrow> string" where
  "path_Join es =
     (let ne = filter (\<lambda>e. e \<noteq> []) es in if ne = [] then [] else Clean (Join ne ''/''))"

text \<open>\<^verbatim>\<open>filepath.Split\<close> cuts after the last slash.\<close>

definition path_Split :: "string \<Rightarrow> string \<times> string" where
  "path_Split p =
     (let base = rev (takeWhile (\<lambda>c. c \<noteq> CHR ''/'') (rev p))
      in (take (length p - length base) p, base))"

text \<open>A proper component names an entry of a directory.\<close>

definition proper :: "string \<Rightarrow> bool" where
  "proper c \<longleftrightarrow> c \<noteq> [] \<and> c \<noteq> ''.'' \<and> c \<noteq> ''..'' \<and> CHR ''/'' \<notin> set c"

text \<open>The rooted path with these components, and the same with a slash behind every component.\<close>

definition render :: "string list \<Rightarrow> string" where
  "render cs = CHR ''/'' # Join cs ''/''"

definition slashed :: "string list \<Rightarrow> string" where
  "slashed cs = concat (map (\<lambda>c. c @ ''/'') cs)"

lemma proper_no_slash: "proper c \<Longrightarrow> CHR ''/'' \<notin> set c"
  by (simp add: proper_def)

lemma clean_step_proper:
  assumes "list_all proper st" "CHR ''/'' \<notin> set c"
  shows "list_all proper (clean_step True c st)"
  using assms by (auto simp: clean_step_def proper_def split: list.splits)

lemma fold_clean_step_proper:
  assumes "list_all proper st" "\<And>c. c \<in> set cs \<Longrightarrow> CHR ''/'' \<notin> set c"
  shows "list_all proper (fold (clean_step True) cs st)"
  using assms by (induction cs arbitrary: st) (auto simp: clean_step_proper)

lemma clean_comps_proper:
  assumes "\<And>c. c \<in> set cs \<Longrightarrow> CHR ''/'' \<notin> set c"
  shows "list_all proper (clean_comps True cs)"
  using fold_clean_step_proper [of "[]" cs] assms by (simp add: clean_comps_def list_all_iff)

lemma fold_clean_step_id:
  "list_all proper cs \<Longrightarrow> fold (clean_step True) cs st = rev cs @ st"
  by (induction cs arbitrary: st) (auto simp: clean_step_def proper_def)

lemma Clean_rooted:
  assumes "rooted p"
  shows "Clean p = render (clean_comps True (Split p (CHR ''/'')))"
    and "list_all proper (clean_comps True (Split p (CHR ''/'')))"
  using assms clean_comps_proper [OF Split_no_sep] by (simp_all add: Clean_def render_def)

lemma Split_render:
  assumes "list_all proper cs" "cs \<noteq> []"
  shows "Split (render cs @ CHR ''/'' # s) (CHR ''/'') = [] # cs @ Split s (CHR ''/'')"
  using assms
proof (induction cs)
  case (Cons c cs)
  then show ?case
    by (cases cs) (auto simp: render_def Split_append_sep proper_no_slash)
qed simp

lemma cut_unique:
  "x \<notin> set a \<Longrightarrow> x \<notin> set b \<Longrightarrow> a @ x # u = b @ x # v \<longleftrightarrow> a = b \<and> u = v"
proof (induction a arbitrary: b)
  case Nil
  then show ?case by (cases b) auto
next
  case (Cons y a)
  then show ?case by (cases b) auto
qed

lemma slashed_append: "slashed (xs @ ys) = slashed xs @ slashed ys"
  by (simp add: slashed_def)

lemma Join_slashed: "cs \<noteq> [] \<Longrightarrow> Join cs ''/'' @ ''/'' = slashed cs"
  by (induction cs) (auto simp: slashed_def Join_Cons split: list.splits, (case_tac cs; simp)+)

lemma slashed_prefix:
  assumes "list_all proper bs" "list_all proper cs" "slashed cs = slashed bs @ t"
  shows "\<exists>ds. cs = bs @ ds \<and> t = slashed ds"
  using assms
proof (induction bs arbitrary: cs)
  case Nil
  then show ?case by (simp add: slashed_def)
next
  case (Cons b bs)
  obtain c cs' where cs: "cs = c # cs'"
    using Cons.prems(3) by (cases cs) (auto simp: slashed_def)
  have "c @ CHR ''/'' # slashed cs' = b @ CHR ''/'' # (slashed bs @ t)"
    using Cons.prems(3) by (simp add: cs slashed_def)
  moreover have "CHR ''/'' \<notin> set c" "CHR ''/'' \<notin> set b"
    using Cons.prems(1,2) by (auto simp: cs proper_no_slash)
  ultimately have "c = b" "slashed cs' = slashed bs @ t"
    by (simp_all add: cut_unique)
  then show ?case using Cons.IH [of cs'] Cons.prems(1,2) by (auto simp: cs)
qed

end
