(* ===== verification/Safe_Path.thy ===== *)
theory Safe_Path
  imports Go_Strings
begin

text \<open>
  The lexical part of the path sandbox of \<^verbatim>\<open>internal/ufs\<close>: the helpers of \<^verbatim>\<open>path_unix.go\<close>,
  the errors of \<^verbatim>\<open>error.go\<close> and \<^verbatim>\<open>errors_unix.go\<close>, and \<^verbatim>\<open>unsafePath\<close> of \<^verbatim>\<open>fs_unix.go\<close>,
  which cleans a requested path and rejects it when it leads out of the base directory.
\<close>

section \<open>Lexical helpers\<close>

fun strip_trailing :: "string \<Rightarrow> string" where
  "strip_trailing p = (if length p > 1 \<and> last p = CHR ''/'' then strip_trailing (butlast p) else p)"

declare strip_trailing.simps [simp del]

fun strip_leading :: "string \<Rightarrow> string" where
  "strip_leading (x # y # p) = (if x = CHR ''/'' \<and> y = CHR ''/'' then strip_leading (y # p) else x # y # p)"
| "strip_leading p = p"

text \<open>The index of the last slash, the backward scan of the loops.\<close>

fun last_slash :: "string \<Rightarrow> nat option" where
  "last_slash [] = None"
| "last_slash (x # xs) =
     (case last_slash xs of
        Some i \<Rightarrow> Some (Suc i)
      | None \<Rightarrow> if x = CHR ''/'' then Some 0 else None)"

definition basename :: "string \<Rightarrow> string" where
  "basename name =
     (let n = strip_trailing name
      in (case last_slash (butlast n) of None \<Rightarrow> n | Some i \<Rightarrow> drop (Suc i) n))"

definition endsWithDot :: "string \<Rightarrow> bool" where
  "endsWithDot path \<longleftrightarrow>
     path = ''.'' \<or>
     (length path \<ge> 2 \<and> path ! (length path - 1) = CHR ''.'' \<and> path ! (length path - 2) = CHR ''/'')"

definition splitPath :: "string \<Rightarrow> string \<times> string" where
  "splitPath path =
     (let p = strip_trailing (strip_leading path)
      in (case last_slash (butlast p) of
            None \<Rightarrow> (''.'', p)
          | Some i \<Rightarrow> (if i = 0 then take 1 p else take i p, drop (Suc i) p)))"

section \<open>The sandbox\<close>

text \<open>
  Errors. An \<^verbatim>\<open>errno\<close> of the kernel, the causes a path error carries after conversion, and the
  error values of the package: a path error, a link error, a bare errno, and the wrapped error
  of a failed symlink evaluation. \<open>as_path_error\<close> is \<^verbatim>\<open>errors.As\<close> for path errors and
  \<open>is_not_exist\<close> is \<^verbatim>\<open>errors.Is\<close> for \<^verbatim>\<open>ErrNotExist\<close>.
\<close>

datatype errno =
  EEXIST | EISDIR | ENOTDIR | ENOENT | EPERM | EACCES | EXDEV | ELOOP | EINVAL | EINTR | EAGAIN | EOther nat

datatype cause =
  ErrExist | ErrIsDirectory | ErrNotDirectory | ErrNotExist | ErrPermission | ErrBadPathResolution
| Errno errno

datatype fs_error =
  PathError (eop: string) (epath: string) (ecause: cause)
| LinkError string string string errno
| BareErrno errno
| EvalSymlinkError fs_error

definition errnoToPathError :: "errno \<Rightarrow> string \<Rightarrow> string \<Rightarrow> fs_error" where
  "errnoToPathError e op path =
     PathError op path
       (case e of
          EEXIST \<Rightarrow> ErrExist
        | EISDIR \<Rightarrow> ErrIsDirectory
        | ENOTDIR \<Rightarrow> ErrNotDirectory
        | ENOENT \<Rightarrow> ErrNotExist
        | EPERM \<Rightarrow> ErrPermission
        | EXDEV \<Rightarrow> ErrBadPathResolution
        | ELOOP \<Rightarrow> ErrBadPathResolution
        | _ \<Rightarrow> Errno e)"

fun as_path_error :: "fs_error \<Rightarrow> (string \<times> string \<times> cause) option" where
  "as_path_error (PathError op path c) = Some (op, path, c)"
| "as_path_error (EvalSymlinkError e) = as_path_error e"
| "as_path_error _ = None"

fun as_errno :: "fs_error \<Rightarrow> errno option" where
  "as_errno (PathError _ _ (Errno e)) = Some e"
| "as_errno (LinkError _ _ _ e) = Some e"
| "as_errno (BareErrno e) = Some e"
| "as_errno (EvalSymlinkError e) = as_errno e"
| "as_errno _ = None"

fun is_not_exist :: "fs_error \<Rightarrow> bool" where
  "is_not_exist (PathError _ _ c) \<longleftrightarrow> c = ErrNotExist \<or> c = Errno ENOENT"
| "is_not_exist (LinkError _ _ _ e) \<longleftrightarrow> e = ENOENT"
| "is_not_exist (BareErrno e) \<longleftrightarrow> e = ENOENT"
| "is_not_exist (EvalSymlinkError e) \<longleftrightarrow> is_not_exist e"

definition convertErrorType :: "fs_error \<Rightarrow> fs_error" where
  "convertErrorType err =
     (case as_path_error err of
        Some (op, path, Errno e) \<Rightarrow> errnoToPathError e op path
      | Some (op, path, c) \<Rightarrow> PathError op path c
      | None \<Rightarrow>
          (case as_errno err of
             Some e \<Rightarrow> PathError ''!(UNKNOWN)'' ''!(UNKNOWN)'' (Errno e)
           | None \<Rightarrow> err))"

definition ensurePathError :: "fs_error \<Rightarrow> string \<Rightarrow> string \<Rightarrow> fs_error" where
  "ensurePathError err op path =
     (case as_path_error err of
        Some (op', path', Errno e) \<Rightarrow> errnoToPathError e op' path'
      | Some (op', path', c) \<Rightarrow> PathError op' path' c
      | None \<Rightarrow>
          (case as_errno err of
             Some e \<Rightarrow> errnoToPathError e op path
           | None \<Rightarrow> err))"

text \<open>Every error that is not already a path error becomes one: no value of the model is left over.\<close>

lemma as_errno_total: "as_path_error e = None \<Longrightarrow> as_errno e \<noteq> None"
  by (induction e rule: as_path_error.induct) auto

lemma errnoToPathError_path [simp]:
  "\<exists>c. errnoToPathError e op path = PathError op path c"
  by (simp add: errnoToPathError_def)

lemma ensurePathError_path: "\<exists>op' path' c. ensurePathError e op path = PathError op' path' c"
  using as_errno_total [of e]
  by (auto simp: ensurePathError_def errnoToPathError_def split: option.splits cause.splits)

lemma ensurePathError_not_exist [simp]:
  "is_not_exist (ensurePathError e op path) \<longleftrightarrow> is_not_exist e"
proof (induction e)
  case (PathError op' path' c)
  then show ?case
    by (cases c) (auto simp: ensurePathError_def errnoToPathError_def split: errno.splits)
next
  case (EvalSymlinkError e)
  then show ?case
    using as_errno_total [of e]
    by (cases "as_path_error e"; cases "as_errno e") (auto simp: ensurePathError_def)
qed (auto simp: ensurePathError_def errnoToPathError_def split: errno.splits)

record unixfs =
  basePath :: string
  useOpenat2 :: bool

definition NewUnixFS :: "string \<Rightarrow> bool \<Rightarrow> unixfs" where
  "NewUnixFS base openat2 = \<lparr>basePath = TrimSuffix base ''/'', useOpenat2 = openat2\<rparr>"

definition unsafeIsPathInsideOfBase :: "unixfs \<Rightarrow> string \<Rightarrow> bool" where
  "unsafeIsPathInsideOfBase fs path \<longleftrightarrow> HasPrefix (TrimSuffix path ''/'' @ ''/'') (basePath fs @ ''/'')"

definition unsafePath :: "unixfs \<Rightarrow> string \<Rightarrow> fs_error + string" where
  "unsafePath fs path =
     (let r = Clean (path_Join [basePath fs, TrimPrefix path (basePath fs)])
      in if unsafeIsPathInsideOfBase fs r
         then (let r = TrimPrefix (TrimPrefix r (basePath fs)) ''/''
               in if r = [] then Inr ''.'' else Inr r)
         else Inl (PathError ''safePath'' path ErrBadPathResolution))"

section \<open>Containment\<close>

text \<open>A base path as the daemon configures it: rooted, clean and not the root directory itself.\<close>

definition base_ok :: "unixfs \<Rightarrow> string list \<Rightarrow> bool" where
  "base_ok fs bs \<longleftrightarrow> basePath fs = render bs \<and> list_all proper bs \<and> bs \<noteq> []"

lemma proper_last: "proper c \<Longrightarrow> c \<noteq> [] \<and> last c \<noteq> CHR ''/''"
  using last_in_set [of c] by (metis proper_def)

lemma last_Join_proper: "cs \<noteq> [] \<Longrightarrow> list_all proper cs \<Longrightarrow> Join cs ''/'' \<noteq> [] \<and> last (Join cs ''/'') \<noteq> CHR ''/''"
proof (induction cs)
  case (Cons c cs)
  then show ?case by (cases cs) (auto simp: proper_last)
qed simp

lemma render_no_trailing: "cs \<noteq> [] \<Longrightarrow> list_all proper cs \<Longrightarrow> TrimSuffix (render cs) ''/'' = render cs"
  using last_Join_proper [of cs] by (intro TrimSuffix_not) (simp add: HasSuffix_char render_def)

lemma render_slash:
  "list_all proper cs \<Longrightarrow> TrimSuffix (render cs) ''/'' @ ''/'' = CHR ''/'' # slashed cs"
proof (cases "cs = []")
  case True
  then show ?thesis by (simp add: render_def slashed_def TrimSuffix_def HasSuffix_def)
next
  case False
  moreover assume "list_all proper cs"
  ultimately show ?thesis
    by (simp add: render_no_trailing) (simp add: render_def Join_slashed)
qed

lemma inside_base_iff:
  assumes "base_ok fs bs" "list_all proper cs"
  shows "unsafeIsPathInsideOfBase fs (render cs) \<longleftrightarrow> (\<exists>ds. cs = bs @ ds)"
proof -
  have base: "basePath fs @ ''/'' = CHR ''/'' # slashed bs"
    using assms(1) render_slash [of bs] render_no_trailing [of bs] by (simp add: base_ok_def)
  have bs: "list_all proper bs" using assms(1) by (simp add: base_ok_def)
  have "unsafeIsPathInsideOfBase fs (render cs) \<longleftrightarrow> (\<exists>t. slashed cs = slashed bs @ t)"
    by (simp only: unsafeIsPathInsideOfBase_def render_slash [OF assms(2)] base) (simp add: HasPrefix_iff)
  also have "\<dots> \<longleftrightarrow> (\<exists>ds. cs = bs @ ds)"
    using slashed_prefix [OF bs assms(2)] by (auto simp: slashed_append)
  finally show ?thesis .
qed

text \<open>
  What resolving a path means: walk the components of the request from the base directory,
  dot-dot going up (but never above the file system root).
\<close>

definition resolve :: "string list \<Rightarrow> string \<Rightarrow> string list" where
  "resolve bs p = rev (fold (clean_step True) (Split p (CHR ''/'')) (rev bs))"

lemma resolve_proper: "list_all proper bs \<Longrightarrow> list_all proper (resolve bs p)"
  using fold_clean_step_proper [of "rev bs" "Split p (CHR ''/'')"] Split_no_sep
  by (auto simp: resolve_def list_all_iff)

lemma clean_comps_base:
  assumes "list_all proper bs" "bs \<noteq> []"
  shows "clean_comps True (Split (render bs @ CHR ''/'' # p) (CHR ''/'')) = resolve bs p"
  using assms by (simp add: Split_render clean_comps_def resolve_def fold_clean_step_id clean_step_def)

lemma Split_render_plain:
  assumes "list_all proper bs" "bs \<noteq> []"
  shows "Split (render bs) (CHR ''/'') = [] # bs"
  using assms Split_Join [of bs "CHR ''/''"] by (auto simp: render_def proper_def list_all_iff)

lemma render_nonempty [simp]: "render cs \<noteq> []"
  by (simp add: render_def)

lemma Clean_render: "list_all proper cs \<Longrightarrow> Clean (render cs) = render cs"
proof (cases "cs = []")
  case True
  then show ?thesis by (simp add: Clean_def render_def rooted_def clean_comps_def clean_step_def)
next
  case False
  moreover assume "list_all proper cs"
  ultimately show ?thesis
    using Split_render_plain [of cs]
    by (simp add: Clean_rooted(1) rooted_def [of "render cs"])
       (simp add: render_def rooted_def clean_comps_def clean_step_def fold_clean_step_id Clean_def)
qed

lemma path_Join_base:
  assumes "list_all proper bs" "bs \<noteq> []"
  shows "path_Join [render bs, p] = render (resolve bs p)"
proof (cases "p = []")
  case True
  have "resolve bs [] = bs" by (simp add: resolve_def clean_step_def)
  then show ?thesis using True assms by (simp add: path_Join_def Clean_render)
next
  case False
  have "rooted (render bs @ CHR ''/'' # p)" by (simp add: rooted_def render_def)
  then show ?thesis using False assms by (simp add: path_Join_def Clean_rooted(1) clean_comps_base)
qed

lemma Clean_Join_base:
  "list_all proper bs \<Longrightarrow> bs \<noteq> [] \<Longrightarrow> Clean (path_Join [render bs, p]) = render (resolve bs p)"
  by (simp add: path_Join_base Clean_render resolve_proper)

lemma TrimPrefix_render:
  assumes "bs \<noteq> []"
  shows "TrimPrefix (TrimPrefix (render (bs @ ds)) (render bs)) ''/'' = Join ds ''/''"
proof (cases "ds = []")
  case True
  have "TrimPrefix (render bs) (render bs) = []"
    using TrimPrefix_append [of "render bs" "[]"] by simp
  then show ?thesis using True by (simp add: TrimPrefix_def HasPrefix_def)
next
  case False
  with assms have "render (bs @ ds) = render bs @ ''/'' @ Join ds ''/''"
    by (simp add: render_def Join_append)
  then show ?thesis by (simp only: TrimPrefix_append)
qed

text \<open>
  \<^verbatim>\<open>unsafePath\<close> computes exactly this: the components below the base when the walk ends below
  it, and the path error otherwise.
\<close>

lemma unsafePath_resolve:
  fixes path :: string and fs :: unixfs and bs :: "string list"
  assumes "base_ok fs bs"
  defines "rs \<equiv> resolve bs (TrimPrefix path (basePath fs))"
  shows "unsafePath fs path =
    (if \<exists>ds. rs = bs @ ds
     then Inr (if drop (length bs) rs = [] then ''.'' else Join (drop (length bs) rs) ''/'')
     else Inl (PathError ''safePath'' path ErrBadPathResolution))"
proof -
  have bs: "list_all proper bs" "bs \<noteq> []" and base: "basePath fs = render bs"
    using assms(1) by (simp_all add: base_ok_def)
  have rs: "list_all proper rs" unfolding rs_def by (rule resolve_proper [OF bs(1)])
  have clean: "Clean (path_Join [basePath fs, TrimPrefix path (basePath fs)]) = render rs"
    unfolding rs_def base by (rule Clean_Join_base [OF bs])
  show ?thesis
  proof (cases "\<exists>ds. rs = bs @ ds")
    case True
    then obtain ds where ds: "rs = bs @ ds" by blast
    then have "list_all proper ds" using rs by simp
    then have "Join ds ''/'' = [] \<longleftrightarrow> ds = []" using last_Join_proper [of ds] by auto
    moreover have "unsafeIsPathInsideOfBase fs (render rs)"
      using inside_base_iff [OF assms(1) rs] True by simp
    then have "unsafePath fs path =
        (let r = TrimPrefix (TrimPrefix (render rs) (basePath fs)) ''/'' in if r = [] then Inr ''.'' else Inr r)"
      by (simp add: unsafePath_def clean)
    then have "unsafePath fs path = (if Join ds ''/'' = [] then Inr ''.'' else Inr (Join ds ''/''))"
      unfolding ds base TrimPrefix_render [OF bs(2)] by simp
    ultimately show ?thesis using ds by simp
  next
    case False
    then show ?thesis
      using inside_base_iff [OF assms(1) rs] by (simp add: unsafePath_def clean)
  qed
qed

section \<open>Splitting a resolved path\<close>

lemma last_slash_None: "CHR ''/'' \<notin> set s \<Longrightarrow> last_slash s = None"
  by (induction s) auto

lemma last_slash_append: "CHR ''/'' \<notin> set c \<Longrightarrow> last_slash (d @ CHR ''/'' # c) = Some (length d)"
  by (induction d) (auto simp: last_slash_None)

lemma strip_trailing_id: "p \<noteq> [] \<Longrightarrow> last p \<noteq> CHR ''/'' \<Longrightarrow> strip_trailing p = p"
  by (subst strip_trailing.simps) simp

lemma strip_leading_id: "p \<noteq> [] \<Longrightarrow> hd p \<noteq> CHR ''/'' \<Longrightarrow> strip_leading p = p"
  by (cases p rule: strip_leading.cases) auto

lemma hd_Join_proper: "cs \<noteq> [] \<Longrightarrow> list_all proper cs \<Longrightarrow> hd (Join cs ''/'') \<noteq> CHR ''/''"
proof (cases cs)
  case (Cons c ds)
  moreover assume "list_all proper cs"
  ultimately have "c \<noteq> []" "hd c \<noteq> CHR ''/''" by (auto simp: proper_def dest: hd_in_set)
  then show ?thesis using Cons by (cases ds) auto
qed simp

text \<open>On the names that \<^verbatim>\<open>unsafePath\<close> returns, \<open>splitPath\<close> separates the last component.\<close>

lemma splitPath_Join:
  assumes "list_all proper (ds @ [c])"
  shows "splitPath (Join (ds @ [c]) ''/'') = (if ds = [] then ''.'' else Join ds ''/'', c)"
proof -
  let ?p = "Join (ds @ [c]) ''/''"
  have p: "strip_trailing (strip_leading ?p) = ?p"
    using assms last_Join_proper [of "ds @ [c]"] hd_Join_proper [of "ds @ [c]"]
    by (simp add: strip_leading_id strip_trailing_id)
  have c: "c \<noteq> []" "CHR ''/'' \<notin> set c" "CHR ''/'' \<notin> set (butlast c)"
    using assms by (auto simp: proper_def dest: in_set_butlastD)
  show ?thesis
  proof (cases "ds = []")
    case True
    then show ?thesis using c p by (simp add: splitPath_def last_slash_None)
  next
    case False
    then have j: "?p = Join ds ''/'' @ CHR ''/'' # c" by (simp add: Join_append)
    moreover have "Join ds ''/'' \<noteq> []" using False assms last_Join_proper [of ds] by simp
    ultimately show ?thesis
      using c p False by (simp add: splitPath_def last_slash_append butlast_append)
  qed
qed

end
