(* ===== verification/Effects.thy ===== *)
theory Effects
  imports Prelude "HOL-Library.State_Monad"
begin

text \<open>
  Stateful operations as programs of the state monad, and a small Hoare logic for them. A Go
  method that makes several effectful calls is written with \<open>do\<close>; an invariant of its state
  is proved by the rules below, one per construct, collected in \<open>hoare_intros\<close> together with
  the triples of the component's own operations.
\<close>

named_theorems hoare_intros \<open>Hoare rules for the programs of the state monad\<close>

abbreviation ret :: "'a \<Rightarrow> ('s, 'a) state" where
  "ret \<equiv> State_Monad.return"

definition modify_st :: "('s \<Rightarrow> 's) \<Rightarrow> ('s, unit) state" where
  "modify_st f = State (\<lambda>s. ((), f s))"

definition read_st :: "('s \<Rightarrow> 'a) \<Rightarrow> ('s, 'a) state" where
  "read_st f = State (\<lambda>s. (f s, s))"

definition if_st :: "bool \<Rightarrow> ('s, unit) state \<Rightarrow> ('s, unit) state" where
  "if_st b m = (if b then m else ret ())"

lemma run_modify_st [simp]: "run_state (modify_st f) s = ((), f s)"
  by (simp add: modify_st_def)

lemma run_read_st [simp]: "run_state (read_st f) s = (f s, s)"
  by (simp add: read_st_def)

lemma if_st_simps [simp]: "if_st True m = m" "if_st False m = ret ()"
  by (simp_all add: if_st_def)

definition triple :: "('s \<Rightarrow> bool) \<Rightarrow> ('s, 'a) state \<Rightarrow> ('a \<Rightarrow> 's \<Rightarrow> bool) \<Rightarrow> bool" where
  "triple P m Q \<longleftrightarrow> (\<forall>s. P s \<longrightarrow> (case run_state m s of (a, s') \<Rightarrow> Q a s'))"

text \<open>The common case: a program that keeps an invariant, whatever it returns.\<close>

abbreviation keeps :: "('s \<Rightarrow> bool) \<Rightarrow> ('s, 'a) state \<Rightarrow> bool" where
  "keeps I m \<equiv> triple I m (\<lambda>_. I)"

lemma tripleI: "(\<And>s a s'. P s \<Longrightarrow> run_state m s = (a, s') \<Longrightarrow> Q a s') \<Longrightarrow> triple P m Q"
  by (auto simp: triple_def)

lemma tripleD: "triple P m Q \<Longrightarrow> P s \<Longrightarrow> run_state m s = (a, s') \<Longrightarrow> Q a s'"
  by (auto simp: triple_def)

lemma triple_snd: "triple P m (\<lambda>_. Q) \<Longrightarrow> P s \<Longrightarrow> Q (snd (run_state m s))"
  by (simp add: triple_def split_beta)

lemma triple_ret [hoare_intros]: "(\<And>s. P s \<Longrightarrow> Q a s) \<Longrightarrow> triple P (ret a) Q"
  by (simp add: triple_def)

lemma triple_bind:
  "triple P m R \<Longrightarrow> (\<And>a. triple (R a) (f a) Q) \<Longrightarrow> triple P (m \<bind> f) Q"
  by (fastforce simp: triple_def split: prod.splits)

lemma keeps_bind: "keeps I m \<Longrightarrow> (\<And>a. keeps I (f a)) \<Longrightarrow> keeps I (m \<bind> f)"
  by (rule triple_bind)

lemma triple_modify [hoare_intros]: "(\<And>s. P s \<Longrightarrow> Q () (f s)) \<Longrightarrow> triple P (modify_st f) Q"
  by (simp add: triple_def)

lemma triple_read [hoare_intros]: "(\<And>s. P s \<Longrightarrow> Q (f s) s) \<Longrightarrow> triple P (read_st f) Q"
  by (simp add: triple_def)

lemma read_keeps: "keeps I (read_st f)"
  by (simp add: triple_def)

lemma triple_if [hoare_intros]:
  "(b \<Longrightarrow> triple P m Q) \<Longrightarrow> (\<not> b \<Longrightarrow> triple P n Q) \<Longrightarrow> triple P (if b then m else n) Q"
  by simp

lemma triple_if_st [hoare_intros]:
  "(b \<Longrightarrow> triple P m Q) \<Longrightarrow> (\<not> b \<Longrightarrow> (\<And>s. P s \<Longrightarrow> Q () s)) \<Longrightarrow> triple P (if_st b m) Q"
  by (cases b) (simp_all add: triple_ret)

lemma keeps_if_st: "(b \<Longrightarrow> keeps I m) \<Longrightarrow> keeps I (if_st b m)"
  by (rule triple_if_st)

lemma triple_option [hoare_intros]:
  "(x = None \<Longrightarrow> triple P m Q) \<Longrightarrow> (\<And>y. x = Some y \<Longrightarrow> triple P (f y) Q) \<Longrightarrow>
   triple P (case x of None \<Rightarrow> m | Some y \<Rightarrow> f y) Q"
  by (cases x) simp_all

lemma triple_sum [hoare_intros]:
  "(\<And>e. x = Inl e \<Longrightarrow> triple P (f e) Q) \<Longrightarrow> (\<And>v. x = Inr v \<Longrightarrow> triple P (g v) Q) \<Longrightarrow>
   triple P (case x of Inl e \<Rightarrow> f e | Inr v \<Rightarrow> g v) Q"
  by (cases x) simp_all

lemma triple_prod [hoare_intros]:
  "(\<And>a b. x = (a, b) \<Longrightarrow> triple P (f a b) Q) \<Longrightarrow> triple P (case x of (a, b) \<Rightarrow> f a b) Q"
  by (cases x) simp

lemma triple_pre: "triple P' m Q \<Longrightarrow> (\<And>s. P s \<Longrightarrow> P' s) \<Longrightarrow> triple P m Q"
  by (simp add: triple_def)

lemma triple_post: "triple P m Q' \<Longrightarrow> (\<And>a s. Q' a s \<Longrightarrow> Q a s) \<Longrightarrow> triple P m Q"
  by (fastforce simp: triple_def split: prod.splits)

lemma triple_conseq:
  "triple P' m Q' \<Longrightarrow> (\<And>s. P s \<Longrightarrow> P' s) \<Longrightarrow> (\<And>a s. Q' a s \<Longrightarrow> Q a s) \<Longrightarrow> triple P m Q"
  by (rule triple_pre [OF triple_post])

text \<open>A fact about values that the precondition carries along is an assumption of the proof.\<close>

lemma triple_pure: "(c \<Longrightarrow> triple P m Q) \<Longrightarrow> triple (\<lambda>s. P s \<and> c) m Q"
  by (auto simp: triple_def)

lemma triple_conj:
  "triple P m Q \<Longrightarrow> triple P' m Q' \<Longrightarrow> triple (\<lambda>s. P s \<and> P' s) m (\<lambda>a s. Q a s \<and> Q' a s)"
  by (auto simp: triple_def)

lemma triple_const: "triple P m Q \<Longrightarrow> triple (\<lambda>s. P s \<and> c) m (\<lambda>a s. Q a s \<and> c)"
  by (fastforce simp: triple_def split: prod.splits)

end
