(* ===== verification/Unix_Kernel.thy ===== *)
theory Unix_Kernel
  imports Safe_Path Effects
begin

text \<open>
  The interface between \<^verbatim>\<open>internal/ufs\<close> and the kernel, and the mode and stat conversions of
  \<^verbatim>\<open>stat_unix.go\<close> and \<^verbatim>\<open>file_posix.go\<close>.

  The kernel is a parameter: a record of the system calls, each reading and changing a world of
  any type. For the calls the code repeats while they are interrupted the answer is that of
  the first attempt that is not. The process state holds the open descriptors and the history
  of the system calls, newest first; a descriptor number stands for one open file description
  and is not used again. Descriptor 0 is never handed out, as the code uses it for no descriptor.
\<close>

section \<open>System calls\<close>

datatype oflag =
  O_WRONLY | O_RDWR | O_APPEND | O_CREATE | O_EXCL | O_SYNC | O_TRUNC | O_DIRECTORY | O_NOFOLLOW
| O_CLOEXEC | O_LARGEFILE

type_synonym flags = "oflag set"
type_synonym fd = nat
type_synonym file_mode = "32 word"

abbreviation (input) O_RDONLY :: flags where "O_RDONLY \<equiv> {}"

datatype at_call =
  SysFchmodat fd string file_mode
| SysFchownat fd string int int bool
| SysUtimesNanoAt fd string "int option" "int option"
| SysMkdirat fd string file_mode
| SysUnlinkat fd string bool
| SysRenameat fd string fd string
| SysSymlinkat string fd string

record sys_stat =
  st_mode :: "32 word"
  st_size :: int
  st_mtim :: int
  st_nlink :: nat
  st_ino :: nat

datatype dent_type = DT_REG | DT_DIR | DT_LNK | DT_CHR | DT_BLK | DT_FIFO | DT_SOCK | DT_UNKNOWN

record raw_dent =
  ino :: nat
  de_name :: string
  de_type :: dent_type

record 'w kernel =
  k_openat :: "bool \<Rightarrow> fd option \<Rightarrow> string \<Rightarrow> flags \<Rightarrow> file_mode \<Rightarrow> fd \<Rightarrow> 'w \<Rightarrow> errno option \<times> 'w"
  k_eval :: "fd \<Rightarrow> 'w \<Rightarrow> fs_error + string"
  k_at :: "at_call \<Rightarrow> 'w \<Rightarrow> errno option \<times> 'w"
  k_fstatat :: "fd \<Rightarrow> string \<Rightarrow> bool \<Rightarrow> 'w \<Rightarrow> errno + sys_stat"
  k_fstat :: "fd \<Rightarrow> 'w \<Rightarrow> errno + sys_stat"
  k_getdents :: "fd \<Rightarrow> 'w \<Rightarrow> errno + raw_dent list"  \<comment> \<open>all entries up to the end of the directory\<close>
  k_readnames :: "fd \<Rightarrow> nat \<Rightarrow> 'w \<Rightarrow> (errno + string list) \<times> 'w"  \<comment> \<open>\<^verbatim>\<open>File.Readdirnames\<close>; no name at the end\<close>

datatype event =
  EvOpen bool "fd option" string flags "fd option"
| EvEval fd "string option"
| EvAt at_call
| EvStat fd string bool
| EvFstat fd
| EvGetdents fd
| EvClose fd

record 'w proc =
  world :: 'w
  next_fd :: fd
  open_fds :: "fd set"
  events :: "event list"
  usage :: int  \<comment> \<open>the usage counter of the \<^verbatim>\<open>Quota\<close> wrapper, which only its methods touch\<close>

text \<open>The flag of \<^verbatim>\<open>sys_openat\<close> says whether \<^verbatim>\<open>openat2\<close> with \<^verbatim>\<open>RESOLVE_BENEATH\<close> is called.\<close>

definition sys_openat ::
  "'w kernel \<Rightarrow> bool \<Rightarrow> fd option \<Rightarrow> string \<Rightarrow> flags \<Rightarrow> file_mode \<Rightarrow> ('w proc, errno + fd) state" where
  "sys_openat k v2 dirfd name flag mode = State (\<lambda>ps.
     case k_openat k v2 dirfd name flag mode (next_fd ps) (world ps) of
       (Some e, w) \<Rightarrow>
         (Inl e, ps\<lparr>world := w, events := EvOpen v2 dirfd name flag None # events ps\<rparr>)
     | (None, w) \<Rightarrow>
         (Inr (next_fd ps),
          ps\<lparr>world := w, next_fd := Suc (next_fd ps), open_fds := insert (next_fd ps) (open_fds ps),
             events := EvOpen v2 dirfd name flag (Some (next_fd ps)) # events ps\<rparr>))"

definition sys_eval :: "'w kernel \<Rightarrow> fd \<Rightarrow> ('w proc, fs_error + string) state" where
  "sys_eval k n = State (\<lambda>ps.
     case k_eval k n (world ps) of
       Inl e \<Rightarrow> (Inl e, ps\<lparr>events := EvEval n None # events ps\<rparr>)
     | Inr p \<Rightarrow> (Inr p, ps\<lparr>events := EvEval n (Some p) # events ps\<rparr>))"

definition sys_at :: "'w kernel \<Rightarrow> at_call \<Rightarrow> ('w proc, errno option) state" where
  "sys_at k c = State (\<lambda>ps.
     case k_at k c (world ps) of (e, w) \<Rightarrow> (e, ps\<lparr>world := w, events := EvAt c # events ps\<rparr>))"

definition sys_fstatat :: "'w kernel \<Rightarrow> fd \<Rightarrow> string \<Rightarrow> bool \<Rightarrow> ('w proc, errno + sys_stat) state" where
  "sys_fstatat k d name nofollow = State (\<lambda>ps.
     (k_fstatat k d name nofollow (world ps), ps\<lparr>events := EvStat d name nofollow # events ps\<rparr>))"

definition sys_fstat :: "'w kernel \<Rightarrow> fd \<Rightarrow> ('w proc, errno + sys_stat) state" where
  "sys_fstat k n = State (\<lambda>ps. (k_fstat k n (world ps), ps\<lparr>events := EvFstat n # events ps\<rparr>))"

definition sys_getdents :: "'w kernel \<Rightarrow> fd \<Rightarrow> ('w proc, errno + raw_dent list) state" where
  "sys_getdents k n = State (\<lambda>ps.
     (k_getdents k n (world ps), ps\<lparr>events := EvGetdents n # events ps\<rparr>))"

definition sys_readnames :: "'w kernel \<Rightarrow> fd \<Rightarrow> nat \<Rightarrow> ('w proc, errno + string list) state" where
  "sys_readnames k n m = State (\<lambda>ps.
     case k_readnames k n m (world ps) of
       (r, w) \<Rightarrow> (r, ps\<lparr>world := w, events := EvGetdents n # events ps\<rparr>))"

definition sys_close :: "fd \<Rightarrow> ('w proc, unit) state" where
  "sys_close n = modify_st (\<lambda>ps. ps\<lparr>open_fds := open_fds ps - {n}, events := EvClose n # events ps\<rparr>)"

section \<open>Modes\<close>

abbreviation ModeDir :: file_mode where "ModeDir \<equiv> 0x80000000"
abbreviation ModeSymlink :: file_mode where "ModeSymlink \<equiv> 0x08000000"
abbreviation ModeDevice :: file_mode where "ModeDevice \<equiv> 0x04000000"
abbreviation ModeNamedPipe :: file_mode where "ModeNamedPipe \<equiv> 0x02000000"
abbreviation ModeSocket :: file_mode where "ModeSocket \<equiv> 0x01000000"
abbreviation ModeSetuid :: file_mode where "ModeSetuid \<equiv> 0x00800000"
abbreviation ModeSetgid :: file_mode where "ModeSetgid \<equiv> 0x00400000"
abbreviation ModeCharDevice :: file_mode where "ModeCharDevice \<equiv> 0x00200000"
abbreviation ModeSticky :: file_mode where "ModeSticky \<equiv> 0x00100000"
abbreviation ModeIrregular :: file_mode where "ModeIrregular \<equiv> 0x00080000"
abbreviation ModeType :: file_mode where "ModeType \<equiv> 0x8F280000"
abbreviation S_IFMT :: "32 word" where "S_IFMT \<equiv> 0xF000"
abbreviation S_ISUID :: "32 word" where "S_ISUID \<equiv> 0x800"
abbreviation S_ISGID :: "32 word" where "S_ISGID \<equiv> 0x400"
abbreviation S_ISVTX :: "32 word" where "S_ISVTX \<equiv> 0x200"

unbundle bit_operations_syntax

definition syscallMode :: "file_mode \<Rightarrow> file_mode" where
  "syscallMode i =
     (i AND 0x1FF)
     OR (if i AND ModeSetuid \<noteq> 0 then S_ISUID else 0)
     OR (if i AND ModeSetgid \<noteq> 0 then S_ISGID else 0)
     OR (if i AND ModeSticky \<noteq> 0 then S_ISVTX else 0)"

record file_info =
  fi_name :: string
  fi_size :: int
  fi_mode :: file_mode
  fi_mtime :: int
  fi_sys :: sys_stat

definition type_bits :: "32 word \<Rightarrow> file_mode" where
  "type_bits st =
     (let t = st AND S_IFMT
      in if t = 0x6000 then ModeDevice
         else if t = 0x2000 then ModeDevice OR ModeCharDevice
         else if t = 0x4000 then ModeDir
         else if t = 0x1000 then ModeNamedPipe
         else if t = 0xA000 then ModeSymlink
         else if t = 0xC000 then ModeSocket
         else 0)"

definition fillFileStatFromSys :: "sys_stat \<Rightarrow> string \<Rightarrow> file_info" where
  "fillFileStatFromSys st name =
     \<lparr>fi_name = basename name, fi_size = st_size st,
      fi_mode =
        (st_mode st AND 0x1FF) OR type_bits (st_mode st)
        OR (if st_mode st AND S_ISGID \<noteq> 0 then ModeSetgid else 0)
        OR (if st_mode st AND S_ISUID \<noteq> 0 then ModeSetuid else 0)
        OR (if st_mode st AND S_ISVTX \<noteq> 0 then ModeSticky else 0),
      fi_mtime = st_mtim st, fi_sys = st\<rparr>"

definition IsDir :: "file_info \<Rightarrow> bool" where
  "IsDir i \<longleftrightarrow> fi_mode i AND ModeDir \<noteq> 0"

definition IsRegular :: "file_info \<Rightarrow> bool" where
  "IsRegular i \<longleftrightarrow> fi_mode i AND ModeType = 0"

definition IsSymlink :: "file_info \<Rightarrow> bool" where
  "IsSymlink i \<longleftrightarrow> fi_mode i AND ModeSymlink \<noteq> 0"

end
