(* ===== verification/Unix_Fs.thy ===== *)
theory Unix_Fs
  imports Unix_Kernel
begin

text \<open>
  The sandboxed file system of \<^verbatim>\<open>internal/ufs/fs_unix.go\<close>, with \<^verbatim>\<open>mkdir_unix.go\<close> and the directory
  reader of \<^verbatim>\<open>walk_unix.go\<close>: every public operation resolves its path with \<open>safePath\<close> to a
  directory descriptor and a name, and makes its system call on these two.
\<close>

section \<open>Opening\<close>

definition openat_errno :: "string \<Rightarrow> string \<Rightarrow> errno \<Rightarrow> fs_error" where
  "openat_errno op name e =
     (if e = EINTR \<or> e = EAGAIN then BareErrno e else ensurePathError (BareErrno e) op name)"

definition openat_v1 :: "'w kernel \<Rightarrow> fd option \<Rightarrow> string \<Rightarrow> flags \<Rightarrow> file_mode \<Rightarrow> ('w proc, fs_error + fd) state" where
  "openat_v1 k dirfd name flag mode = do {
     r \<leftarrow> sys_openat k False dirfd name (insert O_CLOEXEC flag) mode;
     ret (map_sum (openat_errno ''openat'' name) id r)
   }"

definition openat_v2 :: "'w kernel \<Rightarrow> fd option \<Rightarrow> string \<Rightarrow> flags \<Rightarrow> file_mode \<Rightarrow> ('w proc, fs_error + fd) state" where
  "openat_v2 k dirfd name flag mode = do {
     r \<leftarrow> sys_openat k True dirfd name (insert O_LARGEFILE (insert O_CLOEXEC flag)) mode;
     ret (map_sum (openat_errno ''openat2'' name) id r)
   }"

text \<open>
  The containment check made after \<^verbatim>\<open>openat\<close>: the path the descriptor evaluates to, or the path
  of the dangling link when the evaluation fails because something does not exist. The result
  is the error the caller gets.
\<close>

definition check_final :: "unixfs \<Rightarrow> string \<Rightarrow> fs_error + string \<Rightarrow> fs_error option" where
  "check_final fs name ev =
     (case ev of
        Inr final \<Rightarrow>
          if unsafeIsPathInsideOfBase fs final then None
          else Some (PathError ''openat'' name ErrBadPathResolution)
      | Inl e \<Rightarrow>
          if \<not> is_not_exist e then Some (EvalSymlinkError (convertErrorType e))
          else (case as_path_error e of
                  None \<Rightarrow> Some (EvalSymlinkError (convertErrorType e))
                | Some (_, final, _) \<Rightarrow>
                    if unsafeIsPathInsideOfBase fs final then Some (convertErrorType e)
                    else Some (PathError ''openat'' name ErrBadPathResolution)))"

definition openat :: "unixfs \<Rightarrow> 'w kernel \<Rightarrow> fd \<Rightarrow> string \<Rightarrow> flags \<Rightarrow> file_mode \<Rightarrow> ('w proc, fd \<times> fs_error option) state" where
  "openat fs k dirfd name flag mode =
     (let flag = insert O_NOFOLLOW flag
      in if useOpenat2 fs
         then do {
           r \<leftarrow> openat_v2 k (Some dirfd) name flag (syscallMode mode);
           ret (case r of Inl e \<Rightarrow> (0, Some e) | Inr n \<Rightarrow> (n, None))
         }
         else do {
           r \<leftarrow> openat_v1 k (Some dirfd) name flag (syscallMode mode);
           (case r of
              Inl e \<Rightarrow> ret (0, Some e)
            | Inr n \<Rightarrow> do { ev \<leftarrow> sys_eval k n; ret (n, check_final fs name ev) })
         })"

text \<open>The named results of \<^verbatim>\<open>safePath\<close>; \<open>sp_close\<close> lists the descriptors that \<^verbatim>\<open>closeFd\<close> closes.\<close>

record safe_path =
  sp_dirfd :: fd
  sp_file :: string
  sp_close :: "fd list"
  sp_err :: "fs_error option"

definition safePath :: "unixfs \<Rightarrow> 'w kernel \<Rightarrow> string \<Rightarrow> ('w proc, safe_path) state" where
  "safePath fs k path =
     (case unsafePath fs path of
        Inl e \<Rightarrow> ret \<lparr>sp_dirfd = 0, sp_file = [], sp_close = [], sp_err = Some e\<rparr>
      | Inr name \<Rightarrow> do {
          r \<leftarrow> openat_v1 k None (basePath fs) {O_DIRECTORY} 0;
          (case r of
             Inl e \<Rightarrow> ret \<lparr>sp_dirfd = 0, sp_file = [], sp_close = [], sp_err = Some e\<rparr>
           | Inr fsDirfd \<Rightarrow>
               (let (dir, file) = path_Split name
                in if dir = []
                   then ret \<lparr>sp_dirfd = fsDirfd, sp_file = file, sp_close = [fsDirfd], sp_err = None\<rparr>
                   else do {
                     (dirfd, err) \<leftarrow> openat fs k fsDirfd (TrimSuffix dir ''/'') {O_DIRECTORY} 0;
                     ret \<lparr>sp_dirfd = dirfd, sp_file = file,
                          sp_close = (if err = None then [dirfd, fsDirfd] else [fsDirfd]),
                          sp_err = err\<rparr>
                   }))
        })"

fun close_fds :: "fd list \<Rightarrow> ('w proc, unit) state" where
  "close_fds [] = ret ()"
| "close_fds (n # ns) = do { sys_close n; close_fds ns }"

text \<open>
  The shape all path operations share: \<^verbatim>\<open>safePath\<close>, \<^verbatim>\<open>defer closeFd()\<close>, return on error, go on
  with the descriptor and the name.
\<close>

definition with_safePath ::
  "unixfs \<Rightarrow> 'w kernel \<Rightarrow> string \<Rightarrow> (fs_error \<Rightarrow> 'r) \<Rightarrow> (fd \<Rightarrow> string \<Rightarrow> ('w proc, 'r) state) \<Rightarrow> ('w proc, 'r) state" where
  "with_safePath fs k path fail body = do {
     sp \<leftarrow> safePath fs k path;
     r \<leftarrow> (case sp_err sp of Some e \<Rightarrow> ret (fail e) | None \<Rightarrow> body (sp_dirfd sp) (sp_file sp));
     close_fds (sp_close sp);
     ret r
   }"

section \<open>Attributes\<close>

definition path_err :: "string \<Rightarrow> string \<Rightarrow> errno option \<Rightarrow> fs_error option" where
  "path_err op name e = map_option (\<lambda>e. ensurePathError (BareErrno e) op name) e"

definition fchmodat :: "'w kernel \<Rightarrow> string \<Rightarrow> fd \<Rightarrow> string \<Rightarrow> file_mode \<Rightarrow> ('w proc, fs_error option) state" where
  "fchmodat k op dirfd name mode = do {
     e \<leftarrow> sys_at k (SysFchmodat dirfd name mode);
     ret (path_err op name e)
   }"

definition Chmod :: "unixfs \<Rightarrow> 'w kernel \<Rightarrow> string \<Rightarrow> file_mode \<Rightarrow> ('w proc, fs_error option) state" where
  "Chmod fs k name mode = with_safePath fs k name Some (\<lambda>dirfd name. fchmodat k ''chmod'' dirfd name mode)"

definition Chmodat :: "'w kernel \<Rightarrow> fd \<Rightarrow> string \<Rightarrow> file_mode \<Rightarrow> ('w proc, fs_error option) state" where
  "Chmodat k dirfd name mode = fchmodat k ''chmodat'' dirfd name mode"

definition fchown :: "unixfs \<Rightarrow> 'w kernel \<Rightarrow> string \<Rightarrow> int \<Rightarrow> int \<Rightarrow> bool \<Rightarrow> ('w proc, fs_error option) state" where
  "fchown fs k name uid gid nofollow =
     with_safePath fs k name Some (\<lambda>dirfd name. do {
       e \<leftarrow> sys_at k (SysFchownat dirfd name uid gid nofollow);
       ret (map_option BareErrno e)
     })"

definition Chown :: "unixfs \<Rightarrow> 'w kernel \<Rightarrow> string \<Rightarrow> int \<Rightarrow> int \<Rightarrow> ('w proc, fs_error option) state" where
  "Chown fs k name uid gid = do {
     e \<leftarrow> fchown fs k name uid gid False;
     ret (map_option (\<lambda>e. ensurePathError e ''chown'' name) e)
   }"

definition Lchown :: "unixfs \<Rightarrow> 'w kernel \<Rightarrow> string \<Rightarrow> int \<Rightarrow> int \<Rightarrow> ('w proc, fs_error option) state" where
  "Lchown fs k name uid gid = do {
     e \<leftarrow> fchown fs k name uid gid True;
     ret (map_option (\<lambda>e. ensurePathError e ''lchown'' name) e)
   }"

definition Chownat :: "'w kernel \<Rightarrow> fd \<Rightarrow> string \<Rightarrow> int \<Rightarrow> int \<Rightarrow> ('w proc, fs_error option) state" where
  "Chownat k dirfd name uid gid = do {
     e \<leftarrow> sys_at k (SysFchownat dirfd name uid gid False);
     ret (path_err ''chownat'' name e)
   }"

definition Lchownat :: "'w kernel \<Rightarrow> fd \<Rightarrow> string \<Rightarrow> int \<Rightarrow> int \<Rightarrow> ('w proc, fs_error option) state" where
  "Lchownat k dirfd name uid gid = do {
     e \<leftarrow> sys_at k (SysFchownat dirfd name uid gid True);
     ret (path_err ''lchownat'' name e)
   }"

text \<open>A zero time (\<open>None\<close>) is left unchanged.\<close>

definition Chtimesat :: "'w kernel \<Rightarrow> fd \<Rightarrow> string \<Rightarrow> int option \<Rightarrow> int option \<Rightarrow> ('w proc, fs_error option) state" where
  "Chtimesat k dirfd name atime mtime = do {
     e \<leftarrow> sys_at k (SysUtimesNanoAt dirfd name atime mtime);
     ret (path_err ''chtimes'' name e)
   }"

definition Chtimes :: "unixfs \<Rightarrow> 'w kernel \<Rightarrow> string \<Rightarrow> int option \<Rightarrow> int option \<Rightarrow> ('w proc, fs_error option) state" where
  "Chtimes fs k name atime mtime =
     with_safePath fs k name Some (\<lambda>dirfd name. Chtimesat k dirfd name atime mtime)"

section \<open>Stat\<close>

definition fstatat_op :: "'w kernel \<Rightarrow> string \<Rightarrow> fd \<Rightarrow> string \<Rightarrow> bool \<Rightarrow> ('w proc, fs_error + file_info) state" where
  "fstatat_op k op dirfd name nofollow = do {
     r \<leftarrow> sys_fstatat k dirfd name nofollow;
     ret (case r of
            Inl e \<Rightarrow> Inl (ensurePathError (BareErrno e) op name)
          | Inr st \<Rightarrow> Inr (fillFileStatFromSys st name))
   }"

definition fstat_op :: "unixfs \<Rightarrow> 'w kernel \<Rightarrow> string \<Rightarrow> string \<Rightarrow> bool \<Rightarrow> ('w proc, fs_error + file_info) state" where
  "fstat_op fs k op name nofollow =
     with_safePath fs k name Inl (\<lambda>dirfd name. fstatat_op k op dirfd name nofollow)"

definition Stat :: "unixfs \<Rightarrow> 'w kernel \<Rightarrow> string \<Rightarrow> ('w proc, fs_error + file_info) state" where
  "Stat fs k name = fstat_op fs k ''stat'' name False"

definition Lstat :: "unixfs \<Rightarrow> 'w kernel \<Rightarrow> string \<Rightarrow> ('w proc, fs_error + file_info) state" where
  "Lstat fs k name = fstat_op fs k ''lstat'' name True"

definition Statat :: "'w kernel \<Rightarrow> fd \<Rightarrow> string \<Rightarrow> ('w proc, fs_error + file_info) state" where
  "Statat k dirfd name = fstatat_op k ''statat'' dirfd name False"

definition Lstatat :: "'w kernel \<Rightarrow> fd \<Rightarrow> string \<Rightarrow> ('w proc, fs_error + file_info) state" where
  "Lstatat k dirfd name = fstatat_op k ''lstatat'' dirfd name True"

section \<open>Directories\<close>

definition mkdirat :: "'w kernel \<Rightarrow> string \<Rightarrow> fd \<Rightarrow> string \<Rightarrow> file_mode \<Rightarrow> ('w proc, fs_error option) state" where
  "mkdirat k op dirfd name mode = do {
     e \<leftarrow> sys_at k (SysMkdirat dirfd name mode);
     ret (path_err op name e)
   }"

definition Mkdir :: "unixfs \<Rightarrow> 'w kernel \<Rightarrow> string \<Rightarrow> file_mode \<Rightarrow> ('w proc, fs_error option) state" where
  "Mkdir fs k name mode = with_safePath fs k name Some (\<lambda>dirfd name. mkdirat k ''mkdir'' dirfd name mode)"

definition Mkdirat :: "'w kernel \<Rightarrow> fd \<Rightarrow> string \<Rightarrow> file_mode \<Rightarrow> ('w proc, fs_error option) state" where
  "Mkdirat k dirfd name mode = mkdirat k ''mkdirat'' dirfd name mode"

text \<open>
  The two backward scans of \<^verbatim>\<open>mkdirAll\<close>: over trailing slashes, then over the last element; the
  result is the index of its first byte.
\<close>

fun scan_back :: "(char \<Rightarrow> bool) \<Rightarrow> string \<Rightarrow> nat \<Rightarrow> nat" where
  "scan_back p name 0 = 0"
| "scan_back p name (Suc i) = (if p (name ! i) then scan_back p name i else Suc i)"

definition last_elem :: "string \<Rightarrow> nat" where
  "last_elem name =
     scan_back (\<lambda>c. c \<noteq> CHR ''/'') name (scan_back (\<lambda>c. c = CHR ''/'') name (length name))"

lemma scan_back_le: "scan_back p name i \<le> i"
  by (induction i) (auto intro: le_SucI)

lemma last_elem_le: "last_elem name \<le> length name"
  unfolding last_elem_def using scan_back_le le_trans by blast

function mkdirAll :: "unixfs \<Rightarrow> 'w kernel \<Rightarrow> file_mode \<Rightarrow> string \<Rightarrow> ('w proc, fs_error option) state" where
  "mkdirAll fs k mode name = do {
     dir \<leftarrow> Lstat fs k name;
     (case dir of
        Inr info \<Rightarrow> do {
          r \<leftarrow> (if IsSymlink info then Stat fs k name else ret (Inr info));
          ret (case r of
                 Inl e \<Rightarrow> Some e
               | Inr info \<Rightarrow> if IsDir info then None else Some (PathError ''mkdir'' name ErrNotDirectory))
        }
      | Inl _ \<Rightarrow> do {
          let j = last_elem name;
          err \<leftarrow> (if j > 1 then mkdirAll fs k mode (take (j - 1) name) else ret None);
          (case err of
             Some e \<Rightarrow> ret (Some e)
           | None \<Rightarrow> do {
               err \<leftarrow> Mkdir fs k name mode;
               (case err of
                  None \<Rightarrow> ret None
                | Some e \<Rightarrow> do {
                    dir \<leftarrow> Lstat fs k name;
                    ret (case dir of
                           Inr info \<Rightarrow> if IsDir info then None else Some e
                         | Inl _ \<Rightarrow> Some e)
                  })
             })
        })
   }"
  by pat_completeness auto
termination
proof (relation "measure (\<lambda>(fs, k, mode, name). length name)")
  fix fs :: unixfs and k :: "'w kernel" and mode name j
  assume "j = last_elem name" "1 < j"
  then show "((fs, k, mode, take (j - 1) name), fs, k, mode, name)
      \<in> measure (\<lambda>(fs, k, mode, name). length name)"
    using last_elem_le [of name] by auto
qed simp

declare mkdirAll.simps [simp del]

definition MkdirAll :: "unixfs \<Rightarrow> 'w kernel \<Rightarrow> string \<Rightarrow> file_mode \<Rightarrow> ('w proc, fs_error option) state" where
  "MkdirAll fs k name mode =
     (case unsafePath fs name of
        Inl e \<Rightarrow> ret (Some e)
      | Inr name \<Rightarrow> mkdirAll fs k mode name)"

section \<open>Files\<close>

text \<open>A \<^verbatim>\<open>File\<close> is its descriptor with the name it was opened by.\<close>

type_synonym open_file = "fd \<times> string"

definition openFile :: "unixfs \<Rightarrow> 'w kernel \<Rightarrow> string \<Rightarrow> flags \<Rightarrow> file_mode \<Rightarrow> ('w proc, fd \<times> fs_error option) state" where
  "openFile fs k name flag mode =
     with_safePath fs k name (\<lambda>e. (0, Some e)) (\<lambda>dirfd name. openat fs k dirfd name flag mode)"

definition OpenFile :: "unixfs \<Rightarrow> 'w kernel \<Rightarrow> string \<Rightarrow> flags \<Rightarrow> file_mode \<Rightarrow> ('w proc, fs_error + open_file) state" where
  "OpenFile fs k name flag mode = do {
     (n, err) \<leftarrow> openFile fs k name flag mode;
     ret (case err of Some e \<Rightarrow> Inl e | None \<Rightarrow> Inr (n, name))
   }"

definition Open :: "unixfs \<Rightarrow> 'w kernel \<Rightarrow> string \<Rightarrow> ('w proc, fs_error + open_file) state" where
  "Open fs k name = OpenFile fs k name O_RDONLY 0"

definition Create :: "unixfs \<Rightarrow> 'w kernel \<Rightarrow> string \<Rightarrow> ('w proc, fs_error + open_file) state" where
  "Create fs k name = OpenFile fs k name {O_CREATE, O_WRONLY, O_TRUNC} 0x1A4"

definition OpenFileat :: "unixfs \<Rightarrow> 'w kernel \<Rightarrow> fd \<Rightarrow> string \<Rightarrow> flags \<Rightarrow> file_mode \<Rightarrow> ('w proc, fs_error + open_file) state" where
  "OpenFileat fs k dirfd name flag mode = do {
     (n, err) \<leftarrow> openat fs k dirfd name flag mode;
     ret (case err of Some e \<Rightarrow> Inl e | None \<Rightarrow> Inr (n, name))
   }"

definition TouchPath :: "unixfs \<Rightarrow> 'w kernel \<Rightarrow> string \<Rightarrow> ('w proc, safe_path \<times> bool) state" where
  "TouchPath fs k path = do {
     sp \<leftarrow> safePath fs k path;
     (case sp_err sp of
        None \<Rightarrow> ret (sp, True)
      | Some e \<Rightarrow>
          if \<not> is_not_exist e then ret (sp, False)
          else (case as_path_error e of
                  None \<Rightarrow> ret (sp, False)
                | Some (_, missing, _) \<Rightarrow> do {
                    r \<leftarrow> MkdirAll fs k missing 0x1ED;
                    (case r of
                       Some e' \<Rightarrow> ret (sp\<lparr>sp_err := Some e'\<rparr>, False)
                     | None \<Rightarrow> do {
                         close_fds (sp_close sp);
                         sp \<leftarrow> safePath fs k path;
                         ret (sp, False)
                       })
                  }))
   }"

definition Touch :: "unixfs \<Rightarrow> 'w kernel \<Rightarrow> string \<Rightarrow> flags \<Rightarrow> file_mode \<Rightarrow> ('w proc, fs_error + open_file) state" where
  "Touch fs k path flag mode = do {
     (sp, _) \<leftarrow> TouchPath fs k path;
     r \<leftarrow> (case sp_err sp of
             Some e \<Rightarrow> ret (Inl e)
           | None \<Rightarrow> OpenFileat fs k (sp_dirfd sp) (sp_file sp) (insert O_CREATE flag) mode);
     close_fds (sp_close sp);
     ret r
   }"

section \<open>Reading directories\<close>

record dirent =
  d_dirfd :: fd
  d_name :: string
  d_path :: string
  d_type :: file_mode

definition modeTypeFromDirent :: "'w kernel \<Rightarrow> raw_dent \<Rightarrow> fd \<Rightarrow> string \<Rightarrow> ('w proc, fs_error + file_mode) state" where
  "modeTypeFromDirent k de n name =
     (case de_type de of
        DT_REG \<Rightarrow> ret (Inr 0)
      | DT_DIR \<Rightarrow> ret (Inr ModeDir)
      | DT_LNK \<Rightarrow> ret (Inr ModeSymlink)
      | DT_CHR \<Rightarrow> ret (Inr (ModeDevice OR ModeCharDevice))
      | DT_BLK \<Rightarrow> ret (Inr ModeDevice)
      | DT_FIFO \<Rightarrow> ret (Inr ModeNamedPipe)
      | DT_SOCK \<Rightarrow> ret (Inr ModeSocket)
      | DT_UNKNOWN \<Rightarrow> do {
          r \<leftarrow> Lstatat k n name;
          ret (map_sum id (\<lambda>fi. fi_mode fi AND ModeType) r)
        })"

definition skip_dent :: "raw_dent \<Rightarrow> bool" where
  "skip_dent de \<longleftrightarrow> ino de = 0 \<or> de_name de = [] \<or> de_name de = ''.'' \<or> de_name de = ''..''"

fun readDir_loop ::
  "'w kernel \<Rightarrow> fd \<Rightarrow> string \<Rightarrow> string \<Rightarrow> dirent list \<Rightarrow> raw_dent list \<Rightarrow> ('w proc, fs_error + dirent list) state" where
  "readDir_loop k n name relative entries [] = ret (Inr entries)"
| "readDir_loop k n name relative entries (de # des) =
     (if skip_dent de then readDir_loop k n name relative entries des
      else do {
        mt \<leftarrow> modeTypeFromDirent k de n (de_name de);
        (case mt of
           Inl e \<Rightarrow> ret (Inl e)
         | Inr t \<Rightarrow>
             readDir_loop k n name relative
               (entries @ [\<lparr>d_dirfd = n, d_name = de_name de,
                            d_path = (if relative = ''.'' then name else path_Join [relative, de_name de]),
                            d_type = t\<rparr>])
               des)
      })"

definition readDir :: "'w kernel \<Rightarrow> fd \<Rightarrow> string \<Rightarrow> string \<Rightarrow> ('w proc, fs_error + dirent list) state" where
  "readDir k n name relative = do {
     r \<leftarrow> sys_getdents k n;
     (case r of
        Inl e \<Rightarrow> ret (Inl (ensurePathError (BareErrno e) ''getdents'' name))
      | Inr des \<Rightarrow> readDir_loop k n name relative [] des)
   }"

definition ReadDir :: "unixfs \<Rightarrow> 'w kernel \<Rightarrow> string \<Rightarrow> ('w proc, fs_error + dirent list) state" where
  "ReadDir fs k path =
     with_safePath fs k path Inl (\<lambda>dirfd name. do {
       (n, err) \<leftarrow> openat fs k dirfd name {O_DIRECTORY} 0;
       (case err of
          Some e \<Rightarrow> ret (Inl e)
        | None \<Rightarrow> do {
            r \<leftarrow> readDir k n name ''.'';
            sys_close n;
            ret r
          })
     })"

section \<open>Removing, renaming, linking\<close>

definition unlinkat :: "'w kernel \<Rightarrow> fd \<Rightarrow> string \<Rightarrow> bool \<Rightarrow> ('w proc, errno option) state" where
  "unlinkat k dirfd name rmdir = sys_at k (SysUnlinkat dirfd name rmdir)"

text \<open>\<^verbatim>\<open>RemoveStat\<close> returns the file information also when the removal fails.\<close>

definition RemoveStat :: "unixfs \<Rightarrow> 'w kernel \<Rightarrow> string \<Rightarrow> ('w proc, file_info option \<times> fs_error option) state" where
  "RemoveStat fs k name =
     with_safePath fs k name (\<lambda>e. (None, Some e)) (\<lambda>dirfd name. do {
       r \<leftarrow> Lstatat k dirfd name;
       (case r of
          Inl e \<Rightarrow> ret (None, Some e)
        | Inr s \<Rightarrow> do {
            e \<leftarrow> unlinkat k dirfd name (IsDir s);
            ret (Some s, path_err ''rename'' name e)
          })
     })"

definition Remove :: "unixfs \<Rightarrow> 'w kernel \<Rightarrow> string \<Rightarrow> ('w proc, fs_error option) state" where
  "Remove fs k name =
     with_safePath fs k name Some (\<lambda>dirfd name.
       if name = ''.'' then ret (Some (PathError ''remove'' name ErrBadPathResolution))
       else do {
         err \<leftarrow> unlinkat k dirfd name False;
         (case err of
            None \<Rightarrow> ret None
          | Some e \<Rightarrow> do {
              err1 \<leftarrow> unlinkat k dirfd name True;
              (case err1 of
                 None \<Rightarrow> ret None
               | Some e1 \<Rightarrow>
                   ret (Some (ensurePathError (BareErrno (if e1 \<noteq> ENOTDIR then e1 else e)) ''remove'' name)))
            })
       })"

text \<open>The last part of \<^verbatim>\<open>Rename\<close>, once both parents are open.\<close>

definition rename_checked ::
  "'w kernel \<Rightarrow> string \<Rightarrow> string \<Rightarrow> fd \<Rightarrow> string \<Rightarrow> fd \<Rightarrow> string \<Rightarrow> ('w proc, fs_error option) state" where
  "rename_checked k oldpath newpath olddirfd oldname newdirfd newname =
     (if newname = ''.'' then ret (Some (PathError ''rename'' newname ErrBadPathResolution))
      else do {
        r \<leftarrow> Lstatat k newdirfd newname;
        (case r of
           Inr _ \<Rightarrow> ret (Some (PathError ''rename'' newname ErrExist))
         | Inl e \<Rightarrow>
             if \<not> is_not_exist e then ret (Some e)
             else do {
               e \<leftarrow> sys_at k (SysRenameat olddirfd oldname newdirfd newname);
               ret (map_option (LinkError ''rename'' oldpath newpath) e)
             })
      })"

text \<open>The middle part: open the new parent, creating it when it is missing.\<close>

definition rename_retry :: "unixfs \<Rightarrow> 'w kernel \<Rightarrow> string \<Rightarrow> string \<Rightarrow> fd \<Rightarrow> string \<Rightarrow> fs_error \<Rightarrow> ('w proc, fs_error option) state" where
  "rename_retry fs k oldpath newpath olddirfd oldname e =
     (if \<not> is_not_exist e then ret (Some e)
      else (case as_path_error e of
              None \<Rightarrow> ret (Some e)
            | Some (_, missing, _) \<Rightarrow> do {
                r \<leftarrow> MkdirAll fs k missing 0x1ED;
                (case r of
                   Some e \<Rightarrow> ret (Some e)
                 | None \<Rightarrow>
                     with_safePath fs k newpath Some (rename_checked k oldpath newpath olddirfd oldname))
              }))"

definition rename_to :: "unixfs \<Rightarrow> 'w kernel \<Rightarrow> string \<Rightarrow> string \<Rightarrow> fd \<Rightarrow> string \<Rightarrow> ('w proc, fs_error option) state" where
  "rename_to fs k oldpath newpath olddirfd oldname = do {
     sp \<leftarrow> safePath fs k newpath;
     (case sp_err sp of
        None \<Rightarrow> do {
          r \<leftarrow> rename_checked k oldpath newpath olddirfd oldname (sp_dirfd sp) (sp_file sp);
          close_fds (sp_close sp);
          ret r
        }
      | Some e \<Rightarrow> do {
          close_fds (sp_close sp);
          rename_retry fs k oldpath newpath olddirfd oldname e
        })
   }"

definition Rename :: "unixfs \<Rightarrow> 'w kernel \<Rightarrow> string \<Rightarrow> string \<Rightarrow> ('w proc, fs_error option) state" where
  "Rename fs k oldpath newpath =
     (if oldpath = newpath then ret None
      else with_safePath fs k oldpath Some (\<lambda>olddirfd oldname.
        if oldname = ''.'' then ret (Some (PathError ''rename'' oldname ErrBadPathResolution))
        else do {
          r \<leftarrow> Lstatat k olddirfd oldname;
          (case r of
             Inl e \<Rightarrow> ret (Some e)
           | Inr _ \<Rightarrow> rename_to fs k oldpath newpath olddirfd oldname)
        }))"

definition Symlink :: "unixfs \<Rightarrow> 'w kernel \<Rightarrow> string \<Rightarrow> string \<Rightarrow> ('w proc, fs_error option) state" where
  "Symlink fs k oldpath newpath =
     with_safePath fs k newpath Some (\<lambda>dirfd newpath. do {
       e \<leftarrow> sys_at k (SysSymlinkat oldpath dirfd newpath);
       ret (map_option (LinkError ''symlink'' oldpath newpath) e)
     })"

end
