(* ===== verification/Sandbox.thy ===== *)
theory Sandbox
  imports Unix_Fs
begin

text \<open>
  The sandbox theorem for \<^verbatim>\<open>internal/ufs/fs_unix.go\<close>: whatever the kernel answers and whatever the
  paths are, every system call of every operation acts on a descriptor that is known to lie
  below the base directory and that is still open, and on a name that is a single entry of it.
\<close>

section \<open>What the history shows of a descriptor\<close>

text \<open>
  A descriptor is trusted when the history shows that it lies below the base: it is the base
  itself; or it was opened relative to a trusted descriptor by a call that cannot leave it
  (\<^verbatim>\<open>RESOLVE_BENEATH\<close>, or a single entry without following links); or its evaluated path is
  inside the base. Closing it ends the trust.
\<close>

definition single_name :: "string \<Rightarrow> bool" where
  "single_name n \<longleftrightarrow> n = ''.'' \<or> proper n"

definition relative_path :: "string \<Rightarrow> bool" where
  "relative_path p \<longleftrightarrow> p = ''.'' \<or> list_all proper (Split p (CHR ''/''))"

definition opens_beneath :: "bool \<Rightarrow> string \<Rightarrow> flags \<Rightarrow> bool" where
  "opens_beneath v2 p fl \<longleftrightarrow> v2 \<or> (single_name p \<and> O_NOFOLLOW \<in> fl)"

fun trust_step :: "unixfs \<Rightarrow> fd set \<Rightarrow> event \<Rightarrow> fd set" where
  "trust_step fs T (EvOpen v2 None p fl (Some n)) = (if p = basePath fs then insert n T else T)"
| "trust_step fs T (EvOpen v2 (Some d) p fl (Some n)) =
     (if d \<in> T \<and> opens_beneath v2 p fl then insert n T else T)"
| "trust_step fs T (EvEval n (Some p)) = (if unsafeIsPathInsideOfBase fs p then insert n T else T)"
| "trust_step fs T (EvClose n) = T - {n}"
| "trust_step fs T _ = T"

fun trusted_fds :: "unixfs \<Rightarrow> event list \<Rightarrow> fd set" where
  "trusted_fds fs [] = {}"
| "trusted_fds fs (e # es) = trust_step fs (trusted_fds fs es) e"

fun at_args :: "at_call \<Rightarrow> (fd \<times> string) list" where
  "at_args (SysFchmodat d n _) = [(d, n)]"
| "at_args (SysFchownat d n _ _ _) = [(d, n)]"
| "at_args (SysUtimesNanoAt d n _ _) = [(d, n)]"
| "at_args (SysMkdirat d n _) = [(d, n)]"
| "at_args (SysUnlinkat d n _) = [(d, n)]"
| "at_args (SysRenameat d n d' n') = [(d, n), (d', n')]"
| "at_args (SysSymlinkat _ d n) = [(d, n)]"

fun event_ok :: "unixfs \<Rightarrow> fd set \<Rightarrow> event \<Rightarrow> bool" where
  "event_ok fs T (EvOpen _ None p _ _) \<longleftrightarrow> p = basePath fs"
| "event_ok fs T (EvOpen _ (Some d) p _ _) \<longleftrightarrow> d \<in> T \<and> relative_path p"
| "event_ok fs T (EvAt c) \<longleftrightarrow> list_all (\<lambda>(d, n). d \<in> T \<and> single_name n) (at_args c)"
| "event_ok fs T (EvStat d n _) \<longleftrightarrow> d \<in> T \<and> single_name n"
| "event_ok fs T (EvGetdents d) \<longleftrightarrow> d \<in> T"
| "event_ok fs T (EvFstat d) \<longleftrightarrow> d \<in> T"
| "event_ok fs T _ \<longleftrightarrow> True"

fun confined :: "unixfs \<Rightarrow> event list \<Rightarrow> bool" where
  "confined fs [] \<longleftrightarrow> True"
| "confined fs (e # es) \<longleftrightarrow> confined fs es \<and> event_ok fs (trusted_fds fs es) e"

section \<open>The names that come out of path resolution\<close>

lemma proper_relative: "proper c \<Longrightarrow> relative_path c"
  by (simp add: relative_path_def Split_plain proper_no_slash)

lemma single_relative: "single_name n \<Longrightarrow> relative_path n"
  using proper_relative by (auto simp: single_name_def relative_path_def)

lemma Join_relative: "ds \<noteq> [] \<Longrightarrow> list_all proper ds \<Longrightarrow> relative_path (Join ds ''/'')"
  using Split_Join [of ds "CHR ''/''"] by (auto simp: relative_path_def list_all_iff proper_no_slash)

lemma path_Split_append:
  assumes "CHR ''/'' \<notin> set c"
  shows "path_Split (d @ ''/'' @ c) = (d @ ''/'', c)"
proof -
  have "takeWhile (\<lambda>x. x \<noteq> CHR ''/'') (rev c @ CHR ''/'' # rev d) = rev c"
    using assms by (subst takeWhile_append2) auto
  then show ?thesis by (simp add: path_Split_def)
qed

lemma path_Split_plain: "CHR ''/'' \<notin> set c \<Longrightarrow> path_Split c = ([], c)"
proof -
  assume "CHR ''/'' \<notin> set c"
  then have "takeWhile (\<lambda>x. x \<noteq> CHR ''/'') (rev c) = rev c" by (subst takeWhile_eq_all_conv) auto
  then show ?thesis unfolding path_Split_def Let_def by (simp only:) simp
qed

lemma unsafePath_Split:
  assumes "base_ok fs bs" "unsafePath fs path = Inr name" "path_Split name = (dir, file)"
  shows "single_name file \<and> (dir = [] \<or> relative_path (TrimSuffix dir ''/''))"
proof -
  let ?ds = "drop (length bs) (resolve bs (TrimPrefix path (basePath fs)))"
  have ds: "list_all proper ?ds"
    using resolve_proper assms(1) by (auto simp: base_ok_def list_all_iff dest: in_set_dropD)
  have name: "name = (if ?ds = [] then ''.'' else Join ?ds ''/'')"
    using assms(1,2) by (simp add: unsafePath_resolve split: if_splits)
  show ?thesis
  proof (cases "?ds" rule: rev_cases)
    case Nil
    then show ?thesis using name assms(3) path_Split_plain [of "''.''"] by (simp add: single_name_def)
  next
    case (snoc ds c)
    with ds have c: "proper c" "list_all proper ds" by simp_all
    show ?thesis
    proof (cases "ds = []")
      case True
      then show ?thesis
        using name snoc c assms(3) path_Split_plain [of c] by (auto simp: single_name_def proper_no_slash)
    next
      case False
      then have "name = Join ds ''/'' @ ''/'' @ c" using name snoc by (simp add: Join_append)
      then have "dir = Join ds ''/'' @ ''/''" "file = c"
        using assms(3) path_Split_append [of c "Join ds ''/''"] c(1) by (auto simp: proper_no_slash)
      then show ?thesis using False c Join_relative [of ds] by (simp add: single_name_def)
    qed
  qed
qed

section \<open>The invariant\<close>

text \<open>\<open>D\<close> is the set of descriptors the surrounding code still holds and relies on.\<close>

definition sbox :: "unixfs \<Rightarrow> fd set \<Rightarrow> 'w proc \<Rightarrow> bool" where
  "sbox fs D ps \<longleftrightarrow>
     confined fs (events ps) \<and> D \<subseteq> trusted_fds fs (events ps) \<and> D \<subseteq> {..<next_fd ps}"

lemma sbox_mono: "sbox fs D ps \<Longrightarrow> D' \<subseteq> D \<Longrightarrow> sbox fs D' ps"
  by (auto simp: sbox_def)

lemma sys_at_sbox [hoare_intros]:
  assumes "list_all (\<lambda>(d, n). d \<in> D \<and> single_name n) (at_args c)"
  shows "keeps (sbox fs D) (sys_at k c)"
  using assms
  by (auto simp: sys_at_def triple_def sbox_def list_all_iff split: prod.splits)

lemma sys_fstatat_sbox [hoare_intros]:
  "d \<in> D \<Longrightarrow> single_name n \<Longrightarrow> keeps (sbox fs D) (sys_fstatat k d n nf)"
  by (auto simp: sys_fstatat_def triple_def sbox_def)

lemma sys_getdents_sbox [hoare_intros]: "d \<in> D \<Longrightarrow> keeps (sbox fs D) (sys_getdents k d)"
  by (auto simp: sys_getdents_def triple_def sbox_def)

lemma sys_close_sbox [hoare_intros]: "n \<notin> D \<Longrightarrow> keeps (sbox fs D) (sys_close n)"
  by (auto simp: sys_close_def triple_def sbox_def)

lemma close_fds_sbox [hoare_intros]: "set ns \<inter> D = {} \<Longrightarrow> keeps (sbox fs D) (close_fds ns)"
  by (induction ns) (auto intro!: triple_ret triple_bind [where R = "\<lambda>_. sbox fs D"] sys_close_sbox)

section \<open>Opening\<close>

text \<open>What an open leaves behind: a new descriptor, which is trusted when no error is reported.\<close>

definition opened :: "unixfs \<Rightarrow> fd set \<Rightarrow> fd \<times> fs_error option \<Rightarrow> 'w proc \<Rightarrow> bool" where
  "opened fs D r ps \<longleftrightarrow>
     (case r of (n, err) \<Rightarrow> sbox fs D ps \<and> (err = None \<longrightarrow> n \<notin> D \<and> sbox fs (insert n D) ps))"

lemma sys_openat_base:
  "triple (sbox fs D) (sys_openat k v2 None (basePath fs) fl m)
     (\<lambda>r s. case r of Inl _ \<Rightarrow> sbox fs D s | Inr n \<Rightarrow> n \<notin> D \<and> sbox fs (insert n D) s)"
  by (auto simp: sys_openat_def triple_def sbox_def split: prod.splits option.splits sum.splits)

lemma sys_openat_rel:
  assumes "d \<in> D" "relative_path p"
  shows "triple (sbox fs D) (sys_openat k v2 (Some d) p fl m)
     (\<lambda>r s. case r of
        Inl _ \<Rightarrow> sbox fs D s
      | Inr n \<Rightarrow> n \<notin> D \<and> n < next_fd s \<and> sbox fs D s \<and> (opens_beneath v2 p fl \<longrightarrow> sbox fs (insert n D) s))"
  using assms
  by (auto simp: sys_openat_def triple_def sbox_def split: prod.splits option.splits sum.splits)

lemma openat_v1_base:
  "triple (sbox fs D) (openat_v1 k None (basePath fs) fl m)
     (\<lambda>r s. case r of Inl _ \<Rightarrow> sbox fs D s | Inr n \<Rightarrow> n \<notin> D \<and> sbox fs (insert n D) s)"
  unfolding openat_v1_def
  by (rule triple_bind [OF sys_openat_base triple_ret]) (auto split: sum.splits)

lemma check_final_None: "check_final fs name ev = None \<Longrightarrow> \<exists>p. ev = Inr p \<and> unsafeIsPathInsideOfBase fs p"
  by (auto simp: check_final_def split: sum.splits if_splits option.splits prod.splits)

lemma sys_eval_opened:
  "triple (\<lambda>s. n \<notin> D \<and> n < next_fd s \<and> sbox fs D s) (sys_eval k n)
     (\<lambda>ev s. opened fs D (n, check_final fs name ev) s)"
proof (rule tripleI)
  fix s :: "'a proc" and ev s'
  assume pre: "n \<notin> D \<and> n < next_fd s \<and> sbox fs D s" and run: "run_state (sys_eval k n) s = (ev, s')"
  show "opened fs D (n, check_final fs name ev) s'"
  proof (cases "k_eval k n (world s)")
    case (Inl e)
    then show ?thesis
      using pre run check_final_None [of fs name ev] by (auto simp: sys_eval_def sbox_def opened_def)
  next
    case (Inr p)
    then show ?thesis
      using pre run check_final_None [of fs name ev] by (auto simp: sys_eval_def sbox_def opened_def)
  qed
qed

lemma openat_sbox:
  assumes "d \<in> D" "relative_path name"
  shows "triple (sbox fs D) (openat fs k d name fl m) (opened fs D)"
proof (cases "useOpenat2 fs")
  case True
  have v2: "triple (sbox fs D) (openat_v2 k (Some d) name fl' m')
     (\<lambda>r s. case r of Inl _ \<Rightarrow> sbox fs D s | Inr n \<Rightarrow> n \<notin> D \<and> sbox fs (insert n D) s)" for fl' m'
    unfolding openat_v2_def
    by (rule triple_bind [OF sys_openat_rel [OF assms] triple_ret])
       (auto simp: opens_beneath_def split: sum.splits)
  show ?thesis
    using True unfolding openat_def Let_def
    by (auto intro!: triple_bind [OF v2] triple_ret simp: opened_def split: sum.splits elim: sbox_mono)
next
  case False
  have v1: "triple (sbox fs D) (openat_v1 k (Some d) name fl' m')
     (\<lambda>r s. case r of Inl _ \<Rightarrow> sbox fs D s | Inr n \<Rightarrow> n \<notin> D \<and> n < next_fd s \<and> sbox fs D s)" for fl' m'
    unfolding openat_v1_def
    by (rule triple_bind [OF sys_openat_rel [OF assms] triple_ret]) (auto split: sum.splits)
  show ?thesis
    using False unfolding openat_def Let_def
    by (auto intro!: triple_bind [OF v1] triple_sum triple_ret
        triple_bind [OF triple_pre [OF sys_eval_opened [where D = D and fs = fs and name = name]]]
        simp: opened_def)
qed

section \<open>Resolving paths\<close>

definition resolved :: "unixfs \<Rightarrow> fd set \<Rightarrow> safe_path \<Rightarrow> 'w proc \<Rightarrow> bool" where
  "resolved fs D sp ps \<longleftrightarrow>
     sbox fs D ps \<and> set (sp_close sp) \<inter> D = {} \<and>
     (sp_err sp = None \<longrightarrow>
        sp_dirfd sp \<in> set (sp_close sp) \<and> single_name (sp_file sp) \<and> sbox fs (set (sp_close sp) \<union> D) ps)"

lemma safePath_resolved:
  assumes "base_ok fs bs"
  shows "triple (sbox fs D) (safePath fs k path) (resolved fs D)"
proof (cases "unsafePath fs path")
  case (Inl e)
  then show ?thesis by (auto simp: safePath_def resolved_def intro!: triple_ret)
next
  case (Inr name)
  obtain dir base where sp: "path_Split name = (dir, base)" by fastforce
  note names = unsafePath_Split [OF assms Inr sp]
  have nested: "triple (\<lambda>s. sbox fs (insert fsfd D) s \<and> fsfd \<notin> D)
      (do { (dirfd, err) \<leftarrow> openat fs k fsfd (TrimSuffix dir ''/'') {O_DIRECTORY} 0;
            ret \<lparr>sp_dirfd = dirfd, sp_file = base,
                 sp_close = (if err = None then [dirfd, fsfd] else [fsfd]), sp_err = err\<rparr> })
      (resolved fs D)" if "dir \<noteq> []" for fsfd
  proof (rule triple_bind [OF triple_const])
    show "triple (\<lambda>s. sbox fs (insert fsfd D) s) (openat fs k fsfd (TrimSuffix dir ''/'') {O_DIRECTORY} 0)
        (opened fs (insert fsfd D))"
      using names that by (intro openat_sbox) auto
  qed (auto simp: opened_def resolved_def names elim: sbox_mono intro!: triple_ret)
  show ?thesis
    unfolding safePath_def Inr sum.case sp prod.case Let_def
    apply (rule triple_bind [OF openat_v1_base])
    apply (rule triple_sum)
     apply (auto simp: resolved_def intro!: triple_ret) []
    apply (rule triple_if)
     apply (use names in \<open>auto simp: resolved_def intro!: triple_ret elim: sbox_mono\<close>) []
    apply (auto intro: triple_pre [OF nested])
    done
qed

lemma close_fds_opened:
  assumes "set ns \<inter> D = {}"
  shows "triple (opened fs (set ns \<union> D) r) (close_fds ns) (\<lambda>_. opened fs D r)"
proof (cases r)
  case (Pair n err)
  have "triple (sbox fs (set ns \<union> D)) (close_fds ns) (\<lambda>_. sbox fs D)"
    using assms by (rule triple_pre [OF close_fds_sbox]) (auto elim: sbox_mono)
  moreover have "triple (sbox fs (insert n (set ns \<union> D))) (close_fds ns) (\<lambda>_. sbox fs (insert n D))"
    if "n \<notin> set ns" using assms that by (intro triple_pre [OF close_fds_sbox]) (auto elim: sbox_mono)
  ultimately show ?thesis
    unfolding Pair opened_def triple_def by (fastforce split: prod.splits)
qed

text \<open>
  The rule for the shared shape of the operations. \<open>C\<close> are the descriptors that are closed at
  the end, among them the directory \<open>d\<close>; \<open>Q\<close> is what the result says of the state.
\<close>

lemma with_safePath_rule:
  assumes "base_ok fs bs"
    and body: "\<And>C d n. d \<in> C \<Longrightarrow> C \<inter> D = {} \<Longrightarrow> single_name n \<Longrightarrow>
      triple (sbox fs (C \<union> D)) (body d n) (Q (C \<union> D))"
    and close: "\<And>ns r. set ns \<inter> D = {} \<Longrightarrow> triple (Q (set ns \<union> D) r) (close_fds ns) (\<lambda>_. Q D r)"
    and fail: "\<And>e s. sbox fs D s \<Longrightarrow> Q D (fl e) s"
    and closed: "\<And>e ns. set ns \<inter> D = {} \<Longrightarrow> triple (Q D (fl e)) (close_fds ns) (\<lambda>_. Q D (fl e))"
  shows "triple (sbox fs D) (with_safePath fs k path fl body) (Q D)"
  unfolding with_safePath_def
proof (rule triple_bind [OF safePath_resolved [OF assms(1)]])
  fix sp
  show "triple (resolved fs D sp)
      (do { r \<leftarrow> (case sp_err sp of None \<Rightarrow> body (sp_dirfd sp) (sp_file sp) | Some e \<Rightarrow> ret (fl e));
            close_fds (sp_close sp); ret r }) (Q D)"
  proof (cases "set (sp_close sp) \<inter> D = {}")
    case True
    note c = close [OF True] and f = closed [OF True]
    show ?thesis
    proof (cases "sp_err sp")
      case None
      show ?thesis
      proof (cases "sp_dirfd sp \<in> set (sp_close sp) \<and> single_name (sp_file sp)")
        case ok: True
        then have "triple (resolved fs D sp) (body (sp_dirfd sp) (sp_file sp)) (Q (set (sp_close sp) \<union> D))"
          using None True by (intro triple_pre [OF body]) (auto simp: resolved_def)
        then show ?thesis
          using None by (auto intro!: triple_bind [OF _ triple_bind [OF c triple_ret]])
      next
        case False
        then show ?thesis using None by (auto simp: resolved_def triple_def)
      qed
    next
      case (Some e)
      then show ?thesis
        by (auto simp: resolved_def fail intro!: triple_bind [OF triple_pre [OF f] triple_ret])
    qed
  next
    case False
    then show ?thesis by (auto simp: resolved_def triple_def)
  qed
qed

lemma with_safePath_keeps:
  assumes "base_ok fs bs"
    and "\<And>C d n. d \<in> C \<Longrightarrow> C \<inter> D = {} \<Longrightarrow> single_name n \<Longrightarrow> keeps (sbox fs (C \<union> D)) (body d n)"
  shows "keeps (sbox fs D) (with_safePath fs k path fl body)"
  using assms
  by (intro with_safePath_rule [where Q = "\<lambda>D _. sbox fs D"] triple_pre [OF close_fds_sbox])
     (auto elim: sbox_mono)

lemma with_safePath_opened:
  assumes "base_ok fs bs" "\<And>e. snd (fl e) \<noteq> None"
    and "\<And>C d n. d \<in> C \<Longrightarrow> C \<inter> D = {} \<Longrightarrow> single_name n \<Longrightarrow>
      triple (sbox fs (C \<union> D)) (body d n) (opened fs (C \<union> D))"
  shows "triple (sbox fs D) (with_safePath fs k path fl body) (opened fs D)"
proof (rule with_safePath_rule [where Q = "opened fs"])
  fix e ns assume d: "set ns \<inter> D = {}"
  have "opened fs D (fl e) s = sbox fs D s" for s :: "'a proc"
    using assms(2) [of e] by (cases "fl e") (auto simp: opened_def)
  then have eq: "opened fs D (fl e) = (sbox fs D :: 'a proc \<Rightarrow> bool)" by blast
  show "triple (opened fs D (fl e)) (close_fds ns) (\<lambda>_. opened fs D (fl e :: fd \<times> fs_error option) :: 'a proc \<Rightarrow> bool)"
    unfolding eq by (rule close_fds_sbox [OF d])
next
  fix e and s :: "'a proc" assume "sbox fs D s"
  then show "opened fs D (fl e) s" using assms(2) [of e] by (cases "fl e") (auto simp: opened_def)
qed (use assms in \<open>auto intro: close_fds_opened\<close>)

section \<open>The operations\<close>

lemmas op_intros =
  keeps_bind triple_ret triple_if triple_option triple_sum triple_prod
  sys_at_sbox sys_fstatat_sbox sys_getdents_sbox

lemma fstatat_op_sbox:
  "d \<in> D \<Longrightarrow> single_name n \<Longrightarrow> keeps (sbox fs D) (fstatat_op k op d n nf)"
  unfolding fstatat_op_def by (intro op_intros)

lemma unlinkat_sbox: "d \<in> D \<Longrightarrow> single_name n \<Longrightarrow> keeps (sbox fs D) (unlinkat k d n rm)"
  unfolding unlinkat_def by (intro op_intros) simp

lemma Chmod_sbox: "base_ok fs bs \<Longrightarrow> keeps (sbox fs D) (Chmod fs k name mode)"
  unfolding Chmod_def fchmodat_def
  by (erule with_safePath_keeps) (intro op_intros; simp)

lemma fchown_sbox: "base_ok fs bs \<Longrightarrow> keeps (sbox fs D) (fchown fs k name uid gid nf)"
  unfolding fchown_def by (erule with_safePath_keeps) (intro op_intros; simp)

lemma Chown_sbox: "base_ok fs bs \<Longrightarrow> keeps (sbox fs D) (Chown fs k name uid gid)"
  unfolding Chown_def by (intro keeps_bind triple_ret fchown_sbox)

lemma Lchown_sbox: "base_ok fs bs \<Longrightarrow> keeps (sbox fs D) (Lchown fs k name uid gid)"
  unfolding Lchown_def by (intro keeps_bind triple_ret fchown_sbox)

lemma Chtimes_sbox: "base_ok fs bs \<Longrightarrow> keeps (sbox fs D) (Chtimes fs k name at mt)"
  unfolding Chtimes_def Chtimesat_def by (erule with_safePath_keeps) (intro op_intros; simp)

lemma fstat_op_sbox: "base_ok fs bs \<Longrightarrow> keeps (sbox fs D) (fstat_op fs k op name nf)"
  unfolding fstat_op_def by (erule with_safePath_keeps) (simp add: fstatat_op_sbox)

lemma Mkdir_sbox: "base_ok fs bs \<Longrightarrow> keeps (sbox fs D) (Mkdir fs k name mode)"
  unfolding Mkdir_def mkdirat_def by (erule with_safePath_keeps) (intro op_intros; simp)

lemmas stat_sbox = fstat_op_sbox [where op = "''stat''" and nf = False, folded Stat_def]
  fstat_op_sbox [where op = "''lstat''" and nf = True, folded Lstat_def]

lemma mkdirAll_sbox: "base_ok fs bs \<Longrightarrow> keeps (sbox fs D) (mkdirAll fs k mode name)"
proof (induction fs k mode name rule: mkdirAll.induct)
  case (1 fs k mode name)
  note b = "1.prems" and IH = "1.IH" [OF refl _ "1.prems"]
  show ?case
    by (subst mkdirAll.simps, unfold Let_def)
       (intro keeps_bind triple_sum triple_ret triple_if triple_option stat_sbox [OF b] Mkdir_sbox [OF b] IH; simp)
qed

lemma MkdirAll_sbox: "base_ok fs bs \<Longrightarrow> keeps (sbox fs D) (MkdirAll fs k name mode)"
  unfolding MkdirAll_def by (intro op_intros mkdirAll_sbox)

lemma openat_single:
  "d \<in> D \<Longrightarrow> single_name n \<Longrightarrow> triple (sbox fs D) (openat fs k d n fl m) (opened fs D)"
  by (rule openat_sbox) (simp_all add: single_relative)

lemma openFile_opened: "base_ok fs bs \<Longrightarrow> triple (sbox fs D) (openFile fs k name fl m) (opened fs D)"
  unfolding openFile_def by (erule with_safePath_opened) (simp_all add: openat_single)

text \<open>What the caller of an open gets: an error, or a file whose descriptor it may rely on.\<close>

definition got_file :: "unixfs \<Rightarrow> fd set \<Rightarrow> fs_error + open_file \<Rightarrow> 'w proc \<Rightarrow> bool" where
  "got_file fs D r ps \<longleftrightarrow>
     (case r of Inl _ \<Rightarrow> sbox fs D ps | Inr (n, _) \<Rightarrow> n \<notin> D \<and> sbox fs (insert n D) ps)"

lemma got_file_sbox: "got_file fs D r ps \<Longrightarrow> sbox fs D ps"
  by (auto simp: got_file_def split: sum.splits prod.splits elim: sbox_mono)

lemma OpenFile_sbox: "base_ok fs bs \<Longrightarrow> triple (sbox fs D) (OpenFile fs k name fl m) (got_file fs D)"
  unfolding OpenFile_def
  by (rule triple_bind [OF openFile_opened])
     (auto intro!: triple_ret simp: opened_def got_file_def split: option.splits)

lemma OpenFileat_sbox:
  "d \<in> D \<Longrightarrow> single_name n \<Longrightarrow> triple (sbox fs D) (OpenFileat fs k d n fl m) (got_file fs D)"
  unfolding OpenFileat_def
  by (rule triple_bind [OF openat_single])
     (auto intro!: triple_ret simp: opened_def got_file_def split: option.splits)

lemma RemoveStat_sbox: "base_ok fs bs \<Longrightarrow> keeps (sbox fs D) (RemoveStat fs k name)"
  unfolding RemoveStat_def Lstatat_def
  by (erule with_safePath_keeps) (intro op_intros fstatat_op_sbox unlinkat_sbox; simp)

lemma Remove_sbox: "base_ok fs bs \<Longrightarrow> keeps (sbox fs D) (Remove fs k name)"
  unfolding Remove_def
  by (erule with_safePath_keeps) (intro op_intros unlinkat_sbox; simp)

lemma Symlink_sbox: "base_ok fs bs \<Longrightarrow> keeps (sbox fs D) (Symlink fs k old name)"
  unfolding Symlink_def by (erule with_safePath_keeps) (intro op_intros; simp)

lemma rename_checked_sbox:
  "od \<in> D \<Longrightarrow> nd \<in> D \<Longrightarrow> single_name on \<Longrightarrow> single_name nn \<Longrightarrow>
   keeps (sbox fs D) (rename_checked k op np od on nd nn)"
  unfolding rename_checked_def Lstatat_def by (intro op_intros fstatat_op_sbox; simp)

lemma resolved_sbox: "resolved fs D sp s \<Longrightarrow> sbox fs D s"
  by (simp add: resolved_def)

lemma close_resolved:
  "triple (resolved fs D sp) (close_fds (sp_close sp)) (\<lambda>_. sbox fs D)"
  using close_fds_sbox [of "sp_close sp" D fs]
  by (cases "set (sp_close sp) \<inter> D = {}") (auto simp: triple_def resolved_def)

text \<open>An operation that keeps every such invariant also keeps a resolved path usable.\<close>

lemma keeps_resolved:
  assumes "\<And>D. keeps (sbox fs D) m"
  shows "triple (resolved fs D sp) m (\<lambda>_. resolved fs D sp)"
  using assms [of D] assms [of "set (sp_close sp) \<union> D"] unfolding triple_def resolved_def by auto

lemma resolved_err: "resolved fs D sp s \<Longrightarrow> resolved fs D (sp\<lparr>sp_err := Some e\<rparr>) s"
  by (simp add: resolved_def)

lemma TouchPath_resolved:
  assumes b: "base_ok fs bs"
  shows "triple (sbox fs D) (TouchPath fs k path) (\<lambda>(sp, _). resolved fs D sp)"
  unfolding TouchPath_def
  by (rule triple_bind [OF safePath_resolved [OF b]], intro triple_option triple_if triple_prod)
     (auto intro!: triple_ret resolved_err triple_option
        triple_bind [OF keeps_resolved] triple_bind [OF close_resolved]
        triple_bind [OF safePath_resolved [OF b]] MkdirAll_sbox [OF b])

lemma use_resolved:
  fixes sp :: safe_path
  assumes "sp_err sp = None"
    and "\<And>C. sp_dirfd sp \<in> C \<Longrightarrow> single_name (sp_file sp) \<Longrightarrow> triple (sbox fs (C \<union> D)) m (Q (C \<union> D))"
    and "\<And>r. set (sp_close sp) \<inter> D = {} \<Longrightarrow>
      triple (Q (set (sp_close sp) \<union> D) r) (close_fds (sp_close sp)) (\<lambda>_. Q D r)"
  shows "triple (resolved fs D sp) (do { r \<leftarrow> m; close_fds (sp_close sp); ret r }) (Q D)"
proof (cases "sp_dirfd sp \<in> set (sp_close sp) \<and> set (sp_close sp) \<inter> D = {} \<and> single_name (sp_file sp)")
  case True
  then show ?thesis
    using assms(1)
    by (intro triple_bind [OF triple_pre [OF assms(2)] triple_bind [OF assms(3) triple_ret]])
       (auto simp: resolved_def)
next
  case False
  then show ?thesis using assms(1) by (auto simp: resolved_def triple_def)
qed

lemma close_got_file:
  assumes "set ns \<inter> D = {}"
  shows "triple (got_file fs (set ns \<union> D) r) (close_fds ns) (\<lambda>_. got_file fs D r)"
proof -
  have "got_file fs E r = opened fs E (case r of Inl e \<Rightarrow> (0, Some e) | Inr (n, _) \<Rightarrow> (n, None))" for E
    by (auto simp: got_file_def opened_def fun_eq_iff split: sum.splits prod.splits elim: sbox_mono)
  then show ?thesis using close_fds_opened [OF assms] by metis
qed

lemma touch_open:
  "triple (resolved fs D sp)
     (do { r \<leftarrow> (case sp_err sp of None \<Rightarrow> OpenFileat fs k (sp_dirfd sp) (sp_file sp) fl m | Some e \<Rightarrow> ret (Inl e));
           close_fds (sp_close sp); ret r }) (got_file fs D)"
proof (cases "sp_err sp")
  case None
  then show ?thesis
    using use_resolved [OF None, where Q = "got_file fs" and D = D and m = "OpenFileat fs k (sp_dirfd sp) (sp_file sp) fl m"]
    by (simp add: OpenFileat_sbox close_got_file)
next
  case (Some e)
  then show ?thesis
    by (auto simp: got_file_def intro!: triple_bind [OF close_resolved] triple_ret)
qed

lemma Touch_sbox: "base_ok fs bs \<Longrightarrow> triple (sbox fs D) (Touch fs k path fl m) (got_file fs D)"
  unfolding Touch_def
  by (rule triple_bind [OF TouchPath_resolved], assumption, rule triple_prod) (simp add: touch_open)

lemma rename_to_sbox:
  assumes b: "base_ok fs bs" and od: "od \<in> D" "single_name on"
  shows "keeps (sbox fs D) (rename_to fs k old new od on)"
  unfolding rename_to_def
proof (rule triple_bind [OF safePath_resolved [OF b]], rule triple_option)
  fix sp :: safe_path assume "sp_err sp = None"
  then show "triple (resolved fs D sp) (do {
           r \<leftarrow> rename_checked k old new od on (sp_dirfd sp) (sp_file sp);
           close_fds (sp_close sp); ret r }) (\<lambda>_. sbox fs D)"
    by (rule use_resolved [where Q = "\<lambda>D _. sbox fs D"])
       (use od in \<open>auto intro!: rename_checked_sbox triple_pre [OF close_fds_sbox] elim: sbox_mono\<close>)
next
  fix sp :: safe_path and e
  show "triple (resolved fs D sp) (do { close_fds (sp_close sp); rename_retry fs k old new od on e }) (\<lambda>_. sbox fs D)"
    unfolding rename_retry_def
    by (rule triple_bind [OF close_resolved])
       (use od in \<open>intro op_intros MkdirAll_sbox [OF b] with_safePath_keeps [OF b] rename_checked_sbox; simp\<close>)
qed

lemma Rename_sbox: "base_ok fs bs \<Longrightarrow> keeps (sbox fs D) (Rename fs k old new)"
  unfolding Rename_def Lstatat_def
  by (intro triple_if triple_ret with_safePath_keeps keeps_bind fstatat_op_sbox triple_sum rename_to_sbox; simp)

section \<open>Reading directories\<close>

text \<open>
  The kernel never lists a name with a slash in it, and \<^verbatim>\<open>Readdirnames\<close> leaves out the two dot
  entries.
\<close>

definition names_ok :: "'w kernel \<Rightarrow> bool" where
  "names_ok k \<longleftrightarrow>
     (\<forall>n w des. k_getdents k n w = Inr des \<longrightarrow> (\<forall>de \<in> set des. CHR ''/'' \<notin> set (de_name de))) \<and>
     (\<forall>n m w ns w'. k_readnames k n m w = (Inr ns, w') \<longrightarrow> list_all proper ns)"

lemma modeTypeFromDirent_sbox:
  "n \<in> D \<Longrightarrow> single_name name \<Longrightarrow> keeps (sbox fs D) (modeTypeFromDirent k de n name)"
  unfolding modeTypeFromDirent_def Lstatat_def
  by (cases "de_type de") (auto intro!: op_intros fstatat_op_sbox)

lemma readDir_loop_sbox:
  assumes "n \<in> D" "\<forall>de \<in> set des. CHR ''/'' \<notin> set (de_name de)"
  shows "keeps (sbox fs D) (readDir_loop k n name rel es des)"
  using assms
proof (induction des arbitrary: es)
  case Nil
  then show ?case by (auto intro: op_intros)
next
  case (Cons de des)
  have "single_name (de_name de)" if "\<not> skip_dent de"
    using that Cons.prems by (auto simp: skip_dent_def single_name_def proper_def)
  with Cons show ?case by (auto intro!: op_intros modeTypeFromDirent_sbox)
qed

lemma readDir_sbox:
  assumes "names_ok k" "n \<in> D"
  shows "keeps (sbox fs D) (readDir k n name rel)"
proof -
  have "triple (sbox fs D) (sys_getdents k n)
      (\<lambda>r s. sbox fs D s \<and> (\<forall>des. r = Inr des \<longrightarrow> (\<forall>de \<in> set des. CHR ''/'' \<notin> set (de_name de))))"
    using assms unfolding names_ok_def by (auto simp: sys_getdents_def triple_def sbox_def)
  then show ?thesis
    unfolding readDir_def
    by (rule triple_bind)
       (auto simp: triple_def intro!: op_intros triple_conseq [OF readDir_loop_sbox [OF assms(2)]] split: sum.splits
        dest: tripleD [OF readDir_loop_sbox [OF assms(2)]])
qed

lemma ReadDir_sbox:
  assumes "base_ok fs bs" "names_ok k"
  shows "keeps (sbox fs D) (ReadDir fs k path)"
  unfolding ReadDir_def
proof (rule with_safePath_keeps [OF assms(1)])
  fix C :: "fd set" and d n assume "d \<in> C" "single_name n"
  then have o: "triple (sbox fs (C \<union> D)) (openat fs k d n {O_DIRECTORY} 0) (opened fs (C \<union> D))"
    by (auto intro: openat_single)
  show "keeps (sbox fs (C \<union> D)) (do { (m, err) \<leftarrow> openat fs k d n {O_DIRECTORY} 0;
      (case err of None \<Rightarrow> do { r \<leftarrow> readDir k m n ''.''; sys_close m; ret r } | Some e \<Rightarrow> ret (Inl e)) })"
  proof (rule triple_bind [OF o], intro triple_prod triple_option)
    fix a and m :: fd and err :: "fs_error option" assume [simp]: "a = (m, err)" and "err = None"
    then have "triple (opened fs (C \<union> D) a) (readDir k m n ''.'') (\<lambda>_ s. sbox fs (insert m (C \<union> D)) s \<and> m \<notin> C \<union> D)"
      by (intro triple_pre [OF triple_const [OF readDir_sbox [OF assms(2)]]]) (auto simp: opened_def)
    then show "triple (opened fs (C \<union> D) a) (do { r \<leftarrow> readDir k m n ''.''; sys_close m; ret r }) (\<lambda>_. sbox fs (C \<union> D))"
      by (rule triple_bind)
         (cases "m \<in> C \<union> D", auto simp: triple_def sys_close_def sbox_def)
  qed (auto simp: opened_def intro!: triple_ret)
qed

end
