(* ===== verification/Quota.thy ===== *)
theory Quota
  imports Unix_Fs
begin

text \<open>
  The quota wrapper of \<^verbatim>\<open>internal/ufs/fs_quota.go\<close>: a limit and a usage counter around the
  sandboxed file system. The counter is atomic; \<open>Add\<close> is its compare-and-swap loop, whose one
  successful round is the model's single step.
\<close>

record quota =
  q_fs :: unixfs
  q_limit :: int

definition NewQuota :: "unixfs \<Rightarrow> int \<Rightarrow> quota" where
  "NewQuota fs limit = \<lparr>q_fs = fs, q_limit = limit\<rparr>"

definition SetLimit :: "int \<Rightarrow> quota \<Rightarrow> int \<times> quota" where
  "SetLimit l q = (q_limit q, q\<lparr>q_limit := l\<rparr>)"

definition SetUsage :: "int \<Rightarrow> ('w proc, int) state" where
  "SetUsage u = State (\<lambda>ps. (usage ps, ps\<lparr>usage := u\<rparr>))"

text \<open>The value the loop tries to store, with the 64-bit arithmetic written out.\<close>

definition add_next :: "int \<Rightarrow> int \<Rightarrow> int" where
  "add_next u i =
     (if i > 0 then (if u > i64 (MaxInt64 - i) then MaxInt64 else i64 (u + i))
      else if i < 0
      then (if i = MinInt64 then 0 else if u \<le> i64 (- i) then 0 else i64 (u + i))
      else u)"

definition Add :: "int \<Rightarrow> ('w proc, int) state" where
  "Add i = State (\<lambda>ps. let n = add_next (usage ps) i in (n, ps\<lparr>usage := n\<rparr>))"

definition CanFit :: "quota \<Rightarrow> int \<Rightarrow> int \<Rightarrow> bool" where
  "CanFit q u sz =
     (if q_limit q = -1 then False
      else if q_limit q = 0 then True
      else if u = -1 then True
      else if sz \<le> 0 then True
      else if u \<ge> q_limit q then False
      else sz \<le> i64 (q_limit q - u))"

definition quota_Remove :: "quota \<Rightarrow> 'w kernel \<Rightarrow> string \<Rightarrow> ('w proc, fs_error option) state" where
  "quota_Remove q k name = do {
     (s, err) \<leftarrow> RemoveStat (q_fs q) k name;
     (case err of
        Some e \<Rightarrow> ret (Some e)
      | None \<Rightarrow>
          (case s of
             Some info \<Rightarrow>
               if \<not> IsRegular info then ret None
               else do { _ \<leftarrow> Add (i64 (- fi_size info)); ret None }
           | None \<Rightarrow> ret None))
   }"

definition quota_unlinkat :: "quota \<Rightarrow> 'w kernel \<Rightarrow> fd \<Rightarrow> string \<Rightarrow> bool \<Rightarrow> ('w proc, errno option) state" where
  "quota_unlinkat q k dirfd name rmdir = do {
     if_st (\<not> rmdir) (do {
       r \<leftarrow> Lstatat k dirfd name;
       (case r of
          Inr s \<Rightarrow> if_st (IsRegular s) (do { _ \<leftarrow> Add (i64 (- fi_size s)); ret () })
        | Inl _ \<Rightarrow> ret ())
     });
     unlinkat k dirfd name rmdir
   }"

section \<open>The counter\<close>

text \<open>On values of the type \<^verbatim>\<open>int64\<close> with a known (non-negative) usage, \<open>Add\<close> is addition clamped to
  the range from zero to the largest value.\<close>

lemma add_next_clamp:
  assumes "in_i64 i" "0 \<le> u" "in_i64 u"
  shows "add_next u i = max 0 (min MaxInt64 (u + i))"
proof -
  have "0 < i \<Longrightarrow> i64 (MaxInt64 - i) = MaxInt64 - i" "i < 0 \<Longrightarrow> i \<noteq> MinInt64 \<Longrightarrow> i64 (- i) = - i"
    using assms(1) by (auto intro!: i64_id simp: in_i64_def)
  moreover have "0 < i \<Longrightarrow> u \<le> MaxInt64 - i \<Longrightarrow> i64 (u + i) = u + i" "i < 0 \<Longrightarrow> i64 (u + i) = u + i"
    using assms by (auto intro!: i64_id simp: in_i64_def)
  ultimately show ?thesis
    using assms by (auto simp: add_next_def in_i64_def max_def min_def)
qed

lemma add_next_range: "0 \<le> u \<Longrightarrow> in_i64 u \<Longrightarrow> in_i64 i \<Longrightarrow> 0 \<le> add_next u i \<and> in_i64 (add_next u i)"
  by (simp add: add_next_clamp) (simp add: in_i64_def)

text \<open>A size that fits can be added without passing the limit; an unknown usage fits anything.\<close>

lemma CanFit_iff:
  assumes "in_i64 (q_limit q)" "in_i64 sz" "0 \<le> u" "in_i64 u" "0 < q_limit q" "0 < sz"
  shows "CanFit q u sz \<longleftrightarrow> u + sz \<le> q_limit q"
proof -
  have "i64 (q_limit q - u) = q_limit q - u"
    using assms by (intro i64_id) (auto simp: in_i64_def)
  then show ?thesis using assms by (auto simp: CanFit_def)
qed

lemma CanFit_Add:
  assumes "in_i64 (q_limit q)" "in_i64 sz" "0 \<le> u" "in_i64 u" "0 < q_limit q" "0 < sz" "CanFit q u sz"
  shows "add_next u sz = u + sz \<and> add_next u sz \<le> q_limit q"
  using assms CanFit_iff [OF assms(1-6)] by (auto simp: add_next_clamp in_i64_def)

section \<open>Properties\<close>

text \<open>A size that the quota accepts can be added to the counter exactly, and the counter then
  does not pass the limit; whatever is added, positive or negative, the counter stays in the range
  of its type and never becomes negative.\<close>

theorem quota_counter:
  assumes "in_i64 (q_limit q)" "0 < q_limit q" "0 \<le> u" "in_i64 u" "in_i64 sz"
  shows "add_next u sz = max 0 (min MaxInt64 (u + sz)) \<and>
    (0 < sz \<and> CanFit q u sz \<longrightarrow> add_next u sz = u + sz \<and> u + sz \<le> q_limit q)"
  using assms CanFit_Add [OF assms(1,5,3,4,2)] by (auto simp: add_next_clamp)

theorem quota_counter_witness:
  "add_next 90 20 = 110 \<and> add_next 90 10 = 100 \<and> add_next 5 (-8) = 0 \<and>
   CanFit (NewQuota (NewUnixFS ''/srv'' False) 100) 90 10 \<and> \<not> CanFit (NewQuota (NewUnixFS ''/srv'' False) 100) 90 20"
proof -
  let ?q = "NewQuota (NewUnixFS ''/srv'' False) 100"
  have l: "in_i64 (q_limit ?q)" "0 < q_limit ?q" by (simp_all add: NewQuota_def in_i64_def)
  show ?thesis
    using quota_counter [OF l, of 90 20] quota_counter [OF l, of 90 10] quota_counter [OF l, of 5 "-8"]
    by (simp add: in_i64_def NewQuota_def CanFit_def i64_def)
qed

end
