(* ===== verification/Remove_All.thy ===== *)
theory Remove_All
  imports Sandbox Quota
begin

text \<open>
  Recursive removal, \<^verbatim>\<open>internal/ufs/removeall_unix.go\<close>, which works for both file systems of the
  package through the interface \<open>remover\<close> (Go's \<^verbatim>\<open>unixFS\<close>). The directory tree is as deep and
  as large as the kernel says, so the recursion carries fuel, one unit for each directory
  opened or entry visited below it; the outer \<open>None\<close> of a result means that it ran out.
\<close>

record 'w remover =
  rm_Open :: "string \<Rightarrow> ('w proc, fs_error + open_file) state"
  rm_Remove :: "string \<Rightarrow> ('w proc, fs_error option) state"
  rm_unlinkat :: "fd \<Rightarrow> string \<Rightarrow> bool \<Rightarrow> ('w proc, errno option) state"

definition unix_remover :: "unixfs \<Rightarrow> 'w kernel \<Rightarrow> 'w remover" where
  "unix_remover fs k = \<lparr>rm_Open = Open fs k, rm_Remove = Remove fs k, rm_unlinkat = unlinkat k\<rparr>"

definition quota_remover :: "quota \<Rightarrow> 'w kernel \<Rightarrow> 'w remover" where
  "quota_remover q k =
     \<lparr>rm_Open = Open (q_fs q) k, rm_Remove = quota_Remove q k, rm_unlinkat = quota_unlinkat q k\<rparr>"

definition openFdAt :: "'w kernel \<Rightarrow> fd \<Rightarrow> string \<Rightarrow> ('w proc, errno + fd) state" where
  "openFdAt k dirfd name = sys_openat k False (Some dirfd) name {O_CLOEXEC, O_NOFOLLOW} 0"

text \<open>One batch of names: each entry is removed, and the failures are counted.\<close>

fun count_failures :: "(string \<Rightarrow> ('s, fs_error option option) state) \<Rightarrow> string list \<Rightarrow> ('s, nat option) state" where
  "count_failures rm [] = ret (Some 0)"
| "count_failures rm (name # names) = do {
     r \<leftarrow> rm name;
     (case r of
        None \<Rightarrow> ret None
      | Some err \<Rightarrow> do {
          c \<leftarrow> count_failures rm names;
          ret (map_option (\<lambda>c. if err = None then c else Suc c) c)
        })
   }"

abbreviation (input) reqSize :: nat where "reqSize \<equiv> 1024"

text \<open>
  The two functions call each other. \<open>remove_batches\<close> is the inner loop of \<^verbatim>\<open>removeContentsFrom\<close>: it
  reads names until a batch is not all failures and returns the size of that batch, or
  the error that ends the whole function. The errors of the entries are kept in a variable of
  the source that is never read, so they do not appear here.
\<close>

fun removeAllFrom :: "nat \<Rightarrow> 'w remover \<Rightarrow> 'w kernel \<Rightarrow> fd \<Rightarrow> string \<Rightarrow> ('w proc, fs_error option option) state"
and removeContentsFrom :: "nat \<Rightarrow> 'w remover \<Rightarrow> 'w kernel \<Rightarrow> fd \<Rightarrow> string \<Rightarrow> ('w proc, fs_error option option) state"
and remove_batches :: "nat \<Rightarrow> 'w remover \<Rightarrow> 'w kernel \<Rightarrow> fd \<Rightarrow> string \<Rightarrow> ('w proc, (fs_error option + nat) option) state"
where
  "removeAllFrom 0 rm k parentFd base = ret None"
| "removeAllFrom (Suc n) rm k parentFd base = do {
     err \<leftarrow> rm_unlinkat rm parentFd base False;
     (case err of
        None \<Rightarrow> ret (Some None)
      | Some e \<Rightarrow>
          if e = ENOENT then ret (Some None)
          else if e \<noteq> EISDIR \<and> e \<noteq> EPERM \<and> e \<noteq> EACCES
          then ret (Some (Some (PathError ''unlinkat'' base (Errno e))))
          else do {
            st \<leftarrow> sys_fstatat k parentFd base True;
            (case st of
               Inl se \<Rightarrow>
                 ret (Some (if se = ENOENT then None else Some (PathError ''fstatat'' base (Errno se))))
             | Inr s \<Rightarrow>
                 if st_mode s AND S_IFMT \<noteq> 0x4000
                 then ret (Some (Some (PathError ''unlinkat'' base (Errno e))))
                 else do {
                   rec \<leftarrow> removeContentsFrom n rm k parentFd base;
                   (case rec of
                      None \<Rightarrow> ret None
                    | Some recurseErr \<Rightarrow> do {
                        ue \<leftarrow> rm_unlinkat rm parentFd base True;
                        ret (Some
                          (if ue = None \<or> ue = Some ENOENT then None
                           else if recurseErr \<noteq> None then recurseErr
                           else Some (ensurePathError (BareErrno e) ''unlinkat'' base)))
                      })
                 })
          })
   }"
| "removeContentsFrom 0 rm k parentFd base = ret None"
| "removeContentsFrom (Suc n) rm k parentFd base = do {
     f \<leftarrow> openFdAt k parentFd base;
     (case f of
        Inl e \<Rightarrow> ret (Some None)
      | Inr dir \<Rightarrow> do {
          r \<leftarrow> remove_batches n rm k dir base;
          sys_close dir;
          (case r of
             None \<Rightarrow> ret None
           | Some (Inl err) \<Rightarrow> ret (Some err)
           | Some (Inr respSize) \<Rightarrow>
               if respSize < reqSize then ret (Some None) else removeContentsFrom n rm k parentFd base)
        })
   }"
| "remove_batches 0 rm k dir base = ret None"
| "remove_batches (Suc n) rm k dir base = do {
     r \<leftarrow> sys_readnames k dir reqSize;
     (case r of
        Inl e \<Rightarrow> ret (Some (Inl (if e = ENOENT then None else Some (PathError ''readdirnames'' base (Errno e)))))
      | Inr names \<Rightarrow> do {
          c \<leftarrow> count_failures (removeAllFrom n rm k dir) names;
          (case c of
             None \<Rightarrow> ret None
           | Some numErr \<Rightarrow>
               if numErr \<noteq> reqSize then ret (Some (Inr (length names))) else remove_batches n rm k dir base)
        })
   }"

text \<open>The error the callers add their directory to.\<close>

definition below :: "string \<Rightarrow> string \<Rightarrow> string \<Rightarrow> fs_error \<Rightarrow> fs_error" where
  "below parentDir op base err =
     (case err of
        PathError op' path c \<Rightarrow> convertErrorType (PathError op' (parentDir @ ''/'' @ path) c)
      | _ \<Rightarrow> ensurePathError err op base)"

definition removeAll :: "nat \<Rightarrow> 'w remover \<Rightarrow> 'w kernel \<Rightarrow> string \<Rightarrow> ('w proc, fs_error option option) state" where
  "removeAll fuel rm k path =
     (if path = [] then ret (Some None)
      else if endsWithDot path then ret (Some (Some (PathError ''removeall'' path (Errno EINVAL))))
      else do {
        err \<leftarrow> rm_Remove rm path;
        (case err of
           None \<Rightarrow> ret (Some None)
         | Some e \<Rightarrow>
             if is_not_exist e then ret (Some None)
             else (let (parentDir, base) = splitPath path in do {
               parent \<leftarrow> rm_Open rm parentDir;
               (case parent of
                  Inl e \<Rightarrow> ret (Some (if is_not_exist e then None else Some e))
                | Inr (fd, _) \<Rightarrow> do {
                    r \<leftarrow> removeAllFrom fuel rm k fd base;
                    sys_close fd;
                    ret (map_option (map_option (below parentDir ''removeallfrom'' base)) r)
                  })
             }))
      })"

definition removeContents :: "nat \<Rightarrow> 'w remover \<Rightarrow> 'w kernel \<Rightarrow> string \<Rightarrow> ('w proc, fs_error option option) state" where
  "removeContents fuel rm k path =
     (if path = [] then ret (Some None)
      else (let (parentDir, base) = splitPath path in do {
        parent \<leftarrow> rm_Open rm parentDir;
        (case parent of
           Inl e \<Rightarrow> ret (Some (if is_not_exist e then None else Some e))
         | Inr (fd, _) \<Rightarrow> do {
             r \<leftarrow> removeContentsFrom fuel rm k fd base;
             sys_close fd;
             ret (map_option (map_option (below parentDir ''removecontentsfrom'' base)) r)
           })
      }))"

definition RemoveAll :: "nat \<Rightarrow> unixfs \<Rightarrow> 'w remover \<Rightarrow> 'w kernel \<Rightarrow> string \<Rightarrow> ('w proc, fs_error option option) state" where
  "RemoveAll fuel fs rm k name =
     (case unsafePath fs name of
        Inl e \<Rightarrow> ret (Some (Some e))
      | Inr name \<Rightarrow>
          if name = ''.'' then ret (Some (Some (PathError ''removeall'' name ErrBadPathResolution)))
          else removeAll fuel rm k name)"

definition RemoveContents :: "nat \<Rightarrow> unixfs \<Rightarrow> 'w remover \<Rightarrow> 'w kernel \<Rightarrow> string \<Rightarrow> ('w proc, fs_error option option) state" where
  "RemoveContents fuel fs rm k name =
     (case unsafePath fs name of
        Inl e \<Rightarrow> ret (Some (Some e))
      | Inr name \<Rightarrow> removeContents fuel rm k name)"

section \<open>Removal stays in the sandbox\<close>

text \<open>
  What recursive removal relies on of the file system it is given; both file systems of the
  package provide it.
\<close>

locale safe_remover =
  fixes mk :: "unixfs \<Rightarrow> 'w kernel \<Rightarrow> 'w remover"
  assumes mk_Open: "base_ok fs bs \<Longrightarrow> triple (sbox fs D) (rm_Open (mk fs k) p) (got_file fs D)"
    and mk_Remove: "base_ok fs bs \<Longrightarrow> keeps (sbox fs D) (rm_Remove (mk fs k) p)"
    and mk_unlinkat: "d \<in> D \<Longrightarrow> single_name n \<Longrightarrow> keeps (sbox fs D) (rm_unlinkat (mk fs k) d n b)"
begin

lemma count_failures_sbox:
  assumes "\<And>n. proper n \<Longrightarrow> keeps (sbox fs D) (rm n)" "list_all proper ns"
  shows "keeps (sbox fs D) (count_failures rm ns)"
  using assms(2) by (induction ns) (auto intro!: keeps_bind triple_ret triple_option assms(1))

lemma readnames_sbox:
  assumes "names_ok k" "d \<in> D"
  shows "triple (sbox fs D) (sys_readnames k d m) (\<lambda>r s. sbox fs D s \<and> (\<forall>ns. r = Inr ns \<longrightarrow> list_all proper ns))"
  using assms unfolding names_ok_def
  by (fastforce simp: sys_readnames_def triple_def sbox_def split: prod.splits)

lemma openFdAt_sbox:
  assumes "d \<in> D" "single_name n"
  shows "triple (sbox fs D) (openFdAt k d n)
    (\<lambda>r s. case r of Inl _ \<Rightarrow> sbox fs D s | Inr m \<Rightarrow> m \<notin> D \<and> sbox fs (insert m D) s)"
  unfolding openFdAt_def
  by (rule triple_post [OF sys_openat_rel]) (use assms in \<open>auto simp: opens_beneath_def single_relative split: sum.splits\<close>)

lemma close_dir:
  "triple (\<lambda>s. sbox fs (insert m D) s \<and> m \<notin> D) (sys_close m) (\<lambda>_. sbox fs D)"
  by (auto simp: sys_close_def triple_def sbox_def)

lemma removal_sbox:
  assumes "names_ok k"
  shows "d \<in> D \<Longrightarrow> single_name b \<Longrightarrow> keeps (sbox fs D) (removeAllFrom n (mk fs k) k d b)"
    and "d \<in> D \<Longrightarrow> single_name b \<Longrightarrow> keeps (sbox fs D) (removeContentsFrom n (mk fs k) k d b)"
    and "d \<in> D \<Longrightarrow> keeps (sbox fs D) (remove_batches n (mk fs k) k d b)"
proof (induction n arbitrary: D d b)
  case 0
  { case 1 then show ?case by (simp add: triple_ret) }
  { case 2 then show ?case by (simp add: triple_ret) }
  { case 3 then show ?case by (simp add: triple_ret) }
next
  case (Suc n)
  { case 1
    then show ?case
      by (auto intro!: op_intros Suc.IH mk_unlinkat) }
  { case 2
    have dir: "triple (\<lambda>s. m \<notin> D \<and> sbox fs (insert m D) s) (remove_batches n (mk fs k) k m b)
        (\<lambda>_ s. sbox fs (insert m D) s \<and> m \<notin> D)" for m
      by (rule triple_pre [OF triple_const [OF Suc.IH(3)]]) auto
    show ?case
      unfolding removeContentsFrom.simps
      by (rule triple_bind [OF openFdAt_sbox [OF 2]], rule triple_sum)
         (use 2 in \<open>auto intro!: triple_ret triple_bind [OF dir] triple_bind [OF close_dir] triple_option triple_sum
            triple_if Suc.IH(2)\<close>) }
  { case 3
    have "triple (\<lambda>s. sbox fs D s \<and> list_all proper ns) (count_failures (removeAllFrom n (mk fs k) k d) ns)
        (\<lambda>_. sbox fs D)" for ns
      using 3 by (cases "list_all proper ns")
        (auto simp: triple_def dest!: tripleD [OF count_failures_sbox [OF Suc.IH(1)], rotated 2] simp: single_name_def) 
    then show ?case
      unfolding remove_batches.simps
      by (intro triple_bind [OF readnames_sbox [OF assms 3]])
         (use 3 in \<open>auto intro!: triple_sum triple_ret triple_bind triple_option triple_if Suc.IH(3)\<close>) }
qed

lemma splitPath_single: "relative_path p \<Longrightarrow> single_name (snd (splitPath p))"
proof (cases "p = ''.''")
  case True
  then show ?thesis
    by (simp add: splitPath_def strip_trailing_id single_name_def Let_def)
next
  case False
  assume "relative_path p"
  with False have ps: "list_all proper (Split p (CHR ''/''))" by (simp add: relative_path_def)
  obtain ds c where dc: "Split p (CHR ''/'') = ds @ [c]"
    using Split_nonempty by (metis rev_exhaust)
  then have "p = Join (ds @ [c]) ''/''" using Join_Split [of p "CHR ''/''"] by simp
  then show ?thesis using splitPath_Join [of ds c] ps dc by (simp add: single_name_def)
qed

lemma open_then:
  assumes "base_ok fs bs" "\<And>m. keeps (sbox fs (insert m D)) (body m)"
  shows "keeps (sbox fs D) (do {
      parent \<leftarrow> rm_Open (mk fs k) p;
      (case parent of Inl e \<Rightarrow> ret (f e) | Inr (m, _) \<Rightarrow> do { r \<leftarrow> body m; sys_close m; ret (g r) }) })"
proof (rule triple_bind [OF mk_Open [OF assms(1)]], intro triple_sum triple_prod)
  fix a :: "fs_error + open_file" and v m nm assume a: "a = Inr v" "v = (m, nm)"
  have "triple (got_file fs D a) (body m) (\<lambda>_ s. sbox fs (insert m D) s \<and> m \<notin> D)"
    by (rule triple_pre [OF triple_const [OF assms(2)]]) (auto simp: a got_file_def)
  then show "triple (got_file fs D a) (do { r \<leftarrow> body m; sys_close m; ret (g r) }) (\<lambda>_. sbox fs D)"
    by (rule triple_bind) (auto intro!: triple_bind [OF close_dir] triple_ret)
qed (auto simp: got_file_def intro!: triple_ret)

lemma removeAll_sbox:
  assumes "base_ok fs bs" "names_ok k" "relative_path p"
  shows "keeps (sbox fs D) (removeAll n (mk fs k) k p)"
proof -
  obtain d b where sp: "splitPath p = (d, b)" by fastforce
  then have "single_name b" using splitPath_single [OF assms(3)] by simp
  then show ?thesis
    unfolding removeAll_def sp Let_def prod.case
    by (intro triple_if triple_ret keeps_bind triple_option mk_Remove [OF assms(1)] open_then [OF assms(1)]
        removal_sbox(1) [OF assms(2)]; simp)
qed

lemma removeContents_sbox:
  assumes "base_ok fs bs" "names_ok k" "relative_path p"
  shows "keeps (sbox fs D) (removeContents n (mk fs k) k p)"
proof -
  obtain d b where sp: "splitPath p = (d, b)" by fastforce
  then have "single_name b" using splitPath_single [OF assms(3)] by simp
  then show ?thesis
    unfolding removeContents_def sp Let_def prod.case
    by (intro triple_if triple_ret open_then [OF assms(1)] removal_sbox(2) [OF assms(2)]; simp)
qed

lemma unsafePath_relative: "base_ok fs bs \<Longrightarrow> unsafePath fs p = Inr name \<Longrightarrow> relative_path name"
  using Join_relative [of "drop (length bs) (resolve bs (TrimPrefix p (basePath fs)))"]
    resolve_proper [of bs "TrimPrefix p (basePath fs)"]
  by (auto simp: unsafePath_resolve base_ok_def relative_path_def list_all_iff split: if_splits dest: in_set_dropD)

lemma RemoveAll_sbox:
  "base_ok fs bs \<Longrightarrow> names_ok k \<Longrightarrow> keeps (sbox fs D) (RemoveAll n fs (mk fs k) k p)"
  unfolding RemoveAll_def
  by (intro triple_sum triple_ret triple_if removeAll_sbox unsafePath_relative)

lemma RemoveContents_sbox:
  "base_ok fs bs \<Longrightarrow> names_ok k \<Longrightarrow> keeps (sbox fs D) (RemoveContents n fs (mk fs k) k p)"
  unfolding RemoveContents_def
  by (intro triple_sum triple_ret removeContents_sbox unsafePath_relative)

end

lemma Open_sbox: "base_ok fs bs \<Longrightarrow> triple (sbox fs D) (Open fs k p) (got_file fs D)"
  unfolding Open_def by (rule OpenFile_sbox)

lemma Add_sbox: "keeps (sbox fs D) (Add i)"
  by (auto simp: Add_def triple_def sbox_def Let_def)

lemma quota_Remove_sbox: "base_ok fs bs \<Longrightarrow> q_fs q = fs \<Longrightarrow> keeps (sbox fs D) (quota_Remove q k p)"
  unfolding quota_Remove_def
  by (auto intro!: keeps_bind triple_prod triple_option triple_ret triple_if RemoveStat_sbox Add_sbox)

lemma quota_unlinkat_sbox:
  "d \<in> D \<Longrightarrow> single_name n \<Longrightarrow> keeps (sbox fs D) (quota_unlinkat q k d n b)"
  unfolding quota_unlinkat_def Lstatat_def
  by (auto intro!: keeps_bind triple_if_st fstatat_op_sbox triple_sum triple_ret Add_sbox unlinkat_sbox)

interpretation unix_rm: safe_remover unix_remover
  by unfold_locales (auto simp: unix_remover_def intro: Open_sbox Remove_sbox unlinkat_sbox)

interpretation quota_rm: safe_remover "\<lambda>fs. quota_remover (NewQuota fs l)" for l
  by unfold_locales
     (auto simp: quota_remover_def NewQuota_def intro: Open_sbox quota_Remove_sbox quota_unlinkat_sbox)

end
