(* ===== verification/Fs_Api.thy ===== *)
theory Fs_Api
  imports Remove_All
begin

text \<open>
  The public operations of \<^verbatim>\<open>internal/ufs\<close> as requests, so that one theorem covers every sequence of
  them: the sandbox is never left.
\<close>

datatype fs_request =
  ReqChmod string file_mode
| ReqChown string int int
| ReqLchown string int int
| ReqChtimes string "int option" "int option"
| ReqMkdir string file_mode
| ReqMkdirAll string file_mode
| ReqOpenFile string flags file_mode
| ReqTouch string flags file_mode
| ReqReadDir string
| ReqStat string
| ReqLstat string
| ReqRemove string
| ReqQuotaRemove string
| ReqRemoveAll nat string
| ReqQuotaRemoveAll nat string
| ReqRemoveContents nat string
| ReqRename string string
| ReqSymlink string string

abbreviation discard :: "('s, 'a) state \<Rightarrow> ('s, unit) state" where
  "discard m \<equiv> m \<bind> (\<lambda>_. ret ())"

fun perform :: "quota \<Rightarrow> 'w kernel \<Rightarrow> fs_request \<Rightarrow> ('w proc, unit) state" where
  "perform q k (ReqChmod p m) = discard (Chmod (q_fs q) k p m)"
| "perform q k (ReqChown p u g) = discard (Chown (q_fs q) k p u g)"
| "perform q k (ReqLchown p u g) = discard (Lchown (q_fs q) k p u g)"
| "perform q k (ReqChtimes p a m) = discard (Chtimes (q_fs q) k p a m)"
| "perform q k (ReqMkdir p m) = discard (Mkdir (q_fs q) k p m)"
| "perform q k (ReqMkdirAll p m) = discard (MkdirAll (q_fs q) k p m)"
| "perform q k (ReqOpenFile p fl m) = discard (OpenFile (q_fs q) k p fl m)"
| "perform q k (ReqTouch p fl m) = discard (Touch (q_fs q) k p fl m)"
| "perform q k (ReqReadDir p) = discard (ReadDir (q_fs q) k p)"
| "perform q k (ReqStat p) = discard (Stat (q_fs q) k p)"
| "perform q k (ReqLstat p) = discard (Lstat (q_fs q) k p)"
| "perform q k (ReqRemove p) = discard (Remove (q_fs q) k p)"
| "perform q k (ReqQuotaRemove p) = discard (quota_Remove q k p)"
| "perform q k (ReqRemoveAll n p) = discard (RemoveAll n (q_fs q) (unix_remover (q_fs q) k) k p)"
| "perform q k (ReqQuotaRemoveAll n p) = discard (RemoveAll n (q_fs q) (quota_remover q k) k p)"
| "perform q k (ReqRemoveContents n p) = discard (RemoveContents n (q_fs q) (unix_remover (q_fs q) k) k p)"
| "perform q k (ReqRename p p') = discard (Rename (q_fs q) k p p')"
| "perform q k (ReqSymlink t p) = discard (Symlink (q_fs q) k t p)"

fun perform_all :: "quota \<Rightarrow> 'w kernel \<Rightarrow> fs_request list \<Rightarrow> ('w proc, unit) state" where
  "perform_all q k [] = ret ()"
| "perform_all q k (r # rs) = do { perform q k r; perform_all q k rs }"

lemma got_file_keeps: "triple P m (got_file fs D) \<Longrightarrow> triple P m (\<lambda>_. sbox fs D)"
  by (erule triple_post) (rule got_file_sbox)

lemma quota_RemoveAll_sbox:
  assumes "base_ok (q_fs q) bs" "names_ok k"
  shows "keeps (sbox (q_fs q) D) (RemoveAll n (q_fs q) (quota_remover q k) k p)"
  using quota_rm.RemoveAll_sbox [OF assms, of D n "q_limit q" p]
  by (cases q) (simp add: NewQuota_def)

lemma perform_sbox:
  assumes b: "base_ok (q_fs q) bs" and n: "names_ok k"
  shows "keeps (sbox (q_fs q) D) (perform q k r)"
  by (cases r)
     (simp_all add: Stat_def Lstat_def,
      (intro keeps_bind triple_ret Chmod_sbox [OF b] Chown_sbox [OF b] Lchown_sbox [OF b] Chtimes_sbox [OF b]
        Mkdir_sbox [OF b] MkdirAll_sbox [OF b] got_file_keeps OpenFile_sbox [OF b] Touch_sbox [OF b]
        ReadDir_sbox [OF b n] fstat_op_sbox [OF b] Remove_sbox [OF b] quota_Remove_sbox [OF b refl]
        unix_rm.RemoveAll_sbox [OF b n] quota_RemoveAll_sbox [OF b n] unix_rm.RemoveContents_sbox [OF b n]
        Rename_sbox [OF b] Symlink_sbox [OF b]; simp)+)

lemma perform_all_sbox:
  "base_ok (q_fs q) bs \<Longrightarrow> names_ok k \<Longrightarrow> keeps (sbox (q_fs q) D) (perform_all q k rs)"
  by (induction rs) (auto intro!: keeps_bind triple_ret perform_sbox)

section \<open>A small kernel for examples\<close>

text \<open>Every call succeeds; every descriptor evaluates to the same path; directories are empty.\<close>

definition quiet_kernel :: "string \<Rightarrow> 32 word \<Rightarrow> int \<Rightarrow> unit kernel" where
  "quiet_kernel final mode sz =
     \<lparr>k_openat = (\<lambda>_ _ _ _ _ _ w. (None, w)), k_eval = (\<lambda>_ _. Inr final),
      k_at = (\<lambda>_ w. (None, w)),
      k_fstatat = (\<lambda>_ _ _ _. Inr \<lparr>st_mode = mode, st_size = sz, st_mtim = 0, st_nlink = 1, st_ino = 2\<rparr>),
      k_fstat = (\<lambda>_ _. Inr \<lparr>st_mode = mode, st_size = sz, st_mtim = 0, st_nlink = 1, st_ino = 2\<rparr>),
      k_getdents = (\<lambda>_ _. Inr []), k_readnames = (\<lambda>_ _ w. (Inr [], w))\<rparr>"

definition start :: "unit proc" where
  "start = \<lparr>world = (), next_fd = 3, open_fds = {}, events = [], usage = 0\<rparr>"

lemma quiet_names_ok: "names_ok (quiet_kernel final mode sz)"
  by (simp add: names_ok_def quiet_kernel_def)

end
