(* ===== verification/Fs_Frame.thy ===== *)
theory Fs_Frame
  imports Quota
begin

text \<open>
  What the system calls leave alone. A property of the process that does not look at the world,
  the descriptors or the history is kept by every operation of the sandboxed file system; the
  usage counter of the quota is the instance the accounting proofs use.
\<close>

locale syscall_frame =
  fixes I :: "'w proc \<Rightarrow> bool"
  assumes frame: "I ps \<Longrightarrow> I (ps\<lparr>world := w, next_fd := n, open_fds := F, events := es\<rparr>)"
begin

lemma frame_upd:
  "I ps \<Longrightarrow> I (ps\<lparr>events := es\<rparr>)"
  "I ps \<Longrightarrow> I (ps\<lparr>world := w, events := es\<rparr>)"
  "I ps \<Longrightarrow> I (ps\<lparr>open_fds := F, events := es\<rparr>)"
  "I ps \<Longrightarrow> I (ps\<lparr>world := w, next_fd := n, open_fds := F, events := es\<rparr>)"
  using frame [of ps, where w = "world ps" and n = "next_fd ps" and F = "open_fds ps" and es = es]
    frame [of ps, where w = w and n = "next_fd ps" and F = "open_fds ps" and es = es]
    frame [of ps, where w = "world ps" and n = "next_fd ps" and F = F and es = es]
    frame [of ps, where w = w and n = n and F = F and es = es]
  by simp_all

lemma sys_keeps:
  "keeps I (sys_openat k v d name fl m)" "keeps I (sys_eval k f)" "keeps I (sys_at k c)"
  "keeps I (sys_fstatat k f name nf)" "keeps I (sys_fstat k f)" "keeps I (sys_getdents k f)"
  "keeps I (sys_readnames k f j)" "keeps I (sys_close f)"
  by (auto simp: triple_def sys_openat_def sys_eval_def sys_at_def sys_fstatat_def sys_fstat_def sys_getdents_def
      sys_readnames_def sys_close_def frame_upd split: prod.splits option.splits sum.splits)

lemmas frame_intros = sys_keeps triple_ret triple_if triple_option triple_sum triple_prod

lemma bind_keeps: "keeps I m \<Longrightarrow> (\<And>a. keeps I (f a)) \<Longrightarrow> keeps I (m \<bind> f)"
  by (rule triple_bind)

lemma openat_keeps: "keeps I (openat fs k d name fl m)"
  unfolding openat_def openat_v1_def openat_v2_def Let_def by (intro frame_intros bind_keeps)

lemma close_keeps: "keeps I (close_fds ns)"
  by (induction ns) (auto intro!: frame_intros bind_keeps)

lemma safePath_keeps: "keeps I (safePath fs k p)"
  unfolding safePath_def openat_v1_def Let_def
  by (intro frame_intros bind_keeps openat_keeps)

lemma with_keeps: "(\<And>d n. keeps I (body d n)) \<Longrightarrow> keeps I (with_safePath fs k p fl body)"
  unfolding with_safePath_def by (intro frame_intros bind_keeps safePath_keeps close_keeps)

lemma fstatat_keeps: "keeps I (fstatat_op k op d name nf)"
  unfolding fstatat_op_def by (intro frame_intros bind_keeps)

lemma fstat_keeps: "keeps I (fstat_op fs k op p nf)"
  unfolding fstat_op_def by (intro with_keeps fstatat_keeps)

lemma Stat_keeps: "keeps I (Stat fs k p)" "keeps I (Lstat fs k p)" "keeps I (Lstatat k d name)"
  unfolding Stat_def Lstat_def Lstatat_def by (rule fstat_keeps fstatat_keeps)+

lemma Mkdir_keeps: "keeps I (Mkdir fs k p m)"
  unfolding Mkdir_def mkdirat_def by (intro frame_intros bind_keeps with_keeps)

lemma mkdirAll_keeps: "keeps I (mkdirAll fs k m p)"
proof (induction fs k m p rule: mkdirAll.induct)
  case (1 fs k m p)
  note IH = "1.IH" [OF refl]
  show ?case
    by (subst mkdirAll.simps, unfold Let_def)
       (intro frame_intros bind_keeps Stat_keeps Mkdir_keeps IH; simp)
qed

lemma MkdirAll_keeps: "keeps I (MkdirAll fs k p m)"
  unfolding MkdirAll_def by (intro frame_intros mkdirAll_keeps)

lemma open_keeps: "keeps I (OpenFileat fs k d name fl m)"
  unfolding OpenFileat_def by (intro frame_intros bind_keeps openat_keeps)

lemma OpenFile_keeps: "keeps I (OpenFile fs k p fl m)"
  unfolding openFile_def OpenFile_def by (intro frame_intros bind_keeps with_keeps openat_keeps)

lemma TouchPath_keeps: "keeps I (TouchPath fs k p)"
  unfolding TouchPath_def by (intro frame_intros bind_keeps safePath_keeps MkdirAll_keeps close_keeps)

lemma Touch_keeps: "keeps I (Touch fs k p fl m)"
  unfolding Touch_def by (intro frame_intros bind_keeps TouchPath_keeps open_keeps close_keeps)

lemma Lchown_keeps: "keeps I (Lchown fs k p u g)"
  unfolding Lchown_def fchown_def by (intro frame_intros bind_keeps with_keeps)

lemma Lchownat_keeps: "keeps I (Lchownat k d name u g)"
  unfolding Lchownat_def by (intro frame_intros bind_keeps)

lemma unlinkat_keeps: "keeps I (unlinkat k d name b)"
  unfolding unlinkat_def by (rule sys_keeps)

lemma RemoveStat_keeps: "keeps I (RemoveStat fs k p)"
  unfolding RemoveStat_def by (intro frame_intros bind_keeps with_keeps Stat_keeps unlinkat_keeps)

end

interpretation usage_frame: syscall_frame "\<lambda>ps. usage ps = u" for u
  by unfold_locales simp

end
