(* ===== verification/Server_Files.thy ===== *)
theory Server_Files
  imports Fs_Frame "HOL-Library.List_Lexorder" "HOL-Library.Char_ord"
begin

text \<open>
  The file manager of a server, \<^verbatim>\<open>server/filesystem\<close>: writing with disk accounting
  (\<^verbatim>\<open>filesystem.go\<close>, \<^verbatim>\<open>quota_file.go\<close>), the cached usage and the space checks
  (\<^verbatim>\<open>disk_space.go\<close>), copying and the order of a directory listing. The copy loop of \<^verbatim>\<open>io.Copy\<close>
  and the writes to an open file are parameters that return how many bytes went out.
\<close>

section \<open>The file system object\<close>

record filesystem =
  fm_q :: quota
  fm_uid :: int
  fm_gid :: int
  fm_isTest :: bool

datatype code =
  ErrCodeIsDirectory | ErrCodeDiskSpace | ErrCodeUnknownArchive | ErrCodePathResolution | ErrCodeDenylistFile
| ErrCodeUnknownError | ErrCodeNotExist

datatype fm_error = Ufs fs_error | FmError code | IoError string

type_synonym 'w writer = "fd \<Rightarrow> 'w \<Rightarrow> (int \<times> string option) \<times> 'w"

definition run_writer :: "'w writer \<Rightarrow> fd \<Rightarrow> ('w proc, int \<times> string option) state" where
  "run_writer wr f = State (\<lambda>ps. case wr f (world ps) of (r, w) \<Rightarrow> (r, ps\<lparr>world := w\<rparr>))"

definition HasSpaceFor :: "filesystem \<Rightarrow> int \<Rightarrow> ('w proc, fm_error option) state" where
  "HasSpaceFor fm n = do {
     u \<leftarrow> read_st usage;
     ret (if CanFit (fm_q fm) u n then None else Some (FmError ErrCodeDiskSpace))
   }"

definition chownFile :: "filesystem \<Rightarrow> 'w kernel \<Rightarrow> string \<Rightarrow> ('w proc, fs_error option) state" where
  "chownFile fm k name =
     (if fm_isTest fm then ret None else Lchown (q_fs (fm_q fm)) k name (fm_uid fm) (fm_gid fm))"

text \<open>The size of the file that is about to be replaced, or the error that ends the write.\<close>

definition current_size :: "filesystem \<Rightarrow> 'w kernel \<Rightarrow> string \<Rightarrow> ('w proc, fm_error + int) state" where
  "current_size fm k p = do {
     st \<leftarrow> Stat (q_fs (fm_q fm)) k p;
     ret (case st of
            Inl e \<Rightarrow> if is_not_exist e then Inr 0 else Inl (Ufs e)
          | Inr i \<Rightarrow> if IsDir i then Inl (FmError ErrCodeIsDirectory) else Inr (fi_size i))
   }"

definition Writefile :: "filesystem \<Rightarrow> 'w kernel \<Rightarrow> 'w writer \<Rightarrow> string \<Rightarrow> ('w proc, fm_error option) state" where
  "Writefile fm k wr p = do {
     cs \<leftarrow> current_size fm k p;
     (case cs of
        Inl e \<Rightarrow> ret (Some e)
      | Inr currentSize \<Rightarrow> do {
          r \<leftarrow> Touch (q_fs (fm_q fm)) k p {O_RDWR, O_TRUNC} 0x1A4;
          (case r of
             Inl e \<Rightarrow> ret (Some (Ufs e))
           | Inr (f, _) \<Rightarrow> do {
               (n, err) \<leftarrow> run_writer wr f;
               _ \<leftarrow> Add (i64 (n - currentSize));
               c \<leftarrow> chownFile fm k p;
               sys_close f;
               ret (case c of Some e \<Rightarrow> Some (Ufs e) | None \<Rightarrow> map_option IoError err)
             })
        })
   }"

text \<open>
  \<^verbatim>\<open>Write\<close>, with its part after the stat as a function of its own. \<open>wr lim\<close> copies at most \<open>lim\<close>
  bytes, as \<^verbatim>\<open>io.LimitReader\<close> makes it.
\<close>

definition store_contents :: "'w writer \<Rightarrow> fd \<Rightarrow> int \<Rightarrow> int \<Rightarrow> ('w proc, string option) state" where
  "store_contents wr f newSize currentSize =
     (if newSize = 0 then do { _ \<leftarrow> Add (i64 (- currentSize)); ret None }
      else do {
        (n, err) \<leftarrow> run_writer wr f;
        _ \<leftarrow> Add (i64 (n - currentSize));
        ret err
      })"

definition write_over :: "filesystem \<Rightarrow> 'w kernel \<Rightarrow> (int \<Rightarrow> 'w writer) \<Rightarrow> string \<Rightarrow> int \<Rightarrow> file_mode \<Rightarrow> int \<Rightarrow> ('w proc, fm_error option) state" where
  "write_over fm k wr p newSize mode currentSize = do {
     r \<leftarrow> Touch (q_fs (fm_q fm)) k p {O_RDWR, O_TRUNC} mode;
     (case r of
        Inl e \<Rightarrow> ret (Some (Ufs e))
      | Inr (f, _) \<Rightarrow> do {
          err \<leftarrow> store_contents (wr newSize) f newSize currentSize;
          c \<leftarrow> chownFile fm k p;
          sys_close f;
          ret (case c of Some e \<Rightarrow> Some (Ufs e) | None \<Rightarrow> map_option IoError err)
        })
   }"

definition Write :: "filesystem \<Rightarrow> 'w kernel \<Rightarrow> (int \<Rightarrow> 'w writer) \<Rightarrow> string \<Rightarrow> int \<Rightarrow> file_mode \<Rightarrow> ('w proc, fm_error option) state" where
  "Write fm k wr p newSize mode = do {
     cs \<leftarrow> current_size fm k p;
     (case cs of
        Inl e \<Rightarrow> ret (Some e)
      | Inr currentSize \<Rightarrow> do {
          full \<leftarrow> HasSpaceFor fm (i64 (newSize - currentSize));
          (case full of
             Some e \<Rightarrow> ret (Some e)
           | None \<Rightarrow> write_over fm k wr p newSize mode currentSize)
        })
   }"

definition CreateDirectory :: "filesystem \<Rightarrow> 'w kernel \<Rightarrow> string \<Rightarrow> string \<Rightarrow> ('w proc, fs_error option) state" where
  "CreateDirectory fm k name p = MkdirAll (q_fs (fm_q fm)) k (path_Join [p, name]) 0x1ED"

section \<open>Files that account for themselves\<close>

record quota_file =
  qf_fd :: fd
  qf_size :: int

definition fm_Touch :: "filesystem \<Rightarrow> 'w kernel \<Rightarrow> string \<Rightarrow> flags \<Rightarrow> ('w proc, fs_error + quota_file) state" where
  "fm_Touch fm k p flag = do {
     st \<leftarrow> Stat (q_fs (fm_q fm)) k p;
     (case (case st of
              Inl e \<Rightarrow> if is_not_exist e then Inr 0 else Inl e
            | Inr i \<Rightarrow> if IsDir i then Inr 0 else Inr (fi_size i)) of
        Inl e \<Rightarrow> ret (Inl e)
      | Inr currentSize \<Rightarrow> do {
          r \<leftarrow> Touch (q_fs (fm_q fm)) k p flag 0x1A4;
          ret (case r of
                 Inl e \<Rightarrow> Inl e
               | Inr (f, _) \<Rightarrow> Inr \<lparr>qf_fd = f, qf_size = currentSize\<rparr>)
        })
   }"

definition reserveDisk :: "filesystem \<Rightarrow> int \<Rightarrow> ('w proc, fm_error option) state" where
  "reserveDisk fm n =
     (if n \<le> 0 then ret None
      else do {
        full \<leftarrow> HasSpaceFor fm n;
        (case full of
           Some e \<Rightarrow> ret (Some e)
         | None \<Rightarrow> do { _ \<leftarrow> Add n; ret None })
      })"

definition adjustDisk :: "int \<Rightarrow> ('w proc, int) state" where
  "adjustDisk n = (if n = 0 then read_st usage else Add n)"

definition quotaWriteEnd :: "int \<Rightarrow> int \<Rightarrow> int option" where
  "quotaWriteEnd off n = (if n < 0 \<or> off > i64 (MaxInt64 - n) then None else Some (i64 (off + n)))"

definition writeAtLocked ::
  "filesystem \<Rightarrow> quota_file \<Rightarrow> int \<Rightarrow> int \<Rightarrow> 'w writer \<Rightarrow> ('w proc, (int \<times> fm_error option) \<times> quota_file) state" where
  "writeAtLocked fm f len off wr =
     (let previousSize = qf_size f in
      case quotaWriteEnd off len of
        None \<Rightarrow> ret ((0, Some (FmError ErrCodeDiskSpace)), f)
      | Some end' \<Rightarrow> do {
          full \<leftarrow> (if i64 (end' - previousSize) > 0 then reserveDisk fm (i64 (end' - previousSize)) else ret None);
          (case full of
             Some e \<Rightarrow> ret ((0, Some e), f)
           | None \<Rightarrow> do {
               (n, err) \<leftarrow> run_writer wr (qf_fd f);
               let writtenEnd =
                 (if n > 0 then (case quotaWriteEnd off n of Some e \<Rightarrow> e | None \<Rightarrow> 0) else previousSize);
               let f' = (if n > 0 \<and> writtenEnd > previousSize then f\<lparr>qf_size := writtenEnd\<rparr> else f);
               let reserved = i64 (end' - previousSize);
               let actual = (if writtenEnd > previousSize then i64 (writtenEnd - previousSize) else 0);
               if_st (reserved > 0 \<and> actual < reserved) (do { _ \<leftarrow> adjustDisk (i64 (actual - reserved)); ret () });
               ret ((n, map_option IoError err), f')
             })
        })"

text \<open>
  \<^verbatim>\<open>Write\<close> asks the file for its offset first; \<open>seek\<close> is the answer of \<^verbatim>\<open>Seek(0, io.SeekCurrent)\<close>.
  An empty write is handed to the file as it is.
\<close>

definition qf_Write ::
  "filesystem \<Rightarrow> quota_file \<Rightarrow> int \<Rightarrow> (string + int) \<Rightarrow> 'w writer \<Rightarrow> ('w proc, (int \<times> fm_error option) \<times> quota_file) state" where
  "qf_Write fm f len seek wr =
     (if len = 0 then do { (n, err) \<leftarrow> run_writer wr (qf_fd f); ret ((n, map_option IoError err), f) }
      else (case seek of
              Inl e \<Rightarrow> ret ((0, Some (IoError e)), f)
            | Inr off \<Rightarrow> writeAtLocked fm f len off wr))"

definition qf_WriteAt ::
  "filesystem \<Rightarrow> quota_file \<Rightarrow> int \<Rightarrow> int \<Rightarrow> 'w writer \<Rightarrow> ('w proc, (int \<times> fm_error option) \<times> quota_file) state" where
  "qf_WriteAt fm f len off wr =
     (if off < 0 \<or> len = 0 then do { (n, err) \<leftarrow> run_writer wr (qf_fd f); ret ((n, map_option IoError err), f) }
      else writeAtLocked fm f len off wr)"

definition qf_Close :: "'w kernel \<Rightarrow> quota_file \<Rightarrow> ('w proc, errno option) state" where
  "qf_Close k f = do {
     st \<leftarrow> sys_fstat k (qf_fd f);
     sys_close (qf_fd f);
     (case st of
        Inl e \<Rightarrow> ret (Some e)
      | Inr s \<Rightarrow> do { _ \<leftarrow> adjustDisk (i64 (st_size s - qf_size f)); ret None })
   }"

section \<open>Cached usage\<close>

text \<open>
  The lookup state of \<^verbatim>\<open>disk_space.go\<close>. Times are nanoseconds; \<open>dirsize\<close> is what walking the whole
  directory gives (\<^verbatim>\<open>DirectorySize\<close>), \<open>background\<close> whether a lookup was started in a goroutine.
\<close>

record lookup =
  lastLookupTime :: int
  lookupInProgress :: bool
  diskCheckInterval :: int

definition updateCachedDiskUsage ::
  "(int \<times> string option) \<Rightarrow> int \<Rightarrow> lookup \<Rightarrow> ('w proc, (int \<times> string option) \<times> lookup) state" where
  "updateCachedDiskUsage dirsize now l = do {
     _ \<leftarrow> SetUsage (fst dirsize);
     ret (dirsize, l\<lparr>lastLookupTime := now, lookupInProgress := False\<rparr>)
   }"

definition DiskUsage ::
  "(int \<times> string option) \<Rightarrow> int \<Rightarrow> bool \<Rightarrow> lookup \<Rightarrow> ('w proc, (int \<times> string option) \<times> bool \<times> lookup) state" where
  "DiskUsage dirsize now allowStale l =
     (if diskCheckInterval l = 0 then ret ((0, None), False, l)
      else if \<not> (lastLookupTime l > now + i64 (i64 (1000000000 * diskCheckInterval l) * -1))
      then (if \<not> allowStale
            then do { (r, l') \<leftarrow> updateCachedDiskUsage dirsize now l; ret (r, False, l') }
            else do { u \<leftarrow> read_st usage; ret ((u, None), \<not> lookupInProgress l, l) })
      else do { u \<leftarrow> read_st usage; ret ((u, None), False, l) })"

definition HasSpaceAvailable ::
  "filesystem \<Rightarrow> (int \<times> string option) \<Rightarrow> int \<Rightarrow> bool \<Rightarrow> bool \<Rightarrow> lookup \<Rightarrow> ('w proc, bool \<times> lookup) state" where
  "HasSpaceAvailable fm dirsize now headroom allowStale l = do {
     ((sz, _), _, l') \<leftarrow> DiskUsage dirsize now allowStale l;
     ret (if \<not> headroom then False
          else if q_limit (fm_q fm) = 0 then True
          else sz \<le> q_limit (fm_q fm), l')
   }"

section \<open>Writing stays within the limit\<close>

text \<open>What the code relies on: the kernel reports sizes that are not negative and fit in 64 bits, and
  a copy writes between zero bytes and as many as it was asked for.\<close>

definition sizes_ok :: "'w kernel \<Rightarrow> bool" where
  "sizes_ok k \<longleftrightarrow>
     (\<forall>d n nf w st. k_fstatat k d n nf w = Inr st \<longrightarrow> 0 \<le> st_size st \<and> in_i64 (st_size st)) \<and>
     (\<forall>f w st. k_fstat k f w = Inr st \<longrightarrow> 0 \<le> st_size st \<and> in_i64 (st_size st))"

definition writer_ok :: "int \<Rightarrow> 'w writer \<Rightarrow> bool" where
  "writer_ok lim wr \<longleftrightarrow> (\<forall>f w. 0 \<le> fst (fst (wr f w)) \<and> fst (fst (wr f w)) \<le> lim)"

abbreviation usage_is :: "int \<Rightarrow> 'w proc \<Rightarrow> bool" where
  "usage_is u \<equiv> \<lambda>ps. usage ps = u"

lemma run_writer_usage:
  "writer_ok lim wr \<Longrightarrow>
   triple (usage_is u) (run_writer wr f) (\<lambda>r s. usage s = u \<and> 0 \<le> fst r \<and> fst r \<le> lim)"
  unfolding writer_ok_def triple_def run_writer_def by (auto simp: split_beta)

lemma Add_usage: "triple (usage_is u) (Add i) (\<lambda>r s. usage s = add_next u i \<and> r = add_next u i)"
  by (simp add: triple_def Add_def Let_def)

lemma chownFile_usage: "keeps (usage_is u) (chownFile fm k p)"
  unfolding chownFile_def by (intro triple_if triple_ret usage_frame.Lchown_keeps)

lemma sys_fstatat_size:
  assumes "sizes_ok k"
  shows "triple (usage_is u) (sys_fstatat k d n nf)
    (\<lambda>r s. usage s = u \<and> (\<forall>st. r = Inr st \<longrightarrow> 0 \<le> st_size st \<and> in_i64 (st_size st)))"
  using assms unfolding sizes_ok_def by (auto simp: sys_fstatat_def triple_def)

text \<open>The sizes a path stat reports, threaded through the descriptor handling.\<close>

lemma Stat_size:
  assumes "sizes_ok k"
  shows "triple (usage_is u) (Stat fs k p)
    (\<lambda>r s. usage s = u \<and> (\<forall>i. r = Inr i \<longrightarrow> 0 \<le> fi_size i \<and> in_i64 (fi_size i)))"
proof -
  let ?Q = "\<lambda>r s. usage s = u \<and> (\<forall>i. r = Inr i \<longrightarrow> 0 \<le> fi_size i \<and> in_i64 (fi_size i))"
  have body: "triple (usage_is u) (fstatat_op k op d n nf) ?Q" for op d n nf
    unfolding fstatat_op_def
    by (rule triple_bind [OF sys_fstatat_size [OF assms]])
       (auto intro!: triple_ret simp: fillFileStatFromSys_def split: sum.splits)
  have close: "triple (?Q r) (close_fds ns) (\<lambda>_. ?Q r)" for r ns
    by (rule triple_conseq [OF triple_const [OF usage_frame.close_keeps]]) auto
  show ?thesis
    unfolding Stat_def fstat_op_def with_safePath_def
    by (rule triple_bind [OF usage_frame.safePath_keeps])
       (auto intro!: triple_bind [OF triple_option] triple_ret body triple_bind [OF close])
qed

lemma current_size_ok:
  assumes "sizes_ok k"
  shows "triple (usage_is u) (current_size fm k p)
    (\<lambda>r s. usage s = u \<and> (\<forall>c. r = Inr c \<longrightarrow> 0 \<le> c \<and> in_i64 c))"
  unfolding current_size_def
  by (rule triple_bind [OF Stat_size [OF assms]]) (auto intro!: triple_ret split: sum.splits if_splits)

lemma grow_bound:
  assumes "0 < l" "in_i64 l" "0 \<le> u" "in_i64 u" "0 \<le> c" "in_i64 c" "0 \<le> n" "n \<le> new" "in_i64 new"
    and "CanFit q u (i64 (new - c))" "q_limit q = l"
  shows "0 \<le> add_next u (i64 (n - c)) \<and> add_next u (i64 (n - c)) \<le> max u l"
proof -
  have i: "i64 (new - c) = new - c" "i64 (n - c) = n - c" "in_i64 (n - c)" "in_i64 (new - c)"
    using assms by (auto intro!: i64_id simp: in_i64_def)
  have "0 < new - c \<longrightarrow> u + (new - c) \<le> l"
    using assms i CanFit_iff [of q "new - c" u] by auto
  then show ?thesis
    using assms i(2,3) by (simp add: add_next_clamp) (auto simp: max_def min_def)
qed

lemma HasSpaceFor_fits:
  "triple (usage_is u) (HasSpaceFor fm n) (\<lambda>r s. usage s = u \<and> (r = None \<longrightarrow> CanFit (fm_q fm) u n))"
  unfolding HasSpaceFor_def by (auto simp: triple_def)

definition in_bounds :: "int \<Rightarrow> int \<Rightarrow> 'w proc \<Rightarrow> bool" where
  "in_bounds u l ps \<longleftrightarrow> 0 \<le> usage ps \<and> usage ps \<le> max u l"

lemma in_bounds_frame: "syscall_frame (in_bounds u l)"
  by unfold_locales (simp add: in_bounds_def)

lemma usage_in_bounds: "0 \<le> u \<Longrightarrow> usage ps = u \<Longrightarrow> in_bounds u l ps"
  by (simp add: in_bounds_def)

lemma store_in_bounds:
  assumes "q_limit (fm_q fm) = l" "0 < l" "in_i64 l" "0 \<le> u" "in_i64 u" "0 \<le> c" "in_i64 c"
    "0 \<le> new" "in_i64 new" "CanFit (fm_q fm) u (i64 (new - c))" "writer_ok new wr"
  shows "triple (usage_is u) (store_contents wr f new c) (\<lambda>_. in_bounds u l)"
proof (cases "new = 0")
  case True
  then show ?thesis
    using grow_bound [of l u c 0 new "fm_q fm"] assms
    by (auto simp: in_bounds_def store_contents_def intro!: triple_bind [OF Add_usage] triple_ret)
next
  case False
  have add: "triple (\<lambda>s. usage s = u \<and> 0 \<le> n \<and> n \<le> new) (Add (i64 (n - c))) (\<lambda>_. in_bounds u l)" for n
    using grow_bound [of l u c n new "fm_q fm"] assms by (auto simp: triple_def Add_def Let_def in_bounds_def)
  show ?thesis
    using False unfolding store_contents_def
    by (auto intro!: triple_bind [OF run_writer_usage [OF assms(11)]] triple_prod
        triple_bind [OF triple_pre [OF add]] triple_ret)
qed

lemma Write_in_bounds:
  assumes "sizes_ok k" "writer_ok newSize (wr newSize)" "0 \<le> newSize" "in_i64 newSize"
    and l: "q_limit (fm_q fm) = l" "0 < l" "in_i64 l" and u: "0 \<le> u" "in_i64 u"
  shows "triple (usage_is u) (Write fm k wr p newSize mode) (\<lambda>_. in_bounds u l)"
proof -
  have chown: "keeps (in_bounds u l) (chownFile fm k p)"
    unfolding chownFile_def by (intro triple_if triple_ret syscall_frame.Lchown_keeps [OF in_bounds_frame])
  have err: "triple (usage_is u) (ret r) (\<lambda>_. in_bounds u l)" for r
    using u(1) by (auto intro!: triple_ret usage_in_bounds)
  have over: "triple (usage_is u) (write_over fm k wr p newSize mode c) (\<lambda>_. in_bounds u l)"
    if "0 \<le> c" "in_i64 c" "CanFit (fm_q fm) u (i64 (newSize - c))" for c
    unfolding write_over_def
    by (intro triple_bind [OF usage_frame.Touch_keeps] triple_sum err triple_prod
        triple_bind [OF store_in_bounds [OF l u that(1,2) assms(3,4) that(3) assms(2)]]
        triple_bind [OF chown] triple_bind [OF syscall_frame.sys_keeps(8) [OF in_bounds_frame]] triple_ret)
  have checked: "triple (usage_is u) (do { full \<leftarrow> HasSpaceFor fm (i64 (newSize - c));
      (case full of None \<Rightarrow> write_over fm k wr p newSize mode c | Some e \<Rightarrow> ret (Some e)) }) (\<lambda>_. in_bounds u l)"
    if "0 \<le> c" "in_i64 c" for c
    by (rule triple_bind [OF HasSpaceFor_fits], rule triple_option)
       (auto intro!: triple_pure over that triple_pre [OF err])
  show ?thesis
    unfolding Write_def
    by (rule triple_bind [OF current_size_ok [OF assms(1)]], rule triple_sum)
       (auto intro!: triple_pure checked triple_pre [OF err])
qed

section \<open>Accounting of an open file\<close>

text \<open>
  The balance of a file that is being written: the counter minus the size the file is known to
  have. A write keeps it, so once the file is closed and its real size is settled the counter
  has moved by exactly the change of that size.
\<close>

definition file_ok :: "quota_file \<Rightarrow> bool" where
  "file_ok f \<longleftrightarrow> 0 \<le> qf_size f \<and> in_i64 (qf_size f)"

definition balanced :: "int \<Rightarrow> int \<Rightarrow> quota_file \<Rightarrow> 'w proc \<Rightarrow> bool" where
  "balanced l b f ps \<longleftrightarrow>
     file_ok f \<and> 0 \<le> usage ps \<and> usage ps \<le> l \<and> usage ps - qf_size f = b"

lemma quotaWriteEnd_Some:
  assumes "quotaWriteEnd off n = Some e" "0 \<le> off" "in_i64 off" "in_i64 n"
  shows "e = off + n \<and> 0 \<le> n \<and> in_i64 e"
proof -
  have n: "0 \<le> n" "off \<le> i64 (MaxInt64 - n)" and e: "e = i64 (off + n)"
    using assms(1) by (auto simp: quotaWriteEnd_def split: if_splits)
  then have "i64 (MaxInt64 - n) = MaxInt64 - n" using assms(4) by (intro i64_id) (auto simp: in_i64_def)
  then have "in_i64 (off + n)" using n assms(2) by (auto simp: in_i64_def)
  then show ?thesis using n e by (simp add: i64_id)
qed

lemma quotaWriteEnd_less:
  assumes "quotaWriteEnd off len = Some e" "0 \<le> off" "in_i64 off" "in_i64 len" "0 \<le> n" "n \<le> len"
  shows "quotaWriteEnd off n = Some (off + n)"
proof -
  have "e = off + len" "in_i64 e" using quotaWriteEnd_Some [OF assms(1-4)] by auto
  then have "i64 (MaxInt64 - n) = MaxInt64 - n" "i64 (off + n) = off + n"
    using assms(2-6) by (auto intro!: i64_id simp: in_i64_def)
  then show ?thesis using assms \<open>e = off + len\<close> \<open>in_i64 e\<close> by (auto simp: quotaWriteEnd_def in_i64_def)
qed

lemma reserveDisk_spec:
  assumes "q_limit (fm_q fm) = l" "0 < l" "in_i64 l" "0 < n" "in_i64 n" "0 \<le> u" "in_i64 u" "usage ps = u"
  shows "run_state (reserveDisk fm n) ps =
      (if u + n \<le> l then (None, ps\<lparr>usage := u + n\<rparr>) else (Some (FmError ErrCodeDiskSpace), ps))"
proof -
  have "CanFit (fm_q fm) u n \<longleftrightarrow> u + n \<le> l" using CanFit_iff [of "fm_q fm" n u] assms by simp
  moreover have "u + n \<le> l \<Longrightarrow> add_next u n = u + n"
    using assms by (subst add_next_clamp) (auto simp: in_i64_def)
  ultimately show ?thesis
    using assms(4,8) by (auto simp: reserveDisk_def HasSpaceFor_def Add_def Let_def)
qed

lemma adjustDisk_spec:
  assumes "0 \<le> usage ps" "in_i64 (usage ps)" "in_i64 n" "0 \<le> usage ps + n" "in_i64 (usage ps + n)"
  shows "run_state (adjustDisk n) ps = (usage ps + n, ps\<lparr>usage := usage ps + n\<rparr>)"
  using assms by (auto simp: adjustDisk_def Add_def Let_def add_next_clamp in_i64_def)

text \<open>What a write does to the file and the counter, given how many bytes went out: the growth is
  reserved first, refused when it does not fit, and the part that was not written is given back.\<close>

definition grown :: "quota_file \<Rightarrow> int \<Rightarrow> int \<Rightarrow> int" where
  "grown f off n = (if 0 < n \<and> off + n > qf_size f then off + n - qf_size f else 0)"

lemma writeAtLocked_run:
  assumes l: "q_limit (fm_q fm) = l" "0 < l" "in_i64 l"
    and off: "0 \<le> off" "in_i64 off" "in_i64 len" and e: "quotaWriteEnd off len = Some e"
    and w: "wr (qf_fd f) (world ps) = ((n, er), w)" and n: "0 \<le> n" "n \<le> len"
    and f: "file_ok f" and u: "0 \<le> usage ps" "usage ps \<le> l"
  shows "run_state (writeAtLocked fm f len off wr) ps =
    (if qf_size f < e \<and> usage ps + (e - qf_size f) > l then (((0, Some (FmError ErrCodeDiskSpace)), f), ps)
     else (((n, map_option IoError er), f\<lparr>qf_size := qf_size f + grown f off n\<rparr>),
           ps\<lparr>usage := usage ps + grown f off n, world := w\<rparr>))"
proof -
  have e': "e = off + len" "0 \<le> len" "in_i64 e" using quotaWriteEnd_Some [OF e off] by auto
  have sz: "0 \<le> qf_size f" "in_i64 (qf_size f)" using f by (auto simp: file_ok_def)
  have g: "i64 (e - qf_size f) = e - qf_size f" "in_i64 (e - qf_size f)"
    "i64 (off + n - qf_size f) = off + n - qf_size f"
    using e' sz off n by (auto intro!: i64_id simp: in_i64_def)
  have en: "quotaWriteEnd off n = Some (off + n)" using quotaWriteEnd_less [OF e off n] .
  note step = writeAtLocked_def e Let_def g en run_writer_def w grown_def if_st_def
  show ?thesis
  proof (cases "qf_size f < e")
    case False
    then have "\<not> qf_size f < off + n" using n e'(1) by simp
    with False show ?thesis by (simp add: step)
  next
    case True
    have u64: "in_i64 (usage ps)" using u l by (auto simp: in_i64_def)
    have res: "run_state (reserveDisk fm (e - qf_size f)) ps =
        (if usage ps + (e - qf_size f) \<le> l then (None, ps\<lparr>usage := usage ps + (e - qf_size f)\<rparr>)
         else (Some (FmError ErrCodeDiskSpace), ps))"
      using reserveDisk_spec [OF l _ g(2) u(1) u64 refl] True by simp
    have ar: "i64 (grown f off n - (e - qf_size f)) = grown f off n - (e - qf_size f)"
      "in_i64 (grown f off n - (e - qf_size f))" "0 \<le> grown f off n" "grown f off n \<le> e - qf_size f"
      using n e' sz True off by (auto intro!: i64_id simp: in_i64_def grown_def)
    have adj: "run_state (adjustDisk (grown f off n - (e - qf_size f))) (ps\<lparr>usage := usage ps + (e - qf_size f), world := w\<rparr>)
        = (usage ps + grown f off n, ps\<lparr>usage := usage ps + grown f off n, world := w\<rparr>)"
      if "usage ps + (e - qf_size f) \<le> l"
      using ar True u l that by (subst adjustDisk_spec) (auto simp: in_i64_def)
    show ?thesis
      using True res adj ar by (auto simp: step split: if_splits)
  qed
qed

lemma writeAtLocked_balanced:
  assumes l: "q_limit (fm_q fm) = l" "0 < l" "in_i64 l"
    and off: "0 \<le> off" "in_i64 off" "in_i64 len" and wr: "writer_ok len wr"
  shows "triple (balanced l b f) (writeAtLocked fm f len off wr) (\<lambda>(_, f') s. balanced l b f' s \<and> qf_fd f' = qf_fd f)"
proof (rule tripleI)
  fix ps r ps' assume bal: "balanced l b f ps" and run: "run_state (writeAtLocked fm f len off wr) ps = (r, ps')"
  then have f: "file_ok f" "0 \<le> usage ps" "usage ps \<le> l" by (auto simp: balanced_def)
  show "(\<lambda>(_, f') s. balanced l b f' s \<and> qf_fd f' = qf_fd f) r ps'"
  proof (cases "quotaWriteEnd off len")
    case None
    then show ?thesis using run bal by (auto simp: writeAtLocked_def Let_def)
  next
    case (Some e)
    obtain n er w where w: "wr (qf_fd f) (world ps) = ((n, er), w)" by (metis prod.exhaust)
    have n: "0 \<le> n" "n \<le> len" using wr w unfolding writer_ok_def by (metis fst_conv)+
    have "e = off + len" "in_i64 e" using quotaWriteEnd_Some [OF Some off] by auto
    then have "file_ok (f\<lparr>qf_size := qf_size f + grown f off n\<rparr>)" "0 \<le> grown f off n"
      "grown f off n \<le> (if qf_size f < e then e - qf_size f else 0)"
      using f(1) n off by (auto simp: file_ok_def grown_def in_i64_def)
    then show ?thesis
      using run bal f writeAtLocked_run [where wr = wr and ps = ps and f = f, OF l off Some w n f]
      by (auto simp: balanced_def split: if_splits)
  qed
qed

text \<open>A write session: any number of positioned writes, then the close.\<close>

fun qf_session :: "filesystem \<Rightarrow> 'w kernel \<Rightarrow> quota_file \<Rightarrow> (int \<times> int \<times> 'w writer) list \<Rightarrow> ('w proc, errno option) state" where
  "qf_session fm k f [] = qf_Close k f"
| "qf_session fm k f ((len, off, wr) # ws) = do {
     (_, f') \<leftarrow> qf_WriteAt fm f len off wr;
     qf_session fm k f' ws
   }"

fun session_ok :: "(int \<times> int \<times> 'w writer) list \<Rightarrow> bool" where
  "session_ok [] \<longleftrightarrow> True"
| "session_ok ((len, off, wr) # ws) \<longleftrightarrow> in_i64 len \<and> in_i64 off \<and> writer_ok len wr \<and> session_ok ws"

lemma qf_WriteAt_balanced:
  assumes "q_limit (fm_q fm) = l" "0 < l" "in_i64 l" "in_i64 off" "in_i64 len" "writer_ok len wr"
  shows "triple (balanced l b f) (qf_WriteAt fm f len off wr) (\<lambda>(_, f') s. balanced l b f' s \<and> qf_fd f' = qf_fd f)"
proof (cases "off < 0 \<or> len = 0")
  case True
  then show ?thesis
    by (auto simp: qf_WriteAt_def triple_def run_writer_def balanced_def split: prod.splits)
next
  case False
  then show ?thesis
    using writeAtLocked_balanced [OF assms(1-3) _ assms(4-6)] by (simp add: qf_WriteAt_def)
qed

lemma qf_Close_settles:
  assumes "\<And>w. k_fstat k (qf_fd f) w = Inr st" "0 \<le> st_size st" "in_i64 (st_size st)"
    and "balanced l b f ps" "in_i64 l" "0 \<le> b + st_size st" "in_i64 (b + st_size st)"
  shows "usage (snd (run_state (qf_Close k f) ps)) = b + st_size st"
proof -
  have "0 \<le> qf_size f" "in_i64 (qf_size f)" "0 \<le> usage ps" "usage ps \<le> l" "b = usage ps - qf_size f"
    using assms(4) by (auto simp: balanced_def file_ok_def)
  moreover from this have "i64 (st_size st - qf_size f) = st_size st - qf_size f" "in_i64 (st_size st - qf_size f)"
    using assms(2,3) by (auto intro!: i64_id simp: in_i64_def)
  ultimately show ?thesis
    using assms
    by (simp add: qf_Close_def sys_fstat_def sys_close_def) (subst adjustDisk_spec; auto simp: in_i64_def)
qed

lemma qf_session_settles:
  assumes "q_limit (fm_q fm) = l" "0 < l" "in_i64 l" "session_ok ws" "balanced l b f ps"
    and "\<And>w. k_fstat k (qf_fd f) w = Inr st" "0 \<le> st_size st" "in_i64 (st_size st)"
    and "0 \<le> b + st_size st" "in_i64 (b + st_size st)"
  shows "usage (snd (run_state (qf_session fm k f ws) ps)) = b + st_size st"
  using assms(4-6)
proof (induction ws arbitrary: f ps rule: session_ok.induct)
  case 1
  show ?case using qf_Close_settles [OF "1.prems"(3) assms(7,8) "1.prems"(2) assms(3) assms(9,10)] by simp
next
  case (2 len off wr ws)
  obtain r f' ps' where w: "run_state (qf_WriteAt fm f len off wr) ps = ((r, f'), ps')" by (metis prod.exhaust)
  have "balanced l b f' ps'" "qf_fd f' = qf_fd f"
    using tripleD [OF qf_WriteAt_balanced [OF assms(1-3)] "2.prems"(2) w] "2.prems"(1) by auto
  then show ?case using "2.IH" [of f' ps'] "2.prems" w by simp
qed

section \<open>Copying\<close>

fun Ext :: "string \<Rightarrow> string" where
  "Ext p =
     (let base = rev (takeWhile (\<lambda>c. c \<noteq> CHR ''/'') (rev p)) in
      if CHR ''.'' \<in> set base then CHR ''.'' # rev (takeWhile (\<lambda>c. c \<noteq> CHR ''.'') (rev base)) else [])"

declare Ext.simps [simp del]

definition copy_suffix :: "nat \<Rightarrow> string" where
  "copy_suffix i = (if i = 0 then '' copy'' else '' copy '' @ nat_digits i)"

text \<open>The loop over \<open>i\<close>; \<open>stamp\<close> is the formatted time.\<close>

fun findCopySuffix_loop :: "'w kernel \<Rightarrow> fd \<Rightarrow> string \<Rightarrow> string \<Rightarrow> string \<Rightarrow> nat list \<Rightarrow> string \<Rightarrow> ('w proc, fs_error + string) state" where
  "findCopySuffix_loop k d name ext stamp [] suffix = ret (Inr (name @ suffix @ ext))"
| "findCopySuffix_loop k d name ext stamp (i # is) suffix = do {
     let suffix = copy_suffix i;
     r \<leftarrow> Lstatat k d (name @ suffix @ ext);
     (case r of
        Inl e \<Rightarrow> ret (if is_not_exist e then Inr (name @ suffix @ ext) else Inl e)
      | Inr _ \<Rightarrow>
          findCopySuffix_loop k d name ext stamp is (if i = 50 then ''copy.'' @ stamp else suffix))
   }"

definition findCopySuffix :: "'w kernel \<Rightarrow> fd \<Rightarrow> string \<Rightarrow> string \<Rightarrow> string \<Rightarrow> ('w proc, fs_error + string) state" where
  "findCopySuffix k d name ext stamp = findCopySuffix_loop k d name ext stamp [0..<51] '' copy''"

text \<open>The name and the extension a copy is made from; a double extension ending in tar stays together.\<close>

definition copy_parts :: "string \<Rightarrow> string \<times> string" where
  "copy_parts base =
     (let ext = Ext base; name = TrimSuffix base ext
      in if HasSuffix name ''.tar'' then (TrimSuffix name ''.tar'', ''.tar'' @ ext) else (name, ext))"

definition copy_source :: "filesystem \<Rightarrow> 'w kernel \<Rightarrow> (int \<Rightarrow> 'w writer) \<Rightarrow> string \<Rightarrow> fd \<Rightarrow> string \<Rightarrow> file_info \<Rightarrow> ('w proc, fm_error option) state" where
  "copy_source fm k wr stamp d name info =
     (if IsDir info \<or> \<not> IsRegular info then ret (Some (FmError ErrCodeNotExist))
      else do {
        full \<leftarrow> HasSpaceFor fm (fi_size info);
        (case full of
           Some e \<Rightarrow> ret (Some e)
         | None \<Rightarrow> do {
             let (baseName, extension) = copy_parts (fi_name info);
             nn \<leftarrow> findCopySuffix k d baseName extension stamp;
             (case nn of
                Inl e \<Rightarrow> ret (Some (Ufs e))
              | Inr newName \<Rightarrow> do {
                  dst \<leftarrow> OpenFileat (q_fs (fm_q fm)) k d newName {O_WRONLY, O_CREATE} (fi_mode info);
                  (case dst of
                     Inl e \<Rightarrow> ret (Some (Ufs e))
                   | Inr (f, _) \<Rightarrow> do {
                       (n, err) \<leftarrow> run_writer (wr (fi_size info)) f;
                       _ \<leftarrow> Add n;
                       c \<leftarrow> (if fm_isTest fm then ret None
                            else Lchownat k d newName (fm_uid fm) (fm_gid fm));
                       ret (case c of Some e \<Rightarrow> Some (Ufs e) | None \<Rightarrow> map_option IoError err)
                     })
                })
           })
      })"

definition Copy :: "filesystem \<Rightarrow> 'w kernel \<Rightarrow> (int \<Rightarrow> 'w writer) \<Rightarrow> string \<Rightarrow> string \<Rightarrow> ('w proc, fm_error option) state" where
  "Copy fm k wr stamp p =
     with_safePath (q_fs (fm_q fm)) k p (\<lambda>e. Some (Ufs e)) (\<lambda>d name. do {
       src \<leftarrow> OpenFileat (q_fs (fm_q fm)) k d name O_RDONLY 0;
       (case src of
          Inl e \<Rightarrow> ret (Some (Ufs e))
        | Inr (f, _) \<Rightarrow> do {
            st \<leftarrow> sys_fstat k f;
            r \<leftarrow> (case st of
                    Inl e \<Rightarrow> ret (Some (Ufs (BareErrno e)))
                  | Inr s \<Rightarrow> copy_source fm k wr stamp d name (fillFileStatFromSys s name));
            sys_close f;
            ret r
          })
     })"

text \<open>
  The name a copy gets: the first candidate that does not exist, the candidates being tried in
  order; when all of them exist, the time stamp.
\<close>

definition entry_missing :: "'w kernel \<Rightarrow> 'w \<Rightarrow> fd \<Rightarrow> string \<Rightarrow> bool" where
  "entry_missing k w d n \<longleftrightarrow> k_fstatat k d n True w = Inl ENOENT"

definition entry_exists :: "'w kernel \<Rightarrow> 'w \<Rightarrow> fd \<Rightarrow> string \<Rightarrow> bool" where
  "entry_exists k w d n \<longleftrightarrow> (\<exists>st. k_fstatat k d n True w = Inr st)"

lemma Lstatat_cases:
  "entry_exists k (world ps) d n \<Longrightarrow> \<exists>i. run_state (Lstatat k d n) ps = (Inr i, ps\<lparr>events := EvStat d n True # events ps\<rparr>)"
  "entry_missing k (world ps) d n \<Longrightarrow>
     \<exists>e. is_not_exist e \<and> run_state (Lstatat k d n) ps = (Inl e, ps\<lparr>events := EvStat d n True # events ps\<rparr>)"
  by (auto simp: entry_exists_def entry_missing_def Lstatat_def fstatat_op_def sys_fstatat_def)

lemma findCopySuffix_loop_first:
  assumes "\<forall>j \<in> set js. entry_exists k (world ps) d (name @ copy_suffix j @ ext)" "50 \<notin> set js"
    and "entry_missing k (world ps) d (name @ copy_suffix i @ ext)"
  shows "fst (run_state (findCopySuffix_loop k d name ext stamp (js @ i # is) sfx) ps) = Inr (name @ copy_suffix i @ ext)"
  using assms
proof (induction js arbitrary: ps sfx)
  case Nil
  then obtain e where "is_not_exist e"
    "run_state (Lstatat k d (name @ copy_suffix i @ ext)) ps = (Inl e, ps\<lparr>events := EvStat d (name @ copy_suffix i @ ext) True # events ps\<rparr>)"
    using Lstatat_cases(2) by force
  then show ?case by (simp add: Let_def)
next
  case (Cons j js)
  then obtain v where
    "run_state (Lstatat k d (name @ copy_suffix j @ ext)) ps = (Inr v, ps\<lparr>events := EvStat d (name @ copy_suffix j @ ext) True # events ps\<rparr>)"
    using Lstatat_cases(1) by force
  then show ?case using Cons by (simp add: Let_def)
qed

lemma findCopySuffix_loop_full:
  assumes "\<forall>j \<in> set js. entry_exists k (world ps) d (name @ copy_suffix j @ ext)" "js \<noteq> []" "last js = 50"
  shows "fst (run_state (findCopySuffix_loop k d name ext stamp js sfx) ps) = Inr (name @ ''copy.'' @ stamp @ ext)"
  using assms
proof (induction js arbitrary: ps sfx)
  case (Cons j js)
  then obtain v where v:
    "run_state (Lstatat k d (name @ copy_suffix j @ ext)) ps = (Inr v, ps\<lparr>events := EvStat d (name @ copy_suffix j @ ext) True # events ps\<rparr>)"
    using Lstatat_cases(1) by force
  show ?case
  proof (cases "js = []")
    case True
    then show ?thesis using Cons.prems v by (simp add: Let_def)
  next
    case False
    then show ?thesis using Cons v by (simp add: Let_def)
  qed
qed simp

lemma findCopySuffix_first:
  assumes "i < 51" "\<forall>j < i. entry_exists k (world ps) d (name @ copy_suffix j @ ext)"
    and "entry_missing k (world ps) d (name @ copy_suffix i @ ext)"
  shows "fst (run_state (findCopySuffix k d name ext stamp) ps) = Inr (name @ copy_suffix i @ ext)"
proof -
  have "[0..<51] = [0..<i] @ i # [Suc i..<51]"
    using assms(1) by (metis le0 less_imp_le_nat upt_add_eq_append upt_conv_Cons le_add_diff_inverse)
  then show ?thesis
    unfolding findCopySuffix_def using findCopySuffix_loop_first [of "[0..<i]" k ps d name ext i] assms by simp
qed

section \<open>The order of a directory listing\<close>

text \<open>
  \<^verbatim>\<open>slices.SortStableFunc\<close> only asks whether the comparison is negative. It is modelled by
  insertion from the right, which is stable; any stable sort gives the same list for an order.
\<close>

fun insert_by :: "('a \<Rightarrow> 'a \<Rightarrow> int) \<Rightarrow> 'a \<Rightarrow> 'a list \<Rightarrow> 'a list" where
  "insert_by c x [] = [x]"
| "insert_by c x (y # ys) = (if c y x < 0 then y # insert_by c x ys else x # y # ys)"

definition SortStableFunc :: "('a \<Rightarrow> 'a \<Rightarrow> int) \<Rightarrow> 'a list \<Rightarrow> 'a list" where
  "SortStableFunc c xs = foldr (insert_by c) xs []"

record listing =
  li_name :: string
  li_dir :: bool

definition by_name :: "'z listing_scheme \<Rightarrow> 'z listing_scheme \<Rightarrow> int" where
  "by_name a b = (if li_name a = li_name b then 0 else if li_name a > li_name b then 1 else -1)"

definition dirs_first :: "'z listing_scheme \<Rightarrow> 'z listing_scheme \<Rightarrow> int" where
  "dirs_first a b = (if li_dir a \<and> li_dir b then 0 else if li_dir a then -1 else 1)"

definition sort_listing :: "'z listing_scheme list \<Rightarrow> 'z listing_scheme list" where
  "sort_listing out = SortStableFunc dirs_first (SortStableFunc by_name out)"

lemma insert_by_key:
  assumes "\<And>y. c y x < 0 \<longleftrightarrow> key y < (key x :: 'k :: linorder)"
  shows "insert_by c x ys = insort_key key x ys"
proof (induction ys)
  case (Cons y ys)
  then show ?case using assms [of y] by (simp add: not_less [symmetric])
qed simp

lemma SortStableFunc_key:
  assumes "\<And>x y. c y x < 0 \<longleftrightarrow> key y < (key x :: 'k :: linorder)"
  shows "SortStableFunc c xs = sort_key key xs"
proof -
  have "insert_by c = insort_key key" by (intro ext insert_by_key assms)
  then show ?thesis by (simp add: SortStableFunc_def sort_key_def)
qed

abbreviation dir_rank :: "'z listing_scheme \<Rightarrow> nat" where
  "dir_rank e \<equiv> if li_dir e then 0 else 1"

lemma sort_listing_keys:
  fixes xs :: "'z listing_scheme list"
  shows "sort_listing xs = sort_key dir_rank (sort_key li_name xs)"
proof -
  have "by_name y x < 0 \<longleftrightarrow> li_name y < li_name x" for x y :: "'z listing_scheme" by (auto simp: by_name_def)
  moreover have "dirs_first y x < 0 \<longleftrightarrow> dir_rank y < dir_rank x" for x y :: "'z listing_scheme" by (simp add: dirs_first_def)
  ultimately show ?thesis
    by (simp add: sort_listing_def SortStableFunc_key [of by_name li_name] SortStableFunc_key [of dirs_first dir_rank])
qed

text \<open>Stability: each half keeps the order by name.\<close>

lemma sort_listing_filter: "filter (\<lambda>e. li_dir e = b) (sort_listing xs) = sort_key li_name (filter (\<lambda>e. li_dir e = b) xs)"
proof -
  have b: "(\<lambda>e. li_dir e = b) = (\<lambda>e. dir_rank e = (if b then 0 else 1))" by auto
  show ?thesis
    unfolding sort_listing_keys b by (simp add: sort_key_stable filter_sort)
qed

lemma sorted_two_ranks:
  "sorted (map dir_rank xs) \<Longrightarrow> xs = filter li_dir xs @ filter (\<lambda>e. \<not> li_dir e) xs"
proof (induction xs)
  case (Cons x xs)
  show ?case
  proof (cases "li_dir x")
    case True
    then show ?thesis using Cons by simp
  next
    case False
    then have "\<forall>y \<in> set xs. \<not> li_dir y" using Cons.prems by (auto split: if_splits)
    then show ?thesis using False by (simp add: filter_empty_conv filter_id_conv)
  qed
qed simp

section \<open>Properties\<close>

text \<open>C20: A directory listing shows the directories first and then everything else, each of the two
  parts in the order of the names, entries with equal names in the order they were read.\<close>

theorem listing_order:
  "sort_listing xs = sort_key li_name (filter li_dir xs) @ sort_key li_name (filter (\<lambda>e. \<not> li_dir e) xs)"
proof -
  have "sorted (map dir_rank (sort_listing xs))" by (simp add: sort_listing_keys)
  then have "sort_listing xs = filter li_dir (sort_listing xs) @ filter (\<lambda>e. \<not> li_dir e) (sort_listing xs)"
    by (rule sorted_two_ranks)
  then show ?thesis using sort_listing_filter [of True xs] sort_listing_filter [of False xs] by simp
qed

end
