(* ===== verification/Env_State.thy ===== *)
theory Env_State
  imports Effects Go_Strings
begin

text \<open>
  What the two process backends share: the process states of \<^verbatim>\<open>environment/environment.go\<close>, the
  state cell with its event (\<^verbatim>\<open>SetState\<close>, the same in \<^verbatim>\<open>docker/environment.go\<close> and
  \<^verbatim>\<open>winproc/environment.go\<close>), the stop configuration, and the notion of a crash in a sequence of
  published states.
\<close>

section \<open>States\<close>

datatype pstate = Offline | Starting | Running | Stopping

primrec state_name :: "pstate \<Rightarrow> string" where
  "state_name Offline = ''offline''"
| "state_name Starting = ''starting''"
| "state_name Running = ''running''"
| "state_name Stopping = ''stopping''"

definition parse_state :: "string \<Rightarrow> pstate option" where
  "parse_state s =
     (if s = ''offline'' then Some Offline
      else if s = ''starting'' then Some Starting
      else if s = ''running'' then Some Running
      else if s = ''stopping'' then Some Stopping
      else None)"

lemma parse_state_name [simp]: "parse_state (state_name p) = Some p"
  by (cases p) (simp_all add: parse_state_def)

text \<open>
  The part of an environment that its state methods touch: the atomic state and, newest last,
  the states published on the event bus.
\<close>

record env_cell =
  st :: pstate
  published :: "pstate list"

definition enter :: "pstate \<Rightarrow> ('a env_cell_scheme) \<Rightarrow> ('a env_cell_scheme)" where
  "enter p e = (if st e \<noteq> p then e\<lparr>st := p, published := published e @ [p]\<rparr> else e)"

definition SetState :: "string \<Rightarrow> ('a env_cell_scheme) \<Rightarrow> ('a env_cell_scheme) outcome" where
  "SetState s e =
     (case parse_state s of
        None \<Rightarrow> Panic (''invalid server state received: '' @ s)
      | Some p \<Rightarrow> Return (enter p e))"

lemma SetState_valid [simp]: "SetState (state_name p) e = Return (enter p e)"
  by (simp add: SetState_def)

definition enter_state :: "pstate \<Rightarrow> ('a env_cell_scheme, unit) state" where
  "enter_state p = modify_st (enter p)"

lemma enter_st [simp]: "st (enter p e) = p"
  by (simp add: enter_def)

lemma run_enter_state [simp]: "run_state (enter_state p) e = ((), enter p e)"
  by (simp add: enter_state_def)

text \<open>How both backends begin to stop: an environment that is already offline is left alone.\<close>

definition leave_live :: "('a env_cell_scheme, unit) state" where
  "leave_live = do { p \<leftarrow> read_st st; if_st (p \<noteq> Offline) (enter_state Stopping) }"

section \<open>Crashes\<close>

text \<open>A crash is a step from a live state straight to offline; a sequence of states is calm when it
  has none.\<close>

definition live :: "pstate \<Rightarrow> bool" where
  "live p \<longleftrightarrow> p = Starting \<or> p = Running"

definition crash_step :: "pstate \<Rightarrow> pstate \<Rightarrow> bool" where
  "crash_step p q \<longleftrightarrow> live p \<and> q = Offline"

fun calm :: "pstate \<Rightarrow> pstate list \<Rightarrow> bool" where
  "calm p [] \<longleftrightarrow> True"
| "calm p (q # qs) \<longleftrightarrow> \<not> crash_step p q \<and> calm q qs"

lemma calm_append: "calm p (xs @ ys) \<longleftrightarrow> calm p xs \<and> calm (last (p # xs)) ys"
  by (induction xs arbitrary: p) auto

text \<open>
  The events an operation publishes follow the state it starts from: they are the history of the
  cell, so its last one is the new state.
\<close>

definition history_ok :: "pstate \<Rightarrow> ('a env_cell_scheme) \<Rightarrow> bool" where
  "history_ok p0 e \<longleftrightarrow> last (p0 # published e) = st e \<and> calm p0 (published e)"

lemma enter_history:
  assumes "history_ok p0 e" "\<not> crash_step (st e) p"
  shows "history_ok p0 (enter p e)"
  using assms by (auto simp: history_ok_def enter_def calm_append)

lemma enter_state_history:
  "triple (\<lambda>e. history_ok p0 e \<and> \<not> crash_step (st e) p) (enter_state p) (\<lambda>_ e. history_ok p0 e \<and> st e = p)"
  by (auto simp: triple_def enter_history)

lemma not_crash [simp]:
  "crash_step p q \<longleftrightarrow> (p = Starting \<or> p = Running) \<and> q = Offline"
  by (auto simp: crash_step_def live_def)

text \<open>Programs that move the cell without a crash, and programs that leave it not live.\<close>

abbreviation still :: "pstate \<Rightarrow> ('a env_cell_scheme) \<Rightarrow> bool" where
  "still p0 e \<equiv> history_ok p0 e \<and> \<not> live (st e)"

lemma enter_state_keeps: "p \<noteq> Offline \<Longrightarrow> keeps (history_ok p0) (enter_state p)"
  by (auto simp: triple_def enter_history)

lemma enter_state_Stopping: "triple (history_ok p0) (enter_state Stopping) (\<lambda>_. still p0)"
  by (auto simp: triple_def enter_history live_def)

lemma enter_state_Offline: "triple (still p0) (enter_state Offline) (\<lambda>_ e. still p0 e \<and> st e = Offline)"
  by (auto simp: triple_def enter_history live_def)

lemma leave_live_still: "triple (history_ok p0) leave_live (\<lambda>_. still p0)"
  by (auto simp: triple_def leave_live_def if_st_def enter_history live_def)

lemma still_history: "triple P m (\<lambda>_. still p0) \<Longrightarrow> triple P m (\<lambda>_. history_ok p0)"
  by (erule triple_post) simp

section \<open>Stopping\<close>

abbreviation ProcessStopCommand :: string where "ProcessStopCommand \<equiv> ''command''"
abbreviation ProcessStopSignal :: string where "ProcessStopSignal \<equiv> ''signal''"

record stop_config =
  stop_type :: string
  stop_value :: string

end
