(* ===== verification/Docker_Env.thy ===== *)
theory Docker_Env
  imports Env_State
begin

text \<open>
  The Docker backend: \<^verbatim>\<open>environment/docker/environment.go\<close>, \<^verbatim>\<open>power.go\<close> and the process part of
  \<^verbatim>\<open>container.go\<close>. The Docker engine is a parameter, a record of the client calls the code makes;
  each may change a world of any type. A context that ends a call shows as the error of the call.
\<close>

section \<open>The engine and the environment\<close>

datatype docker_error = NotFound | DeadlineExceeded | OtherError string

record container_state =
  c_running :: bool
  c_exit :: nat
  c_oom :: bool
  c_log :: bool  \<comment> \<open>whether the log file can be stat'ed\<close>

datatype wait_result = WaitCtxDone docker_error | WaitErr "docker_error option" | WaitOk

record 'w engine =
  d_inspect :: "'w \<Rightarrow> (docker_error + container_state) \<times> 'w"
  d_truncate :: "'w \<Rightarrow> docker_error option \<times> 'w"
  d_remove :: "bool \<Rightarrow> 'w \<Rightarrow> docker_error option \<times> 'w"
  d_pull :: "'w \<Rightarrow> docker_error option \<times> 'w"
  d_create :: "'w \<Rightarrow> docker_error option \<times> 'w"
  d_attach :: "'w \<Rightarrow> docker_error option \<times> 'w"
  d_start :: "'w \<Rightarrow> docker_error option \<times> 'w"
  d_stop :: "'w \<Rightarrow> docker_error option \<times> 'w"
  d_wait :: "'w \<Rightarrow> wait_result \<times> 'w"
  d_kill :: "string \<Rightarrow> 'w \<Rightarrow> docker_error option \<times> 'w"
  d_write :: "string \<Rightarrow> 'w \<Rightarrow> docker_error option \<times> 'w"

record 'w docker_env = env_cell +
  engine_world :: 'w
  stream :: bool
  stop_cfg :: stop_config

datatype env_error = Engine docker_error | ErrNotAttached

definition call :: "('w \<Rightarrow> 'r \<times> 'w) \<Rightarrow> ('w docker_env, 'r) state" where
  "call f = State (\<lambda>e. case f (engine_world e) of (r, w) \<Rightarrow> (r, e\<lparr>engine_world := w\<rparr>))"

definition docker_New :: "'w \<Rightarrow> stop_config \<Rightarrow> 'w docker_env" where
  "docker_New w s =
     \<lparr>st = Offline, published = [], engine_world = w, stream = False, stop_cfg = s\<rparr>"

definition SetStream :: "bool \<Rightarrow> ('w docker_env, unit) state" where
  "SetStream b = modify_st (\<lambda>e. e\<lparr>stream := b\<rparr>)"

definition IsAttached :: "('w docker_env, bool) state" where
  "IsAttached = read_st stream"

definition SetStopConfiguration :: "stop_config \<Rightarrow> ('w docker_env, unit) state" where
  "SetStopConfiguration c = modify_st (\<lambda>e. e\<lparr>stop_cfg := c\<rparr>)"

definition docker_Exists :: "'w engine \<Rightarrow> ('w docker_env, docker_error + bool) state" where
  "docker_Exists d = do {
     r \<leftarrow> call (d_inspect d);
     ret (case r of Inl e \<Rightarrow> if e = NotFound then Inr False else Inl e | Inr _ \<Rightarrow> Inr True)
   }"

definition docker_IsRunning :: "'w engine \<Rightarrow> ('w docker_env, docker_error + bool) state" where
  "docker_IsRunning d = do {
     r \<leftarrow> call (d_inspect d);
     ret (map_sum id c_running r)
   }"

definition docker_ExitState :: "'w engine \<Rightarrow> ('w docker_env, docker_error + nat \<times> bool) state" where
  "docker_ExitState d = do {
     r \<leftarrow> call (d_inspect d);
     ret (case r of
            Inl e \<Rightarrow> if e = NotFound then Inr (1, False) else Inl e
          | Inr c \<Rightarrow> Inr (c_exit c mod 2 ^ 32, c_oom c))
   }"

section \<open>Power\<close>

text \<open>
  \<^verbatim>\<open>Create\<close>, as far as control flow goes: an existing container is kept, otherwise the image is
  pulled and the container created (with its network, when it needs one of its own).
\<close>

definition docker_Create :: "'w engine \<Rightarrow> ('w docker_env, docker_error option) state" where
  "docker_Create d = do {
     r \<leftarrow> call (d_inspect d);
     (case r of
        Inr _ \<Rightarrow> ret None
      | Inl e \<Rightarrow>
          if e \<noteq> NotFound then ret (Some e)
          else do {
            p \<leftarrow> call (d_pull d);
            (case p of Some e \<Rightarrow> ret (Some e) | None \<Rightarrow> call (d_create d))
          })
   }"

definition docker_OnBeforeStart :: "'w engine \<Rightarrow> ('w docker_env, docker_error option) state" where
  "docker_OnBeforeStart d = do {
     r \<leftarrow> call (d_remove d False);
     (case r of
        Some e \<Rightarrow> if e \<noteq> NotFound then ret (Some e) else docker_Create d
      | None \<Rightarrow> docker_Create d)
   }"

text \<open>\<^verbatim>\<open>Attach\<close> starts a goroutine that copies the console; \<open>stream_end\<close> is what it does at its end.\<close>

definition docker_Attach :: "'w engine \<Rightarrow> ('w docker_env, docker_error option) state" where
  "docker_Attach d = do {
     a \<leftarrow> IsAttached;
     if a then ret None
     else do {
       r \<leftarrow> call (d_attach d);
       (case r of Some e \<Rightarrow> ret (Some e) | None \<Rightarrow> do { SetStream True; ret None })
     }
   }"

definition stream_end :: "('w docker_env, unit) state" where
  "stream_end = do { enter_state Offline; SetStream False }"

text \<open>\<^verbatim>\<open>Start\<close>. Its deferred function is \<open>boot_failed\<close>, run on every error after the state is starting.\<close>

definition boot_failed :: "docker_error \<Rightarrow> ('w docker_env, docker_error option) state" where
  "boot_failed e = do { enter_state Stopping; enter_state Offline; ret (Some e) }"

definition docker_boot :: "'w engine \<Rightarrow> ('w docker_env, docker_error option) state" where
  "docker_boot d = do {
     enter_state Starting;
     r \<leftarrow> docker_OnBeforeStart d;
     (case r of
        Some e \<Rightarrow> boot_failed e
      | None \<Rightarrow> do {
          r \<leftarrow> docker_Attach d;
          (case r of
             Some e \<Rightarrow> boot_failed e
           | None \<Rightarrow> do {
               r \<leftarrow> call (d_start d);
               (case r of Some e \<Rightarrow> boot_failed e | None \<Rightarrow> ret None)
             })
        })
   }"

definition docker_Start :: "'w engine \<Rightarrow> ('w docker_env, docker_error option) state" where
  "docker_Start d = do {
     c \<leftarrow> call (d_inspect d);
     (case c of
        Inl e \<Rightarrow> if e \<noteq> NotFound then ret (Some e) else docker_boot d
      | Inr c \<Rightarrow>
          if c_running c then do { enter_state Running; docker_Attach d }
          else do {
            t \<leftarrow> (if c_log c then call (d_truncate d) else ret None);
            (case t of Some e \<Rightarrow> ret (Some e) | None \<Rightarrow> docker_boot d)
          })
   }"

definition docker_SendCommand :: "'w engine \<Rightarrow> string \<Rightarrow> ('w docker_env, env_error option) state" where
  "docker_SendCommand d c = do {
     a \<leftarrow> IsAttached;
     if \<not> a then ret (Some ErrNotAttached)
     else do {
       s \<leftarrow> read_st stop_cfg;
       if_st (stop_type s = ProcessStopCommand \<and> c = stop_value s) (enter_state Stopping);
       r \<leftarrow> call (d_write d (c @ [CHR 0x0A]));
       ret (map_option Engine r)
     }
   }"

definition SignalContainer :: "'w engine \<Rightarrow> string \<Rightarrow> ('w docker_env, docker_error option) state" where
  "SignalContainer d sig = do {
     c \<leftarrow> call (d_inspect d);
     (case c of
        Inl e \<Rightarrow> ret (if e = NotFound then None else Some e)
      | Inr c \<Rightarrow>
          if \<not> c_running c then do {
            p \<leftarrow> read_st st;
            if_st (p \<noteq> Offline) (do { enter_state Stopping; enter_state Offline });
            ret None
          }
          else do {
            enter_state Stopping;
            r \<leftarrow> call (d_kill d sig);
            ret (if r = None \<or> r = Some NotFound then None else r)
          })
   }"

definition docker_Terminate :: "'w engine \<Rightarrow> string \<Rightarrow> ('w docker_env, docker_error option) state" where
  "docker_Terminate d sig = do {
     r \<leftarrow> SignalContainer d sig;
     (case r of Some e \<Rightarrow> ret (Some e) | None \<Rightarrow> do { enter_state Offline; ret None })
   }"

definition stop_signal :: "string \<Rightarrow> string" where
  "stop_signal v =
     (let u = ToUpper v in
      if u = ''SIGABRT'' then ''SIGABRT''
      else if u = ''SIGINT'' \<or> u = ''C'' then ''SIGINT''
      else if u = ''SIGTERM'' then ''SIGTERM''
      else ''SIGKILL'')"

text \<open>\<^verbatim>\<open>Stop\<close>: the state first, then the configured way to stop the process.\<close>

definition docker_stop_process :: "'w engine \<Rightarrow> stop_config \<Rightarrow> ('w docker_env, env_error option) state" where
  "docker_stop_process d s =
     (if stop_type s = ProcessStopSignal
      then do { r \<leftarrow> SignalContainer d (stop_signal (stop_value s)); ret (map_option Engine r) }
      else do {
        a \<leftarrow> IsAttached;
        if a \<and> stop_type s = ProcessStopCommand then docker_SendCommand d (stop_value s)
        else do {
          r \<leftarrow> call (d_stop d);
          (case r of
             None \<Rightarrow> ret None
           | Some e \<Rightarrow>
               if e = NotFound then do { SetStream False; enter_state Offline; ret None }
               else ret (Some (Engine e)))
        }
      })"

definition docker_Stop :: "'w engine \<Rightarrow> ('w docker_env, env_error option) state" where
  "docker_Stop d = do {
     s \<leftarrow> read_st stop_cfg;
     leave_live;
     docker_stop_process d s
   }"

definition docker_WaitForStop :: "'w engine \<Rightarrow> bool \<Rightarrow> ('w docker_env, env_error option) state" where
  "docker_WaitForStop d term = do {
     r \<leftarrow> docker_Stop d;
     (case r of
        Some e \<Rightarrow>
          if term \<and> e = Engine DeadlineExceeded
          then do { r \<leftarrow> docker_Terminate d ''SIGKILL''; ret (map_option Engine r) }
          else ret (Some e)
      | None \<Rightarrow> do {
          w \<leftarrow> call (d_wait d);
          (case w of
             WaitOk \<Rightarrow> ret None
           | WaitCtxDone e \<Rightarrow>
               if term then do { r \<leftarrow> docker_Terminate d ''SIGKILL''; ret (map_option Engine r) }
               else ret (Some (Engine e))
           | WaitErr err \<Rightarrow>
               (case err of
                  None \<Rightarrow> ret None
                | Some e \<Rightarrow>
                    if e = NotFound then ret None
                    else if term then do { r \<leftarrow> docker_Terminate d ''SIGKILL''; ret (map_option Engine r) }
                    else ret (Some (Engine e))))
        })
   }"

definition docker_Destroy :: "'w engine \<Rightarrow> ('w docker_env, docker_error option) state" where
  "docker_Destroy d = do {
     enter_state Stopping;
     r \<leftarrow> call (d_remove d True);
     enter_state Offline;
     ret (if r = Some NotFound then None else r)
   }"

section \<open>No operation looks like a crash\<close>

text \<open>A property of the environment that does not look at the engine is kept by the engine calls.\<close>

lemma call_keeps: "(\<And>e w. I e \<Longrightarrow> I (e\<lparr>engine_world := w\<rparr>)) \<Longrightarrow> keeps I (call f)"
  by (auto simp: triple_def call_def split: prod.splits)

lemma cell_frame:
  "history_ok p0 (e\<lparr>engine_world := w\<rparr>) = history_ok p0 e" "history_ok p0 (e\<lparr>stream := b\<rparr>) = history_ok p0 e"
  by (simp_all add: history_ok_def)

lemma call_calm: "keeps (history_ok p0) (call f)" "keeps (still p0) (call f)"
  by (auto intro!: call_keeps simp: cell_frame)

lemma stream_calm:
  "keeps (history_ok p0) (SetStream b)" "keeps (still p0) (SetStream b)"
  "keeps (history_ok p0) IsAttached" "keeps (still p0) IsAttached"
  by (auto simp: triple_def SetStream_def IsAttached_def cell_frame)

lemmas docker_intros =
  triple_ret triple_if triple_option triple_sum triple_prod triple_if_st
  call_calm stream_calm triple_read

lemma calm_bind: "keeps I m \<Longrightarrow> (\<And>a. triple I (f a) Q) \<Longrightarrow> triple I (m \<bind> f) Q"
  by (rule triple_bind)

lemma boot_failed_calm: "triple (history_ok p0) (boot_failed err) (\<lambda>r e. r \<noteq> None \<and> still p0 e \<and> st e = Offline)"
  unfolding boot_failed_def
  by (rule triple_bind [OF enter_state_Stopping], rule triple_bind [OF enter_state_Offline]) (auto intro: triple_ret)

text \<open>What booting guarantees: a failure leaves the environment offline.\<close>

lemma docker_boot_calm:
  "triple (history_ok p0) (docker_boot d) (\<lambda>r e. history_ok p0 e \<and> (r \<noteq> None \<longrightarrow> st e = Offline))"
proof -
  have fail: "triple (history_ok p0) (boot_failed err) (\<lambda>r e. history_ok p0 e \<and> (r \<noteq> None \<longrightarrow> st e = Offline))" for err
    by (rule triple_post [OF boot_failed_calm]) simp
  have "keeps (history_ok p0) (docker_OnBeforeStart d)" "keeps (history_ok p0) (docker_Attach d)"
    unfolding docker_OnBeforeStart_def docker_Create_def docker_Attach_def
    by (auto intro!: docker_intros calm_bind)
  then show ?thesis
    unfolding docker_boot_def
    by (intro calm_bind enter_state_keeps triple_option fail call_calm triple_ret) simp_all
qed

lemma docker_Start_calm: "keeps (history_ok p0) (docker_Start d)"
proof -
  have boot: "keeps (history_ok p0) (docker_boot d)"
    by (rule triple_post [OF docker_boot_calm]) simp
  have att: "keeps (history_ok p0) (docker_Attach d)"
    unfolding docker_Attach_def by (auto intro!: docker_intros calm_bind)
  show ?thesis
    unfolding docker_Start_def by (auto intro!: docker_intros calm_bind enter_state_keeps boot att)
qed

lemma SignalContainer_still: "keeps (still p0) (SignalContainer d sig)"
  unfolding SignalContainer_def
  by (auto intro!: docker_intros calm_bind triple_bind [OF triple_pre [OF enter_state_Stopping]]
      triple_post [OF enter_state_Offline])

lemma docker_Terminate_still: "keeps (still p0) (docker_Terminate d sig)"
  unfolding docker_Terminate_def
  by (auto intro!: docker_intros calm_bind SignalContainer_still triple_bind [OF enter_state_Offline])

lemma docker_SendCommand_still: "keeps (still p0) (docker_SendCommand d c)"
  unfolding docker_SendCommand_def
  by (auto intro!: docker_intros calm_bind triple_pre [OF enter_state_Stopping])

lemma docker_Stop_still: "triple (history_ok p0) (docker_Stop d) (\<lambda>_. still p0)"
  unfolding docker_Stop_def docker_stop_process_def
  by (rule triple_bind [OF triple_read [where Q = "\<lambda>_. history_ok p0"]], assumption,
      rule triple_bind [OF leave_live_still])
     (auto intro!: docker_intros calm_bind SignalContainer_still docker_SendCommand_still
        triple_bind [OF enter_state_Offline])

lemma docker_WaitForStop_still: "triple (history_ok p0) (docker_WaitForStop d term) (\<lambda>_. still p0)"
  unfolding docker_WaitForStop_def
  by (rule triple_bind [OF docker_Stop_still])
     (auto intro!: docker_intros calm_bind docker_Terminate_still split: wait_result.split)

text \<open>Termination is calm as long as the engine knows the container.\<close>

definition present :: "'w engine \<Rightarrow> bool" where
  "present d \<longleftrightarrow> (\<forall>w. fst (d_inspect d w) \<noteq> Inl NotFound)"

lemma SignalContainer_present:
  assumes "present d"
  shows "triple (history_ok p0) (SignalContainer d sig) (\<lambda>r e. history_ok p0 e \<and> (r = None \<longrightarrow> \<not> live (st e)))"
proof -
  have insp: "triple (history_ok p0) (call (d_inspect d)) (\<lambda>r e. history_ok p0 e \<and> r \<noteq> Inl NotFound)"
    using assms unfolding present_def
    by (auto simp: triple_def call_def cell_frame split: prod.splits) (metis fst_conv)
  show ?thesis
    unfolding SignalContainer_def
    apply (rule triple_bind [OF insp], rule triple_sum)
     apply (auto intro!: triple_ret) []
    apply (rule triple_if)
     apply (auto simp: triple_def if_st_def enter_history live_def) []
    apply (rule triple_bind [OF triple_pre [OF enter_state_Stopping]], simp)
    apply (rule triple_bind [OF call_calm(2)])
    apply (auto intro!: triple_ret)
    done
qed

lemma docker_Terminate_calm:
  assumes "present d"
  shows "triple (history_ok p0) (docker_Terminate d sig)
    (\<lambda>r e. history_ok p0 e \<and> (r = None \<longrightarrow> st e = Offline))"
  unfolding docker_Terminate_def
  by (rule triple_bind [OF SignalContainer_present [OF assms]], rule triple_option)
     (auto intro!: triple_bind [OF triple_pre [OF enter_state_Offline]] triple_ret)

lemma docker_Destroy_calm: "triple (history_ok p0) (docker_Destroy d) (\<lambda>_ e. still p0 e \<and> st e = Offline)"
  unfolding docker_Destroy_def
  by (rule triple_bind [OF enter_state_Stopping], rule triple_bind [OF call_calm(2)],
      rule triple_bind [OF enter_state_Offline]) (auto intro: triple_ret)

text \<open>
  When the engine does not know the container, termination marks a live server offline in one
  step, which is what the server takes for a crash.
\<close>

lemma docker_Terminate_missing:
  assumes "fst (d_inspect d (engine_world e)) = Inl NotFound" "live (st e)"
  shows "published (snd (run_state (docker_Terminate d sig) e)) = published e @ [Offline]"
  using assms
  by (cases "d_inspect d (engine_world e)")
     (auto simp: docker_Terminate_def SignalContainer_def call_def enter_def live_def)

end
