(* ===== verification/Invocation.thy ===== *)
theory Invocation
  imports Go_Strings Ring_Buffer
begin

text \<open>
  The startup command of the Windows backend (\<^verbatim>\<open>environment/winproc/invocation.go\<close>), the
  environment of the child process (\<^verbatim>\<open>mergeChildEnv\<close> of \<^verbatim>\<open>power.go\<close>) and the console history
  (\<^verbatim>\<open>console.go\<close>). The placeholder pattern is matched by hand; its parts start with different
  characters, so there is only one way to match.
\<close>

section \<open>Variables\<close>

fun envMap :: "string list \<Rightarrow> string \<rightharpoonup> string" where
  "envMap [] = Map.empty"
| "envMap (kv # vars) =
     (\<lambda>k. case envMap vars k of
            Some v \<Rightarrow> Some v
          | None \<Rightarrow>
              (case IndexByte kv (CHR ''='') of
                 Some i \<Rightarrow> if take i kv = k then Some (drop (Suc i) kv) else None
               | None \<Rightarrow> None))"

text \<open>The zero value of a missing key is the empty string.\<close>

definition env_get :: "(string \<rightharpoonup> string) \<Rightarrow> string \<Rightarrow> string" where
  "env_get env k = (case env k of Some v \<Rightarrow> v | None \<Rightarrow> [])"

section \<open>Placeholders\<close>

definition regex_space :: "char \<Rightarrow> bool" where
  "regex_space c \<longleftrightarrow> c = CHR '' '' \<or> c = CHR 0x09 \<or> c = CHR 0x0A \<or> c = CHR 0x0C \<or> c = CHR 0x0D"

definition ident_start :: "char \<Rightarrow> bool" where
  "ident_start c \<longleftrightarrow> (let n = (of_char c :: nat) in 65 \<le> n \<and> n \<le> 90 \<or> 97 \<le> n \<and> n \<le> 122 \<or> n = 95)"

definition ident_char :: "char \<Rightarrow> bool" where
  "ident_char c \<longleftrightarrow> ident_start c \<or> (let n = (of_char c :: nat) in 48 \<le> n \<and> n \<le> 57)"

text \<open>A match at the beginning of the string: the name and the rest behind the match.\<close>

definition match_placeholder :: "string \<Rightarrow> (string \<times> string) option" where
  "match_placeholder s =
     (if HasPrefix s ''{{'' then
        (let s1 = dropWhile regex_space (drop 2 s);
             name = takeWhile ident_char s1;
             s2 = dropWhile regex_space (dropWhile ident_char s1)
         in if name \<noteq> [] \<and> ident_start (hd name) \<and> HasPrefix s2 ''}}'' then Some (name, drop 2 s2) else None)
      else None)"

lemma match_placeholder_shorter:
  assumes "match_placeholder s = Some (name, rest)"
  shows "length rest < length s"
proof -
  let ?s1 = "dropWhile regex_space (drop 2 s)"
  let ?s2 = "dropWhile regex_space (dropWhile ident_char ?s1)"
  have rest: "rest = drop 2 ?s2" "s \<noteq> []"
    using assms by (auto simp: match_placeholder_def Let_def HasPrefix_def split: if_splits)
  have "length ?s2 \<le> length (drop 2 s)"
    by (meson length_dropWhile_le order_trans)
  then show ?thesis using rest by (cases s) auto
qed

function substitutePlaceholders :: "(string \<rightharpoonup> string) \<Rightarrow> string \<Rightarrow> string" where
  "substitutePlaceholders env s =
     (case match_placeholder s of
        Some (name, rest) \<Rightarrow> env_get env name @ substitutePlaceholders env rest
      | None \<Rightarrow> (case s of [] \<Rightarrow> [] | c # cs \<Rightarrow> c # substitutePlaceholders env cs))"
  by pat_completeness auto
termination
  by (relation "measure (\<lambda>(env, s). length s)") (auto dest: match_placeholder_shorter)

declare substitutePlaceholders.simps [simp del]

section \<open>Splitting the command line\<close>

definition is_quote :: "char \<Rightarrow> bool" where
  "is_quote c \<longleftrightarrow> c = CHR 0x27 \<or> c = CHR 0x22"

definition is_blank :: "char \<Rightarrow> bool" where
  "is_blank c \<longleftrightarrow> c = CHR '' '' \<or> c = CHR 0x09 \<or> c = CHR 0x0D \<or> c = CHR 0x0A"

text \<open>The loop variables of \<^verbatim>\<open>tokenize\<close>: the finished arguments, the current one, whether there is a
  current one, and the open quote.\<close>

fun tokenize_loop :: "string list \<Rightarrow> string \<Rightarrow> bool \<Rightarrow> char option \<Rightarrow> string \<Rightarrow> string list" where
  "tokenize_loop args cur inArg quote [] = (if inArg then args @ [cur] else args)"
| "tokenize_loop args cur inArg (Some q) (r # rs) =
     (if r = q then tokenize_loop args cur inArg None rs else tokenize_loop args (cur @ [r]) inArg (Some q) rs)"
| "tokenize_loop args cur inArg None (r # rs) =
     (if is_quote r then tokenize_loop args cur True (Some r) rs
      else if is_blank r
      then (if inArg then tokenize_loop (args @ [cur]) [] False None rs else tokenize_loop args cur False None rs)
      else tokenize_loop args (cur @ [r]) True None rs)"

definition tokenize :: "string \<Rightarrow> string list" where
  "tokenize s = tokenize_loop [] [] False None s"

definition buildCommand :: "string list \<Rightarrow> string + string list" where
  "buildCommand vars =
     (let env = envMap vars; startup = env_get env ''STARTUP'' in
      if TrimSpace startup = [] then Inl ''winproc: no STARTUP command is defined for this server''
      else (let argv = tokenize (substitutePlaceholders env startup) in
            if argv = [] then Inl ''winproc: startup command resolved to an empty argv'' else Inr argv))"

section \<open>The environment of the child\<close>

text \<open>The two variables of \<^verbatim>\<open>mergeChildEnv\<close>: the entry of each key, and the keys in the order of their
  first appearance.\<close>

definition env_put :: "string \<Rightarrow> (string \<rightharpoonup> string) \<times> string list \<Rightarrow> (string \<rightharpoonup> string) \<times> string list" where
  "env_put kv b =
     (case IndexByte kv (CHR ''='') of
        None \<Rightarrow> b
      | Some i \<Rightarrow>
          (let key = ToUpper (take i kv); (byKey, order) = b
           in (byKey(key \<mapsto> kv), if byKey key = None then order @ [key] else order)))"

definition mergeChildEnv :: "string list \<Rightarrow> string list \<Rightarrow> string \<Rightarrow> string list" where
  "mergeChildEnv environ eggVars tmpDir =
     (let (byKey, order) = fold env_put (environ @ eggVars @ [''TEMP='' @ tmpDir, ''TMP='' @ tmpDir]) (Map.empty, [])
      in map (\<lambda>k. the (byKey k)) order)"

section \<open>The console history\<close>

record consoleBuffer =
  lines :: "string list"
  max_lines :: nat

definition newConsoleBuffer :: "nat \<Rightarrow> consoleBuffer" where
  "newConsoleBuffer m = \<lparr>lines = [], max_lines = m\<rparr>"

definition push_line :: "string \<Rightarrow> consoleBuffer \<Rightarrow> consoleBuffer" where
  "push_line l c =
     (let ls = lines c @ [l]
      in c\<lparr>lines := (if length ls > max_lines c then drop (length ls - max_lines c) ls else ls)\<rparr>)"

definition tail :: "int \<Rightarrow> consoleBuffer \<Rightarrow> string list" where
  "tail n c =
     (let n = (if n \<le> 0 \<or> n > int (length (lines c)) then length (lines c) else nat n)
      in drop (length (lines c) - n) (lines c))"

definition reset_console :: "consoleBuffer \<Rightarrow> consoleBuffer" where
  "reset_console c = c\<lparr>lines := []\<rparr>"

definition console_inv :: "consoleBuffer \<Rightarrow> bool" where
  "console_inv c \<longleftrightarrow> 0 < max_lines c \<and> length (lines c) \<le> max_lines c"

lemma push_line_eq: "console_inv c \<Longrightarrow> push_line l c = c\<lparr>lines := last_n (max_lines c) (lines c @ [l])\<rparr>"
  by (simp add: push_line_def last_n_def Let_def)

interpretation history: ring_buffer push_line lines max_lines console_inv
  by unfold_locales (auto simp: push_line_eq console_inv_def last_n_length)

section \<open>What tokenizing does\<close>

text \<open>A character that is neither blank nor quote is plain; plain text extends the current argument.\<close>

definition plain :: "string \<Rightarrow> bool" where
  "plain v \<longleftrightarrow> v \<noteq> [] \<and> (\<forall>c \<in> set v. \<not> is_quote c \<and> \<not> is_blank c)"

lemma tokenize_plain:
  assumes "plain v" "q = None \<or> is_quote (the q)"
  shows "tokenize_loop args cur i q (v @ s) = tokenize_loop args (cur @ v) (i \<or> q = None) q s"
  using assms
proof (induction v arbitrary: cur i)
  case (Cons c v)
  then have c: "\<not> is_quote c" "\<not> is_blank c" by (auto simp: plain_def)
  then have "q \<noteq> Some c" using Cons.prems(2) by auto
  then show ?case
    using Cons c by (cases "v = []"; cases q) (auto simp: plain_def)
qed (simp add: plain_def)

text \<open>How many arguments there are does not depend on what the arguments contain.\<close>

lemma tokenize_count:
  "length args = length args' \<Longrightarrow>
   length (tokenize_loop args cur i q s) = length (tokenize_loop args' cur' i q s)"
proof (induction s arbitrary: args args' cur cur' i q)
  case (Cons c s)
  have len: "length (args @ [cur]) = length (args' @ [cur'])" using Cons.prems by simp
  show ?case
    using Cons.IH [OF Cons.prems] Cons.IH [OF len]
    by (cases q) (simp_all only: tokenize_loop.simps split: if_split, blast+)
qed simp

definition quote_ok :: "char option \<Rightarrow> bool" where
  "quote_ok q \<longleftrightarrow> q = None \<or> is_quote (the q)"

text \<open>Reading a prefix of the command line leads to some state of the loop.\<close>

lemma tokenize_step:
  "quote_ok q \<Longrightarrow> \<exists>args' cur' i' q'. quote_ok q' \<and>
     (\<forall>s. tokenize_loop args cur i q (c # s) = tokenize_loop args' cur' i' q' s)"
proof (cases q)
  case None
  consider "is_quote c" | "\<not> is_quote c" "is_blank c" "i" | "\<not> is_quote c" "is_blank c" "\<not> i"
    | "\<not> is_quote c" "\<not> is_blank c" by blast
  then show ?thesis
  proof cases
    case 1
    then show ?thesis using None
      by (intro exI [of _ args] exI [of _ cur] exI [of _ True] exI [of _ "Some c"]) (simp add: quote_ok_def)
  next
    case 2
    then show ?thesis using None
      by (intro exI [of _ "args @ [cur]"] exI [of _ "[]"] exI [of _ False] exI [of _ None]) (simp add: quote_ok_def)
  next
    case 3
    then show ?thesis using None
      by (intro exI [of _ args] exI [of _ cur] exI [of _ False] exI [of _ None]) (simp add: quote_ok_def)
  next
    case 4
    then show ?thesis using None
      by (intro exI [of _ args] exI [of _ "cur @ [c]"] exI [of _ True] exI [of _ None]) (simp add: quote_ok_def)
  qed
next
  case (Some d)
  moreover assume "quote_ok q"
  ultimately show ?thesis
    by (intro exI [of _ args] exI [of _ "if c = d then cur else cur @ [c]"] exI [of _ i]
        exI [of _ "if c = d then None else Some d"]) (simp add: quote_ok_def)
qed

lemma tokenize_prefix:
  "quote_ok q \<Longrightarrow> \<exists>args' cur' i' q'. quote_ok q' \<and>
     (\<forall>s. tokenize_loop args cur i q (p @ s) = tokenize_loop args' cur' i' q' s)"
proof (induction p arbitrary: args cur i q)
  case Nil
  then show ?case by (intro exI [of _ args] exI [of _ cur] exI [of _ i] exI [of _ q]) simp
next
  case (Cons c p)
  obtain args' cur' i' q' where "quote_ok q'"
    "\<And>s. tokenize_loop args cur i q (c # s) = tokenize_loop args' cur' i' q' s"
    using tokenize_step [OF Cons.prems] by blast
  with Cons.IH [of q' args' cur' i'] show ?case by simp
qed

lemma tokenize_plain_count:
  assumes "plain v" "plain w"
  shows "length (tokenize (p @ v @ s)) = length (tokenize (p @ w @ s))"
proof -
  obtain args cur i q where "quote_ok q"
    and pre: "\<And>s. tokenize_loop [] [] False None (p @ s) = tokenize_loop args cur i q s"
    using tokenize_prefix [of None "[]" "[]" False p] by (auto simp: quote_ok_def)
  then have q: "q = None \<or> is_quote (the q)" by (simp add: quote_ok_def)
  show ?thesis
    unfolding tokenize_def pre
    by (simp add: tokenize_plain [OF assms(1) q] tokenize_plain [OF assms(2) q] tokenize_count)
qed

text \<open>Quoting: every list of arguments can be written down so that it is read back.\<close>

definition quote_arg :: "string \<Rightarrow> string" where
  "quote_arg a = CHR 0x22 # a @ [CHR 0x22]"

lemma tokenize_inside_quote:
  "CHR 0x22 \<notin> set a \<Longrightarrow>
   tokenize_loop args cur True (Some (CHR 0x22)) (a @ CHR 0x22 # s) = tokenize_loop args (cur @ a) True None s"
  by (induction a arbitrary: cur) auto

lemma tokenize_quote_arg:
  "CHR 0x22 \<notin> set a \<Longrightarrow>
   tokenize_loop args [] False None (quote_arg a @ s) = tokenize_loop args a True None s"
  by (simp add: quote_arg_def is_quote_def tokenize_inside_quote)

lemma tokenize_quoted:
  assumes "\<forall>a \<in> set as. CHR 0x22 \<notin> set a"
  shows "tokenize_loop args [] False None (Join (map quote_arg as) '' '') = args @ as"
  using assms
proof (induction as arbitrary: args)
  case (Cons a as)
  show ?case
  proof (cases "as = []")
    case True
    then show ?thesis using Cons.prems tokenize_quote_arg [of a args "[]"] by simp
  next
    case False
    then have "Join (map quote_arg (a # as)) '' '' = quote_arg a @ CHR '' '' # Join (map quote_arg as) '' ''"
      by (simp add: Join_Cons)
    then show ?thesis
      using Cons by (simp add: tokenize_quote_arg is_quote_def is_blank_def)
  qed
qed simp

section \<open>What merging does\<close>

definition key_of :: "string \<Rightarrow> string option" where
  "key_of kv = map_option (\<lambda>i. ToUpper (take i kv)) (IndexByte kv (CHR ''=''))"

definition last_entry :: "string \<Rightarrow> string list \<Rightarrow> string option" where
  "last_entry k kvs = fold (\<lambda>kv acc. if key_of kv = Some k then Some kv else acc) kvs None"

lemma env_put_eq:
  "env_put kv (m, ks) =
     (case key_of kv of None \<Rightarrow> (m, ks) | Some k \<Rightarrow> (m(k \<mapsto> kv), if m k = None then ks @ [k] else ks))"
  by (simp add: env_put_def key_of_def Let_def split: option.splits)

definition merge_inv :: "string list \<Rightarrow> (string \<rightharpoonup> string) \<times> string list \<Rightarrow> bool" where
  "merge_inv kvs b \<longleftrightarrow>
     (case b of (m, ks) \<Rightarrow> distinct ks \<and> set ks = dom m \<and> (\<forall>k. m k = last_entry k kvs) \<and>
        (\<forall>k v. m k = Some v \<longrightarrow> key_of v = Some k))"

lemma last_entry_snoc: "last_entry k (kvs @ [kv]) = (if key_of kv = Some k then Some kv else last_entry k kvs)"
  by (simp add: last_entry_def)

lemma env_put_inv: "merge_inv kvs b \<Longrightarrow> merge_inv (kvs @ [kv]) (env_put kv b)"
proof (cases b)
  case (Pair m ks)
  moreover assume "merge_inv kvs b"
  ultimately show ?thesis
    by (cases "key_of kv") (auto simp: merge_inv_def env_put_eq last_entry_snoc domIff)
qed

lemma fold_env_put_inv: "merge_inv kvs (fold env_put kvs (Map.empty, []))"
proof (induction kvs rule: rev_induct)
  case Nil
  then show ?case by (simp add: merge_inv_def last_entry_def)
next
  case (snoc kv kvs)
  then show ?case using env_put_inv by simp
qed

lemma mergeChildEnv_spec:
  fixes environ eggVars :: "string list" and tmpDir :: string
  defines "kvs \<equiv> environ @ eggVars @ [''TEMP='' @ tmpDir, ''TMP='' @ tmpDir]"
  shows "distinct (map key_of (mergeChildEnv environ eggVars tmpDir))"
    and "set (mergeChildEnv environ eggVars tmpDir) = {kv. \<exists>k. last_entry k kvs = Some kv}"
proof -
  obtain m ks where f: "fold env_put kvs (Map.empty, []) = (m, ks)" by fastforce
  then have out: "mergeChildEnv environ eggVars tmpDir = map (\<lambda>k. the (m k)) ks"
    by (simp add: mergeChildEnv_def kvs_def)
  have inv: "distinct ks" "set ks = dom m" "\<forall>k. m k = last_entry k kvs" "\<forall>k v. m k = Some v \<longrightarrow> key_of v = Some k"
    using fold_env_put_inv [of kvs] f by (auto simp: merge_inv_def)
  then have "map key_of (map (\<lambda>k. the (m k)) ks) = map Some ks" by (auto simp: domIff)
  then show "distinct (map key_of (mergeChildEnv environ eggVars tmpDir))"
    using inv(1) by (simp only: out) (simp add: distinct_map)
  show "set (mergeChildEnv environ eggVars tmpDir) = {kv. \<exists>k. last_entry k kvs = Some kv}"
    using inv(2,3) by (auto simp: out image_iff domIff) (metis domI option.sel)+
qed

section \<open>Properties\<close>



text \<open>A value without blanks and quotes never changes how many arguments a command line has,
  wherever it is inserted: replacing it by another such value gives as many arguments.\<close>

theorem tokenize_plain_value:
  assumes "plain v" "plain w"
  shows "length (tokenize (p @ v @ s)) = length (tokenize (p @ w @ s))"
  by (rule tokenize_plain_count [OF assms])

theorem tokenize_plain_value_witness:
  "length (tokenize (''java -Xmx'' @ ''4096'' @ ''M -jar x'')) = length (tokenize (''java -Xmx'' @ ''1'' @ ''M -jar x''))"
  by (rule tokenize_plain_value) (simp_all add: plain_def is_quote_def is_blank_def)

text \<open>The environment block of a child has one entry per name, names compared without case,
  and the entry is the last one given, so that the server's variables override those of the
  daemon and the temporary directory overrides both.\<close>

theorem child_env_merged:
  "distinct (map key_of (mergeChildEnv environ eggVars tmpDir)) \<and>
   set (mergeChildEnv environ eggVars tmpDir) =
     {kv. \<exists>k. last_entry k (environ @ eggVars @ [''TEMP='' @ tmpDir, ''TMP='' @ tmpDir]) = Some kv}"
  using mergeChildEnv_spec [of environ eggVars tmpDir] by simp

text \<open>The console history holds the most recent lines, as many as its size, and reading the last
  \<open>n\<close> of them gives the last \<open>n\<close> lines that were pushed.\<close>

theorem console_history:
  assumes "0 < m" "0 < n" "n \<le> m" "n \<le> length ls"
  shows "tail (int n) (fold push_line ls (newConsoleBuffer m)) = last_n n ls"
proof -
  have inv: "console_inv (newConsoleBuffer m)" using assms(1) by (simp add: console_inv_def newConsoleBuffer_def)
  have "lines (fold push_line ls (newConsoleBuffer m)) = last_n m ls"
    using history.contents_puts [OF inv, of ls] by (simp add: newConsoleBuffer_def)
  then show ?thesis
    using assms by (simp add: tail_def last_n_def Let_def)
qed

theorem console_history_witness:
  "tail 2 (fold push_line [''a'', ''b'', ''c'', ''d''] (newConsoleBuffer 3)) = [''c'', ''d'']"
  using console_history [of 3 2 "[''a'', ''b'', ''c'', ''d'']"] by (simp add: last_n_def)

end
