(* ===== verification/Winproc_Env.thy ===== *)
theory Winproc_Env
  imports Env_State Invocation
begin

text \<open>
  The Windows backend, \<^verbatim>\<open>environment/winproc/environment.go\<close> and \<^verbatim>\<open>power.go\<close>: a process tree in a
  Job Object. The operating system is a parameter, a record of the calls the code makes. A
  handle is a number with 0 for none, as in the source; \<open>cmd\<close> is whether there is a process.
\<close>

section \<open>The system and the environment\<close>

record 'w win_api =
  w_mkdir :: "'w \<Rightarrow> string option \<times> 'w"
  w_provision :: "'w \<Rightarrow> string option \<times> 'w"
  w_acl :: "'w \<Rightarrow> string option \<times> 'w"
  w_createjob :: "'w \<Rightarrow> (string + nat) \<times> 'w"
  w_close :: "nat \<Rightarrow> 'w \<Rightarrow> unit \<times> 'w"
  w_logon :: "'w \<Rightarrow> string option \<times> 'w"
  w_tmpdir :: "'w \<Rightarrow> string option \<times> 'w"
  w_stdin :: "'w \<Rightarrow> string option \<times> 'w"
  w_pipe :: "'w \<Rightarrow> string option \<times> 'w"
  w_environ :: "string list"  \<comment> \<open>\<^verbatim>\<open>os.Environ\<close>\<close>
  w_directory :: string
  w_join :: "string \<Rightarrow> string \<Rightarrow> string"  \<comment> \<open>Windows paths\<close>
  w_is_abs :: "string \<Rightarrow> bool"
  w_file_exists :: "string \<Rightarrow> 'w \<Rightarrow> bool"
  w_spawn :: "string \<Rightarrow> string list \<Rightarrow> string list \<Rightarrow> 'w \<Rightarrow> string option \<times> 'w"
    \<comment> \<open>executable, arguments, environment\<close>
  w_open :: "'w \<Rightarrow> nat \<times> 'w"  \<comment> \<open>handle of the new process, 0 when it cannot be opened\<close>
  w_assign :: "nat \<Rightarrow> nat \<Rightarrow> 'w \<Rightarrow> unit \<times> 'w"
  w_alive :: "nat \<Rightarrow> 'w \<Rightarrow> (string + bool) \<times> 'w"
  w_killjob :: "nat \<Rightarrow> 'w \<Rightarrow> string option \<times> 'w"
  w_write :: "string \<Rightarrow> 'w \<Rightarrow> string option \<times> 'w"

record 'w win_env = env_cell +
  win_world :: 'w
  job :: nat
  cmd :: bool
  procHandle :: nat
  stdin :: bool
  startedAt :: int
  lastExit :: nat
  console :: consoleBuffer
  win_stop :: stop_config
  envVars :: "string list"

datatype win_error = ApiError string | WinNotAttached | WinDeadline

definition sys :: "('w \<Rightarrow> 'r \<times> 'w) \<Rightarrow> ('w win_env, 'r) state" where
  "sys f = State (\<lambda>e. case f (win_world e) of (r, w) \<Rightarrow> (r, e\<lparr>win_world := w\<rparr>))"

definition win_New :: "'w \<Rightarrow> stop_config \<Rightarrow> string list \<Rightarrow> 'w win_env" where
  "win_New w s vars =
     \<lparr>st = Offline, published = [], win_world = w, job = 0, cmd = False, procHandle = 0, stdin = False,
      startedAt = 0, lastExit = 0, console = newConsoleBuffer 2000, win_stop = s, envVars = vars\<rparr>"

definition closeJob :: "'w win_api \<Rightarrow> ('w win_env, unit) state" where
  "closeJob a = do {
     j \<leftarrow> read_st job;
     modify_st (\<lambda>e. e\<lparr>job := 0\<rparr>);
     if_st (j \<noteq> 0) (sys (w_close a j))
   }"

definition win_Create :: "'w win_api \<Rightarrow> ('w win_env, win_error option) state" where
  "win_Create a = do {
     m \<leftarrow> sys (w_mkdir a);
     (case m of
        Some e \<Rightarrow> ret (Some (ApiError e))
      | None \<Rightarrow> do {
          p \<leftarrow> sys (w_provision a);
          (case p of
             Some e \<Rightarrow> ret (Some (ApiError e))
           | None \<Rightarrow> do {
               c \<leftarrow> sys (w_acl a);
               (case c of
                  Some e \<Rightarrow> ret (Some (ApiError e))
                | None \<Rightarrow> do {
                    j \<leftarrow> read_st job;
                    if j = 0 then do {
                      r \<leftarrow> sys (w_createjob a);
                      (case r of
                         Inl e \<Rightarrow> ret (Some (ApiError e))
                       | Inr h \<Rightarrow> do { modify_st (\<lambda>e. e\<lparr>job := h\<rparr>); ret None })
                    }
                    else ret None
                  })
             })
        })
   }"

definition win_OnBeforeStart :: "'w win_api \<Rightarrow> ('w win_env, win_error option) state" where
  "win_OnBeforeStart a = do { closeJob a; win_Create a }"

definition win_IsRunning :: "'w win_api \<Rightarrow> ('w win_env, bool) state" where
  "win_IsRunning a = do {
     h \<leftarrow> read_st procHandle;
     hasCmd \<leftarrow> read_st cmd;
     if \<not> hasCmd \<or> h = 0 then ret False
     else do { r \<leftarrow> sys (w_alive a h); ret (case r of Inl _ \<Rightarrow> False | Inr b \<Rightarrow> b) }
   }"

section \<open>Power\<close>

text \<open>Errors of the boot sequence, with the cleanup its deferred function does.\<close>

definition win_boot_failed :: "win_error \<Rightarrow> ('w win_env, win_error option) state" where
  "win_boot_failed e = do { enter_state Stopping; enter_state Offline; ret (Some e) }"

definition try_sys :: "('w \<Rightarrow> string option \<times> 'w) \<Rightarrow> ('w win_env, win_error option) state \<Rightarrow> ('w win_env, win_error option) state" where
  "try_sys f m = do {
     r \<leftarrow> sys f;
     (case r of Some e \<Rightarrow> win_boot_failed (ApiError e) | None \<Rightarrow> m)
   }"

text \<open>
  The part of \<^verbatim>\<open>Start\<close> after the process runs: its handle is opened, it is put in the job, and the
  fields are set. The three goroutines are the console reader, the resource poller and \<open>wait\<close>.
\<close>

definition win_adopt :: "'w win_api \<Rightarrow> int \<Rightarrow> ('w win_env, win_error option) state" where
  "win_adopt a now = do {
     h \<leftarrow> sys (w_open a);
     j \<leftarrow> read_st job;
     if_st (j \<noteq> 0 \<and> h \<noteq> 0) (sys (w_assign a j h));
     modify_st (\<lambda>e. e\<lparr>cmd := True, stdin := True, procHandle := h, startedAt := now\<rparr>);
     ret None
   }"

text \<open>An executable that is not given by an absolute path is looked for in the server directory first.\<close>

definition resolve_exe :: "'w win_api \<Rightarrow> 'w \<Rightarrow> string \<Rightarrow> string" where
  "resolve_exe a w exe =
     (if \<not> w_is_abs a exe \<and> w_file_exists a (w_join a (w_directory a) exe) w then w_join a (w_directory a) exe else exe)"

definition win_spawn :: "'w win_api \<Rightarrow> int \<Rightarrow> string list \<Rightarrow> string list \<Rightarrow> ('w win_env, win_error option) state" where
  "win_spawn a now vars argv = do {
     w \<leftarrow> read_st win_world;
     let env = mergeChildEnv (w_environ a) vars (w_join a (w_directory a) ''tmp'');
     try_sys (w_stdin a) (try_sys (w_pipe a)
       (try_sys (w_spawn a (resolve_exe a w (hd argv)) (tl argv) env) (win_adopt a now)))
   }"

definition win_boot :: "'w win_api \<Rightarrow> int \<Rightarrow> ('w win_env, win_error option) state" where
  "win_boot a now = do {
     enter_state Starting;
     b \<leftarrow> win_OnBeforeStart a;
     (case b of
        Some e \<Rightarrow> win_boot_failed e
      | None \<Rightarrow> do {
          vars \<leftarrow> read_st envVars;
          (case buildCommand vars of
             Inl e \<Rightarrow> win_boot_failed (ApiError e)
           | Inr argv \<Rightarrow> do {
               modify_st (\<lambda>e. e\<lparr>console := reset_console (console e)\<rparr>);
               try_sys (w_logon a) (try_sys (w_tmpdir a) (win_spawn a now vars argv))
             })
        })
   }"

definition win_Start :: "'w win_api \<Rightarrow> int \<Rightarrow> ('w win_env, win_error option) state" where
  "win_Start a now = do {
     running \<leftarrow> win_IsRunning a;
     if running then do { enter_state Running; ret None } else win_boot a now
   }"

text \<open>
  \<^verbatim>\<open>wait\<close>, once the process has ended: \<open>code\<close> is its exit code, or \<open>None\<close> when waiting failed in
  another way.
\<close>

definition wait_done :: "'w win_api \<Rightarrow> nat option \<Rightarrow> ('w win_env, unit) state" where
  "wait_done a code = do {
     h \<leftarrow> read_st procHandle;
     modify_st (\<lambda>e. e\<lparr>lastExit := (case code of Some c \<Rightarrow> c mod 2 ^ 32 | None \<Rightarrow> 1),
                      cmd := False, stdin := False, procHandle := 0\<rparr>);
     if_st (h \<noteq> 0) (sys (w_close a h));
     enter_state Offline
   }"

definition win_Terminate :: "'w win_api \<Rightarrow> string \<Rightarrow> ('w win_env, win_error option) state" where
  "win_Terminate a sig = do {
     j \<leftarrow> read_st job;
     running \<leftarrow> read_st cmd;
     if \<not> running then do {
       p \<leftarrow> read_st st;
       if_st (p \<noteq> Offline) (do { enter_state Stopping; enter_state Offline });
       ret None
     }
     else do {
       enter_state Stopping;
       if j \<noteq> 0 then do { r \<leftarrow> sys (w_killjob a j); ret (map_option ApiError r) } else ret None
     }
   }"

definition win_SendCommand :: "'w win_api \<Rightarrow> string \<Rightarrow> ('w win_env, win_error option) state" where
  "win_SendCommand a c = do {
     i \<leftarrow> read_st stdin;
     s \<leftarrow> read_st win_stop;
     if \<not> i then ret (Some WinNotAttached)
     else do {
       if_st (stop_type s = ProcessStopCommand \<and> c = stop_value s) (enter_state Stopping);
       r \<leftarrow> sys (w_write a (c @ [CHR 0x0A]));
       ret (map_option ApiError r)
     }
   }"

definition win_Stop :: "'w win_api \<Rightarrow> ('w win_env, win_error option) state" where
  "win_Stop a = do {
     s \<leftarrow> read_st win_stop;
     leave_live;
     if stop_type s = ProcessStopSignal then win_Terminate a ''SIGKILL''
     else do {
       i \<leftarrow> read_st stdin;
       if i \<and> stop_type s = ProcessStopCommand then win_SendCommand a (stop_value s)
       else win_Terminate a ''SIGKILL''
     }
   }"

text \<open>
  The polling loop of \<^verbatim>\<open>WaitForStop\<close>: one entry for each tick before the deadline. What happens
  between two ticks, above all that the process ends, is part of the list: it may change the
  environment. The end of the list is the deadline.
\<close>

fun win_poll :: "'w win_api \<Rightarrow> bool \<Rightarrow> ('w win_env \<Rightarrow> 'w win_env) list \<Rightarrow> ('w win_env, win_error option) state" where
  "win_poll a term [] = (if term then win_Terminate a ''SIGKILL'' else ret (Some WinDeadline))"
| "win_poll a term (t # ts) = do {
     modify_st t;
     running \<leftarrow> win_IsRunning a;
     if \<not> running then ret None else win_poll a term ts
   }"

definition win_WaitForStop :: "'w win_api \<Rightarrow> bool \<Rightarrow> ('w win_env \<Rightarrow> 'w win_env) list \<Rightarrow> ('w win_env, win_error option) state" where
  "win_WaitForStop a term ticks = do {
     r \<leftarrow> win_Stop a;
     (case r of
        Some e \<Rightarrow>
          if term \<and> e = WinDeadline then win_Terminate a ''SIGKILL'' else ret (Some e)
      | None \<Rightarrow> win_poll a term ticks)
   }"

definition win_Destroy :: "'w win_api \<Rightarrow> ('w win_env, win_error option) state" where
  "win_Destroy a = do {
     enter_state Stopping;
     closeJob a;
     enter_state Offline;
     ret None
   }"

definition win_ExitState :: "('w win_env, nat \<times> bool) state" where
  "win_ExitState = read_st (\<lambda>e. (lastExit e, False))"

definition win_Uptime :: "int \<Rightarrow> ('w win_env, int) state" where
  "win_Uptime now = read_st (\<lambda>e. if \<not> cmd e \<or> startedAt e = 0 then 0 else (now - startedAt e) div 1000000)"

section \<open>No operation looks like a crash\<close>

lemma win_frame:
  "history_ok p0 (e\<lparr>win_world := w\<rparr>) = history_ok p0 e" "history_ok p0 (e\<lparr>job := j\<rparr>) = history_ok p0 e"
  "history_ok p0 (e\<lparr>console := c\<rparr>) = history_ok p0 e"
  "history_ok p0 (e\<lparr>cmd := b, stdin := i, procHandle := h, startedAt := t\<rparr>) = history_ok p0 e"
  "history_ok p0 (e\<lparr>lastExit := x, cmd := b, stdin := i, procHandle := h\<rparr>) = history_ok p0 e"
  by (simp_all add: history_ok_def)

lemma sys_calm: "keeps (history_ok p0) (sys f)" "keeps (still p0) (sys f)"
  by (auto simp: triple_def sys_def win_frame split: prod.splits)

lemma closeJob_calm: "keeps (history_ok p0) (closeJob a)" "keeps (still p0) (closeJob a)"
  by (auto simp: triple_def closeJob_def sys_def if_st_def win_frame split: prod.splits)

lemmas win_intros = triple_ret triple_if triple_option triple_sum triple_if_st sys_calm triple_read

lemma win_bind: "keeps I m \<Longrightarrow> (\<And>a. triple I (f a) Q) \<Longrightarrow> triple I (m \<bind> f) Q"
  by (rule triple_bind)

abbreviation boot_post :: "pstate \<Rightarrow> win_error option \<Rightarrow> 'w win_env \<Rightarrow> bool" where
  "boot_post p0 r e \<equiv> history_ok p0 e \<and> (r \<noteq> None \<longrightarrow> st e = Offline)"

lemma win_boot_failed_post: "triple (history_ok p0) (win_boot_failed err) (boot_post p0)"
  unfolding win_boot_failed_def
  by (rule triple_bind [OF enter_state_Stopping], rule triple_bind [OF enter_state_Offline]) (auto intro: triple_ret)

lemma try_sys_post: "triple (history_ok p0) m (boot_post p0) \<Longrightarrow> triple (history_ok p0) (try_sys f m) (boot_post p0)"
  unfolding try_sys_def by (intro win_bind sys_calm triple_option win_boot_failed_post)

lemma win_adopt_post: "triple (history_ok p0) (win_adopt a now) (boot_post p0)"
  unfolding win_adopt_def
  by (auto simp: triple_def sys_def if_st_def win_frame split: prod.splits)

lemma win_Create_calm: "keeps (history_ok p0) (win_Create a)"
  unfolding win_Create_def
  by (auto intro!: win_intros win_bind simp: win_frame intro: triple_modify)

lemma win_spawn_post: "triple (history_ok p0) (win_spawn a now vars argv) (boot_post p0)"
  unfolding win_spawn_def Let_def by (intro win_bind [OF read_keeps] try_sys_post win_adopt_post)

lemma win_boot_post: "triple (history_ok p0) (win_boot a now) (boot_post p0)"
proof -
  have pre: "keeps (history_ok p0) (win_OnBeforeStart a)"
    unfolding win_OnBeforeStart_def by (intro win_bind closeJob_calm win_Create_calm)
  have clear: "keeps (history_ok p0) (modify_st (\<lambda>e. e\<lparr>console := reset_console (console e)\<rparr>))"
    by (simp add: triple_def win_frame)
  have vars: "keeps (history_ok p0) (read_st envVars)" by (simp add: triple_def)
  show ?thesis
    unfolding win_boot_def
    by (intro win_bind enter_state_keeps pre clear vars triple_option triple_sum win_boot_failed_post try_sys_post
        win_spawn_post) simp
qed

lemma win_IsRunning_calm: "keeps (history_ok p0) (win_IsRunning a)" "keeps (still p0) (win_IsRunning a)"
  by (auto simp: triple_def win_IsRunning_def sys_def win_frame split: prod.splits)

lemma win_Start_calm: "keeps (history_ok p0) (win_Start a now)"
proof -
  have boot: "keeps (history_ok p0) (win_boot a now)"
    by (rule triple_post [OF win_boot_post]) simp
  have run: "keeps (history_ok p0) (do { enter_state Running; ret None })"
    by (rule triple_bind [OF enter_state_keeps triple_ret]) simp_all
  show ?thesis
    unfolding win_Start_def by (intro win_bind win_IsRunning_calm triple_if run boot)
qed

lemma win_Terminate_calm:
  "triple (history_ok p0) (win_Terminate a sig) (\<lambda>_. still p0)"
  unfolding win_Terminate_def
  by (auto simp: triple_def sys_def if_st_def win_frame enter_history live_def split: prod.splits)

lemma win_SendCommand_still: "keeps (still p0) (win_SendCommand a c)"
  unfolding win_SendCommand_def
  by (auto simp: triple_def sys_def if_st_def win_frame enter_history live_def split: prod.splits)

lemma win_Stop_still: "triple (history_ok p0) (win_Stop a) (\<lambda>_. still p0)"
proof -
  have kill: "keeps (still p0) (win_Terminate a sig)" for sig
    by (rule triple_pre [OF win_Terminate_calm]) simp
  have rd: "keeps (still p0) (read_st f)" "keeps (history_ok p0) (read_st g)" for f g
    by (simp_all add: triple_def)
  show ?thesis
    unfolding win_Stop_def
    by (intro win_bind [OF rd(2)] triple_bind [OF leave_live_still] win_bind [OF rd(1)] triple_if kill win_SendCommand_still)
qed

text \<open>What may happen between two polls: anything that does not bring the process back to life.\<close>

definition quiet_tick :: "('w win_env \<Rightarrow> 'w win_env) \<Rightarrow> bool" where
  "quiet_tick t \<longleftrightarrow> (\<forall>p0 e. still p0 e \<longrightarrow> still p0 (t e))"

lemma wait_done_quiet: "quiet_tick (\<lambda>e. snd (run_state (wait_done a code) e))"
  by (auto simp: quiet_tick_def wait_done_def sys_def if_st_def win_frame live_def split: prod.splits
      intro!: enter_history)

lemma win_poll_still:
  assumes "\<And>t. t \<in> set ticks \<Longrightarrow> quiet_tick t"
  shows "keeps (still p0) (win_poll a term ticks)"
  using assms
proof (induction ticks)
  case Nil
  then show ?case by (auto intro!: triple_ret triple_pre [OF win_Terminate_calm])
next
  case (Cons t ts)
  have "keeps (still p0) (modify_st t)"
    using Cons.prems [of t] by (auto simp: triple_def quiet_tick_def)
  then show ?case
    using Cons by (auto intro!: win_bind win_IsRunning_calm triple_ret)
qed

lemma win_WaitForStop_still:
  assumes "\<And>t. t \<in> set ticks \<Longrightarrow> quiet_tick t"
  shows "triple (history_ok p0) (win_WaitForStop a term ticks) (\<lambda>_. still p0)"
  unfolding win_WaitForStop_def
  by (rule triple_bind [OF win_Stop_still])
     (auto intro!: triple_option triple_if triple_ret win_poll_still assms triple_pre [OF win_Terminate_calm])

lemma win_Destroy_calm: "triple (history_ok p0) (win_Destroy a) (\<lambda>_ e. still p0 e \<and> st e = Offline)"
  unfolding win_Destroy_def
  by (rule triple_bind [OF enter_state_Stopping], rule triple_bind [OF closeJob_calm(2)],
      rule triple_bind [OF enter_state_Offline]) (auto intro: triple_ret)

text \<open>The fields that describe the process belong together.\<close>

definition win_inv :: "'w win_env \<Rightarrow> bool" where
  "win_inv e \<longleftrightarrow> (\<not> cmd e \<longrightarrow> procHandle e = 0 \<and> \<not> stdin e) \<and> (cmd e \<longrightarrow> stdin e)"

lemma win_New_inv: "win_inv (win_New w s vars)"
  by (simp add: win_inv_def win_New_def)

lemma enter_win [simp]:
  "cmd (enter p e) = cmd e" "procHandle (enter p e) = procHandle e" "stdin (enter p e) = stdin e"
  by (simp_all add: enter_def)

lemma wait_done_inv: "win_inv (snd (run_state (wait_done a code) e))"
  by (auto simp: wait_done_def win_inv_def sys_def if_st_def split: prod.splits)

end
