(* ===== verification/Locker.thy ===== *)
theory Locker
  imports Channel
begin

text \<open>
  \<^verbatim>\<open>system/locker.go\<close> and the atomic cells of \<^verbatim>\<open>system/utils.go\<close>. The locker is a channel
  of capacity one whose only value is the lock. The locale \<open>try_lock\<close> states what the power
  actions and the console throttle rely on; it is interpreted on the locker at the end.
\<close>

section \<open>The locker\<close>

datatype lock_error = ErrLockerLocked

record locker =
  ch :: "bool chan option"

definition NewLocker :: locker where
  "NewLocker = \<lparr>ch = Some (make_chan 1)\<rparr>"

definition IsLocked :: "locker \<Rightarrow> bool" where
  "IsLocked l = (case ch l of None \<Rightarrow> False | Some c \<Rightarrow> length (cbuf c) = 1)"

definition Acquire :: "locker \<Rightarrow> (lock_error option \<times> locker) outcome" where
  "Acquire l =
     (case chan_send True (ch l) of
        Proceeds c \<Rightarrow> Return (None, l\<lparr>ch := Some c\<rparr>)
      | Blocks \<Rightarrow> Return (Some ErrLockerLocked, l)
      | CommPanics m \<Rightarrow> Panic m)"

text \<open>
  A context is live, or done with the error it reports. \<open>TryAcquire\<close> lists the outcomes its
  \<^verbatim>\<open>select\<close> may choose among; the empty list means that it still waits.
\<close>

datatype ctx_error = Canceled | DeadlineExceeded | OtherCtxError

datatype ctx = CtxLive | CtxDone "ctx_error option"

definition TryAcquire :: "ctx \<Rightarrow> locker \<Rightarrow> (lock_error option \<times> locker) outcome list" where
  "TryAcquire cx l =
     (case chan_send True (ch l) of
        Proceeds c \<Rightarrow> [Return (None, l\<lparr>ch := Some c\<rparr>)]
      | Blocks \<Rightarrow> []
      | CommPanics m \<Rightarrow> [Panic m])
     @ (case cx of
          CtxLive \<Rightarrow> []
        | CtxDone err \<Rightarrow>
            (if err = Some DeadlineExceeded \<or> err = Some Canceled
             then [Return (Some ErrLockerLocked, l)]
             else [Return (None, l)]))"

definition Release :: "locker \<Rightarrow> locker" where
  "Release l =
     (case chan_recv (ch l) of
        Proceeds (_, c) \<Rightarrow> l\<lparr>ch := Some c\<rparr>
      | _ \<Rightarrow> l)"

definition Destroy :: "locker \<Rightarrow> locker outcome" where
  "Destroy l =
     (case ch l of
        None \<Rightarrow> Return l
      | Some _ \<Rightarrow>
          (let l' = Release l
           in (case chan_close (ch l') of
                 Return c \<Rightarrow> Return (l'\<lparr>ch := Some c\<rparr>)
               | Panic m \<Rightarrow> Panic m)))"

text \<open>The invariant of a locker in use: an open channel of capacity one, not over-full.\<close>

definition locker_inv :: "locker \<Rightarrow> bool" where
  "locker_inv l \<longleftrightarrow> (\<exists>c. ch l = Some c \<and> ccap c = 1 \<and> \<not> cclosed c \<and> chan_wf c)"

lemma locker_invE [elim]:
  assumes "locker_inv l"
  obtains c where "ch l = Some c" "ccap c = 1" "\<not> cclosed c"
    "cbuf c = [] \<or> (\<exists>b. cbuf c = [b])"
  using assms by (auto simp: locker_inv_def chan_wf_def le_Suc_eq length_Suc_conv)

lemma NewLocker_inv [inv_intros]: "locker_inv NewLocker"
  by (simp add: locker_inv_def NewLocker_def make_chan_wf)

lemma NewLocker_unlocked [simp]: "\<not> IsLocked NewLocker"
  by (simp add: IsLocked_def NewLocker_def)

lemma Acquire_cases:
  assumes "locker_inv l"
  shows "(IsLocked l \<and> Acquire l = Return (Some ErrLockerLocked, l))
       \<or> (\<not> IsLocked l \<and> (\<exists>l'. Acquire l = Return (None, l') \<and> IsLocked l' \<and> locker_inv l'))"
  using assms
  by (elim locker_invE)
     (auto simp: Acquire_def chan_send_def IsLocked_def locker_inv_def chan_wf_def)

lemma Release_inv [inv_intros]: "locker_inv l \<Longrightarrow> locker_inv (Release l)"
  by (elim locker_invE)
     (auto simp: Release_def chan_recv_def locker_inv_def chan_wf_def split: list.splits)

lemma Release_unlocks: "locker_inv l \<Longrightarrow> \<not> IsLocked (Release l)"
  by (elim locker_invE)
     (auto simp: Release_def chan_recv_def IsLocked_def split: list.splits)

lemma Release_unlocked_id: "locker_inv l \<Longrightarrow> \<not> IsLocked l \<Longrightarrow> Release l = l"
  by (elim locker_invE)
     (auto simp: Release_def chan_recv_def IsLocked_def split: list.splits)

lemma Acquire_Release:
  assumes "locker_inv l" "Acquire l = Return (None, l')"
  shows "Release l' = l"
proof -
  obtain c where c: "ch l = Some c" "ccap c = 1" "\<not> cclosed c"
    using assms(1) by blast
  with assms(2) have "cbuf c = []" and "l' = l\<lparr>ch := Some (c\<lparr>cbuf := [True]\<rparr>)\<rparr>"
    by (auto simp: Acquire_def chan_send_def split: if_splits)
  with c show ?thesis by (simp add: Release_def chan_recv_def)
qed

lemma TryAcquire_inv:
  assumes "locker_inv l" "Return (e, l') \<in> set (TryAcquire cx l)"
  shows "locker_inv l'"
  using assms
  by (elim locker_invE)
     (auto simp: TryAcquire_def chan_send_def locker_inv_def chan_wf_def split: ctx.splits if_splits)

section \<open>What clients rely on\<close>

text \<open>
  A lock that is taken without waiting. \<open>grab\<close> returns the locked state, or \<open>None\<close> when the
  lock is held; \<open>drop_lock\<close> gives it back.
\<close>

locale try_lock =
  fixes grab :: "'l \<Rightarrow> 'l option"
    and drop_lock :: "'l \<Rightarrow> 'l"
    and held :: "'l \<Rightarrow> bool"
    and linv :: "'l \<Rightarrow> bool"
  assumes grab_held: "linv l \<Longrightarrow> grab l = None \<longleftrightarrow> held l"
    and grab_Some: "linv l \<Longrightarrow> grab l = Some l' \<Longrightarrow> held l' \<and> linv l'"
    and drop_lock_frees: "linv l \<Longrightarrow> \<not> held (drop_lock l) \<and> linv (drop_lock l)"
begin

lemma grab_free: "linv l \<Longrightarrow> \<not> held l \<Longrightarrow> \<exists>l'. grab l = Some l' \<and> held l' \<and> linv l'"
  using grab_held grab_Some by (cases "grab l") auto

lemma grab_twice: "linv l \<Longrightarrow> grab l = Some l' \<Longrightarrow> grab l' = None"
  using grab_held grab_Some by blast

lemma grab_after_drop: "linv l \<Longrightarrow> \<exists>l'. grab (drop_lock l) = Some l'"
  using drop_lock_frees grab_free by blast

end

definition locker_grab :: "locker \<Rightarrow> locker option" where
  "locker_grab l = (case Acquire l of Return (None, l') \<Rightarrow> Some l' | _ \<Rightarrow> None)"

lemma locker_grab_eq:
  assumes "locker_inv l"
  shows "locker_grab l = Some l' \<longleftrightarrow> Acquire l = Return (None, l')"
  using Acquire_cases [OF assms] by (auto simp: locker_grab_def)

interpretation lk: try_lock locker_grab Release IsLocked locker_inv
proof unfold_locales
  fix l assume inv: "locker_inv l"
  show "locker_grab l = None \<longleftrightarrow> IsLocked l"
    using Acquire_cases [OF inv] by (auto simp: locker_grab_def)
  show "\<not> IsLocked (Release l) \<and> locker_inv (Release l)"
    using inv by (simp add: Release_unlocks Release_inv)
next
  fix l l' assume inv: "locker_inv l" and "locker_grab l = Some l'"
  then show "IsLocked l' \<and> locker_inv l'"
    using Acquire_cases [OF inv] by (auto simp: locker_grab_eq)
qed

section \<open>Atomic cells\<close>

record 'a atomic =
  av :: 'a

type_synonym atomic_bool = "bool atomic"
type_synonym atomic_string = "string atomic"

definition NewAtomic :: "'a \<Rightarrow> 'a atomic" where
  "NewAtomic v = \<lparr>av = v\<rparr>"

definition Store :: "'a \<Rightarrow> 'a atomic \<Rightarrow> 'a atomic" where
  "Store v a = a\<lparr>av := v\<rparr>"

definition Load :: "'a atomic \<Rightarrow> 'a" where
  "Load a = av a"

definition SwapIf :: "bool \<Rightarrow> atomic_bool \<Rightarrow> bool \<times> atomic_bool" where
  "SwapIf v ab = (if av ab \<noteq> v then (True, ab\<lparr>av := v\<rparr>) else (False, ab))"

lemma Load_Store [simp]: "Load (Store v a) = v"
  by (simp add: Load_def Store_def)

lemma Load_NewAtomic [simp]: "Load (NewAtomic v) = v"
  by (simp add: Load_def NewAtomic_def)

text \<open>\<open>SwapIf\<close> always leaves the wanted value and reports whether it changed anything, so of two
  calls in a row for the same value the second one reports that nothing was swapped.\<close>

lemma SwapIf_spec: "SwapIf v ab = (Load ab \<noteq> v, Store v ab)"
  by (cases ab) (auto simp: SwapIf_def Load_def Store_def)

lemma SwapIf_twice: "fst (SwapIf v (snd (SwapIf v ab))) = False"
  by (simp add: SwapIf_spec)

section \<open>Properties\<close>

text \<open>Destroying a locker releases it and closes its channel; afterwards both taking it and
  destroying it again panic.\<close>

theorem destroyed_locker_panics:
  assumes "locker_inv l"
  shows "\<exists>l'. Destroy l = Return l' \<and> \<not> IsLocked l' \<and> \<not> returns (Acquire l') \<and> \<not> returns (Destroy l')"
  using assms
  by (elim locker_invE)
     (auto simp: Destroy_def Release_def chan_recv_def chan_close_def Acquire_def chan_send_def IsLocked_def Let_def)

theorem destroyed_locker_panics_witness:
  "\<exists>l'. Destroy NewLocker = Return l' \<and> \<not> IsLocked l' \<and> \<not> returns (Acquire l') \<and> \<not> returns (Destroy l')"
  by (rule destroyed_locker_panics) (rule NewLocker_inv)

end
