(* ===== verification/Server_Power.thy ===== *)
theory Server_Power
  imports Locker Env_State
begin

text \<open>
  Power actions of a server, \<^verbatim>\<open>server/power.go\<close>, with \<^verbatim>\<open>Sync\<close> of \<^verbatim>\<open>server.go\<close> and the platform check of
  \<^verbatim>\<open>platform.go\<close>. The process backend is a record of functions, as it is an interface in the
  source; both backends are plugged in at the end of the development. The panel, the disk check
  and the file system are answered by a parameter.
\<close>

section \<open>The server\<close>

datatype 'x power_error =
  ErrServerIsRestoring | ErrServerIsTransferring | ErrServerIsInstalling
| LockError lock_error | ErrIsRunning | ErrSuspended | PlatformMismatch string
| SyncError string | ServerDoesNotExist | NoDiskSpace | ChownError string | EnvError 'x | UnknownAction

text \<open>What the server does to the outside, in order.\<close>

datatype action_event =
  DidSync | DidCancelSockets | DidSyncEnvironment | DidCheckDisk bool | DidUpdateConfig | DidChown
| DidStart | DidWaitForStop | DidTerminate
| DidInSituUpdate | DidSpawnStop  \<comment> \<open>the goroutine that stops a suspended server\<close>

record ('e, 'x) backend =
  b_state :: "'e \<Rightarrow> pstate"
  b_start :: "('e, 'x option) state"
  b_wait_for_stop :: "('e, 'x option) state"
  b_terminate :: "('e, 'x option) state"
  b_exit_state :: "('e, 'x + nat \<times> bool) state"

record settings =
  suspended :: bool
  egg_image :: string
  build_disk_space :: int
  crash_detection :: bool

text \<open>The limit in bytes; the panel sends it in mebibytes.\<close>

definition DiskSpace :: "settings \<Rightarrow> int" where
  "DiskSpace c = i64 (build_disk_space c * (1024 * 1024))"

datatype sync_reply = SyncFailed string | SyncNotFound | SyncSettings settings

record world_reply =
  r_sync :: sync_reply
  r_space :: bool
  r_check_permissions :: bool
  r_chown :: "string option"
  r_windows :: bool  \<comment> \<open>whether this is a Windows node\<close>

record 'e server =
  installing :: atomic_bool
  transferring :: atomic_bool
  restoring :: atomic_bool
  powerLock :: locker
  cfg :: settings
  disk_limit :: int
  environment :: 'e
  log :: "action_event list"

definition server_New :: "settings \<Rightarrow> 'e \<Rightarrow> 'e server" where
  "server_New c e =
     \<lparr>installing = NewAtomic False, transferring = NewAtomic False, restoring = NewAtomic False,
      powerLock = NewLocker, cfg = c, disk_limit = DiskSpace c, environment = e, log = []\<rparr>"

definition emit :: "action_event \<Rightarrow> ('e server, unit) state" where
  "emit a = modify_st (\<lambda>s. s\<lparr>log := log s @ [a]\<rparr>)"

definition in_env :: "('e, 'r) state \<Rightarrow> ('e server, 'r) state" where
  "in_env m = State (\<lambda>s. case run_state m (environment s) of (r, e) \<Rightarrow> (r, s\<lparr>environment := e\<rparr>))"

definition isWindowsImage :: "string \<Rightarrow> bool" where
  "isWindowsImage img = HasPrefix (TrimPrefix (ToLower (TrimSpace img)) ''~'') ''windows''"

definition assertEggPlatform :: "bool \<Rightarrow> string \<Rightarrow> 'x power_error option" where
  "assertEggPlatform windows img =
     (if windows \<noteq> isWindowsImage img then Some (PlatformMismatch img) else None)"

definition SyncWithEnvironment :: "('e, 'x) backend \<Rightarrow> ('e server, unit) state" where
  "SyncWithEnvironment b = do {
     emit DidSyncEnvironment;
     s \<leftarrow> read_st id;
     if \<not> suspended (cfg s) then emit DidInSituUpdate
     else if_st (b_state b (environment s) \<noteq> Offline) (emit DidSpawnStop)
   }"

definition Sync :: "('e, 'x) backend \<Rightarrow> world_reply \<Rightarrow> ('e server, 'x power_error option) state" where
  "Sync b w = do {
     emit DidSync;
     (case r_sync w of
        SyncFailed e \<Rightarrow> ret (Some (SyncError e))
      | SyncNotFound \<Rightarrow> ret (Some ServerDoesNotExist)
      | SyncSettings c \<Rightarrow> do {
          modify_st (\<lambda>s. s\<lparr>cfg := c, disk_limit := DiskSpace c\<rparr>);
          SyncWithEnvironment b;
          if_st (suspended c) (emit DidCancelSockets);
          ret None
        })
   }"

definition onBeforeStart :: "('e, 'x) backend \<Rightarrow> world_reply \<Rightarrow> ('e server, 'x power_error option) state" where
  "onBeforeStart b w = do {
     err \<leftarrow> Sync b w;
     (case err of
        Some e \<Rightarrow> ret (Some e)
      | None \<Rightarrow> do {
          c \<leftarrow> read_st cfg;
          if suspended c then ret (Some ErrSuspended)
          else (case assertEggPlatform (r_windows w) (egg_image c) of
                  Some e \<Rightarrow> ret (Some e)
                | None \<Rightarrow> do {
                    SyncWithEnvironment b;
                    emit (DidCheckDisk (DiskSpace c \<le> 0));
                    if DiskSpace c > 0 \<and> \<not> r_space w then ret (Some NoDiskSpace)
                    else do {
                      emit DidUpdateConfig;
                      if r_check_permissions w
                      then do { emit DidChown; ret (map_option ChownError (r_chown w)) }
                      else ret None
                    }
                  })
        })
   }"

section \<open>Power actions\<close>

abbreviation PowerActionStart :: string where "PowerActionStart \<equiv> ''start''"
abbreviation PowerActionStop :: string where "PowerActionStop \<equiv> ''stop''"
abbreviation PowerActionRestart :: string where "PowerActionRestart \<equiv> ''restart''"
abbreviation PowerActionTerminate :: string where "PowerActionTerminate \<equiv> ''kill''"

definition IsValid :: "string \<Rightarrow> bool" where
  "IsValid pa \<longleftrightarrow>
     pa = PowerActionStart \<or> pa = PowerActionStop \<or> pa = PowerActionTerminate \<or> pa = PowerActionRestart"

definition IsStart :: "string \<Rightarrow> bool" where
  "IsStart pa \<longleftrightarrow> pa = PowerActionStart \<or> pa = PowerActionRestart"

definition boot_server :: "('e, 'x) backend \<Rightarrow> world_reply \<Rightarrow> ('e server, 'x power_error option) state" where
  "boot_server b w = do {
     err \<leftarrow> onBeforeStart b w;
     (case err of
        Some e \<Rightarrow> ret (Some e)
      | None \<Rightarrow> do { emit DidStart; r \<leftarrow> in_env (b_start b); ret (map_option EnvError r) })
   }"

text \<open>The switch of \<^verbatim>\<open>HandlePowerAction\<close>.\<close>

definition run_action :: "('e, 'x) backend \<Rightarrow> world_reply \<Rightarrow> string \<Rightarrow> ('e server, 'x power_error option) state" where
  "run_action b w action =
     (if action = PowerActionStart then do {
        e \<leftarrow> read_st environment;
        if b_state b e \<noteq> Offline then ret (Some ErrIsRunning) else boot_server b w
      }
      else if action = PowerActionStop \<or> action = PowerActionRestart then do {
        emit DidWaitForStop;
        r \<leftarrow> in_env (b_wait_for_stop b);
        (case r of
           Some e \<Rightarrow> ret (Some (EnvError e))
         | None \<Rightarrow> if action = PowerActionStop then ret None else boot_server b w)
      }
      else if action = PowerActionTerminate then do {
        emit DidTerminate;
        r \<leftarrow> in_env (b_terminate b);
        ret (map_option EnvError r)
      }
      else ret (Some UnknownAction))"

text \<open>
  The whole function. It returns, or it still waits for the lock, or it panics (the lock has been
  destroyed). \<open>cx\<close> is the context with the timeout, and \<open>pick\<close> chooses among the clauses of the
  \<^verbatim>\<open>select\<close> in \<^verbatim>\<open>TryAcquire\<close> that can proceed.
\<close>

datatype 'x power_result = Returned "'x power_error option" | Waiting | Panicked string

definition busy_error :: "'e server \<Rightarrow> 'x power_error option" where
  "busy_error s =
     (if Load (installing s) \<or> Load (transferring s) \<or> Load (restoring s)
      then Some (if Load (restoring s) then ErrServerIsRestoring
                 else if Load (transferring s) then ErrServerIsTransferring
                 else ErrServerIsInstalling)
      else None)"

definition locked_run :: "('e, 'x) backend \<Rightarrow> world_reply \<Rightarrow> string \<Rightarrow> locker \<Rightarrow> 'e server \<Rightarrow> 'x power_result \<times> 'e server" where
  "locked_run b w action lk s =
     (case run_state (run_action b w action) (s\<lparr>powerLock := lk\<rparr>) of
        (r, s') \<Rightarrow> (Returned r, s'\<lparr>powerLock := Release (powerLock s')\<rparr>))"

definition HandlePowerAction ::
  "('e, 'x) backend \<Rightarrow> world_reply \<Rightarrow> ctx \<Rightarrow> nat \<Rightarrow> int list \<Rightarrow> string \<Rightarrow> 'e server \<Rightarrow> 'x power_result \<times> 'e server" where
  "HandlePowerAction b w cx pick waitSeconds action s =
     (case busy_error s of
        Some e \<Rightarrow> (Returned (Some e), s)
      | None \<Rightarrow>
          (let wait = (case waitSeconds of n # _ \<Rightarrow> if n > 0 then n else 0 | [] \<Rightarrow> 0) in
           if action \<noteq> PowerActionTerminate then
             (let outcomes = (if wait > 0 then TryAcquire cx (powerLock s) else [Acquire (powerLock s)]) in
              if outcomes = [] then (Waiting, s)
              else (case outcomes ! (pick mod length outcomes) of
                      Panic m \<Rightarrow> (Panicked m, s)
                    | Return (Some e, _) \<Rightarrow> (Returned (Some (LockError e)), s)
                    | Return (None, lk) \<Rightarrow> locked_run b w action lk s))
           else
             (case Acquire (powerLock s) of
                Panic m \<Rightarrow> (Panicked m, s)
              | Return (None, lk) \<Rightarrow> locked_run b w action lk s
              | Return (Some _, _) \<Rightarrow>
                  (case run_state (run_action b w action) s of (r, s') \<Rightarrow> (Returned r, s')))))"

section \<open>What the pre-boot checks guarantee\<close>

text \<open>
  The steps before the environment is touched change neither it nor the lock nor the flags.
\<close>

definition same_base :: "'e server \<Rightarrow> 'e server \<Rightarrow> bool" where
  "same_base s t \<longleftrightarrow>
     environment t = environment s \<and> powerLock t = powerLock s \<and> installing t = installing s \<and>
     transferring t = transferring s \<and> restoring t = restoring s"

lemma same_base_refl [simp]: "same_base s s"
  by (simp add: same_base_def)

lemma same_base_upd [simp]:
  "same_base s (t\<lparr>log := l\<rparr>) = same_base s t" "same_base s (t\<lparr>cfg := c, disk_limit := d\<rparr>) = same_base s t"
  by (simp_all add: same_base_def)

lemma emit_base: "keeps (same_base s) (emit a)"
  by (simp add: triple_def emit_def)

lemma SyncWithEnvironment_base: "keeps (same_base s) (SyncWithEnvironment b)"
  by (auto simp: triple_def SyncWithEnvironment_def emit_def if_st_def)

lemma Sync_base: "keeps (same_base s) (Sync b w)"
proof -
  have c: "keeps (same_base s) (modify_st (\<lambda>s. s\<lparr>cfg := c, disk_limit := DiskSpace c\<rparr>))" for c
    by (simp add: triple_def)
  show ?thesis
    unfolding Sync_def
    by (cases "r_sync w")
       (auto intro!: triple_bind [OF emit_base] triple_ret triple_bind [OF c] triple_bind [OF SyncWithEnvironment_base]
          triple_bind [OF triple_if_st] emit_base)
qed

text \<open>A boot is let through only for a server that is not suspended, fits the node and has space.\<close>

definition may_boot :: "world_reply \<Rightarrow> bool" where
  "may_boot w \<longleftrightarrow>
     (case r_sync w of
        SyncSettings c \<Rightarrow>
          \<not> suspended c \<and> r_windows w = isWindowsImage (egg_image c) \<and> (DiskSpace c > 0 \<longrightarrow> r_space w) \<and>
          (r_check_permissions w \<longrightarrow> r_chown w = None)
      | _ \<Rightarrow> False)"

lemma onBeforeStart_result: "(fst (run_state (onBeforeStart b w) s) = None) = may_boot w"
  by (auto simp: onBeforeStart_def Sync_def SyncWithEnvironment_def emit_def may_boot_def assertEggPlatform_def if_st_def
      split: sync_reply.splits)

lemma onBeforeStart_base: "keeps (same_base s) (onBeforeStart b w)"
  unfolding onBeforeStart_def
  by (intro triple_bind [OF Sync_base] triple_option triple_ret triple_bind [OF read_keeps] triple_if
        triple_bind [OF SyncWithEnvironment_base] triple_bind [OF emit_base])

lemma onBeforeStart_never_starts:
  "set (log (snd (run_state (onBeforeStart b w) s))) \<subseteq> set (log s) \<union> - {DidStart, DidWaitForStop, DidTerminate}"
  by (auto simp: onBeforeStart_def Sync_def SyncWithEnvironment_def emit_def assertEggPlatform_def if_st_def
      split: sync_reply.splits)

section \<open>The power lock\<close>

lemma in_env_lock: "powerLock (snd (run_state (in_env m) s)) = powerLock s"
  by (simp add: in_env_def split: prod.splits)

lemma in_env_keeps_lock: "keeps (\<lambda>s. powerLock s = l) (in_env m)"
  by (auto simp: triple_def in_env_def split: prod.splits)

lemma emit_lock: "keeps (\<lambda>s. powerLock s = l) (emit a)"
  by (simp add: triple_def emit_def)

lemma boot_server_lock: "keeps (\<lambda>s. powerLock s = l) (boot_server b w)"
proof -
  have pre: "keeps (\<lambda>s. powerLock s = l) (onBeforeStart b w)"
  proof (rule tripleI)
    fix s :: "'a server" and a s' assume "powerLock s = l" and run: "run_state (onBeforeStart b w) s = (a, s')"
    then show "powerLock s' = l" using tripleD [OF onBeforeStart_base same_base_refl run] by (simp add: same_base_def)
  qed
  show ?thesis
    unfolding boot_server_def
    by (intro triple_bind [OF pre] triple_option triple_ret triple_bind [OF emit_lock] triple_bind [OF in_env_keeps_lock])
qed

lemma run_action_lock: "powerLock (snd (run_state (run_action b w action) s)) = powerLock s"
proof -
  have "keeps (\<lambda>t. powerLock t = powerLock s) (run_action b w action)"
    unfolding run_action_def
    by (intro triple_if triple_bind [OF read_keeps] triple_ret boot_server_lock triple_bind [OF emit_lock]
        triple_bind [OF in_env_keeps_lock] triple_option)
  then show ?thesis by (rule triple_snd) simp
qed

text \<open>The error of a context that is done is one of the two that \<^verbatim>\<open>context.Context\<close> documents.\<close>

definition ctx_ok :: "ctx \<Rightarrow> bool" where
  "ctx_ok cx \<longleftrightarrow> cx = CtxLive \<or> cx = CtxDone (Some Canceled) \<or> cx = CtxDone (Some DeadlineExceeded)"

lemma locked_run_lock:
  assumes "locker_inv (powerLock s)" "Acquire (powerLock s) = Return (None, lk)"
  shows "powerLock (snd (locked_run b w action lk s)) = powerLock s"
  using Acquire_Release [OF assms] run_action_lock [of b w action "s\<lparr>powerLock := lk\<rparr>"]
  by (auto simp: locked_run_def split: prod.splits)

lemma TryAcquire_Acquire:
  assumes "ctx_ok cx" "Return (None, lk) \<in> set (TryAcquire cx l)"
  shows "Acquire l = Return (None, lk)"
  using assms by (auto simp: TryAcquire_def Acquire_def ctx_ok_def split: comm.splits)

text \<open>The lock outcomes that \<^verbatim>\<open>HandlePowerAction\<close> chooses from.\<close>

definition lock_outcomes :: "ctx \<Rightarrow> int list \<Rightarrow> locker \<Rightarrow> (lock_error option \<times> locker) outcome list" where
  "lock_outcomes cx ws l =
     (if (case ws of n # _ \<Rightarrow> n > 0 | [] \<Rightarrow> False) then TryAcquire cx l else [Acquire l])"

lemma lock_outcomes_Acquire:
  assumes "ctx_ok cx" "Return (None, lk) \<in> set (lock_outcomes cx ws l)"
  shows "Acquire l = Return (None, lk)"
  using assms TryAcquire_Acquire by (auto simp: lock_outcomes_def split: if_splits list.splits)

lemma HandlePowerAction_cases:
  "HandlePowerAction b w cx pick ws action s =
     (case busy_error s of
        Some e \<Rightarrow> (Returned (Some e), s)
      | None \<Rightarrow>
          if action \<noteq> PowerActionTerminate then
            (let os = lock_outcomes cx ws (powerLock s) in
             if os = [] then (Waiting, s)
             else (case os ! (pick mod length os) of
                     Panic m \<Rightarrow> (Panicked m, s)
                   | Return (Some e, _) \<Rightarrow> (Returned (Some (LockError e)), s)
                   | Return (None, lk) \<Rightarrow> locked_run b w action lk s))
          else
            (case Acquire (powerLock s) of
               Panic m \<Rightarrow> (Panicked m, s)
             | Return (None, lk) \<Rightarrow> locked_run b w action lk s
             | Return (Some _, _) \<Rightarrow> apfst Returned (run_state (run_action b w action) s)))"
  by (cases ws) (auto simp: HandlePowerAction_def lock_outcomes_def Let_def apfst_def map_prod_def split: option.splits
      outcome.splits prod.splits)

text \<open>Whatever happens, the lock is left as it was found.\<close>

lemma HandlePowerAction_lock:
  assumes "locker_inv (powerLock s)" "ctx_ok cx"
  shows "powerLock (snd (HandlePowerAction b w cx pick ws action s)) = powerLock s"
proof -
  let ?os = "lock_outcomes cx ws (powerLock s)"
  have nth: "?os \<noteq> [] \<Longrightarrow> ?os ! (pick mod length ?os) \<in> set ?os" by simp
  have "?os \<noteq> [] \<Longrightarrow> ?os ! (pick mod length ?os) = Return (None, lk) \<Longrightarrow>
      powerLock (snd (locked_run b w action lk s)) = powerLock s" for lk
    using nth lock_outcomes_Acquire [OF assms(2), of lk ws "powerLock s"] locked_run_lock [OF assms(1)] by auto
  then show ?thesis
    using run_action_lock [of b w action s] locked_run_lock [OF assms(1), of _ b w action]
    by (auto simp: HandlePowerAction_cases Let_def apfst_def map_prod_def split: option.splits outcome.splits prod.splits)
qed

section \<open>Power actions never look like a crash\<close>

text \<open>
  What the server relies on of a process backend, for a backend built from \<open>d\<close>: the state it
  reports is that of its cell; booting, stopping and killing publish their states without a
  step from a live state straight to offline; and stopping leaves it not live.
\<close>

locale process_environment =
  fixes mk :: "'d \<Rightarrow> ('a env_cell_scheme, 'x) backend"
    and good :: "'d \<Rightarrow> bool"
  assumes state_is: "b_state (mk d) e = st e"
    and start_calm: "good d \<Longrightarrow> keeps (history_ok p0) (b_start (mk d))"
    and wait_still: "good d \<Longrightarrow> triple (history_ok p0) (b_wait_for_stop (mk d)) (\<lambda>_. still p0)"
    and terminate_calm: "good d \<Longrightarrow> keeps (history_ok p0) (b_terminate (mk d))"
begin

abbreviation env_calm :: "pstate \<Rightarrow> ('a env_cell_scheme) server \<Rightarrow> bool" where
  "env_calm p0 s \<equiv> history_ok p0 (environment s)"

lemma in_env_calm: "keeps (history_ok p0) m \<Longrightarrow> keeps (env_calm p0) (in_env m)"
  by (auto simp: triple_def in_env_def split: prod.splits)

lemma emit_calm: "keeps (env_calm p0) (emit a)"
  by (simp add: triple_def emit_def)

lemma boot_server_calm:
  assumes "good d"
  shows "keeps (env_calm p0) (boot_server (mk d) w)"
proof -
  have pre: "keeps (env_calm p0) (onBeforeStart (mk d) w)"
  proof (rule tripleI)
    fix s a s' assume "env_calm p0 s" and run: "run_state (onBeforeStart (mk d) w) s = (a, s')"
    then show "env_calm p0 s'" using tripleD [OF onBeforeStart_base same_base_refl run] by (simp add: same_base_def)
  qed
  show ?thesis
    unfolding boot_server_def
    by (intro triple_bind [OF pre] triple_option triple_ret triple_bind [OF emit_calm]
        triple_bind [OF in_env_calm [OF start_calm [OF assms]]])
qed

lemma run_action_calm:
  assumes "good d"
  shows "keeps (env_calm p0) (run_action (mk d) w action)"
proof -
  have wait: "keeps (history_ok p0) (b_wait_for_stop (mk d))"
    by (rule still_history [OF wait_still [OF assms]])
  show ?thesis
    unfolding run_action_def
    by (intro triple_if triple_bind [OF read_keeps] triple_ret boot_server_calm [OF assms] triple_bind [OF emit_calm]
        triple_bind [OF in_env_calm [OF wait]] triple_bind [OF in_env_calm [OF terminate_calm [OF assms]]] triple_option)
qed

lemma locked_run_calm:
  assumes "good d" "env_calm p0 s"
  shows "env_calm p0 (snd (locked_run (mk d) w action lk s))"
  using triple_snd [OF run_action_calm [OF assms(1)], of p0 "s\<lparr>powerLock := lk\<rparr>" w action] assms(2)
  by (auto simp: locked_run_def split: prod.splits)

lemma HandlePowerAction_calm:
  assumes "good d" "env_calm p0 s"
  shows "env_calm p0 (snd (HandlePowerAction (mk d) w cx pick ws action s))"
  using assms locked_run_calm [OF assms] triple_snd [OF run_action_calm [OF assms(1)], of p0 s w action]
  by (auto simp: HandlePowerAction_cases Let_def apfst_def map_prod_def
      split: option.splits outcome.splits prod.splits)

end

section \<open>Only a server that may boot is started\<close>

text \<open>What has been logged since the first \<open>n\<close> entries contains a start only when the checks allow it.\<close>

definition boots_ok :: "nat \<Rightarrow> world_reply \<Rightarrow> 'e server \<Rightarrow> bool" where
  "boots_ok n w s \<longleftrightarrow> n \<le> length (log s) \<and> (DidStart \<in> set (drop n (log s)) \<longrightarrow> may_boot w)"

lemma emit_boots: "a \<noteq> DidStart \<or> may_boot w \<Longrightarrow> keeps (boots_ok n w) (emit a)"
  by (auto simp: triple_def emit_def boots_ok_def)

lemma SyncWithEnvironment_boots: "keeps (boots_ok n w) (SyncWithEnvironment b)"
  unfolding SyncWithEnvironment_def
  by (intro triple_bind [OF emit_boots] triple_bind [OF read_keeps] triple_if triple_if_st emit_boots) simp_all

lemma Sync_boots: "keeps (boots_ok n w) (Sync b w)"
proof -
  have c: "keeps (boots_ok n w) (modify_st (\<lambda>s. s\<lparr>cfg := c, disk_limit := d\<rparr>))" for c d
    by (simp add: triple_def boots_ok_def)
  have e: "keeps (boots_ok n w) (emit DidSync)" "keeps (boots_ok n w) (emit DidCancelSockets)"
    by (simp_all add: emit_boots)
  show ?thesis
    unfolding Sync_def
    by (cases "r_sync w")
       (auto intro!: triple_bind [OF e(1)] triple_ret triple_bind [OF c] triple_bind [OF SyncWithEnvironment_boots]
          triple_bind [OF triple_if_st] e(2))
qed

lemma onBeforeStart_boots: "keeps (boots_ok n w) (onBeforeStart b w)"
proof -
  have e: "keeps (boots_ok n w) (emit (DidCheckDisk x))" "keeps (boots_ok n w) (emit DidUpdateConfig)"
    "keeps (boots_ok n w) (emit DidChown)" for x
    by (simp_all add: emit_boots)
  show ?thesis
    unfolding onBeforeStart_def
    by (intro triple_bind [OF Sync_boots] triple_option triple_ret triple_bind [OF read_keeps] triple_if
        triple_bind [OF SyncWithEnvironment_boots] triple_bind [OF e(1)] triple_bind [OF e(2)] triple_bind [OF e(3)])
qed

lemma boot_server_boots: "keeps (boots_ok n w) (boot_server b w)"
proof -
  have "triple (\<lambda>_. True) (onBeforeStart b w) (\<lambda>r s. r = None \<longrightarrow> may_boot w)"
    by (simp add: triple_def split_beta onBeforeStart_result)
  from triple_conj [OF onBeforeStart_boots this]
  have pre: "triple (boots_ok n w) (onBeforeStart b w) (\<lambda>r s. boots_ok n w s \<and> (r = None \<longrightarrow> may_boot w))" by simp
  have env: "keeps (boots_ok n w) (in_env m)" for m :: "('a, 'r) state"
    by (auto simp: triple_def in_env_def boots_ok_def split: prod.splits)
  show ?thesis
    unfolding boot_server_def
    by (rule triple_bind [OF pre], rule triple_option)
       (auto intro!: triple_pure triple_ret triple_bind [OF emit_boots] triple_bind [OF env])
qed

lemma run_action_boots: "keeps (boots_ok n w) (run_action b w action)"
proof -
  have env: "keeps (boots_ok n w) (in_env m)" for m :: "('a, 'r) state"
    by (auto simp: triple_def in_env_def boots_ok_def split: prod.splits)
  have e: "keeps (boots_ok n w) (emit DidWaitForStop)" "keeps (boots_ok n w) (emit DidTerminate)"
    by (simp_all add: emit_boots)
  show ?thesis
    unfolding run_action_def
    by (intro triple_if triple_bind [OF read_keeps] triple_ret boot_server_boots triple_bind [OF e(1)]
        triple_bind [OF e(2)] triple_bind [OF env] triple_option)
qed

lemma HandlePowerAction_boots:
  assumes "boots_ok n w s"
  shows "boots_ok n w (snd (HandlePowerAction b w cx pick ws action s))"
proof -
  have "boots_ok n w (snd (locked_run b w action lk s))" for lk
    using triple_snd [OF run_action_boots, of n w "s\<lparr>powerLock := lk\<rparr>" b action] assms
    by (auto simp: locked_run_def boots_ok_def split: prod.splits)
  then show ?thesis
    using assms triple_snd [OF run_action_boots assms, of b action]
    by (auto simp: HandlePowerAction_cases Let_def apfst_def map_prod_def
        split: option.splits outcome.splits prod.splits)
qed

section \<open>An example backend\<close>

text \<open>A process that starts and stops at once, for the examples.\<close>

definition simple_backend :: "(env_cell, string) backend" where
  "simple_backend =
     \<lparr>b_state = st,
      b_start = do { enter_state Starting; enter_state Running; ret None },
      b_wait_for_stop = do { leave_live; enter_state Offline; ret None },
      b_terminate = do { leave_live; enter_state Offline; ret None },
      b_exit_state = ret (Inr (1, False))\<rparr>"

definition simple_settings :: settings where
  "simple_settings = \<lparr>suspended = False, egg_image = ''ghcr.io/game'', build_disk_space = 10, crash_detection = True\<rparr>"

definition simple_world :: world_reply where
  "simple_world =
     \<lparr>r_sync = SyncSettings simple_settings, r_space = True, r_check_permissions = True, r_chown = None,
      r_windows = False\<rparr>"

definition simple_server :: "pstate \<Rightarrow> env_cell server" where
  "simple_server p = server_New simple_settings \<lparr>st = p, published = []\<rparr>"

section \<open>Properties\<close>

text \<open>C9: Every power action leaves the power lock as it found it: a lock that was taken is given
  back on every path, with or without an error, and a lock held by another action is not released
  by a termination that runs beside it.\<close>

theorem power_lock_restored:
  assumes "locker_inv (powerLock s)" "ctx_ok cx"
  shows "powerLock (snd (HandlePowerAction b w cx pick ws action s)) = powerLock s"
  by (rule HandlePowerAction_lock [OF assms])

theorem power_lock_restored_witness:
  "powerLock (snd (HandlePowerAction simple_backend simple_world CtxLive 0 [30] ''start'' (simple_server Offline))) = NewLocker"
  using power_lock_restored [of "simple_server Offline" CtxLive simple_backend simple_world 0 "[30]" "''start''"]
  by (simp add: simple_server_def server_New_def NewLocker_inv ctx_ok_def)

text \<open>While another power action holds the lock, an action that does not wait is refused and
  changes nothing, except for a termination, which runs without the lock.\<close>

theorem power_held_lock:
  fixes b :: "('e, 'x) backend"
  assumes "locker_inv (powerLock s)" "IsLocked (powerLock s)" "(busy_error s :: 'x power_error option) = None"
  shows "HandlePowerAction b w cx pick [] action s =
    (if action = PowerActionTerminate then apfst Returned (run_state (run_action b w action) s)
     else (Returned (Some (LockError ErrLockerLocked)), s))"
  using assms Acquire_cases [OF assms(1)] by (simp add: HandlePowerAction_cases lock_outcomes_def)

theorem power_held_lock_witness:
  "HandlePowerAction simple_backend simple_world CtxLive 0 [] ''stop''
     (simple_server Running\<lparr>powerLock := \<lparr>ch = Some ((make_chan 1)\<lparr>cbuf := [True]\<rparr>)\<rparr>\<rparr>)
   = (Returned (Some (LockError ErrLockerLocked)),
      simple_server Running\<lparr>powerLock := \<lparr>ch = Some ((make_chan 1)\<lparr>cbuf := [True]\<rparr>)\<rparr>\<rparr>)"
  by (subst power_held_lock)
     (simp_all add: simple_server_def server_New_def locker_inv_def IsLocked_def busy_error_def make_chan_def chan_wf_def)

text \<open>C16: The environment is told to start only after the panel has answered with settings that do
  not suspend the server, whose image fits the platform of the node, whose disk limit is not
  exceeded, and after the ownership of the files could be set.\<close>

theorem start_needs_checks:
  assumes "\<not> may_boot w"
  shows "DidStart \<notin> set (drop (length (log s)) (log (snd (HandlePowerAction b w cx pick ws action s))))"
  using HandlePowerAction_boots [of "length (log s)" w s b cx pick ws action] assms by (simp add: boots_ok_def)

theorem start_needs_checks_witness:
  "DidStart \<notin> set (log (snd (HandlePowerAction simple_backend
       (simple_world\<lparr>r_sync := SyncSettings (simple_settings\<lparr>suspended := True\<rparr>)\<rparr>) CtxLive 0 [] ''restart''
       (simple_server Running))))"
  using start_needs_checks [of "simple_world\<lparr>r_sync := SyncSettings (simple_settings\<lparr>suspended := True\<rparr>)\<rparr>"
      "simple_server Running" simple_backend CtxLive 0 "[]" "''restart''"]
  by (simp add: may_boot_def simple_server_def server_New_def)

end
