(* ===== verification/Backends.thy ===== *)
theory Backends
  imports Docker_Env Winproc_Env Server_Power
begin

text \<open>
  The two implementations of \<^verbatim>\<open>environment.ProcessEnvironment\<close> plugged into the power actions, with
  the arguments that \<^verbatim>\<open>HandlePowerAction\<close> passes: a stop waits and then kills, a kill is
  \<^verbatim>\<open>SIGKILL\<close>. Both keep the contract of the interface, so what was shown once for the interface
  holds on a Linux and on a Windows node.
\<close>

definition docker_backend :: "'w engine \<Rightarrow> ('w docker_env, env_error) backend" where
  "docker_backend d =
     \<lparr>b_state = st,
      b_start = do { r \<leftarrow> docker_Start d; ret (map_option Engine r) },
      b_wait_for_stop = docker_WaitForStop d True,
      b_terminate = do { r \<leftarrow> docker_Terminate d ''SIGKILL''; ret (map_option Engine r) },
      b_exit_state = do { r \<leftarrow> docker_ExitState d; ret (map_sum Engine id r) }\<rparr>"

text \<open>For Windows, a backend carries the time and the ticks its next wait will see.\<close>

definition win_backend :: "'w win_api \<times> int \<times> ('w win_env \<Rightarrow> 'w win_env) list \<Rightarrow> ('w win_env, win_error) backend" where
  "win_backend c = (case c of (a, now, ticks) \<Rightarrow>
     \<lparr>b_state = st,
      b_start = win_Start a now,
      b_wait_for_stop = win_WaitForStop a True ticks,
      b_terminate = win_Terminate a ''SIGKILL'',
      b_exit_state = do { r \<leftarrow> win_ExitState; ret (Inr r) }\<rparr>)"

definition quiet_ticks :: "'w win_api \<times> int \<times> ('w win_env \<Rightarrow> 'w win_env) list \<Rightarrow> bool" where
  "quiet_ticks c \<longleftrightarrow> (\<forall>t \<in> set (snd (snd c)). quiet_tick t)"

interpretation docker_power: process_environment docker_backend present
proof
  fix d :: "'a engine" and e p0
  show "b_state (docker_backend d) e = st e" by (simp add: docker_backend_def)
  show "keeps (history_ok p0) (b_start (docker_backend d))"
    by (auto simp: docker_backend_def intro!: triple_bind [OF docker_Start_calm] triple_ret)
  show "triple (history_ok p0) (b_wait_for_stop (docker_backend d)) (\<lambda>_. still p0)"
    by (simp add: docker_backend_def docker_WaitForStop_still)
  show "keeps (history_ok p0) (b_terminate (docker_backend d))" if "present d"
    using docker_Terminate_calm [OF that, of p0 "''SIGKILL''"]
    by (auto simp: docker_backend_def intro!: triple_bind triple_ret)
qed

interpretation win_power: process_environment win_backend quiet_ticks
proof
  fix c :: "'a win_api \<times> int \<times> ('a win_env \<Rightarrow> 'a win_env) list" and e p0
  show "b_state (win_backend c) e = st e" by (simp add: win_backend_def split: prod.split)
  show "keeps (history_ok p0) (b_start (win_backend c))"
    by (simp add: win_backend_def win_Start_calm split: prod.split)
  show "triple (history_ok p0) (b_wait_for_stop (win_backend c)) (\<lambda>_. still p0)" if "quiet_ticks c"
    using that by (auto simp: win_backend_def quiet_ticks_def intro!: win_WaitForStop_still split: prod.split)
  show "keeps (history_ok p0) (b_terminate (win_backend c))"
    by (simp add: win_backend_def triple_post [OF win_Terminate_calm] split: prod.split)
qed

end
