(* ===== verification/Rate_Limit.thy ===== *)
theory Rate_Limit
  imports Locker
begin

text \<open>
  \<^verbatim>\<open>system/rate.go\<close> and the console throttle of \<^verbatim>\<open>server/console.go\<close>. Time is an integer
  number of nanoseconds read at the call; the counters are 64-bit words that wrap around.
\<close>

section \<open>The rate limiter\<close>

type_synonym u64 = "64 word"

text \<open>\<^verbatim>\<open>time.Time.Sub\<close> saturates at the bounds of a duration.\<close>

definition time_sub :: "int \<Rightarrow> int \<Rightarrow> int" where
  "time_sub a b = max MinInt64 (min MaxInt64 (a - b))"

record rate =
  rlimit :: u64
  rduration :: int
  rcount :: u64
  rlast :: int

definition NewRate :: "u64 \<Rightarrow> int \<Rightarrow> int \<Rightarrow> rate" where
  "NewRate limit duration now = \<lparr>rlimit = limit, rduration = duration, rcount = 0, rlast = now\<rparr>"

definition Try :: "int \<Rightarrow> rate \<Rightarrow> bool \<times> rate" where
  "Try now r =
     (let r = (if time_sub now (rlast r) > rduration r then r\<lparr>rcount := 0, rlast := now\<rparr> else r)
      in if rcount r + 1 > rlimit r then (False, r)
         else (True, r\<lparr>rcount := rcount r + 1\<rparr>))"

definition Reset :: "int \<Rightarrow> rate \<Rightarrow> rate" where
  "Reset now r = r\<lparr>rcount := 0, rlast := now\<rparr>"

text \<open>A sequence of calls, one for each reading of the clock.\<close>

fun try_run :: "int list \<Rightarrow> rate \<Rightarrow> bool list \<times> rate" where
  "try_run [] r = ([], r)"
| "try_run (t # ts) r =
     (let (b, r1) = Try t r; (bs, r2) = try_run ts r1 in (b # bs, r2))"

definition in_window :: "rate \<Rightarrow> int \<Rightarrow> bool" where
  "in_window r t \<longleftrightarrow> time_sub t (rlast r) \<le> rduration r"

definition rate_inv :: "rate \<Rightarrow> bool" where
  "rate_inv r \<longleftrightarrow> unat (rcount r) \<le> unat (rlimit r) \<and> unat (rlimit r) < 2 ^ 64 - 1"

lemma unat_Suc64: "unat (x :: u64) < 2 ^ 64 - 1 \<Longrightarrow> unat (x + 1) = Suc (unat x)"
  by (simp add: unat_word_ariths)

lemma NewRate_inv [inv_intros]: "unat l < 2 ^ 64 - 1 \<Longrightarrow> rate_inv (NewRate l d now)"
  by (simp add: rate_inv_def NewRate_def)

lemma Try_inv [inv_intros]: "rate_inv r \<Longrightarrow> rate_inv (snd (Try t r))"
  using unat_Suc64 [of "rcount r"] unat_Suc64 [of 0]
  by (auto simp: Try_def Let_def rate_inv_def word_less_nat_alt not_less)

lemma Try_frame [simp]:
  "rlimit (snd (Try t r)) = rlimit r" "rduration (snd (Try t r)) = rduration r"
  by (simp_all add: Try_def Let_def)

lemma Try_in_window:
  assumes "rate_inv r" "in_window r t"
  shows "Try t r = (if unat (rcount r) < unat (rlimit r) then (True, r\<lparr>rcount := rcount r + 1\<rparr>) else (False, r))"
proof -
  from assms(1) have "unat (rcount r + 1) = Suc (unat (rcount r))"
    by (intro unat_Suc64) (simp add: rate_inv_def)
  with assms show ?thesis
    by (auto simp: Try_def in_window_def word_less_nat_alt)
qed

text \<open>The first call after the window starts a fresh one and counts as its first hit.\<close>

lemma Try_new_window:
  assumes "rate_inv r" "\<not> in_window r t" "0 < unat (rlimit r)"
  shows "Try t r = (True, r\<lparr>rcount := 1, rlast := t\<rparr>)"
  using assms by (auto simp: Try_def in_window_def Let_def word_less_nat_alt not_le)

lemma try_run_in_window:
  assumes "rate_inv r" "\<And>t. t \<in> set ts \<Longrightarrow> in_window r t"
  shows "length (filter (\<lambda>b. b) (fst (try_run ts r))) = min (length ts) (unat (rlimit r) - unat (rcount r))"
  using assms
proof (induction ts arbitrary: r)
  case Nil
  then show ?case by simp
next
  case (Cons t ts)
  let ?r1 = "snd (Try t r)"
  have w: "in_window r t" using Cons.prems(2) by simp
  note tr = Try_in_window [OF Cons.prems(1) w]
  have same: "rlast ?r1 = rlast r" "rduration ?r1 = rduration r" by (simp_all add: tr)
  have IH: "length (filter (\<lambda>b. b) (fst (try_run ts ?r1))) = min (length ts) (unat (rlimit ?r1) - unat (rcount ?r1))"
    using Cons.prems same by (intro Cons.IH Try_inv) (auto simp: in_window_def)
  show ?case
  proof (cases "unat (rcount r) < unat (rlimit r)")
    case True
    moreover have "unat (rcount r + 1) = Suc (unat (rcount r))"
      using Cons.prems(1) True by (intro unat_Suc64) (simp add: rate_inv_def)
    ultimately show ?thesis using IH by (auto simp: tr split: prod.splits)
  next
    case False
    then show ?thesis using IH by (auto simp: tr split: prod.splits)
  qed
qed

section \<open>An alarm that sounds once per quiet-to-loud change\<close>

text \<open>
  The pattern of the throttle, for any lock: a denied call tries the lock and sounds the alarm
  when it gets it; an allowed call gives the lock back.
\<close>

definition alarm :: "('l \<Rightarrow> 'l option) \<Rightarrow> ('l \<Rightarrow> 'l) \<Rightarrow> bool \<Rightarrow> 'l \<Rightarrow> bool \<times> 'l" where
  "alarm grb drp denied l =
     (if denied then (case grb l of Some l' \<Rightarrow> (True, l') | None \<Rightarrow> (False, l)) else (False, drp l))"

fun alarms :: "('l \<Rightarrow> 'l option) \<Rightarrow> ('l \<Rightarrow> 'l) \<Rightarrow> bool list \<Rightarrow> 'l \<Rightarrow> bool list" where
  "alarms grb drp [] l = []"
| "alarms grb drp (d # ds) l = (let (s, l') = alarm grb drp d l in s # alarms grb drp ds l')"

text \<open>What the alarm should do: sound exactly when a denied call follows an allowed one.\<close>

fun rising :: "bool \<Rightarrow> bool list \<Rightarrow> bool list" where
  "rising prev [] = []"
| "rising prev (d # ds) = (d \<and> \<not> prev) # rising d ds"

context try_lock
begin

lemma alarm_step:
  assumes "linv l"
  shows "fst (alarm grab drop_lock d l) = (d \<and> \<not> held l)
       \<and> held (snd (alarm grab drop_lock d l)) = d
       \<and> linv (snd (alarm grab drop_lock d l))"
proof (cases d)
  case True
  then show ?thesis
    using assms grab_held [OF assms] grab_Some [OF assms]
    by (auto simp: alarm_def split: option.splits)
next
  case False
  then show ?thesis using drop_lock_frees [OF assms] by (simp add: alarm_def)
qed

lemma alarms_rising: "linv l \<Longrightarrow> alarms grab drop_lock ds l = rising (held l) ds"
proof (induction ds arbitrary: l)
  case (Cons d ds)
  then show ?case using alarm_step [OF Cons.prems, of d] by (auto split: prod.splits)
qed simp

end

section \<open>The console throttle\<close>

record throttle =
  tlimit :: rate
  tlock :: locker
  tstrike :: bool  \<comment> \<open>whether a strike callback is set\<close>

definition newConsoleThrottle :: "u64 \<Rightarrow> int \<Rightarrow> int \<Rightarrow> throttle" where
  "newConsoleThrottle lines period now =
     \<lparr>tlimit = NewRate lines period now, tlock = NewLocker, tstrike = False\<rparr>"

definition Throttler :: "u64 \<Rightarrow> int \<Rightarrow> int \<Rightarrow> throttle" where
  "Throttler lines period_ms now = (newConsoleThrottle lines (period_ms * 1000000) now)\<lparr>tstrike := True\<rparr>"

text \<open>\<open>Allow\<close> returns whether output is allowed, whether the strike callback ran, and the throttle.\<close>

definition Allow :: "int \<Rightarrow> throttle \<Rightarrow> (bool \<times> bool \<times> throttle) outcome" where
  "Allow now ct =
     (let (ok, lim) = Try now (tlimit ct); ct = ct\<lparr>tlimit := lim\<rparr>
      in if \<not> ok
         then (case Acquire (tlock ct) of
                 Panic m \<Rightarrow> Panic m
               | Return (None, lk) \<Rightarrow> Return (False, tstrike ct, ct\<lparr>tlock := lk\<rparr>)
               | Return (Some _, lk) \<Rightarrow> Return (False, False, ct\<lparr>tlock := lk\<rparr>))
         else Return (True, False, ct\<lparr>tlock := Release (tlock ct)\<rparr>))"

definition throttle_Reset :: "int \<Rightarrow> throttle \<Rightarrow> throttle" where
  "throttle_Reset now ct = ct\<lparr>tlimit := Reset now (tlimit ct)\<rparr>"

fun allow_run :: "int list \<Rightarrow> throttle \<Rightarrow> (bool \<times> bool) list outcome" where
  "allow_run [] ct = Return []"
| "allow_run (t # ts) ct =
     on_return (\<lambda>(ok, struck, ct'). on_return (\<lambda>rs. Return ((ok, struck) # rs)) (allow_run ts ct'))
       (Allow t ct)"

lemma Allow_alarm:
  assumes "locker_inv (tlock ct)" "Try t (tlimit ct) = (ok, lim)"
    and "alarm locker_grab Release (\<not> ok) (tlock ct) = (s, lk')"
  shows "Allow t ct = Return (ok, tstrike ct \<and> s, ct\<lparr>tlimit := lim, tlock := lk'\<rparr>)"
  using assms Acquire_cases [OF assms(1)]
  by (auto simp: Allow_def alarm_def locker_grab_def split: if_splits)

lemma allow_run_alarms:
  assumes "locker_inv (tlock ct)" "tstrike ct"
  shows "allow_run ts ct =
     Return (zip (fst (try_run ts (tlimit ct)))
               (alarms locker_grab Release (map Not (fst (try_run ts (tlimit ct)))) (tlock ct)))"
  using assms
proof (induction ts arbitrary: ct)
  case (Cons t ts)
  obtain ok lim where tr: "Try t (tlimit ct) = (ok, lim)" by fastforce
  obtain s lk' where al: "alarm locker_grab Release (\<not> ok) (tlock ct) = (s, lk')" by fastforce
  have "locker_inv lk'"
    using lk.alarm_step [OF Cons.prems(1), of "\<not> ok"] al by simp
  with Cons.prems(2) Cons.IH [of "ct\<lparr>tlimit := lim, tlock := lk'\<rparr>"] show ?case
    by (simp add: Allow_alarm [OF Cons.prems(1) tr al] tr al split: prod.splits)
qed simp

section \<open>Properties\<close>

text \<open>During the first period of a rate limiter, exactly as many calls as its limit are let
  through, the first ones, and all others are refused.\<close>

theorem rate_window:
  assumes "unat limit < 2 ^ 64 - 1" "\<forall>t \<in> set ts. time_sub t t0 \<le> d"
  shows "length (filter (\<lambda>b. b) (fst (try_run ts (NewRate limit d t0)))) = min (length ts) (unat limit)"
proof -
  have "rate_inv (NewRate limit d t0)" using assms(1) by (rule NewRate_inv)
  moreover have "in_window (NewRate limit d t0) t" if "t \<in> set ts" for t
    using assms(2) that by (simp add: in_window_def NewRate_def)
  ultimately show ?thesis
    using try_run_in_window [of "NewRate limit d t0" ts] by (simp add: NewRate_def)
qed

theorem rate_window_witness:
  "length (filter (\<lambda>b. b) (fst (try_run [1, 5, 9] (NewRate 2 100 0)))) = 2"
  using rate_window [of 2 "[1, 5, 9]" 0 100] by (simp add: time_sub_def)

text \<open>C18: The console throttle warns exactly when refused output follows allowed output: its lock
  lets one strike through and is given back by the next allowed line.\<close>

theorem throttle_strikes:
  "allow_run ts (Throttler max_lines period now) =
     (let oks = fst (try_run ts (NewRate max_lines (period * 1000000) now)) in
      Return (zip oks (rising False (map Not oks))))"
proof -
  let ?ct = "Throttler max_lines period now"
  have "locker_inv (tlock ?ct)" "tstrike ?ct" "tlimit ?ct = NewRate max_lines (period * 1000000) now" "\<not> IsLocked (tlock ?ct)"
    by (simp_all add: Throttler_def newConsoleThrottle_def NewLocker_inv)
  then show ?thesis by (simp add: allow_run_alarms lk.alarms_rising Let_def)
qed

end
