(* ===== verification/Crash.thy ===== *)
theory Crash
  imports Server_Power Rate_Limit
begin

text \<open>
  What a server does when its process changes state: the tracked state and the crash handler
  (\<^verbatim>\<open>server/server.go\<close> \<^verbatim>\<open>OnStateChange\<close>, \<^verbatim>\<open>server/crash.go\<close>), the listeners of
  \<^verbatim>\<open>server/listeners.go\<close> with the disk space limiter and the console scanner, and the resource
  counters of \<^verbatim>\<open>server/resources.go\<close>.

  The listeners run in goroutines of their own. A handler is modelled as one step, given the
  values that its reads of the environment's state return: they are the state at that time, not
  the state the event announced.
\<close>

section \<open>Resources\<close>

record usage_stats =
  Memory :: u64
  MemoryLimit :: u64
  CpuAbsolute :: u64  \<comment> \<open>the bits of the floating-point number\<close>
  RxBytes :: u64
  TxBytes :: u64
  Uptime :: int

record resource_usage =
  Stats :: usage_stats
  tracked :: pstate
  Disk :: int

definition UpdateStats :: "usage_stats \<Rightarrow> resource_usage \<Rightarrow> resource_usage" where
  "UpdateStats new ru = ru\<lparr>Stats := new\<rparr>"

definition Reset_usage :: "resource_usage \<Rightarrow> resource_usage" where
  "Reset_usage ru =
     ru\<lparr>Stats := (Stats ru)\<lparr>Memory := 0, CpuAbsolute := 0, Uptime := 0, TxBytes := 0, RxBytes := 0\<rparr>\<rparr>"

section \<open>The daemon's view of a server\<close>

datatype notice =
  StatusEvent pstate | StatsEvent resource_usage | ConsoleLine string | InstallOutput string
| DiskStop  \<comment> \<open>the limiter told the environment to stop\<close>

record 'e daemon =
  srv :: "'e server"
  resources :: resource_usage
  cachedUsage :: int
  lastCrash :: "int option"  \<comment> \<open>\<open>None\<close> is the zero time\<close>
  once :: bool  \<comment> \<open>whether the disk limiter has fired\<close>
  throttler :: throttle
  notices :: "notice list"
  crash_handlers :: nat  \<comment> \<open>how many goroutines with the crash handler have been started\<close>

definition publish :: "notice \<Rightarrow> ('e daemon, unit) state" where
  "publish n = modify_st (\<lambda>d. d\<lparr>notices := notices d @ [n]\<rparr>)"

definition Proc :: "('e daemon, resource_usage) state" where
  "Proc = do {
     modify_st (\<lambda>d. d\<lparr>resources := (resources d)\<lparr>Disk := cachedUsage d\<rparr>\<rparr>);
     read_st resources
   }"

text \<open>The three arguments are what the three reads of the environment's state return.\<close>

definition OnStateChange :: "pstate \<times> pstate \<times> pstate \<Rightarrow> ('e daemon, unit) state" where
  "OnStateChange reads = (case reads of (st1, st2, st3) \<Rightarrow> do {
     prevState \<leftarrow> read_st (\<lambda>d. tracked (resources d));
     modify_st (\<lambda>d. d\<lparr>resources := (resources d)\<lparr>tracked := st1\<rparr>\<rparr>);
     if_st (prevState \<noteq> st2) (publish (StatusEvent st1));
     if_st (st1 = Offline) (do {
       modify_st (\<lambda>d. d\<lparr>resources := Reset_usage (resources d)\<rparr>);
       ru \<leftarrow> Proc;
       publish (StatsEvent ru)
     });
     if_st ((prevState = Starting \<or> prevState = Running) \<and> st3 = Offline)
       (modify_st (\<lambda>d. d\<lparr>crash_handlers := crash_handlers d + 1\<rparr>))
   })"

section \<open>The crash handler\<close>

record crash_config =
  DetectCleanExitAsCrash :: bool
  Timeout :: int  \<comment> \<open>seconds\<close>

datatype 'x crash_result =
  CrashIgnored | ExitStateFailed 'x | CrashTooFrequent | Restarted "'x power_result"

definition in_srv :: "('e server, 'r) state \<Rightarrow> ('e daemon, 'r) state" where
  "in_srv m = State (\<lambda>d. case run_state m (srv d) of (r, s) \<Rightarrow> (r, d\<lparr>srv := s\<rparr>))"

text \<open>\<open>now\<close> and \<open>now'\<close> are the two readings of the clock.\<close>

definition too_soon :: "crash_config \<Rightarrow> int option \<Rightarrow> int \<Rightarrow> bool" where
  "too_soon cc c now \<longleftrightarrow>
     Timeout cc \<noteq> 0 \<and> (case c of None \<Rightarrow> False | Some t \<Rightarrow> t + i64 (1000000000 * Timeout cc) > now)"

definition bool_name :: "bool \<Rightarrow> string" where
  "bool_name b = (if b then ''true'' else ''false'')"

definition handleServerCrash ::
  "('e, 'x) backend \<Rightarrow> world_reply \<Rightarrow> ctx \<Rightarrow> nat \<Rightarrow> crash_config \<Rightarrow> int \<Rightarrow> int \<Rightarrow> ('e daemon, 'x crash_result) state" where
  "handleServerCrash b w cx pick cc now now' = do {
     s \<leftarrow> read_st srv;
     if b_state b (environment s) \<noteq> Offline \<or> \<not> crash_detection (cfg s) then do {
       if_st (\<not> crash_detection (cfg s))
         (publish (ConsoleLine ''Aborting automatic restart, crash detection is disabled for this instance.''));
       ret CrashIgnored
     }
     else do {
       r \<leftarrow> in_srv (in_env (b_exit_state b));
       (case r of
          Inl e \<Rightarrow> ret (ExitStateFailed e)
        | Inr (exitCode, oomKilled) \<Rightarrow>
            if exitCode = 0 \<and> \<not> oomKilled \<and> \<not> DetectCleanExitAsCrash cc then ret CrashIgnored
            else do {
              publish (ConsoleLine ''---------- Detected server process in a crashed state! ----------'');
              publish (ConsoleLine (''Exit code: '' @ Itoa (int exitCode)));
              publish (ConsoleLine (''Out of memory: '' @ bool_name oomKilled));
              c \<leftarrow> read_st lastCrash;
              if too_soon cc c now then do {
                publish (ConsoleLine (''Aborting automatic restart, last crash occurred less than '' @
                           Itoa (Timeout cc) @ '' seconds ago.''));
                ret CrashTooFrequent
              }
              else do {
                modify_st (\<lambda>d. d\<lparr>lastCrash := Some now'\<rparr>);
                p \<leftarrow> in_srv (State (HandlePowerAction b w cx pick [] PowerActionStart));
                ret (Restarted p)
              }
            })
     }
   }"

section \<open>Console output\<close>

text \<open>\<open>compile\<close> is \<^verbatim>\<open>regexp.Compile\<close>, \<open>None\<close> when the expression is refused.\<close>

record matcher =
  raw :: string
  reg :: "(string \<Rightarrow> bool) option"

definition parse_matcher :: "(string \<Rightarrow> (string \<Rightarrow> bool) option) \<Rightarrow> string \<Rightarrow> matcher" where
  "parse_matcher compile r =
     \<lparr>raw = r,
      reg = (if HasPrefix r ''regex:'' \<and> length r > 6 then compile (TrimPrefix r ''regex:'') else None)\<rparr>"

definition Matches :: "matcher \<Rightarrow> string \<Rightarrow> bool" where
  "Matches olm s = (case reg olm of None \<Rightarrow> Contains s (raw olm) | Some r \<Rightarrow> r s)"

record process_config =
  Done :: "matcher list"
  StripAnsi :: bool
  Stop :: stop_config

text \<open>\<open>strip\<close> removes the ANSI sequences, a regular expression of the source.\<close>

definition onConsoleOutput :: "(string \<Rightarrow> string) \<Rightarrow> process_config \<Rightarrow> string \<Rightarrow> ('a env_cell_scheme, unit) state" where
  "onConsoleOutput strip pc data = do {
     p \<leftarrow> read_st st;
     if_st (p = Starting \<or> live p) (do {
       let v = (if p = Starting \<and> StripAnsi pc then strip data else data);
       if_st (p = Starting \<and> list_ex (\<lambda>l. Matches l v) (Done pc)) (enter_state Running);
       q \<leftarrow> read_st st;
       if_st (live q \<and> stop_type (Stop pc) = ProcessStopCommand \<and> v = stop_value (Stop pc)) (enter_state Offline)
     })
   }"

section \<open>The listeners\<close>

definition limiter_Reset :: "('e daemon, unit) state" where
  "limiter_Reset = modify_st (\<lambda>d. d\<lparr>once := False\<rparr>)"

definition Trigger :: "('e, 'x) backend \<Rightarrow> ('e daemon, unit) state" where
  "Trigger b = do {
     fired \<leftarrow> read_st once;
     if_st (\<not> fired) (do {
       modify_st (\<lambda>d. d\<lparr>once := True\<rparr>);
       publish (ConsoleLine ''Server is exceeding the assigned disk space limit, stopping process now.'');
       publish DiskStop;
       _ \<leftarrow> in_srv (in_env (b_wait_for_stop b));
       ret ()
     })
   }"

text \<open>
  An event of the environment as its handler gets it. For the statistics the flag is the answer
  of \<^verbatim>\<open>HasSpaceAvailable\<close>; for a change of state, the announced state, the reads of the handler
  and the time.
\<close>

datatype env_event =
  ResourceEvent usage_stats bool
| StateChangeEvent pstate "pstate \<times> pstate \<times> pstate" int
| DockerImagePullStatus string
| DockerImagePullStarted
| DockerImagePullCompleted
| OtherEvent

fun on_event :: "('e, 'x) backend \<Rightarrow> env_event \<Rightarrow> ('e daemon, unit) state" where
  "on_event b (ResourceEvent new space) = do {
     modify_st (\<lambda>d. d\<lparr>resources := UpdateStats new (resources d)\<rparr>);
     if_st (\<not> space) (Trigger b);
     ru \<leftarrow> Proc;
     publish (StatsEvent ru)
   }"
| "on_event b (StateChangeEvent announced reads now) = do {
     if_st (announced = Starting) (do {
       limiter_Reset;
       modify_st (\<lambda>d. d\<lparr>throttler := throttle_Reset now (throttler d)\<rparr>)
     });
     OnStateChange reads
   }"
| "on_event b (DockerImagePullStatus s) = publish (InstallOutput s)"
| "on_event b DockerImagePullStarted =
     publish (ConsoleLine ''Pulling Docker container image, this could take a few minutes to complete...'')"
| "on_event b DockerImagePullCompleted = publish (ConsoleLine ''Finished pulling Docker container image'')"
| "on_event b OtherEvent = ret ()"

fun on_events :: "('e, 'x) backend \<Rightarrow> env_event list \<Rightarrow> ('e daemon, unit) state" where
  "on_events b [] = ret ()"
| "on_events b (e # es) = do { on_event b e; on_events b es }"

section \<open>Crash detection\<close>

lemma publish_frame [simp]:
  "run_state (publish n) d = ((), d\<lparr>notices := notices d @ [n]\<rparr>)"
  by (simp add: publish_def)

lemma OnStateChange_effect:
  assumes "run_state (OnStateChange (p, q, r)) d = (u, d')"
  shows "tracked (resources d') = p"
    and "crash_handlers d' = crash_handlers d + (if crash_step (tracked (resources d)) r then 1 else 0)"
    and "lastCrash d' = lastCrash d" "once d' = once d" "srv d' = srv d"
    and "filter (\<lambda>n. n = DiskStop) (notices d') = filter (\<lambda>n. n = DiskStop) (notices d)"
  using assms by (auto simp: OnStateChange_def Proc_def Reset_usage_def if_st_def split: if_splits)

text \<open>The crashes in a sequence of states, and a listener that handles each event before the next
  change of state.\<close>

fun crashes :: "pstate \<Rightarrow> pstate list \<Rightarrow> nat" where
  "crashes p [] = 0"
| "crashes p (q # qs) = (if crash_step p q then 1 else 0) + crashes q qs"

lemma calm_crashes: "calm p ps \<longleftrightarrow> crashes p ps = 0"
  by (induction ps arbitrary: p) auto

fun handle_reads :: "(pstate \<times> pstate \<times> pstate) list \<Rightarrow> ('e daemon, unit) state" where
  "handle_reads [] = ret ()"
| "handle_reads (r # rs) = do { OnStateChange r; handle_reads rs }"

definition handle_promptly :: "pstate list \<Rightarrow> ('e daemon, unit) state" where
  "handle_promptly ps = handle_reads (map (\<lambda>p. (p, p, p)) ps)"

text \<open>Reads that agree within each handler: the handlers count the crashes of what they see.\<close>

lemma handle_reads_seen:
  assumes "run_state (handle_reads (map (\<lambda>p. (p, p, p)) ps)) d = (u, d')"
  shows "crash_handlers d' = crash_handlers d + crashes (tracked (resources d)) ps \<and>
    tracked (resources d') = last (tracked (resources d) # ps)"
  using assms
proof (induction ps arbitrary: d)
  case (Cons p ps)
  obtain d1 where 1: "run_state (OnStateChange (p, p, p)) d = ((), d1)" by (metis old.unit.exhaust surj_pair)
  then have "run_state (handle_reads (map (\<lambda>p. (p, p, p)) ps)) d1 = (u, d')"
    using Cons.prems by simp
  then show ?case
    using Cons.IH [of d1] OnStateChange_effect [OF 1] by auto
qed simp

lemma handle_promptly_count:
  "crash_handlers (snd (run_state (handle_promptly ps) d)) =
     crash_handlers d + crashes (tracked (resources d)) ps"
  using handle_reads_seen [of ps d] by (metis handle_promptly_def prod.exhaust_sel)

text \<open>Handlers that all run after the process has stopped see one crash of a server that was live,
  whatever the states that were published.\<close>

lemma crashes_late: "0 < n \<Longrightarrow> live p \<Longrightarrow> crashes p (replicate n Offline) = 1"
proof (induction n)
  case (Suc n)
  have "crashes Offline (replicate n Offline) = 0" by (induction n) simp_all
  with Suc show ?case by (auto simp: live_def)
qed simp

section \<open>Restarts after crashes\<close>

text \<open>
  A sequence of crash handlers, one after the other. Each call has its own answers of the outside,
  its two clock readings and what happened to the server before it.
\<close>

record 'e crash_call =
  c_world :: world_reply
  c_ctx :: ctx
  c_pick :: nat
  c_now :: int
  c_set :: int
  c_before :: "'e server \<Rightarrow> 'e server"

definition crash_call_run :: "('e, 'x) backend \<Rightarrow> crash_config \<Rightarrow> 'e crash_call \<Rightarrow> ('e daemon, 'x crash_result) state" where
  "crash_call_run b cc c = do {
     modify_st (\<lambda>d. d\<lparr>srv := c_before c (srv d)\<rparr>);
     handleServerCrash b (c_world c) (c_ctx c) (c_pick c) cc (c_now c) (c_set c)
   }"

fun restarts :: "('e, 'x) backend \<Rightarrow> crash_config \<Rightarrow> 'e crash_call list \<Rightarrow> 'e daemon \<Rightarrow> int list" where
  "restarts b cc [] d = []"
| "restarts b cc (c # cs) d =
     (case run_state (crash_call_run b cc c) d of
        (Restarted _, d') \<Rightarrow> c_set c # restarts b cc cs d'
      | (_, d') \<Rightarrow> restarts b cc cs d')"

lemma handleServerCrash_last:
  assumes "run_state (handleServerCrash b w cx pick cc now now') d = (r, d')"
  shows "case r of
      Restarted _ \<Rightarrow> lastCrash d' = Some now' \<and> \<not> too_soon cc (lastCrash d) now
    | _ \<Rightarrow> lastCrash d' = lastCrash d"
  using assms
  by (auto simp: handleServerCrash_def in_srv_def if_st_def
      split: if_splits sum.splits prod.splits crash_result.splits)

lemma handleServerCrash_restarts_iff:
  "(\<exists>p. fst (run_state (handleServerCrash b w cx pick cc now now') d) = Restarted p) \<longleftrightarrow>
     b_state b (environment (srv d)) = Offline \<and> crash_detection (cfg (srv d)) \<and>
     (\<exists>code oom. fst (run_state (b_exit_state b) (environment (srv d))) = Inr (code, oom) \<and>
        (code \<noteq> 0 \<or> oom \<or> DetectCleanExitAsCrash cc)) \<and>
     \<not> too_soon cc (lastCrash d) now"
  by (auto simp: handleServerCrash_def in_srv_def in_env_def if_st_def split: sum.splits prod.splits if_splits)

text \<open>No two restarts are closer than the timeout.\<close>

definition spaced :: "int \<Rightarrow> int option \<Rightarrow> int list \<Rightarrow> bool" where
  "spaced g c ts \<longleftrightarrow>
     sorted_wrt (\<lambda>a b. a + g \<le> b) ts \<and> (case c of None \<Rightarrow> True | Some t \<Rightarrow> \<forall>x \<in> set ts. t + g \<le> x)"

lemma restarts_spaced:
  assumes "0 < Timeout cc" "1000000000 * Timeout cc \<le> MaxInt64" "\<And>c. c \<in> set cs \<Longrightarrow> c_now c \<le> c_set c"
  shows "spaced (1000000000 * Timeout cc) (lastCrash d) (restarts b cc cs d)"
  using assms(3)
proof (induction cs arbitrary: d)
  case Nil
  then show ?case by (simp add: spaced_def split: option.split)
next
  case (Cons c cs)
  let ?g = "1000000000 * Timeout cc"
  have g: "i64 ?g = ?g" using assms(1,2) by (intro i64_id) (auto simp: in_i64_def)
  obtain r d' where run: "run_state (crash_call_run b cc c) d = (r, d')" by fastforce
  have IH: "spaced ?g (lastCrash d') (restarts b cc cs d')" using Cons by simp
  have last: "case r of
      Restarted _ \<Rightarrow> lastCrash d' = Some (c_set c) \<and> \<not> too_soon cc (lastCrash d) (c_now c)
    | _ \<Rightarrow> lastCrash d' = lastCrash d"
    using run handleServerCrash_last [of b "c_world c" "c_ctx c" "c_pick c" cc "c_now c" "c_set c"
        "d\<lparr>srv := c_before c (srv d)\<rparr>" r d']
    by (simp add: crash_call_run_def split: crash_result.splits)
  show ?case
  proof (cases r)
    case (Restarted p)
    have far: "t + ?g \<le> c_set c" if "lastCrash d = Some t" for t
      using last Restarted that g assms(1) Cons.prems [of c] by (auto simp: too_soon_def)
    have after: "c_set c + ?g \<le> x" if "x \<in> set (restarts b cc cs d')" for x
      using IH last Restarted that by (auto simp: spaced_def)
    have "t + ?g \<le> x" if "lastCrash d = Some t" "x \<in> set (restarts b cc cs d')" for t x
      using far [OF that(1)] after [OF that(2)] assms(1) by simp
    then show ?thesis
      using Restarted run IH after far by (auto simp: spaced_def split: option.splits)
  qed (use run IH last in auto)
qed

section \<open>The disk limiter\<close>

abbreviation stops :: "'e daemon \<Rightarrow> nat" where
  "stops d \<equiv> length (filter (\<lambda>n. n = DiskStop) (notices d))"

definition no_space :: "env_event \<Rightarrow> bool" where
  "no_space e = (case e of ResourceEvent _ space \<Rightarrow> \<not> space | _ \<Rightarrow> False)"

definition resets :: "env_event \<Rightarrow> bool" where
  "resets e = (case e of StateChangeEvent p _ _ \<Rightarrow> p = Starting | _ \<Rightarrow> False)"

lemma Trigger_stops:
  assumes "run_state (Trigger b) d = (u, d')"
  shows "once d' \<and> stops d' = stops d + (if once d then 0 else 1)"
  using assms by (auto simp: Trigger_def in_srv_def if_st_def split: if_splits prod.splits)

lemma on_event_stops:
  assumes "run_state (on_event b e) d = (u, d')" "\<not> resets e"
  shows "once d' = (once d \<or> no_space e) \<and> stops d' = stops d + (if no_space e \<and> \<not> once d then 1 else 0)"
proof (cases e)
  case (ResourceEvent new space)
  then show ?thesis
    using assms(1) Trigger_stops [of b "d\<lparr>resources := UpdateStats new (resources d)\<rparr>"]
    by (cases space) (fastforce simp: Proc_def no_space_def split: prod.splits)+
next
  case (StateChangeEvent p r t)
  then have "run_state (OnStateChange r) d = (u, d')" using assms by (cases p) (simp_all add: resets_def)
  moreover obtain r1 r2 r3 where "r = (r1, r2, r3)" by (rule prod_cases3)
  ultimately have run: "run_state (OnStateChange (r1, r2, r3)) d = (u, d')" by simp
  show ?thesis
    using OnStateChange_effect(4,6) [OF run] by (simp add: StateChangeEvent no_space_def)
qed (use assms in \<open>auto simp: no_space_def\<close>)

lemma on_events_stops:
  assumes "list_all (\<lambda>e. \<not> resets e) es" "run_state (on_events b es) d = (u, d')"
  shows "stops d' = stops d + (if list_ex no_space es \<and> \<not> once d then 1 else 0)"
  using assms
proof (induction es arbitrary: d)
  case (Cons e es)
  obtain v d1 where 1: "run_state (on_event b e) d = (v, d1)" by (rule prod.exhaust)
  with Cons.prems have "run_state (on_events b es) d1 = (u, d')" by simp
  then have "stops d' = stops d1 + (if list_ex no_space es \<and> \<not> once d1 then 1 else 0)" using Cons by simp
  then show ?case using on_event_stops [OF 1] Cons.prems(1) by auto
qed simp

section \<open>The console scanner\<close>

lemma onConsoleOutput_state:
  defines "line p pc strip data \<equiv> (if p = Starting \<and> StripAnsi pc then strip data else data)"
  shows "st (snd (run_state (onConsoleOutput strip pc data) e)) =
    (let v = line (st e) pc strip data in
     if live (st e) \<and> stop_type (Stop pc) = ProcessStopCommand \<and> v = stop_value (Stop pc) then Offline
     else if st e = Starting \<and> (\<exists>l \<in> set (Done pc). Matches l v) then Running
     else st e)"
  by (cases "st e") (auto simp: onConsoleOutput_def Let_def if_st_def list_ex_iff live_def line_def)

lemma onConsoleOutput_stop_line:
  assumes "st e = Running" "stop_type (Stop pc) = ProcessStopCommand"
  shows "published (snd (run_state (onConsoleOutput strip pc (stop_value (Stop pc))) e)) = published e @ [Offline]"
  using assms by (simp add: onConsoleOutput_def live_def enter_def)

lemma parse_matcher_plain:
  assumes "\<not> HasPrefix r ''regex:'' \<or> length r \<le> 6"
  shows "Matches (parse_matcher compile r) s \<longleftrightarrow> (\<exists>a b. s = a @ r @ b)"
  using assms by (auto simp: Matches_def parse_matcher_def Contains_iff)

section \<open>Properties\<close>

definition simple_stats :: usage_stats where
  "simple_stats = \<lparr>Memory = 5, MemoryLimit = 9, CpuAbsolute = 0, RxBytes = 0, TxBytes = 0, Uptime = 1\<rparr>"

definition simple_daemon :: "pstate \<Rightarrow> env_cell daemon" where
  "simple_daemon p =
     \<lparr>srv = simple_server p,
      resources = \<lparr>Stats = simple_stats,
                   tracked = p, Disk = 0\<rparr>,
      cachedUsage = 0, lastCrash = None, once = False, throttler = Throttler 10 100 0, notices = [],
      crash_handlers = 0\<rparr>"

text \<open>When every change of state is handled before the next one, the crash handler is started once
  for each step from starting or running straight to offline, and never otherwise.\<close>

theorem crash_handlers_count:
  "crash_handlers (snd (run_state (handle_promptly ps) d)) =
     crash_handlers d + crashes (tracked (resources d)) ps"
  by (rule handle_promptly_count)

text \<open>When the events of a stop are handled only after the process is offline, the handlers start
  the crash handler for a server that was live, even though the environment went through stopping
  first: a handler reads the state at its own time, not the one that was announced.\<close>

theorem late_handlers_see_crash:
  assumes "live (tracked (resources d))" "0 < n"
  shows "crash_handlers (snd (run_state (handle_reads (replicate n (Offline, Offline, Offline))) d)) =
    crash_handlers d + 1"
proof -
  have "replicate n (Offline, Offline, Offline) = map (\<lambda>p. (p, p, p)) (replicate n Offline)" by simp
  then show ?thesis
    using handle_promptly_count [of "replicate n Offline" d] crashes_late [OF assms(2,1)]
    by (simp only: handle_promptly_def)
qed

theorem late_handlers_see_crash_witness:
  "crash_handlers (snd (run_state (handle_reads (replicate 2 (Offline, Offline, Offline))) (simple_daemon Running))) = 1"
  using late_handlers_see_crash [of "simple_daemon Running" 2] by (simp add: simple_daemon_def live_def)

text \<open>The crash handler restarts a server exactly when it is offline, crash detection is enabled,
  the exit state could be read and is a failure, an out-of-memory kill or an exit that counts as a
  crash, and the last restart is not too recent.\<close>

theorem crash_restart_iff:
  "(\<exists>p. fst (run_state (handleServerCrash b w cx pick cc now now') d) = Restarted p) \<longleftrightarrow>
     b_state b (environment (srv d)) = Offline \<and> crash_detection (cfg (srv d)) \<and>
     (\<exists>code oom. fst (run_state (b_exit_state b) (environment (srv d))) = Inr (code, oom) \<and>
        (code \<noteq> 0 \<or> oom \<or> DetectCleanExitAsCrash cc)) \<and>
     \<not> too_soon cc (lastCrash d) now"
  by (rule handleServerCrash_restarts_iff)

theorem crash_restart_iff_witness:
  "\<exists>p. fst (run_state (handleServerCrash simple_backend simple_world CtxLive 0
      \<lparr>DetectCleanExitAsCrash = False, Timeout = 60\<rparr> 5 6) (simple_daemon Offline)) = Restarted p"
  by (subst crash_restart_iff)
     (simp add: simple_backend_def simple_daemon_def simple_server_def server_New_def simple_settings_def too_soon_def; blast)

text \<open>C15: In any sequence of crashes, however the server behaves in between, two automatic restarts
  are at least the configured timeout apart.\<close>

theorem crash_restarts_spaced:
  assumes "0 < Timeout cc" "1000000000 * Timeout cc \<le> MaxInt64" "\<forall>c \<in> set cs. c_now c \<le> c_set c"
  shows "sorted_wrt (\<lambda>a b. a + 1000000000 * Timeout cc \<le> b) (restarts b cc cs d)"
  using restarts_spaced [OF assms(1,2), of cs d b] assms(3) by (simp add: spaced_def)

theorem crash_restarts_spaced_witness:
  "sorted_wrt (\<lambda>a b. a + 60000000000 \<le> b)
     (restarts simple_backend \<lparr>DetectCleanExitAsCrash = True, Timeout = 60\<rparr>
        [\<lparr>c_world = simple_world, c_ctx = CtxLive, c_pick = 0, c_now = 5, c_set = 6, c_before = id\<rparr>,
         \<lparr>c_world = simple_world, c_ctx = CtxLive, c_pick = 0, c_now = 70000000000, c_set = 70000000001,
          c_before = (\<lambda>s. s\<lparr>environment := \<lparr>st = Offline, published = []\<rparr>\<rparr>)\<rparr>]
        (simple_daemon Offline))"
  using crash_restarts_spaced [of "\<lparr>DetectCleanExitAsCrash = True, Timeout = 60\<rparr>"
        "[\<lparr>c_world = simple_world, c_ctx = CtxLive, c_pick = 0, c_now = 5, c_set = 6, c_before = id\<rparr>,
         \<lparr>c_world = simple_world, c_ctx = CtxLive, c_pick = 0, c_now = 70000000000, c_set = 70000000001,
          c_before = (\<lambda>s. s\<lparr>environment := \<lparr>st = Offline, published = []\<rparr>\<rparr>)\<rparr>]" simple_backend "simple_daemon Offline"]
  by (simp only: crash_config.simps crash_call.simps list.set ball_simps) simp

text \<open>Between two boots the disk limiter stops the server once when some measurement finds no space
  left, however many do, and not at all otherwise.\<close>

theorem disk_limiter_once:
  assumes "list_all (\<lambda>e. \<not> resets e) es" "\<not> once d"
  shows "stops (snd (run_state (on_events b es) d)) = stops d + (if list_ex no_space es then 1 else 0)"
proof -
  obtain u d' where run: "run_state (on_events b es) d = (u, d')" by (rule prod.exhaust)
  show ?thesis using on_events_stops [OF assms(1) run] assms(2) run by simp
qed

theorem disk_limiter_once_witness:
  "stops (snd (run_state (on_events simple_backend (replicate 2 (ResourceEvent simple_stats False))) (simple_daemon Running))) = 1"
proof -
  have e: "\<not> resets (ResourceEvent simple_stats False)" "no_space (ResourceEvent simple_stats False)" "\<not> once (simple_daemon Running)"
    "stops (simple_daemon Running) = 0"
    by (simp_all add: resets_def no_space_def simple_daemon_def)
  have l: "list_all (\<lambda>e. \<not> resets e) (replicate 2 (ResourceEvent simple_stats False))"
    "list_ex no_space (replicate 2 (ResourceEvent simple_stats False))"
    using e(1,2) by (simp_all add: numeral_2_eq_2)
  show ?thesis using disk_limiter_once [OF l(1) e(3), of simple_backend] l(2) e(4) by simp
qed

text \<open>A line of console output marks a starting server as running when one of the configured
  lines matches it; a line equal to the stop command marks a live server as offline; any other line
  and any line of a server that is not live leave the state alone.\<close>

theorem console_line_state:
  "st (snd (run_state (onConsoleOutput strip pc data) e)) =
    (let v = (if st e = Starting \<and> StripAnsi pc then strip data else data) in
     if live (st e) \<and> stop_type (Stop pc) = ProcessStopCommand \<and> v = stop_value (Stop pc) then Offline
     else if st e = Starting \<and> (\<exists>l \<in> set (Done pc). Matches l v) then Running
     else st e)"
  by (rule onConsoleOutput_state)

text \<open>A running server that echoes its stop command is published as offline without passing
  through stopping, and the listener then takes the stop for a crash.\<close>

theorem stop_echo_looks_like_crash:
  assumes "st e = Running" "stop_type (Stop pc) = ProcessStopCommand" "tracked (resources d) = Running"
    and "published e = []"
  shows "crash_handlers (snd (run_state (handle_promptly
      (published (snd (run_state (onConsoleOutput strip pc (stop_value (Stop pc))) e)))) d)) = crash_handlers d + 1"
  using onConsoleOutput_stop_line [OF assms(1,2), of strip] assms(3,4) by (simp add: handle_promptly_count)

theorem stop_echo_looks_like_crash_witness:
  "crash_handlers (snd (run_state (handle_promptly
      (published (snd (run_state (onConsoleOutput id
         \<lparr>Done = [], StripAnsi = False, Stop = \<lparr>stop_type = ''command'', stop_value = ''stop''\<rparr>\<rparr> ''stop'')
         \<lparr>st = Running, published = []\<rparr>)))) (simple_daemon Running))) = 1"
  using stop_echo_looks_like_crash [of "\<lparr>st = Running, published = []\<rparr>"
      "\<lparr>Done = [], StripAnsi = False, Stop = \<lparr>stop_type = ''command'', stop_value = ''stop''\<rparr>\<rparr>"
      "simple_daemon Running" id]
  by (simp add: simple_daemon_def)

end
