(* ===== verification/Power_Threads.thy ===== *)
theory Power_Threads
  imports Server_Power
begin

text \<open>
  Several power actions at once. Each request runs \<^verbatim>\<open>HandlePowerAction\<close> in a goroutine of its own;
  they share the power lock. A request is described by where it stands in that function: before
  the lock, in the part that holds it, in the part that a termination enters without it, or done.
  What the body of the action does to the server does not touch the lock (\<open>run_action_lock\<close>), so
  the steps below are those of the lock alone.
\<close>

datatype phase = Idle | Holding | Passing | Finished

record threads =
  plock :: locker
  phase :: "nat \<Rightarrow> phase"

definition first_threads :: threads where
  "first_threads = \<lparr>plock = NewLocker, phase = (\<lambda>_. Idle)\<rparr>"

abbreviation move :: "nat \<Rightarrow> phase \<Rightarrow> locker \<Rightarrow> threads \<Rightarrow> threads" where
  "move i p l t \<equiv> t\<lparr>plock := l, phase := (phase t)(i := p)\<rparr>"

text \<open>\<open>act\<close> gives the action of each request and \<open>cx\<close> its context.\<close>

inductive power_step :: "(nat \<Rightarrow> string) \<Rightarrow> (nat \<Rightarrow> ctx) \<Rightarrow> threads \<Rightarrow> threads \<Rightarrow> bool" for act cx where
  locked: "phase t i = Idle \<Longrightarrow> Acquire (plock t) = Return (None, l) \<Longrightarrow>
     power_step act cx t (move i Holding l t)"
| waited: "phase t i = Idle \<Longrightarrow> act i \<noteq> PowerActionTerminate \<Longrightarrow>
     Return (None, l) \<in> set (TryAcquire (cx i) (plock t)) \<Longrightarrow> power_step act cx t (move i Holding l t)"
| refused: "phase t i = Idle \<Longrightarrow> act i \<noteq> PowerActionTerminate \<Longrightarrow> Acquire (plock t) = Return (Some e, l) \<Longrightarrow>
     power_step act cx t (move i Finished l t)"
| gave_up: "phase t i = Idle \<Longrightarrow> act i \<noteq> PowerActionTerminate \<Longrightarrow>
     Return (Some e, l) \<in> set (TryAcquire (cx i) (plock t)) \<Longrightarrow> power_step act cx t (move i Finished l t)"
| passes: "phase t i = Idle \<Longrightarrow> act i = PowerActionTerminate \<Longrightarrow> Acquire (plock t) = Return (Some e, l) \<Longrightarrow>
     power_step act cx t (move i Passing l t)"
| released: "phase t i = Holding \<Longrightarrow> power_step act cx t (move i Finished (Release (plock t)) t)"
| passed: "phase t i = Passing \<Longrightarrow> power_step act cx t (move i Finished (plock t) t)"

definition reachable_threads :: "(nat \<Rightarrow> string) \<Rightarrow> (nat \<Rightarrow> ctx) \<Rightarrow> threads \<Rightarrow> bool" where
  "reachable_threads act cx t \<longleftrightarrow> (power_step act cx)\<^sup>*\<^sup>* first_threads t"

section \<open>Mutual exclusion\<close>

definition threads_inv :: "threads \<Rightarrow> bool" where
  "threads_inv t \<longleftrightarrow> locker_inv (plock t) \<and>
     (if IsLocked (plock t) then \<exists>!i. phase t i = Holding else \<forall>i. phase t i \<noteq> Holding)"

lemma threads_inv_first: "threads_inv first_threads"
  by (simp add: threads_inv_def first_threads_def NewLocker_inv)

lemma TryAcquire_refused:
  "Return (Some e, l') \<in> set (TryAcquire cx l) \<Longrightarrow> l' = l"
  by (auto simp: TryAcquire_def split: if_splits comm.splits ctx.splits option.splits)

lemma Acquire_granted:
  assumes "locker_inv l" "Acquire l = Return (None, l')"
  shows "\<not> IsLocked l \<and> IsLocked l' \<and> locker_inv l'"
  using assms Acquire_cases [OF assms(1)] by (auto split: if_splits)

lemma Acquire_refused:
  assumes "locker_inv l" "Acquire l = Return (Some e, l')"
  shows "IsLocked l \<and> l' = l"
  using assms Acquire_cases [OF assms(1)] by (auto split: if_splits)

lemma power_step_inv:
  assumes "power_step act cx t t'" "threads_inv t" "\<And>i. ctx_ok (cx i)"
  shows "threads_inv t'"
proof -
  have enter: "threads_inv (move i Holding l t)"
    if "phase t i = Idle" "Acquire (plock t) = Return (None, l)" for i l
    using assms(2) that Acquire_granted [OF _ that(2)] by (auto simp: threads_inv_def split: if_splits)
  have leave: "threads_inv (move i p (plock t) t)" if "phase t i \<noteq> Holding" "p \<noteq> Holding" for i p
    using assms(2) that by (auto simp: threads_inv_def split: if_splits)
  have inv: "locker_inv (plock t)" using assms(2) by (simp add: threads_inv_def)
  show ?thesis
    using assms(1)
  proof cases
    case (waited i l)
    then show ?thesis using enter TryAcquire_Acquire [OF assms(3)] by blast
  next
    case (released i)
    then show ?thesis
      using assms(2) Release_inv Release_unlocks by (auto simp: threads_inv_def split: if_splits)
  qed (use enter leave Acquire_refused [OF inv] TryAcquire_refused in \<open>metis phase.distinct\<close>)+
qed

lemma reachable_threads_inv:
  assumes "reachable_threads act cx t" "\<And>i. ctx_ok (cx i)"
  shows "threads_inv t"
  using assms(1) unfolding reachable_threads_def
  by (induction rule: rtranclp_induct) (auto intro: threads_inv_first power_step_inv assms(2))

text \<open>A termination is never kept waiting: it always has a step into its action.\<close>

lemma terminate_enters:
  assumes "threads_inv t" "phase t i = Idle" "act i = PowerActionTerminate"
  shows "\<exists>t'. power_step act cx t t' \<and> phase t' i \<in> {Holding, Passing}"
proof (cases "Acquire (plock t)")
  case (Return r)
  then show ?thesis
    using assms(2,3) locked [of t i _ act cx] passes [of t i act] by (cases r; cases "fst r") fastforce+
next
  case (Panic m)
  then show ?thesis using Acquire_cases [of "plock t"] assms(1) by (auto simp: threads_inv_def split: if_splits)
qed

section \<open>Properties\<close>

text \<open>C8: However many power actions are requested at the same time, at most one of them is in the
  part that holds the lock, and the lock is taken exactly while there is one.\<close>

theorem power_actions_exclusive:
  assumes "reachable_threads act cx t" "\<forall>i. ctx_ok (cx i)"
  shows "card {i. phase t i = Holding} \<le> 1 \<and> IsLocked (plock t) = (\<exists>i. phase t i = Holding)"
proof -
  have inv: "threads_inv t" using reachable_threads_inv [OF assms(1)] assms(2) by blast
  show ?thesis
  proof (cases "IsLocked (plock t)")
    case True
    then obtain i where i: "phase t i = Holding" "\<And>j. phase t j = Holding \<Longrightarrow> j = i"
      using inv unfolding threads_inv_def by metis
    then have "{i. phase t i = Holding} = {i}" by blast
    then have "card {i. phase t i = Holding} \<le> 1" by simp
    then show ?thesis using True i(1) by blast
  next
    case False
    then show ?thesis using inv by (simp add: threads_inv_def)
  qed
qed

theorem power_actions_exclusive_witness:
  "card {i. phase (move 3 Holding \<lparr>ch = Some ((make_chan 1)\<lparr>cbuf := [True]\<rparr>)\<rparr> first_threads) i = Holding} \<le> 1"
proof -
  let ?l = "\<lparr>ch = Some ((make_chan 1)\<lparr>cbuf := [True]\<rparr>)\<rparr>"
  have "power_step (\<lambda>_. ''start'') (\<lambda>_. CtxLive) first_threads (move 3 Holding ?l first_threads)"
    by (rule locked) (simp_all add: first_threads_def NewLocker_def Acquire_def chan_send_def make_chan_def)
  then have "reachable_threads (\<lambda>_. ''start'') (\<lambda>_. CtxLive) (move 3 Holding ?l first_threads)"
    by (simp add: reachable_threads_def)
  from power_actions_exclusive [OF this] show ?thesis by (simp only: ctx_ok_def simp_thms)
qed



end
