(* ===== verification/Env_Settings.thy ===== *)
theory Env_Settings
  imports Invocation "HOL-Library.List_Lexorder" "HOL-Library.Char_ord" "HOL-Library.Product_Lexorder"
    "HOL-Library.Multiset"
begin

text \<open>
  What a server process is given: the allocations of \<^verbatim>\<open>environment/allocations.go\<close>, the limits and
  variables of \<^verbatim>\<open>environment/settings.go\<close>, the limits of a Windows job
  (\<^verbatim>\<open>winproc/jobobject.go\<close>) and the environment variables of \<^verbatim>\<open>server/server.go\<close>.

  A Go map is the list of its entries in the order one iteration visits them, which may differ from
  one run to the next.
\<close>

section \<open>Allocations\<close>

record allocations =
  default_ip :: string
  default_port :: int
  mappings :: "(string \<times> int list) list"

definition valid_port :: "int \<Rightarrow> bool" where
  "valid_port p \<longleftrightarrow> \<not> (p < 1 \<or> p > 65535)"

definition all_ports :: "allocations \<Rightarrow> (string \<times> int) list" where
  "all_ports a = concat (map (\<lambda>(ip, ports). map (Pair ip) ports) (mappings a))"

fun number_from :: "nat \<Rightarrow> (string \<times> int) list \<Rightarrow> string list" where
  "number_from i [] = []"
| "number_from i ((ip, port) # ms) =
     (''SERVER_IP_'' @ nat_digits i @ ''='' @ ip) # (''SERVER_PORT_'' @ nat_digits i @ ''='' @ Itoa port) #
     number_from (i + 1) ms"

definition ExtraPortVars :: "allocations \<Rightarrow> string list" where
  "ExtraPortVars a =
     (let extra = filter (\<lambda>(ip, port). valid_port port \<and> \<not> (ip = default_ip a \<and> port = default_port a)) (all_ports a)
      in number_from 1 (sort extra))"

text \<open>A port map of Docker: the bindings of each port and protocol.\<close>

record binding =
  HostIP :: string
  HostPort :: string

type_synonym port_map = "string \<rightharpoonup> binding list"

definition bind_port :: "string \<times> int \<Rightarrow> port_map \<Rightarrow> port_map" where
  "bind_port m out =
     (case m of (ip, port) \<Rightarrow>
        if \<not> valid_port port then out
        else (let b = \<lparr>HostIP = ip, HostPort = Itoa port\<rparr>;
                  tcp = Itoa port @ ''/tcp''; udp = Itoa port @ ''/udp'';
                  out = out(tcp \<mapsto> case_option [] id (out tcp) @ [b])
              in out(udp \<mapsto> case_option [] id (out udp) @ [b])))"

definition Bindings :: "allocations \<Rightarrow> port_map" where
  "Bindings a = fold bind_port (all_ports a) Map.empty"

text \<open>
  The inner loop of \<^verbatim>\<open>DockerBindings\<close> for one port. It ranges over a slice whose length is fixed at
  the start, while the body shifts the elements of the same array and shortens the slice in the
  map: \<open>arr\<close> is the array, \<open>m\<close> the length of the slice in the map, and the list holds the indices that
  are left.
\<close>

abbreviation loopback :: "binding \<Rightarrow> bool" where
  "loopback b \<equiv> HostIP b = ''127.0.0.1''"

fun ispn_loop :: "binding list \<Rightarrow> nat \<Rightarrow> nat list \<Rightarrow> binding list outcome" where
  "ispn_loop arr m [] = Return (take m arr)"
| "ispn_loop arr m (i # is) =
     (if \<not> loopback (arr ! i) then ispn_loop arr m is
      else if i + 1 > m then Panic ''slice bounds out of range''
      else ispn_loop (take i arr @ take (m - (i + 1)) (drop (i + 1) arr) @ drop (m - 1) arr) (m - 1) is)"

definition docker_binds :: "bool \<Rightarrow> string \<Rightarrow> binding list \<Rightarrow> binding list outcome" where
  "docker_binds ispn iface binds =
     (if ispn then ispn_loop binds (length binds) [0..<length binds]
      else Return (map (\<lambda>b. if loopback b then b\<lparr>HostIP := iface\<rparr> else b) binds))"

definition Exposed :: "port_map \<Rightarrow> string set" where
  "Exposed out = dom out"

section \<open>Limits\<close>

record limits =
  MemoryLimit :: int
  Swap :: int
  CpuLimit :: int

definition ConvertedCpuLimit :: "limits \<Rightarrow> int" where
  "ConvertedCpuLimit l = (if CpuLimit l = 0 then -1 else i64 (CpuLimit l * 1000))"

text \<open>\<open>bounded\<close> is \<^verbatim>\<open>BoundedMemoryLimit\<close>, a product of floating-point numbers.\<close>

definition ConvertedSwap :: "int \<Rightarrow> limits \<Rightarrow> int" where
  "ConvertedSwap bounded l = (if Swap l < 0 then -1 else i64 (i64 (Swap l * (1024 * 1024)) + bounded))"

record job_limits =
  memoryBytes :: int
  cpuRate :: int
  activeProcessLimit :: int

definition jobLimitsFor :: "int \<Rightarrow> int \<Rightarrow> int \<Rightarrow> limits \<Rightarrow> job_limits" where
  "jobLimitsFor bounded numCPU processLimit l =
     \<lparr>memoryBytes = (if bounded > 0 then bounded else 0),
      cpuRate =
        (if CpuLimit l > 0 then
           (let n = (if numCPU < 1 then 1 else numCPU);
                x = i64 (CpuLimit l * 100);
                rate = (if x < 0 then - ((- x) div n) else x div n)
            in if rate < 1 then 1 else if rate > 10000 then 10000 else rate)
         else 0),
      activeProcessLimit = (if processLimit > 0 then processLimit mod 2 ^ 32 else 0)\<rparr>"

section \<open>Variables\<close>

text \<open>A value from the panel. Floating-point numbers are given by their rendering with \<^verbatim>\<open>%f\<close>.\<close>

datatype variable =
  VInt int | VInt32 int | VInt64 int | VFloat32 string | VFloat64 string | VBool bool | VString string | VOther

definition Get :: "(string \<times> variable) list \<Rightarrow> string \<Rightarrow> string outcome" where
  "Get v key =
     (case map_of v key of
        None \<Rightarrow> Return []
      | Some (VInt i) \<Rightarrow> Return (Itoa i)
      | Some (VInt32 i) \<Rightarrow> Panic ''interface conversion: interface {} is int32, not int64''
      | Some (VInt64 i) \<Rightarrow> Return (Itoa i)
      | Some (VFloat32 s) \<Rightarrow> Return s
      | Some (VFloat64 s) \<Rightarrow> Return s
      | Some (VBool b) \<Rightarrow> Return (if b then ''true'' else ''false'')
      | Some (VString s) \<Rightarrow> Return s
      | Some VOther \<Rightarrow> Return [])"

definition base_vars :: "string \<Rightarrow> string \<Rightarrow> int \<Rightarrow> allocations \<Rightarrow> (string \<times> string) list" where
  "base_vars tz invocation memory a =
     [(''TZ'', tz), (''STARTUP'', invocation), (''SERVER_MEMORY'', Itoa memory),
      (''SERVER_IP'', default_ip a), (''SERVER_PORT'', Itoa (default_port a))]"

definition kv :: "string \<times> string \<Rightarrow> string" where
  "kv p = fst p @ ''='' @ snd p"

fun add_vars :: "(string \<times> variable) list \<Rightarrow> string list \<Rightarrow> string list \<Rightarrow> string list outcome" where
  "add_vars vars out [] = Return out"
| "add_vars vars out (k # ks) =
     (if list_ex (\<lambda>e. HasPrefix e (ToUpper k @ ''='')) out then add_vars vars out ks
      else on_return (\<lambda>s. add_vars vars (out @ [ToUpper k @ ''='' @ s]) ks) (Get vars k))"

definition GetEnvironmentVariables ::
  "string \<Rightarrow> string \<Rightarrow> int \<Rightarrow> allocations \<Rightarrow> (string \<times> variable) list \<Rightarrow> string list outcome" where
  "GetEnvironmentVariables tz invocation memory a vars =
     add_vars vars (map kv (base_vars tz invocation memory a) @ ExtraPortVars a) (map fst vars)"

section \<open>Names of variables\<close>

lemma upper_char_eq_sign: "upper_char c = CHR ''='' \<longleftrightarrow> c = CHR ''=''"
proof
  assume u: "upper_char c = CHR ''=''"
  show "c = CHR ''=''"
  proof (cases "97 \<le> (of_char c :: nat) \<and> (of_char c :: nat) \<le> 122")
    case True
    then have "(of_char (upper_char c) :: nat) = (of_char c - 32) mod 256" by (simp add: upper_char_def)
    then show ?thesis using u True by (simp add: mod_if split: if_splits)
  next
    case False
    then show ?thesis using u by (auto simp: upper_char_def Let_def split: if_splits)
  qed
qed (simp add: upper_char_def)

lemma ToUpper_eq_sign: "CHR ''='' \<notin> set k \<Longrightarrow> CHR ''='' \<notin> set (ToUpper k)"
  by (auto simp: ToUpper_def image_iff) (metis upper_char_eq_sign)

text \<open>An entry begins with a name and the sign exactly when that is its name.\<close>

lemma HasPrefix_key:
  "CHR ''='' \<notin> set a \<Longrightarrow> CHR ''='' \<notin> set b \<Longrightarrow> HasPrefix (a @ CHR ''='' # s) (b @ ''='') \<longleftrightarrow> a = b"
proof (induction a arbitrary: b)
  case Nil
  then show ?case by (cases b) (auto simp: HasPrefix_def)
next
  case (Cons x a)
  then show ?case by (cases b) (auto simp: HasPrefix_def)
qed

lemma envMap_last:
  assumes "CHR ''='' \<notin> set r" "\<forall>e \<in> set b. \<not> HasPrefix e (r @ ''='')"
  shows "envMap (a @ (r @ ''='' @ v) # b) r = Some v"
proof -
  have ix: "IndexByte (r @ CHR ''='' # w) (CHR ''='') = Some (length r)" for w
    using assms(1) by (induction r) auto
  have "take i e \<noteq> r" if "IndexByte e (CHR ''='') = Some i" "e \<in> set b" for e i
    using IndexByte_Some [OF that(1)] assms(2) that(2) by (metis HasPrefix_iff append.assoc append_Cons append_Nil)
  then have "envMap b r = None" using assms(2) by (induction b) (auto split: option.splits)
  moreover have "envMap (a @ c) k = (case envMap c k of Some x \<Rightarrow> Some x | None \<Rightarrow> envMap a k)" for a c k
    by (induction a) (auto split: option.splits)
  ultimately show ?thesis using ix [of v] by simp
qed

lemma number_from_names:
  "e \<in> set (number_from i ms) \<Longrightarrow> HasPrefix e ''SERVER_IP_'' \<or> HasPrefix e ''SERVER_PORT_''"
  by (induction i ms rule: number_from.induct) (auto simp: HasPrefix_def)

lemma add_vars_appends:
  assumes "add_vars vars out ks = Return out'" "\<forall>k \<in> set ks. CHR ''='' \<notin> set k"
  shows "\<exists>more. out' = out @ more \<and>
    (\<forall>e \<in> set more. \<exists>k s. e = k @ CHR ''='' # s \<and> CHR ''='' \<notin> set k \<and> (\<forall>f \<in> set out. \<not> HasPrefix f (k @ ''='')))"
  using assms
proof (induction vars out ks rule: add_vars.induct)
  case (2 vars out k ks)
  show ?case
  proof (cases "list_ex (\<lambda>e. HasPrefix e (ToUpper k @ ''='')) out")
    case True
    then show ?thesis using 2 by simp
  next
    case False
    then obtain v where v: "Get vars k = Return v" "add_vars vars (out @ [ToUpper k @ ''='' @ v]) ks = Return out'"
      using "2.prems" by auto
    then obtain more where "out' = (out @ [ToUpper k @ ''='' @ v]) @ more"
      "\<forall>e \<in> set more. \<exists>q s. e = q @ CHR ''='' # s \<and> CHR ''='' \<notin> set q \<and>
         (\<forall>f \<in> set (out @ [ToUpper k @ ''='' @ v]). \<not> HasPrefix f (q @ ''=''))"
      using "2.IH"(2) [OF False v(2)] "2.prems"(2) by auto
    moreover have "CHR ''='' \<notin> set (ToUpper k)" "\<forall>f \<in> set out. \<not> HasPrefix f (ToUpper k @ ''='')"
      using False "2.prems"(2) by (auto simp: list_ex_iff ToUpper_eq_sign)
    ultimately show ?thesis by (intro exI [of _ "(ToUpper k @ ''='' @ v) # more"]) fastforce
  qed
qed simp

lemma add_vars_returns: "\<forall>k \<in> set ks. returns (Get vars k) \<Longrightarrow> \<exists>out'. add_vars vars out ks = Return out'"
  by (induction vars out ks rule: add_vars.induct) (auto simp: returns_iff)

lemma daemon_variable:
  assumes "GetEnvironmentVariables tz cmdline mem a vars = Return out" "\<forall>(k, v) \<in> set vars. CHR ''='' \<notin> set k"
    and "base_vars tz cmdline mem a = pre @ (r, v) # post" "CHR ''='' \<notin> set r"
    and "\<forall>(k, v) \<in> set post. CHR ''='' \<notin> set k \<and> k \<noteq> r"
    and "\<forall>e. HasPrefix e ''SERVER_IP_'' \<or> HasPrefix e ''SERVER_PORT_'' \<longrightarrow> \<not> HasPrefix e (r @ ''='')"
  shows "envMap out r = Some v"
proof -
  let ?base = "map kv (base_vars tz cmdline mem a) @ ExtraPortVars a"
  have "\<forall>k \<in> set (map fst vars). CHR ''='' \<notin> set k" using assms(2) by auto
  then obtain more where more: "out = ?base @ more"
    "\<forall>e \<in> set more. \<exists>k s. e = k @ CHR ''='' # s \<and> CHR ''='' \<notin> set k \<and> (\<forall>f \<in> set ?base. \<not> HasPrefix f (k @ ''=''))"
    using add_vars_appends [OF assms(1) [unfolded GetEnvironmentVariables_def]] by blast
  have "r @ ''='' @ v \<in> set ?base" using assms(3) by (simp add: kv_def)
  then have "\<not> HasPrefix e (r @ ''='')" if e: "e \<in> set more" for e
    using more(2) e assms(4) HasPrefix_key by fastforce
  moreover have "\<not> HasPrefix e (r @ ''='')" if "e \<in> set (ExtraPortVars a)" for e
    using number_from_names [of e 1] that assms(6) by (auto simp: ExtraPortVars_def Let_def)
  moreover have "\<not> HasPrefix e (r @ ''='')" if "e \<in> set (map kv post)" for e
    using that assms(4,5) HasPrefix_key by (fastforce simp: kv_def)
  ultimately have "\<forall>e \<in> set (map kv post @ ExtraPortVars a @ more). \<not> HasPrefix e (r @ ''='')" by auto
  from envMap_last [OF assms(4) this, of "map kv pre" v] show ?thesis
    using more(1) assms(3) by (simp add: kv_def)
qed

section \<open>Bindings\<close>

lemma ispn_skip: "\<forall>i \<in> set is. \<not> loopback (arr ! i) \<Longrightarrow> ispn_loop arr m (is @ js) = ispn_loop arr m js"
  by (induction "is") auto

lemma ispn_single:
  assumes "loopback b" "\<forall>x \<in> set xs \<union> set ys. \<not> loopback x"
  shows "docker_binds True iface (xs @ b # ys) = Return (xs @ ys)"
proof -
  let ?arr = "xs @ b # ys" and ?n = "length xs"
  have "[0..<length ?arr] = [0..<?n] @ ?n # [Suc ?n..<length ?arr]"
    by (metis append_Cons le_add1 length_append length_Cons upt_add_eq_append upt_conv_Cons
        add_Suc_right less_add_Suc1 zero_le plus_nat.add_0 le0)
  moreover have "\<forall>i \<in> set [0..<?n]. \<not> loopback (?arr ! i)" using assms(2) by (auto simp: nth_append)
  ultimately have "docker_binds True iface ?arr = ispn_loop ?arr (length ?arr) (?n # [Suc ?n..<length ?arr])"
    by (simp only: docker_binds_def ispn_skip if_True)
  also have "\<dots> = ispn_loop (xs @ ys @ drop (length xs + length ys) ?arr) (length xs + length ys) [Suc ?n..<length ?arr]"
    using assms(1) by simp
  also have "\<dots> = Return (take (length xs + length ys) (xs @ ys @ drop (length xs + length ys) ?arr))"
  proof -
    have "\<not> loopback ((xs @ ys @ drop (length xs + length ys) ?arr) ! i)" if i: "i \<in> set [Suc ?n..<length ?arr]" for i
    proof (cases "i < length xs + length ys")
      case True
      then show ?thesis using i assms(2) by (auto simp: nth_append)
    next
      case False
      then have eq: "i = length xs + length ys" "ys \<noteq> []" using i by auto
      from eq(2) obtain zs z where ys: "ys = zs @ [z]" by (metis rev_exhaust)
      then have "drop (length xs + length ys) ?arr = [z]" by simp
      then show ?thesis using eq(1) ys assms(2) by (simp add: nth_append)
    qed
    then show ?thesis using ispn_skip [of "[Suc ?n..<length ?arr]" _ _ "[]"] by simp
  qed
  finally show ?thesis by simp
qed

section \<open>Properties\<close>

definition example_alloc :: allocations where
  "example_alloc = \<lparr>default_ip = ''10.0.0.1'', default_port = 7777, mappings = [(''10.0.0.1'', [7777, 7779, 7778])]\<rparr>"

text \<open>No variable of the panel overrides one that the daemon sets: whatever the variables of a
  server are, as long as their names contain no equals sign, the process sees the time zone,
  startup command, memory, address and port that the daemon gives it.\<close>

theorem daemon_variables_win:
  assumes "GetEnvironmentVariables tz cmdline mem a vars = Return out" "\<forall>(k, v) \<in> set vars. CHR ''='' \<notin> set k"
  shows "envMap out ''TZ'' = Some tz \<and> envMap out ''STARTUP'' = Some cmdline \<and>
    envMap out ''SERVER_MEMORY'' = Some (Itoa mem) \<and> envMap out ''SERVER_IP'' = Some (default_ip a) \<and>
    envMap out ''SERVER_PORT'' = Some (Itoa (default_port a))"
proof -
  note var = daemon_variable [OF assms]
  let ?b = "base_vars tz cmdline mem a"
  have "envMap out ''TZ'' = Some tz"
    by (rule var [of "[]" _ _ "drop 1 ?b"]) (auto simp: base_vars_def HasPrefix_iff)
  moreover have "envMap out ''STARTUP'' = Some cmdline"
    by (rule var [of "take 1 ?b" _ _ "drop 2 ?b"]) (auto simp: base_vars_def HasPrefix_iff)
  moreover have "envMap out ''SERVER_MEMORY'' = Some (Itoa mem)"
    by (rule var [of "take 2 ?b" _ _ "drop 3 ?b"]) (auto simp: base_vars_def HasPrefix_iff)
  moreover have "envMap out ''SERVER_IP'' = Some (default_ip a)"
    by (rule var [of "take 3 ?b" _ _ "drop 4 ?b"]) (auto simp: base_vars_def HasPrefix_iff)
  moreover have "envMap out ''SERVER_PORT'' = Some (Itoa (default_port a))"
    by (rule var [of "take 4 ?b" _ _ "[]"]) (auto simp: base_vars_def HasPrefix_iff)
  ultimately show ?thesis by blast
qed

theorem daemon_variables_win_witness:
  "\<exists>out. GetEnvironmentVariables ''UTC'' ''run'' 512 example_alloc
       [(''server_port'', VString ''1''), (''MODE'', VInt 3)] = Return out \<and> envMap out ''SERVER_PORT'' = Some (Itoa 7777)"
proof -
  let ?vars = "[(''server_port'', VString ''1''), (''MODE'', VInt 3)]"
  have "\<forall>k \<in> set (map fst ?vars). returns (Get ?vars k)" by (simp add: Get_def)
  then obtain out where out: "GetEnvironmentVariables ''UTC'' ''run'' 512 example_alloc ?vars = Return out"
    unfolding GetEnvironmentVariables_def using add_vars_returns by blast
  moreover have "\<forall>(k, v) \<in> set ?vars. CHR ''='' \<notin> set k" by simp
  ultimately show ?thesis using daemon_variables_win by (fastforce simp: example_alloc_def)
qed

text \<open>A variable whose name does contain an equals sign passes the check of the names already set
  and replaces the port that the process sees.\<close>

theorem equals_sign_overrides:
  "\<exists>out. GetEnvironmentVariables tz cmdline mem a [(''SERVER_PORT=1'', VString s)] = Return out \<and>
     envMap out ''SERVER_PORT'' = Some (''1='' @ s)"
proof -
  have up: "ToUpper ''SERVER_PORT=1'' = ''SERVER_PORT=1''" by code_simp
  let ?out = "map kv (base_vars tz cmdline mem a) @ ExtraPortVars a"
  have digits: "CHR ''='' \<notin> set (Itoa i)" for i by (auto simp: Itoa_def nat_digits_no)
  have "\<not> HasPrefix (''SERVER_PORT='' @ Itoa (default_port a)) ''SERVER_PORT=1=''"
  proof
    assume "HasPrefix (''SERVER_PORT='' @ Itoa (default_port a)) ''SERVER_PORT=1=''"
    then obtain t where "Itoa (default_port a) = ''1='' @ t" by (auto simp: HasPrefix_iff)
    then show False using digits [of "default_port a"] by simp
  qed
  moreover have "\<not> HasPrefix e ''SERVER_PORT=1=''" if "e \<in> set (ExtraPortVars a)" for e
    using number_from_names [of e 1] that by (auto simp: ExtraPortVars_def Let_def HasPrefix_iff)
  ultimately have "\<not> list_ex (\<lambda>e. HasPrefix e ''SERVER_PORT=1='') ?out"
    by (auto simp: list_ex_iff base_vars_def kv_def) (auto simp: HasPrefix_iff)
  then have "GetEnvironmentVariables tz cmdline mem a [(''SERVER_PORT=1'', VString s)] =
      Return (?out @ [''SERVER_PORT'' @ ''='' @ (''1='' @ s)])"
    by (simp add: GetEnvironmentVariables_def Get_def up)
  then show ?thesis using envMap_last [of "''SERVER_PORT''" "[]" ?out "''1='' @ s"] by simp
qed

text \<open>The numbered variables of the additional allocations do not depend on the order in which Go
  visits the map of allocations.\<close>

theorem extra_ports_deterministic:
  assumes "mset (mappings a) = mset (mappings b)" "default_ip a = default_ip b" "default_port a = default_port b"
  shows "ExtraPortVars a = ExtraPortVars b"
proof -
  have "mset (all_ports x) = (\<Sum>m \<in># mset (mappings x). mset (map (Pair (fst m)) (snd m)))" for x
    by (simp add: all_ports_def mset_concat sum_mset_sum_list [symmetric] split_beta comp_def image_mset.compositionality)
  then have "mset (all_ports a) = mset (all_ports b)" using assms(1) by simp
  then have "sort (filter P (all_ports a)) = sort (filter P (all_ports b))" for P
    by (metis mset_filter sorted_list_of_multiset_mset)
  then show ?thesis using assms(2,3) by (simp add: ExtraPortVars_def)
qed

theorem extra_ports_deterministic_witness:
  "ExtraPortVars (example_alloc\<lparr>mappings := [(''a'', [1, 2]), (''b'', [3])]\<rparr>) =
   ExtraPortVars (example_alloc\<lparr>mappings := [(''b'', [3]), (''a'', [1, 2])]\<rparr>)"
  by (rule extra_ports_deterministic) simp_all

text \<open>On a node without public address of its own, a single loopback binding of a port is removed
  and the others are kept in order.\<close>

theorem single_loopback_removed:
  assumes "loopback b" "\<forall>x \<in> set xs \<union> set ys. \<not> loopback x"
  shows "docker_binds True iface (xs @ b # ys) = Return (xs @ ys)"
  by (rule ispn_single [OF assms])

theorem single_loopback_removed_witness:
  "docker_binds True ''172.18.0.1'' [\<lparr>HostIP = ''127.0.0.1'', HostPort = ''80''\<rparr>, \<lparr>HostIP = ''10.0.0.1'', HostPort = ''80''\<rparr>]
   = Return [\<lparr>HostIP = ''10.0.0.1'', HostPort = ''80''\<rparr>]"
  using single_loopback_removed [of "\<lparr>HostIP = ''127.0.0.1'', HostPort = ''80''\<rparr>" "[]"
      "[\<lparr>HostIP = ''10.0.0.1'', HostPort = ''80''\<rparr>]" "''172.18.0.1''"] by simp

text \<open>A loopback port that is allocated twice makes the same loop panic.\<close>

theorem double_loopback_panics:
  assumes "valid_port p" "mappings a = [(''127.0.0.1'', [p, p])]"
  shows "\<exists>bs. Bindings a (Itoa p @ ''/tcp'') = Some bs \<and> \<not> returns (docker_binds True iface bs)"
proof -
  have "Itoa p @ ''/tcp'' \<noteq> Itoa p @ ''/udp''" by simp
  then have "Bindings a (Itoa p @ ''/tcp'') = Some (replicate 2 \<lparr>HostIP = ''127.0.0.1'', HostPort = Itoa p\<rparr>)"
    using assms by (simp add: Bindings_def all_ports_def bind_port_def Let_def numeral_2_eq_2)
  then show ?thesis by (simp add: docker_binds_def numeral_2_eq_2 upt_conv_Cons)
qed

theorem double_loopback_panics_witness:
  "\<exists>bs. Bindings (example_alloc\<lparr>mappings := [(''127.0.0.1'', [80, 80])]\<rparr>) (Itoa 80 @ ''/tcp'') = Some bs \<and>
     \<not> returns (docker_binds True ''172.18.0.1'' bs)"
  by (rule double_loopback_panics) (simp_all add: valid_port_def)

text \<open>The CPU rate of a Windows job is within the range that the system accepts whenever there is a
  limit, however large, and zero, that is unlimited, only when there is none.\<close>

theorem job_cpu_rate_range:
  "(let r = cpuRate (jobLimitsFor bounded numCPU processLimit l) in
     if CpuLimit l > 0 then 1 \<le> r \<and> r \<le> 10000 else r = 0)"
  by (simp add: jobLimitsFor_def Let_def)

end
