(* ===== verification/Access_Tokens.thy ===== *)
theory Access_Tokens
  imports Go_Strings
begin

text \<open>
  The tokens of \<^verbatim>\<open>router/tokens\<close>: scopes, permissions and the denylists of the daemon. Signatures and
  expiration are checked by a library; a payload here is one that the library has parsed. Times are
  nanoseconds.
\<close>

section \<open>Payloads\<close>

record payload =
  ExpirationTime :: "int option"  \<comment> \<open>in seconds; read by the library and by the expiration timer\<close>
  IssuedAt :: "int option"
  JWTID :: string
  Scope :: string
  UserUUID :: string
  ServerUUID :: string
  Permissions :: "string list"

abbreviation Websocket_scope :: string where "Websocket_scope \<equiv> ''websocket''"
abbreviation FileUpload :: string where "FileUpload \<equiv> ''file-upload''"
abbreviation FileDownload :: string where "FileDownload \<equiv> ''file-download''"
abbreviation BackupDownload :: string where "BackupDownload \<equiv> ''backup-download''"
abbreviation ServerTransfer :: string where "ServerTransfer \<equiv> ''transfer''"

definition Scopes :: "string \<Rightarrow> string list" where
  "Scopes scp = Split scp (CHR '' '')"

definition HasScope :: "string \<Rightarrow> string \<Rightarrow> bool" where
  "HasScope scp wanted = list_ex (\<lambda>v. v = wanted) (Scopes scp)"

section \<open>Denylists\<close>

text \<open>The global variables of \<^verbatim>\<open>tokens/websocket.go\<close>.\<close>

record denials =
  wingsBootTime :: int
  denylist :: "string \<rightharpoonup> int"
  userDenylist :: "string \<rightharpoonup> int"

definition deny_key :: "string \<Rightarrow> string \<Rightarrow> string" where
  "deny_key srv user = Join [srv, user] '':''"

definition DenyJTI :: "int \<Rightarrow> string \<Rightarrow> denials \<Rightarrow> denials" where
  "DenyJTI now jti d = d\<lparr>denylist := (denylist d)(jti \<mapsto> now)\<rparr>"

definition DenyForServer :: "int \<Rightarrow> string \<Rightarrow> string \<Rightarrow> denials \<Rightarrow> denials" where
  "DenyForServer now srv user d = d\<lparr>userDenylist := (userDenylist d)(deny_key srv user \<mapsto> now)\<rparr>"

definition before :: "int \<Rightarrow> int option \<Rightarrow> bool" where
  "before iat limit = (case limit of None \<Rightarrow> False | Some t \<Rightarrow> iat < t)"

definition Denylisted :: "denials \<Rightarrow> payload \<Rightarrow> bool" where
  "Denylisted d p =
     (case IssuedAt p of
        None \<Rightarrow> True
      | Some iat \<Rightarrow>
          if iat < wingsBootTime d then True
          else if before iat (denylist d (JWTID p)) then True
          else before iat (userDenylist d (deny_key (ServerUUID p) (UserUUID p))))"

fun permission_loop :: "denials \<Rightarrow> payload \<Rightarrow> string \<Rightarrow> string list \<Rightarrow> bool" where
  "permission_loop d p permission [] = False"
| "permission_loop d p permission (k # ks) =
     (if k = permission \<or> (\<not> HasPrefix permission ''admin'' \<and> k = ''*'') then \<not> Denylisted d p
      else permission_loop d p permission ks)"

definition HasPermission :: "denials \<Rightarrow> payload \<Rightarrow> string \<Rightarrow> bool" where
  "HasPermission d p permission = permission_loop d p permission (Permissions p)"

section \<open>One-time tokens\<close>

text \<open>
  \<^verbatim>\<open>TokenStore\<close> on a cache that is a parameter: \<open>get\<close> says whether an entry is there and has not
  expired, \<open>add\<close> adds one.
\<close>

definition IsValidToken :: "('c \<Rightarrow> string \<Rightarrow> bool) \<Rightarrow> ('c \<Rightarrow> string \<Rightarrow> 'c) \<Rightarrow> string \<Rightarrow> 'c \<Rightarrow> bool \<times> 'c" where
  "IsValidToken get add token c =
     (let exists = get c token in (\<not> exists, if \<not> exists then add c token else c))"

section \<open>What denying does\<close>

lemma permission_loop_iff:
  "permission_loop d p permission ks \<longleftrightarrow>
     (permission \<in> set ks \<or> (\<not> HasPrefix permission ''admin'' \<and> ''*'' \<in> set ks)) \<and> \<not> Denylisted d p"
  by (induction ks) auto

lemma HasPermission_iff:
  "HasPermission d p permission \<longleftrightarrow>
     (permission \<in> set (Permissions p) \<or> (\<not> HasPrefix permission ''admin'' \<and> ''*'' \<in> set (Permissions p))) \<and>
     \<not> Denylisted d p"
  by (simp add: HasPermission_def permission_loop_iff)

lemma HasScope_iff: "HasScope scp w \<longleftrightarrow> w \<in> set (Scopes scp)"
  by (auto simp: HasScope_def list_ex_iff)

text \<open>Identifiers without a colon give different keys.\<close>

lemma split_at_first:
  "c \<notin> set a \<Longrightarrow> c \<notin> set a' \<Longrightarrow> a @ c # b = a' @ c # b' \<Longrightarrow> a = a' \<and> b = b'"
proof (induction a arbitrary: a')
  case Nil
  then show ?case by (cases a') auto
next
  case (Cons x a)
  then show ?case by (cases a') auto
qed

lemma deny_key_inj:
  assumes "CHR '':'' \<notin> set a" "CHR '':'' \<notin> set a'" "deny_key a b = deny_key a' b'"
  shows "a = a' \<and> b = b'"
  using split_at_first [of "CHR '':''" a a' b b'] assms by (simp add: deny_key_def)

text \<open>The requests of the panel, with the time each is handled.\<close>

datatype deny_request = DenyToken string | DenyUser string string

fun deny :: "int \<times> deny_request \<Rightarrow> denials \<Rightarrow> denials" where
  "deny (now, DenyToken jti) d = DenyJTI now jti d"
| "deny (now, DenyUser srv user) d = DenyForServer now srv user d"

definition deny_all :: "(int \<times> deny_request) list \<Rightarrow> denials \<Rightarrow> denials" where
  "deny_all rs d = fold deny rs d"

text \<open>All denials that are in force lie in the past.\<close>

definition past :: "int \<Rightarrow> denials \<Rightarrow> bool" where
  "past now d \<longleftrightarrow> (\<forall>t \<in> ran (denylist d) \<union> ran (userDenylist d). t \<le> now)"

lemma ran_upd: "ran (m(k \<mapsto> v)) \<subseteq> insert v (ran m)"
  by (auto simp: ran_def)

lemma deny_past: "past t d \<Longrightarrow> t \<le> now \<Longrightarrow> past now (deny (now, r) d)"
  by (cases r) (auto simp: past_def DenyJTI_def DenyForServer_def dest!: subsetD [OF ran_upd], force+)

lemma deny_keeps:
  assumes "past t d" "t \<le> now" "Denylisted d p"
  shows "Denylisted (deny (now, r) d) p"
proof -
  have "x \<le> now" if "denylist d k = Some x \<or> userDenylist d k = Some x" for x k
    using assms(1,2) that by (force simp: past_def ran_def)
  then show ?thesis
    using assms(3)
    by (cases r) (auto simp: Denylisted_def before_def DenyJTI_def DenyForServer_def split: option.splits if_splits,
        (fastforce+)?)
qed

fun times_from :: "int \<Rightarrow> (int \<times> deny_request) list \<Rightarrow> bool" where
  "times_from t [] \<longleftrightarrow> True"
| "times_from t ((now, r) # rs) \<longleftrightarrow> t \<le> now \<and> times_from now rs"

lemma deny_all_keeps:
  assumes "past t d" "times_from t rs" "Denylisted d p"
  shows "Denylisted (deny_all rs d) p"
  using assms
proof (induction t rs arbitrary: d rule: times_from.induct)
  case (2 t now r rs)
  then show ?case
    using deny_past [of t d now r] deny_keeps [of t d now p r] by (simp add: deny_all_def)
qed (simp add: deny_all_def)

section \<open>Properties\<close>

text \<open>Once the panel has denied a user on a server, every token of that user for that server
  issued before then has no permission any more, whatever is denied later. Tokens
  of other users or for other servers are not touched by this denial.\<close>

theorem denied_user_stays_out:
  assumes "past t d" "t \<le> now" "times_from now rs" "CHR '':'' \<notin> set srv" "CHR '':'' \<notin> set (ServerUUID p)"
  shows "(ServerUUID p = srv \<and> UserUUID p = user \<and> (\<forall>iat. IssuedAt p = Some iat \<longrightarrow> iat < now) \<longrightarrow>
       \<not> HasPermission (deny_all rs (DenyForServer now srv user d)) p perm) \<and>
     ((ServerUUID p, UserUUID p) \<noteq> (srv, user) \<longrightarrow>
       HasPermission (DenyForServer now srv user d) p perm = HasPermission d p perm)"
proof -
  have pst: "past now (DenyForServer now srv user d)" using deny_past [OF assms(1,2), of "DenyUser srv user"] by simp
  have "Denylisted (DenyForServer now srv user d) p"
    if "ServerUUID p = srv" "UserUUID p = user" "\<forall>iat. IssuedAt p = Some iat \<longrightarrow> iat < now"
    using that by (auto simp: Denylisted_def DenyForServer_def before_def split: option.splits)
  moreover have "Denylisted (DenyForServer now srv user d) p = Denylisted d p"
    if "(ServerUUID p, UserUUID p) \<noteq> (srv, user)"
    using that deny_key_inj [OF assms(5,4)] by (auto simp: Denylisted_def DenyForServer_def split: option.splits)
  ultimately show ?thesis
    using deny_all_keeps [OF pst assms(3)] by (auto simp: HasPermission_iff)
qed

definition booted_at :: "int \<Rightarrow> denials" where
  "booted_at t = \<lparr>wingsBootTime = t, denylist = Map.empty, userDenylist = Map.empty\<rparr>"

definition any_user :: payload where
  "any_user =
     \<lparr>ExpirationTime = Some 100, IssuedAt = Some 7, JWTID = ''j'', Scope = [], UserUUID = ''u'', ServerUUID = ''s'',
      Permissions = [''*'']\<rparr>"

theorem denied_user_stays_out_witness:
  "HasPermission (booted_at 5) any_user ''control.start'' \<and>
   \<not> HasPermission (deny_all [(12, DenyToken ''j''), (13, DenyUser ''s'' ''v'')] (DenyForServer 10 ''s'' ''u'' (booted_at 5)))
      any_user ''control.start''"
proof
  show "HasPermission (booted_at 5) any_user ''control.start''" by code_simp
  show "\<not> HasPermission (deny_all [(12, DenyToken ''j''), (13, DenyUser ''s'' ''v'')] (DenyForServer 10 ''s'' ''u'' (booted_at 5)))
      any_user ''control.start''"
    using denied_user_stays_out [of 5 "booted_at 5" 10 "[(12, DenyToken ''j''), (13, DenyUser ''s'' ''v'')]" "''s''" any_user "''u''"
        "''control.start''"]
    by (simp add: past_def booted_at_def any_user_def)
qed

end
