(* ===== verification/Websocket.thy ===== *)
theory Websocket
  imports Access_Tokens Crash
begin

text \<open>
  The websocket of a server: \<^verbatim>\<open>router/websocket\<close> (\<^verbatim>\<open>websocket.go\<close>, \<^verbatim>\<open>limiter.go\<close>, \<^verbatim>\<open>listeners.go\<close>,
  \<^verbatim>\<open>message.go\<close>) and the read loop of \<^verbatim>\<open>router/router_server_ws.go\<close>.

  The JWT library, the rate limiter, the connection and the clock are parameters, gathered in
  \<open>ws_lib\<close>: the \<open>n\<close>-th of their uses gets the answer for \<open>n\<close>, so two readings of the clock in one
  handler may differ. A handler is a program of the state monad on the session of one connection.
\<close>

section \<open>Messages, errors, the library\<close>

record message =
  Event :: string
  Args :: "string list"

abbreviation AuthenticationSuccessEvent :: string where "AuthenticationSuccessEvent \<equiv> ''auth success''"
abbreviation TokenExpiringEvent :: string where "TokenExpiringEvent \<equiv> ''token expiring''"
abbreviation TokenExpiredEvent :: string where "TokenExpiredEvent \<equiv> ''token expired''"
abbreviation AuthenticationEvent :: string where "AuthenticationEvent \<equiv> ''auth''"
abbreviation SetStateEvent :: string where "SetStateEvent \<equiv> ''set state''"
abbreviation SendServerLogsEvent :: string where "SendServerLogsEvent \<equiv> ''send logs''"
abbreviation SendCommandEvent :: string where "SendCommandEvent \<equiv> ''send command''"
abbreviation SendStatsEvent :: string where "SendStatsEvent \<equiv> ''send stats''"
abbreviation ErrorEvent :: string where "ErrorEvent \<equiv> ''daemon error''"
abbreviation JwtErrorEvent :: string where "JwtErrorEvent \<equiv> ''jwt error''"
abbreviation ThrottledEvent :: string where "ThrottledEvent \<equiv> ''throttled''"

abbreviation ws_InstallOutputEvent :: string where "ws_InstallOutputEvent \<equiv> ''install output''"
abbreviation ws_ConsoleOutputEvent :: string where "ws_ConsoleOutputEvent \<equiv> ''console output''"
abbreviation ws_StatusEvent :: string where "ws_StatusEvent \<equiv> ''status''"
abbreviation ws_StatsEvent :: string where "ws_StatsEvent \<equiv> ''stats''"
abbreviation ws_BackupCompletedEvent :: string where "ws_BackupCompletedEvent \<equiv> ''backup completed''"
abbreviation ws_TransferLogsEvent :: string where "ws_TransferLogsEvent \<equiv> ''transfer logs''"

abbreviation PermissionConnect :: string where "PermissionConnect \<equiv> ''websocket.connect''"
abbreviation PermissionSendCommand :: string where "PermissionSendCommand \<equiv> ''control.console''"
abbreviation PermissionSendPowerStart :: string where "PermissionSendPowerStart \<equiv> ''control.start''"
abbreviation PermissionSendPowerStop :: string where "PermissionSendPowerStop \<equiv> ''control.stop''"
abbreviation PermissionSendPowerRestart :: string where "PermissionSendPowerRestart \<equiv> ''control.restart''"
abbreviation PermissionReceiveErrors :: string where "PermissionReceiveErrors \<equiv> ''admin.websocket.errors''"
abbreviation PermissionReceiveInstall :: string where "PermissionReceiveInstall \<equiv> ''admin.websocket.install''"
abbreviation PermissionReceiveTransfer :: string where "PermissionReceiveTransfer \<equiv> ''admin.websocket.transfer''"
abbreviation PermissionReceiveBackups :: string where "PermissionReceiveBackups \<equiv> ''backup.read''"

datatype jwt_error = ErrExpValidation | OtherJwtError string

datatype 'x ws_error =
  ErrJwtNotPresent | ErrJwtNoConnectPerm | ErrJwtUuidMismatch | ErrJwtOnDenylist
| WsJwt jwt_error | WsPower "'x power_error" | WsEnv 'x

datatype write_error = ErrCloseSent | WriteFailed string

record ('x, 'l) ws_lib =
  jwt_verify :: "string \<Rightarrow> (payload \<Rightarrow> bool) \<Rightarrow> jwt_error + payload"
  exp_ok :: "int \<Rightarrow> payload \<Rightarrow> bool"  \<comment> \<open>\<^verbatim>\<open>jwt.ExpirationTimeValidator\<close>\<close>
  new_limiter :: "int \<Rightarrow> nat \<Rightarrow> 'l"  \<comment> \<open>nanoseconds per event and burst\<close>
  allow :: "int \<Rightarrow> 'l \<Rightarrow> bool \<times> 'l"
  clock :: "nat \<Rightarrow> int"
  write_json :: "nat \<Rightarrow> message \<Rightarrow> write_error option"
  error_id :: "nat \<Rightarrow> string"
  error_text :: "'x ws_error \<Rightarrow> string"
  stats_json :: "resource_usage \<Rightarrow> string"

text \<open>The part of the process environment that only the websocket uses.\<close>

record ('e, 'x) console =
  base :: "('e, 'x) backend"
  c_is_running :: "('e, bool) state"
  c_readlog :: "('e, 'x + string list) state"
  c_send_command :: "string \<Rightarrow> ('e, 'x option) state"
  c_is_attached :: "('e \<Rightarrow> bool) option"  \<comment> \<open>\<open>None\<close>: the environment has no such method\<close>

text \<open>What a power action of this message will meet, and the disk usage after a fresh look.\<close>

record ws_reply =
  w_world :: world_reply
  w_ctx :: ctx
  w_pick :: nat
  w_usage :: "int \<Rightarrow> int"

section \<open>The session\<close>

record 'l handler =
  jwt :: "payload option"
  ra_user :: string
  limits :: "string \<rightharpoonup> 'l"
  throttles :: "string \<rightharpoonup> bool"

datatype ws_call = CallPower string | CallCommand string

record ('e, 'l) session =
  hand :: "'l handler"
  sid :: string
  dmn :: "'e daemon"
  denied :: denials
  sent :: "message list"
  calls :: "ws_call list"  \<comment> \<open>what was asked of the server\<close>
  activity :: "(string \<times> string \<times> string) list"  \<comment> \<open>user, event, command\<close>
  listening :: nat  \<comment> \<open>how often the listeners have been registered\<close>
  global_limiter :: 'l
  throttled :: bool
  cancelled :: bool
  ticks :: nat

definition NewHandler :: "'l handler" where
  "NewHandler = \<lparr>jwt = None, ra_user = [], limits = Map.empty, throttles = Map.empty\<rparr>"

definition open_session :: "('x, 'l) ws_lib \<Rightarrow> string \<Rightarrow> 'e daemon \<Rightarrow> denials \<Rightarrow> ('e, 'l) session" where
  "open_session L i d dn =
     \<lparr>hand = NewHandler, sid = i, dmn = d, denied = dn, sent = [], calls = [], activity = [], listening = 0,
      global_limiter = new_limiter L 200000000 10, throttled = False, cancelled = False, ticks = 0\<rparr>"

definition next_use :: "(('e, 'l) session, nat) state" where
  "next_use = State (\<lambda>s. (ticks s, s\<lparr>ticks := ticks s + 1\<rparr>))"

definition now_st :: "('x, 'l) ws_lib \<Rightarrow> (('e, 'l) session, int) state" where
  "now_st L = do { n \<leftarrow> next_use; ret (clock L n) }"

definition in_dmn :: "('e daemon, 'r) state \<Rightarrow> (('e, 'l) session, 'r) state" where
  "in_dmn m = State (\<lambda>s. case run_state m (dmn s) of (r, d) \<Rightarrow> (r, s\<lparr>dmn := d\<rparr>))"

abbreviation in_backend :: "('e, 'r) state \<Rightarrow> (('e, 'l) session, 'r) state" where
  "in_backend m \<equiv> in_dmn (in_srv (in_env m))"

definition GetJwt :: "(('e, 'l) session, payload option) state" where
  "GetJwt = read_st (\<lambda>s. jwt (hand s))"

definition setJwt :: "payload \<Rightarrow> (('e, 'l) session, unit) state" where
  "setJwt p = modify_st (\<lambda>s. s\<lparr>hand := (hand s)\<lparr>ra_user := UserUUID p, jwt := Some p\<rparr>\<rparr>)"

definition unsafeSendJson :: "('x, 'l) ws_lib \<Rightarrow> message \<Rightarrow> (('e, 'l) session, write_error option) state" where
  "unsafeSendJson L v = do {
     n \<leftarrow> next_use;
     (case write_json L n v of
        Some e \<Rightarrow> ret (Some e)
      | None \<Rightarrow> do { modify_st (\<lambda>s. s\<lparr>sent := sent s @ [v]\<rparr>); ret None })
   }"

section \<open>Tokens\<close>

definition ParseToken :: "('x, 'l) ws_lib \<Rightarrow> int \<Rightarrow> string \<Rightarrow> jwt_error + payload" where
  "ParseToken L now token = jwt_verify L token (exp_ok L now)"

text \<open>The scope is only looked at when there is one.\<close>

definition connects :: "denials \<Rightarrow> payload \<Rightarrow> bool" where
  "connects d p \<longleftrightarrow> \<not> (\<not> HasPermission d p PermissionConnect \<or> (Scope p \<noteq> [] \<and> \<not> HasScope (Scope p) Websocket_scope))"

definition NewTokenPayload :: "('x, 'l) ws_lib \<Rightarrow> string \<Rightarrow> (('e, 'l) session, 'x ws_error + payload) state" where
  "NewTokenPayload L token = do {
     t \<leftarrow> now_st L;
     (case ParseToken L t token of
        Inl e \<Rightarrow> ret (Inl (WsJwt e))
      | Inr p \<Rightarrow> do {
          d \<leftarrow> read_st denied;
          ret (if Denylisted d p then Inl ErrJwtOnDenylist
               else if \<not> connects d p then Inl ErrJwtNoConnectPerm
               else Inr p)
        })
   }"

definition TokenValid :: "('x, 'l) ws_lib \<Rightarrow> (('e, 'l) session, 'x ws_error option) state" where
  "TokenValid L = do {
     j \<leftarrow> GetJwt;
     (case j of
        None \<Rightarrow> ret (Some ErrJwtNotPresent)
      | Some p \<Rightarrow> do {
          t \<leftarrow> now_st L;
          s \<leftarrow> read_st id;
          ret (if \<not> exp_ok L t p then Some (WsJwt ErrExpValidation)
               else if Denylisted (denied s) p then Some ErrJwtOnDenylist
               else if \<not> connects (denied s) p then Some ErrJwtNoConnectPerm
               else if sid s \<noteq> ServerUUID p then Some ErrJwtUuidMismatch
               else None)
        })
   }"

section \<open>Sending\<close>

definition jwt_error_message :: "('x, 'l) ws_lib \<Rightarrow> 'x ws_error \<Rightarrow> message" where
  "jwt_error_message L e = \<lparr>Event = JwtErrorEvent, Args = [error_text L e]\<rparr>"

text \<open>Whether the permissions of a token allow an event to be sent to its user.\<close>

definition may_receive :: "denials \<Rightarrow> payload \<Rightarrow> message \<Rightarrow> bool" where
  "may_receive d j v \<longleftrightarrow>
     (Event v = ws_InstallOutputEvent \<longrightarrow> HasPermission d j PermissionReceiveInstall) \<and>
     (HasPrefix (Event v) ws_BackupCompletedEvent \<longrightarrow> HasPermission d j PermissionReceiveBackups) \<and>
     (Event v = ws_TransferLogsEvent \<longrightarrow> HasPermission d j PermissionReceiveTransfer)"

definition send_masked :: "('x, 'l) ws_lib \<Rightarrow> message \<Rightarrow> (('e, 'l) session, write_error option) state" where
  "send_masked L v = do {
     r \<leftarrow> unsafeSendJson L v;
     ret (if r = Some ErrCloseSent then None else r)
   }"

definition SendJson :: "('x, 'l) ws_lib \<Rightarrow> message \<Rightarrow> (('e, 'l) session, write_error option) state" where
  "SendJson L v = do {
     err \<leftarrow> TokenValid L;
     (case err of
        Some e \<Rightarrow> do { _ \<leftarrow> unsafeSendJson L (jwt_error_message L e); ret None }
      | None \<Rightarrow> do {
          j \<leftarrow> GetJwt;
          d \<leftarrow> read_st denied;
          (case j of
             Some p \<Rightarrow> if \<not> may_receive d p v then ret None else send_masked L v
           | None \<Rightarrow> send_masked L v)
        })
   }"

fun IsJwtError :: "'x ws_error \<Rightarrow> bool" where
  "IsJwtError ErrJwtNotPresent = True"
| "IsJwtError ErrJwtNoConnectPerm = True"
| "IsJwtError ErrJwtUuidMismatch = True"
| "IsJwtError ErrJwtOnDenylist = True"
| "IsJwtError (WsJwt ErrExpValidation) = True"
| "IsJwtError _ = False"

definition GetErrorMessage :: "('x, 'l) ws_lib \<Rightarrow> string \<Rightarrow> (('e, 'l) session, string) state" where
  "GetErrorMessage L msg = do {
     n \<leftarrow> next_use;
     ret (''Error Event ['' @ error_id L n @ '']: '' @ msg)
   }"

definition generic_error :: string where
  "generic_error = ''an unexpected error was encountered while handling this request''"

definition SendErrorJson :: "('x, 'l) ws_lib \<Rightarrow> 'x ws_error \<Rightarrow> (('e, 'l) session, write_error option) state" where
  "SendErrorJson L err = do {
     j \<leftarrow> GetJwt;
     d \<leftarrow> read_st denied;
     let isJWTError = IsJwtError err;
     let reveal = (isJWTError \<or> (case j of None \<Rightarrow> False | Some p \<Rightarrow> HasPermission d p PermissionReceiveErrors));
     m \<leftarrow> GetErrorMessage L (if reveal then error_text L err else generic_error);
     unsafeSendJson L \<lparr>Event = (if reveal \<and> isJWTError then JwtErrorEvent else ErrorEvent), Args = [m]\<rparr>
   }"

section \<open>Rate limits\<close>

definition limitValuesFor :: "string \<Rightarrow> int \<times> nat" where
  "limitValuesFor e =
     (if e = AuthenticationEvent \<or> e = SendServerLogsEvent then (5000000000, 2)
      else if e = SendCommandEvent then (1000000000, 10)
      else (1000000000, 4))"

definition limiterName :: "string \<Rightarrow> string" where
  "limiterName e =
     (if e = AuthenticationEvent \<or> e = SendServerLogsEvent \<or> e = SendCommandEvent then e else ''_default'')"

definition For :: "('x, 'l) ws_lib \<Rightarrow> string \<Rightarrow> (('e, 'l) session, 'l) state" where
  "For L e = do {
     let name = limiterName e;
     h \<leftarrow> read_st hand;
     (case limits h name of
        Some v \<Rightarrow> ret v
      | None \<Rightarrow> do {
          let l = (case limitValuesFor e of (every, burst) \<Rightarrow> new_limiter L every burst);
          modify_st (\<lambda>s. s\<lparr>hand := (hand s)\<lparr>limits := (limits (hand s))(name \<mapsto> l)\<rparr>\<rparr>);
          ret l
        })
   }"

definition set_throttle :: "string \<Rightarrow> bool \<Rightarrow> (('e, 'l) session, unit) state" where
  "set_throttle e v = modify_st (\<lambda>s. s\<lparr>hand := (hand s)\<lparr>throttles := (throttles (hand s))(e \<mapsto> v)\<rparr>\<rparr>)"

definition IsThrottled :: "('x, 'l) ws_lib \<Rightarrow> string \<Rightarrow> (('e, 'l) session, bool) state" where
  "IsThrottled L e = do {
     l \<leftarrow> For L e;
     t \<leftarrow> now_st L;
     let (ok, l') = allow L t l;
     modify_st (\<lambda>s. s\<lparr>hand := (hand s)\<lparr>limits := (limits (hand s))(limiterName e \<mapsto> l')\<rparr>\<rparr>);
     if ok then do { set_throttle e False; ret False }
     else do {
       h \<leftarrow> read_st hand;
       if_st (throttles h e \<noteq> Some True) (do {
         set_throttle e True;
         _ \<leftarrow> unsafeSendJson L \<lparr>Event = ThrottledEvent, Args = [e]\<rparr>;
         ret ()
       });
       ret True
     }
   }"

section \<open>Inbound messages\<close>

datatype 'x ws_result = WsDone "'x ws_error option" | WsWaiting | WsPanicked string

datatype 'x verdict = Refused "'x ws_error option" | Passed

text \<open>The checks before the switch of \<^verbatim>\<open>HandleInbound\<close>.\<close>

definition inbound_checks :: "('x, 'l) ws_lib \<Rightarrow> message \<Rightarrow> (('e, 'l) session, 'x verdict) state" where
  "inbound_checks L m = do {
     s \<leftarrow> read_st id;
     if suspended (cfg (srv (dmn s))) then ret (Refused (Some (WsPower ErrSuspended)))
     else do {
       thr \<leftarrow> IsThrottled L (Event m);
       if thr then ret (Refused None)
       else if Event m \<noteq> AuthenticationEvent then do {
         err \<leftarrow> TokenValid L;
         (case err of
            Some e \<Rightarrow> do { _ \<leftarrow> unsafeSendJson L (jwt_error_message L e); ret (Refused None) }
          | None \<Rightarrow> ret Passed)
       }
       else ret Passed
     }
   }"

abbreviation joined :: "message \<Rightarrow> string" where
  "joined m \<equiv> concat (Args m)"

definition send_stats :: "('x, 'l) ws_lib \<Rightarrow> (('e, 'l) session, unit) state" where
  "send_stats L = do {
     ru \<leftarrow> in_dmn Proc;
     _ \<leftarrow> SendJson L \<lparr>Event = ws_StatsEvent, Args = [stats_json L ru]\<rparr>;
     ret ()
   }"

definition on_auth :: "('x, 'l) ws_lib \<Rightarrow> ('e, 'x) console \<Rightarrow> ws_reply \<Rightarrow> message \<Rightarrow> (('e, 'l) session, 'x ws_result) state" where
  "on_auth L c rp m = do {
     r \<leftarrow> NewTokenPayload L (joined m);
     (case r of
        Inl e \<Rightarrow> ret (WsDone (Some e))
      | Inr token \<Rightarrow> do {
          j \<leftarrow> GetJwt;
          setJwt token;
          _ \<leftarrow> unsafeSendJson L \<lparr>Event = AuthenticationSuccessEvent, Args = []\<rparr>;
          if j \<noteq> None then ret (WsDone None)
          else do {
            modify_st (\<lambda>s. s\<lparr>listening := listening s + 1\<rparr>);
            s \<leftarrow> read_st (\<lambda>s. srv (dmn s));
            let p = b_state (base c) (environment s);
            _ \<leftarrow> SendJson L \<lparr>Event = ws_StatusEvent, Args = [state_name p]\<rparr>;
            if_st (p = Offline \<and> \<not> Load (installing s) \<and> \<not> Load (transferring s)) (do {
              in_dmn (modify_st (\<lambda>d. d\<lparr>cachedUsage := w_usage rp (cachedUsage d)\<rparr>));
              send_stats L
            });
            ret (WsDone None)
          }
        })
   }"

definition power_permission :: "string \<rightharpoonup> string" where
  "power_permission =
     [PowerActionStart \<mapsto> PermissionSendPowerStart, PowerActionStop \<mapsto> PermissionSendPowerStop,
      PowerActionRestart \<mapsto> PermissionSendPowerRestart, PowerActionTerminate \<mapsto> PermissionSendPowerStop]"

definition call_it :: "ws_call \<Rightarrow> (('e, 'l) session, unit) state" where
  "call_it a = modify_st (\<lambda>s. s\<lparr>calls := calls s @ [a]\<rparr>)"

definition SaveActivity :: "string \<Rightarrow> string \<Rightarrow> (('e, 'l) session, unit) state" where
  "SaveActivity ev cmd = modify_st (\<lambda>s. s\<lparr>activity := activity s @ [(ra_user (hand s), ev, cmd)]\<rparr>)"

text \<open>
  \<^verbatim>\<open>h.GetJwt().HasPermission\<close> on a handler without a token is a nil dereference. The checks
  before the switch exclude it.
\<close>

definition with_permission ::
  "string \<Rightarrow> (('e, 'l) session, 'x ws_result) state \<Rightarrow> (('e, 'l) session, 'x ws_result) state" where
  "with_permission perm m = do {
     j \<leftarrow> GetJwt;
     d \<leftarrow> read_st denied;
     (case j of
        None \<Rightarrow> ret (WsPanicked ''nil pointer dereference'')
      | Some p \<Rightarrow> if \<not> HasPermission d p perm then ret (WsDone None) else m)
   }"

definition on_set_state :: "('x, 'l) ws_lib \<Rightarrow> ('e, 'x) console \<Rightarrow> ws_reply \<Rightarrow> message \<Rightarrow> (('e, 'l) session, 'x ws_result) state" where
  "on_set_state L c rp m =
     (let action = joined m;
          go = do {
            call_it (CallPower action);
            r \<leftarrow> in_dmn (in_srv (State (HandlePowerAction (base c) (w_world rp) (w_ctx rp) (w_pick rp) [] action)));
            (case r of
               Waiting \<Rightarrow> ret WsWaiting
             | Panicked msg \<Rightarrow> ret (WsPanicked msg)
             | Returned (Some (LockError ErrLockerLocked)) \<Rightarrow> do {
                 t \<leftarrow> GetErrorMessage L
                   ''another power action is currently being processed for this server, please try again later'';
                 _ \<leftarrow> SendJson L \<lparr>Event = ErrorEvent, Args = [t]\<rparr>;
                 ret (WsDone None)
               }
             | Returned (Some e) \<Rightarrow> ret (WsDone (Some (WsPower e)))
             | Returned None \<Rightarrow> do { SaveActivity (''server:power.'' @ action) []; ret (WsDone None) })
          }
      in case power_permission action of None \<Rightarrow> go | Some perm \<Rightarrow> with_permission perm go)"

primrec send_lines :: "('x, 'l) ws_lib \<Rightarrow> string list \<Rightarrow> (('e, 'l) session, unit) state" where
  "send_lines L [] = ret ()"
| "send_lines L (l # ls) = do {
     _ \<leftarrow> SendJson L \<lparr>Event = ws_ConsoleOutputEvent, Args = [l]\<rparr>;
     send_lines L ls
   }"

definition on_send_logs :: "('x, 'l) ws_lib \<Rightarrow> ('e, 'x) console \<Rightarrow> (('e, 'l) session, 'x ws_result) state" where
  "on_send_logs L c = do {
     running \<leftarrow> in_backend (c_is_running c);
     if \<not> running then ret (WsDone None)
     else do {
       r \<leftarrow> in_backend (c_readlog c);
       (case r of
          Inl e \<Rightarrow> ret (WsDone (Some (WsEnv e)))
        | Inr ls \<Rightarrow> do { send_lines L ls; ret (WsDone None) })
     }
   }"

definition on_send_command :: "('e, 'x) console \<Rightarrow> message \<Rightarrow> (('e, 'l) session, 'x ws_result) state" where
  "on_send_command c m =
     with_permission PermissionSendCommand (do {
       e \<leftarrow> read_st (\<lambda>s. environment (srv (dmn s)));
       if b_state (base c) e = Offline then ret (WsDone None)
       else if b_state (base c) e = Starting \<and> (case c_is_attached c of None \<Rightarrow> False | Some f \<Rightarrow> \<not> f e)
       then ret (WsDone None)
       else do {
         call_it (CallCommand (joined m));
         r \<leftarrow> in_backend (c_send_command c (joined m));
         (case r of
            Some err \<Rightarrow> ret (WsDone (Some (WsEnv err)))
          | None \<Rightarrow> do { SaveActivity ''server:console.command'' (joined m); ret (WsDone None) })
       }
     })"

definition inbound_switch :: "('x, 'l) ws_lib \<Rightarrow> ('e, 'x) console \<Rightarrow> ws_reply \<Rightarrow> message \<Rightarrow> (('e, 'l) session, 'x ws_result) state" where
  "inbound_switch L c rp m =
     (if Event m = AuthenticationEvent then on_auth L c rp m
      else if Event m = SetStateEvent then on_set_state L c rp m
      else if Event m = SendServerLogsEvent then on_send_logs L c
      else if Event m = SendStatsEvent then do { send_stats L; ret (WsDone None) }
      else if Event m = SendCommandEvent then on_send_command c m
      else ret (WsDone None))"

definition HandleInbound :: "('x, 'l) ws_lib \<Rightarrow> ('e, 'x) console \<Rightarrow> ws_reply \<Rightarrow> message \<Rightarrow> (('e, 'l) session, 'x ws_result) state" where
  "HandleInbound L c rp m = do {
     v \<leftarrow> inbound_checks L m;
     (case v of Refused r \<Rightarrow> ret (WsDone r) | Passed \<Rightarrow> inbound_switch L c rp m)
   }"

section \<open>The read loop, the listeners\<close>

definition report :: "('x, 'l) ws_lib \<Rightarrow> 'x ws_result \<Rightarrow> (('e, 'l) session, unit) state" where
  "report L r =
     (case r of
        WsDone (Some (WsPower ErrSuspended)) \<Rightarrow> modify_st (\<lambda>s. s\<lparr>cancelled := True\<rparr>)
      | WsDone (Some err) \<Rightarrow> do { _ \<leftarrow> SendErrorJson L err; ret () }
      | _ \<Rightarrow> ret ())"

text \<open>The goroutine of one message.\<close>

definition serve_message :: "('x, 'l) ws_lib \<Rightarrow> ('e, 'x) console \<Rightarrow> ws_reply \<Rightarrow> message \<Rightarrow> (('e, 'l) session, unit) state" where
  "serve_message L c rp m = do { r \<leftarrow> HandleInbound L c rp m; report L r }"

text \<open>
  One turn of the read loop: the message that is handed to a goroutine, if any. A frame is its
  type, its length, and what JSON decoding gives.
\<close>

record frame =
  is_text :: bool
  frame_len :: nat
  decoded :: "message option"

definition read_frame :: "('x, 'l) ws_lib \<Rightarrow> frame \<Rightarrow> (('e, 'l) session, message option) state" where
  "read_frame L f = do {
     t \<leftarrow> now_st L;
     s \<leftarrow> read_st id;
     let (ok, l) = allow L t (global_limiter s);
     modify_st (\<lambda>s. s\<lparr>global_limiter := l\<rparr>);
     if \<not> ok then do {
       if_st (\<not> throttled s) (do {
         modify_st (\<lambda>s. s\<lparr>throttled := True\<rparr>);
         _ \<leftarrow> unsafeSendJson L \<lparr>Event = ThrottledEvent, Args = [''global'']\<rparr>;
         ret ()
       });
       ret None
     }
     else do {
       modify_st (\<lambda>s. s\<lparr>throttled := False\<rparr>);
       ret (if \<not> is_text f \<or> frame_len f > 32768 then None else decoded f)
     }
   }"

text \<open>One tick of the expiration timer; the clock is read again for the second comparison.\<close>

definition seconds :: "int \<Rightarrow> int" where
  "seconds ns = ns div 1000000000"

definition expiration_tick :: "('x, 'l) ws_lib \<Rightarrow> (('e, 'l) session, unit outcome) state" where
  "expiration_tick L = do {
     j \<leftarrow> GetJwt;
     (case j of
        None \<Rightarrow> ret (Return ())
      | Some p \<Rightarrow>
          (case ExpirationTime p of
             None \<Rightarrow> ret (Panic ''nil pointer dereference'')
           | Some x \<Rightarrow> do {
               t1 \<leftarrow> now_st L;
               if x - seconds t1 \<le> 0
               then do { _ \<leftarrow> SendJson L \<lparr>Event = TokenExpiredEvent, Args = []\<rparr>; ret (Return ()) }
               else do {
                 t2 \<leftarrow> now_st L;
                 if_st (x - seconds t2 \<le> 60) (do { _ \<leftarrow> SendJson L \<lparr>Event = TokenExpiringEvent, Args = []\<rparr>; ret () });
                 ret (Return ())
               }
             }))
   }"

text \<open>
  What \<^verbatim>\<open>listenForServerEvents\<close> receives: a line of the log or install sink, or an event of the bus,
  whose data is a string or another value with its JSON (\<open>None\<close> when it cannot be encoded). Bytes
  that do not decode to an event are \<open>Undecodable\<close>.
\<close>

datatype bus_data = DataString string | DataJson "string option"

datatype relayed = LogLine string | InstallLine string | BusEvent string bus_data | Undecodable

definition relay :: "('x, 'l) ws_lib \<Rightarrow> relayed \<Rightarrow> (('e, 'l) session, bool) state" where
  "relay L r =
     (let send = \<lambda>ev a. do { e \<leftarrow> SendJson L \<lparr>Event = ev, Args = [a]\<rparr>; ret (e = None) } in
      case r of
        LogLine b \<Rightarrow> send ws_ConsoleOutputEvent b
      | InstallLine b \<Rightarrow> send ws_InstallOutputEvent b
      | BusEvent topic (DataString str) \<Rightarrow> send topic str
      | BusEvent topic (DataJson (Some js)) \<Rightarrow> send topic js
      | BusEvent topic (DataJson None) \<Rightarrow> ret False
      | Undecodable \<Rightarrow> ret True)"

text \<open>The loop goes on until sending fails; it returns whether all was relayed.\<close>

primrec listenForServerEvents :: "('x, 'l) ws_lib \<Rightarrow> relayed list \<Rightarrow> (('e, 'l) session, bool) state" where
  "listenForServerEvents L [] = ret True"
| "listenForServerEvents L (r # rs) = do {
     go \<leftarrow> relay L r;
     if go then listenForServerEvents L rs else ret False
   }"

section \<open>What is sent, and what is asked of the server\<close>

definition token_ok :: "('x, 'l) ws_lib \<Rightarrow> denials \<Rightarrow> string \<Rightarrow> int \<Rightarrow> payload \<Rightarrow> bool" where
  "token_ok L d i t p \<longleftrightarrow> exp_ok L t p \<and> \<not> Denylisted d p \<and> connects d p \<and> ServerUUID p = i"

text \<open>Messages that tell nothing of the server but the outcome of a request.\<close>

definition control :: "message \<Rightarrow> bool" where
  "control v \<longleftrightarrow> Event v \<in> {JwtErrorEvent, ThrottledEvent, AuthenticationSuccessEvent, ErrorEvent}"

definition has_token :: "('x, 'l) ws_lib \<Rightarrow> denials \<Rightarrow> string \<Rightarrow> payload option \<Rightarrow> bool" where
  "has_token L d i j \<longleftrightarrow> (\<exists>p n. j = Some p \<and> token_ok L d i (clock L n) p)"

definition out_ok :: "('x, 'l) ws_lib \<Rightarrow> denials \<Rightarrow> string \<Rightarrow> payload option \<Rightarrow> message \<Rightarrow> bool" where
  "out_ok L d i j v \<longleftrightarrow>
     control v \<or> (\<exists>p n. j = Some p \<and> token_ok L d i (clock L n) p \<and> may_receive d p v)"

definition authorised :: "denials \<Rightarrow> payload option \<Rightarrow> ws_call \<Rightarrow> bool" where
  "authorised d j a \<longleftrightarrow>
     (\<exists>p. j = Some p \<and>
        (case a of
           CallCommand _ \<Rightarrow> HasPermission d p PermissionSendCommand
         | CallPower action \<Rightarrow> (\<forall>perm. power_permission action = Some perm \<longrightarrow> HasPermission d p perm)))"

text \<open>
  The invariant of a handler: the token, the denials and the server stay, all that has been sent
  since the first \<open>n\<close> messages fulfils \<open>P\<close>, and all that has been asked since the first \<open>k\<close> calls
  is authorised.
\<close>

definition ws_inv ::
  "nat \<Rightarrow> nat \<Rightarrow> payload option \<Rightarrow> denials \<Rightarrow> string \<Rightarrow> (message \<Rightarrow> bool) \<Rightarrow> (ws_call \<Rightarrow> bool) \<Rightarrow> ('e, 'l) session \<Rightarrow> bool" where
  "ws_inv n k j d i P A s \<longleftrightarrow>
     jwt (hand s) = j \<and> denied s = d \<and> sid s = i \<and> n \<le> length (sent s) \<and> (\<forall>v \<in> set (drop n (sent s)). P v) \<and>
     k \<le> length (calls s) \<and> (\<forall>a \<in> set (drop k (calls s)). A a)"

named_theorems ws_intros \<open>the operations that keep the invariant of a handler\<close>

lemma next_use_inv [ws_intros]: "keeps (ws_inv n k j d i P A) next_use"
  by (simp add: triple_def next_use_def ws_inv_def)

lemma now_inv [ws_intros]: "keeps (ws_inv n k j d i P A) (now_st L)"
  by (simp add: triple_def next_use_def now_st_def ws_inv_def)

lemma in_dmn_inv [ws_intros]: "keeps (ws_inv n k j d i P A) (in_dmn m)"
  by (simp add: triple_def in_dmn_def ws_inv_def split: prod.split)

lemma SaveActivity_inv [ws_intros]: "keeps (ws_inv n k j d i P A) (SaveActivity e c)"
  by (simp add: triple_def SaveActivity_def ws_inv_def)

lemma set_throttle_inv [ws_intros]: "keeps (ws_inv n k j d i P A) (set_throttle e v)"
  by (simp add: triple_def set_throttle_def ws_inv_def)

lemma listening_inv [ws_intros]: "keeps (ws_inv n k j d i P A) (modify_st (\<lambda>s. s\<lparr>listening := f s\<rparr>))"
  by (simp add: triple_def ws_inv_def)

lemma limits_inv [ws_intros]: "keeps (ws_inv n k j d i P A) (modify_st (\<lambda>s. s\<lparr>hand := (hand s)\<lparr>limits := f s\<rparr>\<rparr>))"
  by (simp add: triple_def ws_inv_def)

lemma GetErrorMessage_inv [ws_intros]: "keeps (ws_inv n k j d i P A) (GetErrorMessage L t)"
  by (simp add: triple_def next_use_def GetErrorMessage_def ws_inv_def)

lemma For_inv [ws_intros]: "keeps (ws_inv n k j d i P A) (For L e)"
  unfolding For_def Let_def by (intro triple_bind [OF read_keeps] triple_option triple_bind [OF limits_inv] triple_ret)

lemma call_it_inv: "A a \<Longrightarrow> keeps (ws_inv n k j d i P A) (call_it a)"
  by (auto simp: triple_def call_it_def ws_inv_def)

lemma unsafeSendJson_inv: "P v \<Longrightarrow> keeps (ws_inv n k j d i P A) (unsafeSendJson L v)"
  by (auto simp: triple_def unsafeSendJson_def next_use_def ws_inv_def split: option.splits)

lemma TokenValid_inv:
  "triple (ws_inv n k j d i P A) (TokenValid L) (\<lambda>r s. ws_inv n k j d i P A s \<and> (r = None \<longrightarrow> has_token L d i j))"
  by (auto simp: triple_def TokenValid_def GetJwt_def now_st_def next_use_def ws_inv_def has_token_def token_ok_def
      split: option.splits)

lemma jwt_error_control [simp]: "control (jwt_error_message L e)"
  by (simp add: control_def jwt_error_message_def)

lemma control_out [simp]: "control v \<Longrightarrow> out_ok L d i j v"
  by (simp add: out_ok_def)

text \<open>Under the invariant, the token and the denials that are read are known.\<close>

lemma bind_GetJwt:
  "triple (ws_inv n k j d i P A) (f j) Q \<Longrightarrow> triple (ws_inv n k j d i P A) (GetJwt \<bind> f) Q"
  by (simp add: triple_def GetJwt_def ws_inv_def)

lemma bind_denied:
  "triple (ws_inv n k j d i P A) (f d) Q \<Longrightarrow> triple (ws_inv n k j d i P A) (read_st denied \<bind> f) Q"
  by (simp add: triple_def ws_inv_def)

lemma send_masked_inv: "P v \<Longrightarrow> keeps (ws_inv n k j d i P A) (send_masked L v)"
  unfolding send_masked_def by (intro triple_bind [OF unsafeSendJson_inv [of P]] triple_ret)

lemma SendJson_inv:
  assumes "\<And>v. out_ok L d i j v \<Longrightarrow> P v"
  shows "keeps (ws_inv n k j d i P A) (SendJson L v)"
proof -
  have err: "keeps (ws_inv n k j d i P A) (unsafeSendJson L (jwt_error_message L e))" for e
    by (rule unsafeSendJson_inv) (simp add: assms)
  have good: "keeps (ws_inv n k j d i P A) (if \<not> may_receive d p v then ret None else send_masked L v)"
    if "j = Some p" "has_token L d i j" for p
    using that by (intro triple_if triple_ret send_masked_inv assms) (auto simp: out_ok_def has_token_def)
  have rest: "keeps (ws_inv n k j d i P A)
      (case j of Some p \<Rightarrow> if \<not> may_receive d p v then ret None else send_masked L v | None \<Rightarrow> send_masked L v)"
    if tok: "has_token L d i j"
  proof (cases j)
    case (Some p)
    then show ?thesis using good [OF Some tok] by simp
  qed (use tok in \<open>simp add: has_token_def\<close>)
  show ?thesis
    unfolding SendJson_def
    by (intro triple_bind [OF TokenValid_inv] triple_option triple_pure)
       (blast intro: triple_bind [OF err] triple_ret bind_GetJwt bind_denied rest)+
qed

lemma IsThrottled_inv:
  assumes "\<And>v. control v \<Longrightarrow> P v"
  shows "keeps (ws_inv n k j d i P A) (IsThrottled L e)"
proof -
  have t: "keeps (ws_inv n k j d i P A) (unsafeSendJson L \<lparr>Event = ThrottledEvent, Args = a\<rparr>)" for a
    by (rule unsafeSendJson_inv) (simp add: assms control_def)
  show ?thesis
    unfolding IsThrottled_def Let_def
    by (intro triple_bind [OF For_inv] triple_bind [OF now_inv] triple_prod triple_bind [OF limits_inv] triple_if
        triple_bind [OF set_throttle_inv] triple_ret triple_bind [OF read_keeps] triple_bind [OF keeps_if_st]
        triple_bind [OF t])
qed

lemma inbound_checks_inv:
  assumes "\<And>v. control v \<Longrightarrow> P v"
  shows "triple (ws_inv n k j d i P A) (inbound_checks L m)
    (\<lambda>r s. ws_inv n k j d i P A s \<and> (r = Passed \<longrightarrow> Event m = AuthenticationEvent \<or> has_token L d i j))"
proof -
  have err: "keeps (ws_inv n k j d i P A) (unsafeSendJson L (jwt_error_message L e))" for e
    by (rule unsafeSendJson_inv) (simp add: assms)
  show ?thesis
    unfolding inbound_checks_def
    by (intro triple_bind [OF read_keeps] triple_if triple_ret triple_bind [OF IsThrottled_inv]
        triple_bind [OF TokenValid_inv] triple_option triple_pure assms triple_bind [OF err]) simp_all
qed

lemma send_stats_inv: "(\<And>v. out_ok L d i j v \<Longrightarrow> P v) \<Longrightarrow> keeps (ws_inv n k j d i P A) (send_stats L)"
  unfolding send_stats_def by (intro triple_bind [OF in_dmn_inv] triple_bind [OF SendJson_inv] triple_ret)

lemma send_lines_inv: "(\<And>v. out_ok L d i j v \<Longrightarrow> P v) \<Longrightarrow> keeps (ws_inv n k j d i P A) (send_lines L ls)"
proof (induction ls)
  case (Cons l ls)
  then show ?case by (auto intro!: triple_bind [OF SendJson_inv])
qed (simp add: triple_ret)

lemma with_permission_inv:
  assumes "\<And>p. j = Some p \<Longrightarrow> HasPermission d p perm \<Longrightarrow> keeps (ws_inv n k j d i P A) m"
  shows "keeps (ws_inv n k j d i P A) (with_permission perm m)"
  unfolding with_permission_def
  by (intro bind_GetJwt bind_denied triple_option triple_ret triple_if) (metis assms)+

lemma on_set_state_inv:
  assumes "\<And>v. out_ok L d i j v \<Longrightarrow> P v" "\<And>a. authorised d j a \<Longrightarrow> A a" "has_token L d i j"
  shows "keeps (ws_inv n k j d i P A) (on_set_state L c rp m)"
proof -
  have result: "keeps (ws_inv n k j d i P A)
     (case r of Waiting \<Rightarrow> ret WsWaiting | Panicked msg \<Rightarrow> ret (WsPanicked msg)
      | Returned (Some (LockError ErrLockerLocked)) \<Rightarrow> do {
          t \<leftarrow> GetErrorMessage L
            ''another power action is currently being processed for this server, please try again later'';
          _ \<leftarrow> SendJson L \<lparr>Event = ErrorEvent, Args = [t]\<rparr>;
          ret (WsDone None)
        }
      | Returned (Some e) \<Rightarrow> ret (WsDone (Some (WsPower e)))
      | Returned None \<Rightarrow> do { SaveActivity (''server:power.'' @ joined m) []; ret (WsDone None) })" for r
    by (cases r rule: power_result.exhaust)
       (auto split: option.splits power_error.splits lock_error.splits
          intro!: triple_ret triple_bind [OF SaveActivity_inv] triple_bind [OF GetErrorMessage_inv]
            triple_bind [OF SendJson_inv] assms(1))
  have go: "keeps (ws_inv n k j d i P A) (do { call_it (CallPower (joined m)); r \<leftarrow> in_dmn x; f r })"
    if "A (CallPower (joined m))" "\<And>r. keeps (ws_inv n k j d i P A) (f r)" for x and f :: "_ \<Rightarrow> (_, 'z) state"
    by (intro triple_bind [OF call_it_inv] triple_bind [OF in_dmn_inv] that)
  have a: "A (CallPower (joined m))" if "power_permission (joined m) = None"
    using assms(3) that by (auto intro!: assms(2) simp: authorised_def has_token_def)
  have b: "A (CallPower (joined m))" if "power_permission (joined m) = Some perm" "j = Some p" "HasPermission d p perm" for perm p
    using that by (auto intro!: assms(2) simp: authorised_def)
  show ?thesis
    unfolding on_set_state_def Let_def
    by (intro triple_option with_permission_inv go result) (auto intro: a b)
qed

lemma on_send_logs_inv: "(\<And>v. out_ok L d i j v \<Longrightarrow> P v) \<Longrightarrow> keeps (ws_inv n k j d i P A) (on_send_logs L c)"
  unfolding on_send_logs_def
  by (intro triple_bind [OF in_dmn_inv] triple_if triple_ret triple_sum triple_bind [OF send_lines_inv])

lemma on_send_command_inv:
  assumes "\<And>a. authorised d j a \<Longrightarrow> A a"
  shows "keeps (ws_inv n k j d i P A) (on_send_command c m)"
proof -
  have "A (CallCommand (joined m))" if "j = Some p" "HasPermission d p PermissionSendCommand" for p
    using that by (auto intro!: assms simp: authorised_def)
  then show ?thesis
    unfolding on_send_command_def
    by (intro with_permission_inv triple_bind [OF read_keeps] triple_if triple_ret triple_bind [OF call_it_inv]
        triple_bind [OF in_dmn_inv] triple_option triple_bind [OF SaveActivity_inv])
qed

text \<open>Once a token is accepted, what was sent before has to be allowed under any token.\<close>

lemma on_auth_inv:
  "triple (ws_inv n k j d i control A) (on_auth L c rp m) (\<lambda>_ s. \<exists>j'. ws_inv n k j' d i (out_ok L d i j') A s)"
proof -
  have tok: "keeps (ws_inv n k j d i control A) (NewTokenPayload L t)" for t
    unfolding NewTokenPayload_def
    by (intro triple_bind [OF now_inv] triple_sum triple_ret bind_denied)
  have set: "triple (ws_inv n k j d i control A) (setJwt p) (\<lambda>_. ws_inv n k (Some p) d i (out_ok L d i (Some p)) A)" for p
    by (simp add: triple_def setJwt_def ws_inv_def)
  have ok: "keeps (ws_inv n k j' d i (out_ok L d i j') A) (unsafeSendJson L \<lparr>Event = AuthenticationSuccessEvent, Args = []\<rparr>)"
    for j' by (rule unsafeSendJson_inv) (simp add: control_def out_ok_def)
  have acc: "triple (ws_inv n k j d i control A) (setJwt p \<bind> f) (\<lambda>_ s. \<exists>j'. ws_inv n k j' d i (out_ok L d i j') A s)"
    if "\<And>u. keeps (ws_inv n k (Some p) d i (out_ok L d i (Some p)) A) (f u)" for p and f :: "unit \<Rightarrow> (_, 'z) state"
    by (rule triple_post [OF triple_bind [OF set that]]) blast
  show ?thesis
    unfolding on_auth_def Let_def
    by (intro triple_bind [OF tok] triple_sum acc bind_GetJwt triple_bind [OF ok] triple_if triple_ret
        triple_bind [OF listening_inv] triple_bind [OF read_keeps] triple_bind [OF SendJson_inv]
        triple_bind [OF keeps_if_st] triple_bind [OF in_dmn_inv] send_stats_inv)
       (auto simp: ws_inv_def)
qed

text \<open>One message, handled from start to end.\<close>

definition allowed :: "('x, 'l) ws_lib \<Rightarrow> denials \<Rightarrow> string \<Rightarrow> payload option \<Rightarrow> ws_call \<Rightarrow> bool" where
  "allowed L d i j a \<longleftrightarrow> has_token L d i j \<and> authorised d j a"

lemma inbound_switch_inv:
  assumes "Event m = AuthenticationEvent \<or> has_token L d i j"
  shows "triple (ws_inv n k j d i control (allowed L d i j)) (inbound_switch L c rp m)
    (\<lambda>_ s. \<exists>j'. ws_inv n k j' d i (out_ok L d i j') (allowed L d i j) s)"
proof (cases "Event m = AuthenticationEvent")
  case True
  then show ?thesis by (simp add: inbound_switch_def on_auth_inv)
next
  case False
  have tok: "has_token L d i j" using assms False by simp
  let ?I = "ws_inv n k j d i (out_ok L d i j) (allowed L d i j)"
  have "keeps ?I (inbound_switch L c rp m)"
    using False tok unfolding inbound_switch_def
    by (auto intro!: triple_if on_set_state_inv on_send_logs_inv on_send_command_inv triple_ret
        triple_bind [OF send_stats_inv] simp: allowed_def)
  then show ?thesis by (rule triple_conseq) (auto simp: ws_inv_def)
qed

lemma HandleInbound_inv:
  "triple (ws_inv n k j d i control (allowed L d i j)) (HandleInbound L c rp m)
    (\<lambda>_ s. \<exists>j'. ws_inv n k j' d i (out_ok L d i j') (allowed L d i j) s)"
proof -
  have chk: "triple (ws_inv n k j d i control (allowed L d i j)) (inbound_checks L m)
    (\<lambda>r s. ws_inv n k j d i control (allowed L d i j) s \<and> (r = Passed \<longrightarrow> Event m = AuthenticationEvent \<or> has_token L d i j))"
    by (rule inbound_checks_inv)
  have "triple (\<lambda>s. ws_inv n k j d i control (allowed L d i j) s \<and>
      (v = Passed \<longrightarrow> Event m = AuthenticationEvent \<or> has_token L d i j))
    (case v of Refused r \<Rightarrow> ret (WsDone r) | Passed \<Rightarrow> inbound_switch L c rp m)
    (\<lambda>_ s. \<exists>j'. ws_inv n k j' d i (out_ok L d i j') (allowed L d i j) s)" for v
  proof (cases v)
    case (Refused r)
    then show ?thesis by (auto simp: triple_def ws_inv_def)
  next
    case Passed
    then show ?thesis by (auto intro!: triple_pure inbound_switch_inv)
  qed
  then show ?thesis unfolding HandleInbound_def by (rule triple_bind [OF chk])
qed

lemma SendErrorJson_inv:
  assumes "\<And>v. control v \<Longrightarrow> P v"
  shows "keeps (ws_inv n k j d i P A) (SendErrorJson L e)"
  unfolding SendErrorJson_def Let_def
  by (intro bind_GetJwt bind_denied triple_bind [OF GetErrorMessage_inv] unsafeSendJson_inv assms)
     (simp add: control_def)

lemma report_inv: "(\<And>v. control v \<Longrightarrow> P v) \<Longrightarrow> keeps (ws_inv n k j d i P A) (report L r)"
  by (auto simp: report_def triple_modify ws_inv_def split: ws_result.split option.split ws_error.split power_error.split
      intro!: triple_ret triple_modify triple_bind [OF SendErrorJson_inv])

lemma serve_message_inv:
  "triple (ws_inv n k j d i control (allowed L d i j)) (serve_message L c rp m)
    (\<lambda>_ s. \<exists>j'. ws_inv n k j' d i (out_ok L d i j') (allowed L d i j) s)"
proof -
  have "triple (\<lambda>s. \<exists>j'. ws_inv n k j' d i (out_ok L d i j') (allowed L d i j) s) (report L r)
    (\<lambda>_ s. \<exists>j'. ws_inv n k j' d i (out_ok L d i j') (allowed L d i j) s)" for r
    using report_inv [of "out_ok L d i _" n k _ d i "allowed L d i j" L r] unfolding triple_def
    by (fastforce split: prod.splits)
  then show ?thesis unfolding serve_message_def by (rule triple_bind [OF HandleInbound_inv])
qed

lemma relay_inv: "keeps (ws_inv n k j d i (out_ok L d i j) A) (relay L r)"
  unfolding relay_def Let_def
  by (cases r; (simp split: bus_data.split option.split)?)
     (auto intro!: triple_ret triple_bind [OF SendJson_inv])

lemma expiration_tick_inv: "keeps (ws_inv n k j d i (out_ok L d i j) A) (expiration_tick L)"
  unfolding expiration_tick_def
  by (intro bind_GetJwt triple_option triple_ret triple_bind [OF now_inv] triple_if triple_bind [OF SendJson_inv]
      triple_bind [OF keeps_if_st])

lemma read_frame_inv: "keeps (ws_inv n k j d i (out_ok L d i j) A) (read_frame L f)"
proof -
  have t: "keeps (ws_inv n k j d i (out_ok L d i j) A) (unsafeSendJson L \<lparr>Event = ThrottledEvent, Args = a\<rparr>)" for a
    by (rule unsafeSendJson_inv) (simp add: control_def out_ok_def)
  have u: "keeps (ws_inv n k j d i (out_ok L d i j) A) (modify_st (\<lambda>s. s\<lparr>throttled := b\<rparr>))"
    "keeps (ws_inv n k j d i (out_ok L d i j) A) (modify_st (\<lambda>s. s\<lparr>global_limiter := l\<rparr>))" for b l
    by (simp_all add: triple_def ws_inv_def)
  show ?thesis
    unfolding read_frame_def Let_def
    by (intro triple_bind [OF now_inv] triple_bind [OF read_keeps] triple_prod triple_bind [OF u(2)] triple_if
        triple_bind [OF keeps_if_st] triple_bind [OF u(1)] triple_bind [OF t] triple_ret)
qed

text \<open>Everything that happens on a connection.\<close>

datatype ws_input = Inbound ws_reply message | Relayed relayed | Timer | Framed frame

fun ws_react :: "('x, 'l) ws_lib \<Rightarrow> ('e, 'x) console \<Rightarrow> ws_input \<Rightarrow> (('e, 'l) session, unit) state" where
  "ws_react L c (Inbound rp m) = serve_message L c rp m"
| "ws_react L c (Relayed r) = do { _ \<leftarrow> relay L r; ret () }"
| "ws_react L c Timer = do { _ \<leftarrow> expiration_tick L; ret () }"
| "ws_react L c (Framed f) = do { _ \<leftarrow> read_frame L f; ret () }"

lemma ws_react_inv:
  "triple (ws_inv n k j d i control (allowed L d i j)) (ws_react L c x)
    (\<lambda>_ s. \<exists>j'. ws_inv n k j' d i (out_ok L d i j') (allowed L d i j) s)"
proof -
  have k: "triple (ws_inv n k j d i control (allowed L d i j)) (do { _ \<leftarrow> m; ret () })
      (\<lambda>_ s. \<exists>j'. ws_inv n k j' d i (out_ok L d i j') (allowed L d i j) s)"
    if "keeps (ws_inv n k j d i (out_ok L d i j) (allowed L d i j)) m" for m :: "(('a, 'b) session, 'r) state"
    by (rule triple_conseq [OF triple_bind [OF that triple_ret]]) (auto simp: ws_inv_def)
  show ?thesis
    by (cases x) (simp_all add: serve_message_inv k relay_inv expiration_tick_inv read_frame_inv)
qed

lemma ws_react_after:
  assumes "run_state (ws_react L c x) s = (r, s')"
  shows "\<exists>j'. ws_inv (length (sent s)) (length (calls s)) j' (denied s) (sid s) (out_ok L (denied s) (sid s) j')
    (allowed L (denied s) (sid s) (jwt (hand s))) s'"
  by (rule tripleD [OF ws_react_inv _ assms]) (simp add: ws_inv_def)

text \<open>
  The notices of the expiration timer go through \<^verbatim>\<open>SendJson\<close>, which refuses an expired token first:
  the user gets a token error and not the notice. A finished restoration of a backup does
  not start with the name of the event for a finished backup, so it needs no permission.
\<close>

theorem expired_notice_masked:
  assumes "jwt (hand s) = Some p" "ExpirationTime p = Some x" "x - seconds (clock L (ticks s)) \<le> 0"
    and "\<not> exp_ok L (clock L (ticks s + 1)) p"
  shows "sent (snd (run_state (expiration_tick L) s)) \<in>
    {sent s, sent s @ [jwt_error_message L (WsJwt ErrExpValidation)]}"
  using assms
  by (simp add: expiration_tick_def GetJwt_def now_st_def next_use_def SendJson_def TokenValid_def unsafeSendJson_def
      split: option.split)

theorem restore_event_unfiltered: "may_receive d p \<lparr>Event = ''backup restore completed'', Args = a\<rparr>"
proof -
  have "\<not> HasPrefix ''backup restore completed'' ws_BackupCompletedEvent" by code_simp
  then show ?thesis by (simp add: may_receive_def)
qed

section \<open>Messages that are handled at the same time\<close>

text \<open>
  Every message has a goroutine of its own. A goroutine is before its checks or has passed them;
  the token it acts under is the one of the connection when it acts.
\<close>

datatype ws_thread = Arrived message | Checked message

inductive ws_step ::
  "('x, 'l) ws_lib \<Rightarrow> ('e, 'x) console \<Rightarrow> ws_thread list \<times> ('e, 'l) session \<Rightarrow> ws_thread list \<times> ('e, 'l) session \<Rightarrow> bool"
  for L c where
  arrive: "ws_step L c (ts, s) (ts @ [Arrived m], s)"
| pass: "\<lbrakk>t < length ts; ts ! t = Arrived m; run_state (inbound_checks L m) s = (Passed, s')\<rbrakk>
     \<Longrightarrow> ws_step L c (ts, s) (ts[t := Checked m], s')"
| refuse: "\<lbrakk>t < length ts; ts ! t = Arrived m; run_state (inbound_checks L m) s = (Refused r, s1);
      run_state (report L (WsDone r)) s1 = ((), s')\<rbrakk>
     \<Longrightarrow> ws_step L c (ts, s) (take t ts @ drop (Suc t) ts, s')"
| act: "\<lbrakk>t < length ts; ts ! t = Checked m; run_state (inbound_switch L c rp m) s = (r, s1);
      run_state (report L r) s1 = ((), s')\<rbrakk>
     \<Longrightarrow> ws_step L c (ts, s) (take t ts @ drop (Suc t) ts, s')"

inductive ws_reach ::
  "('x, 'l) ws_lib \<Rightarrow> ('e, 'x) console \<Rightarrow> ('e, 'l) session \<Rightarrow> ws_thread list \<times> ('e, 'l) session \<Rightarrow> bool"
  for L c s0 where
  ws_start: "ws_reach L c s0 ([], s0)"
| ws_more: "ws_reach L c s0 x \<Longrightarrow> ws_step L c x y \<Longrightarrow> ws_reach L c s0 y"

lemma ws_reach_pass:
  assumes "ws_reach L c s0 (ts, s)" "fst (run_state (inbound_checks L m) s) = Passed"
  shows "ws_reach L c s0 (ts @ [Checked m], snd (run_state (inbound_checks L m) s))"
proof -
  have "ws_reach L c s0 (ts @ [Arrived m], s)" by (rule ws_more [OF assms(1) arrive])
  then show ?thesis
    by (rule ws_more) (use pass [of "length ts" "ts @ [Arrived m]" m L s _ c] assms(2) in \<open>simp add: prod_eq_iff\<close>)
qed

lemma ws_reach_act:
  assumes "ws_reach L c s0 (ts @ Checked m # us, s)"
  shows "ws_reach L c s0 (ts @ us, snd (run_state (inbound_switch L c rp m \<bind> report L) s))"
  by (rule ws_more [OF assms])
     (use act [of "length ts" "ts @ Checked m # us" m L c rp s _ "snd (run_state (inbound_switch L c rp m) s)"
        "snd (run_state (inbound_switch L c rp m \<bind> report L) s)"]
       in \<open>auto simp: split_beta prod_eq_iff\<close>)

section \<open>An example\<close>

text \<open>Two tokens of one user: he may only watch server \<open>s1\<close>, but owns server \<open>s2\<close>.\<close>

definition watcher :: payload where
  "watcher =
     \<lparr>ExpirationTime = Some 1000, IssuedAt = Some 5, JWTID = ''j'', Scope = [], UserUUID = ''u'', ServerUUID = ''s1'',
      Permissions = [PermissionConnect]\<rparr>"

definition owner :: payload where
  "owner = watcher\<lparr>ServerUUID := ''s2'', Permissions := [''*'']\<rparr>"

definition example_lib :: "(string, nat) ws_lib" where
  "example_lib =
     \<lparr>jwt_verify = (\<lambda>t f. if t = ''W'' then Inr watcher else if t = ''O'' then Inr owner else Inl (OtherJwtError t)),
      exp_ok = (\<lambda>t p. True), new_limiter = (\<lambda>every burst. burst), allow = (\<lambda>t n. (n > 0, n - 1)),
      clock = int, write_json = (\<lambda>n v. None), error_id = (\<lambda>n. ''id''), error_text = (\<lambda>e. ''error''),
      stats_json = (\<lambda>ru. ''{}'')\<rparr>"

definition example_console :: "(env_cell, string) console" where
  "example_console =
     \<lparr>base = simple_backend, c_is_running = ret True, c_readlog = ret (Inr [''hello'']),
      c_send_command = (\<lambda>c. ret None), c_is_attached = None\<rparr>"

definition no_denials :: denials where
  "no_denials = \<lparr>wingsBootTime = 0, denylist = Map.empty, userDenylist = Map.empty\<rparr>"

definition example_reply :: ws_reply where
  "example_reply = \<lparr>w_world = simple_world, w_ctx = CtxLive, w_pick = 0, w_usage = id\<rparr>"

definition example_session :: "(env_cell, nat) session" where
  "example_session = open_session example_lib ''s1'' (simple_daemon Running) no_denials"

definition auth_with :: "string \<Rightarrow> message" where
  "auth_with t = \<lparr>Event = AuthenticationEvent, Args = [t]\<rparr>"

definition op_me :: message where
  "op_me = \<lparr>Event = SendCommandEvent, Args = [''op me'']\<rparr>"

text \<open>
  The user has sent a token of \<open>s1\<close>; then a command and the token of \<open>s2\<close> are handled at the same
  time, and the command is the last to act.
\<close>

abbreviation after :: "(('e, 'l) session, 'r) state \<Rightarrow> ('e, 'l) session \<Rightarrow> ('e, 'l) session" where
  "after m s \<equiv> snd (run_state m s)"

abbreviation example_check :: "message \<Rightarrow> ((env_cell, nat) session, string verdict) state" where
  "example_check \<equiv> inbound_checks example_lib"

abbreviation example_act :: "message \<Rightarrow> ((env_cell, nat) session, unit) state" where
  "example_act m \<equiv> inbound_switch example_lib example_console example_reply m \<bind> report example_lib"

definition race1 :: "(env_cell, nat) session" where
  "race1 = after (example_act (auth_with ''W'')) (after (example_check (auth_with ''W'')) example_session)"

definition race2 :: "(env_cell, nat) session" where
  "race2 = after (example_check op_me) race1"

definition race3 :: "(env_cell, nat) session" where
  "race3 = after (example_check (auth_with ''O'')) race2"

definition race4 :: "(env_cell, nat) session" where
  "race4 = after (example_act op_me) (after (example_act (auth_with ''O'')) race3)"

lemmas example_defs =
  watcher_def owner_def example_lib_def example_console_def no_denials_def example_reply_def example_session_def
  auth_with_def op_me_def open_session_def NewHandler_def simple_daemon_def simple_server_def server_New_def
  simple_settings_def simple_backend_def

lemmas handler_defs =
  inbound_checks_def IsThrottled_def For_def limiterName_def limitValuesFor_def now_st_def next_use_def set_throttle_def
  TokenValid_def GetJwt_def setJwt_def unsafeSendJson_def ParseToken_def NewTokenPayload_def connects_def
  HasPermission_def Denylisted_def before_def inbound_switch_def on_auth_def on_send_command_def with_permission_def
  SendJson_def may_receive_def send_masked_def report_def call_it_def SaveActivity_def in_dmn_def in_srv_def in_env_def

lemma no_prefix: "\<not> HasPrefix ws_StatusEvent ws_BackupCompletedEvent" "\<not> HasPrefix PermissionSendCommand ''admin''"
  "\<not> HasPrefix PermissionConnect ''admin''"
  by code_simp+

lemma race1_is:
  "fst (run_state (example_check (auth_with ''W'')) example_session) = Passed"
  "race1 = example_session\<lparr>hand := \<lparr>jwt = Some watcher, ra_user = ''u'', limits = [''auth'' \<mapsto> 1], throttles = [''auth'' \<mapsto> False]\<rparr>,
      sent := [\<lparr>Event = AuthenticationSuccessEvent, Args = []\<rparr>, \<lparr>Event = ws_StatusEvent, Args = [''running'']\<rparr>],
      listening := 1, ticks := 5\<rparr>"
  by (simp_all add: race1_def example_defs handler_defs Let_def no_prefix)

lemma race2_is:
  "fst (run_state (example_check op_me) race1) = Passed"
  "race2 = race1\<lparr>hand := (hand race1)\<lparr>limits := [''auth'' \<mapsto> 1, SendCommandEvent \<mapsto> 9],
      throttles := [''auth'' \<mapsto> False, SendCommandEvent \<mapsto> False]\<rparr>, ticks := 7\<rparr>"
  by (simp_all add: race2_def race1_is(2) example_defs handler_defs Let_def)

lemma race3_is:
  "fst (run_state (example_check (auth_with ''O'')) race2) = Passed"
  "race3 = race2\<lparr>hand := (hand race2)\<lparr>limits := [''auth'' \<mapsto> 0, SendCommandEvent \<mapsto> 9]\<rparr>, ticks := 8\<rparr>"
  by (simp_all add: race3_def race2_is(2) race1_is(2) example_defs handler_defs Let_def fun_eq_iff)

lemma race4_is: "calls race4 = [CallCommand ''op me'']" "sid race4 = ''s1''" "denied race4 = no_denials"
  by (simp_all add: race4_def race3_is(2) race2_is(2) race1_is(2) example_defs handler_defs Let_def no_prefix)

lemma race_reachable: "ws_reach example_lib example_console example_session ([], race4)"
proof -
  let ?R = "ws_reach example_lib example_console example_session"
  have "?R ([Checked (auth_with ''W'')], after (example_check (auth_with ''W'')) example_session)"
    using ws_reach_pass [OF ws_start race1_is(1)] by simp
  then have "?R ([], race1)"
    using ws_reach_act [of example_lib example_console example_session "[]" "auth_with ''W''" "[]" _ example_reply]
    by (simp add: race1_def)
  then have "?R ([Checked op_me], race2)"
    using ws_reach_pass [OF _ race2_is(1), of example_console example_session "[]"] by (simp add: race2_def)
  then have "?R ([Checked op_me, Checked (auth_with ''O'')], race3)"
    using ws_reach_pass [OF _ race3_is(1), of example_console example_session "[Checked op_me]"] by (simp add: race3_def)
  then have "?R ([Checked op_me], after (example_act (auth_with ''O'')) race3)"
    using ws_reach_act [of example_lib example_console example_session "[Checked op_me]" "auth_with ''O''" "[]" _ example_reply]
    by simp
  then show ?thesis
    using ws_reach_act [of example_lib example_console example_session "[]" op_me "[]" _ example_reply]
    by (simp add: race4_def)
qed

section \<open>Properties\<close>





text \<open>Messages are handled in goroutines of their own, and the token is looked up again between
  the check that it is valid and the check of its permission. A user who may only watch
  this server, but holds a token of another server, can so give a command to this server,
  although no token that is valid for this server permits it.\<close>

theorem concurrent_auth_escalates:
  "\<exists>s. ws_reach example_lib example_console example_session ([], s) \<and> calls s = [CallCommand ''op me''] \<and>
     {t. \<exists>f p. jwt_verify example_lib t f = Inr p \<and> ServerUUID p = sid s \<and>
        HasPermission (denied s) p PermissionSendCommand} = {}"
proof (intro exI conjI)
  show "ws_reach example_lib example_console example_session ([], race4)" by (rule race_reachable)
  show "{t. \<exists>f p. jwt_verify example_lib t f = Inr p \<and> ServerUUID p = sid race4 \<and>
        HasPermission (denied race4) p PermissionSendCommand} = {}"
    by (auto simp: race4_is example_lib_def owner_def watcher_def HasPermission_iff split: if_splits)
qed (rule race4_is)

end
