(* ===== verification/Walk.thy ===== *)
theory Walk
  imports Fs_Api Server_Files
begin

text \<open>
  Walking a directory tree by descriptors, \<^verbatim>\<open>internal/ufs/walk_unix.go\<close>, and what the file manager
  builds on it: the recursive change of ownership, the size of a directory, listings. The tree is
  as deep as the kernel says, so the walk carries fuel, one unit for each level; the outer \<open>None\<close>
  of a result means that it ran out. The callback may keep a state of its own (type \<open>'a\<close>).
\<close>

section \<open>The walk\<close>

text \<open>An error of the walk is one of the file system or one of the callback's own.\<close>

datatype walk_error = SkipDir | SkipAll | WalkErr fs_error | FnErr string

text \<open>
  The \<^verbatim>\<open>DirEntry\<close> of the root is made of the information the walk has asked for; the entry of a
  listing knows its type only.
\<close>

datatype dir_entry = Known file_info | Listed file_mode

fun entry_type :: "dir_entry \<Rightarrow> file_mode" where
  "entry_type (Known i) = fi_mode i AND ModeType"
| "entry_type (Listed t) = t"

text \<open>Descriptor, name, relative path, the entry if there is one, and an error.\<close>

type_synonym ('w, 'a) walk_fn =
  "fd \<Rightarrow> string \<Rightarrow> string \<Rightarrow> dir_entry option \<Rightarrow> fs_error option \<Rightarrow> ('w proc \<times> 'a, walk_error option) state"

definition on_proc :: "('w proc, 'r) state \<Rightarrow> ('w proc \<times> 'a, 'r) state" where
  "on_proc m = State (\<lambda>(ps, a). case run_state m ps of (r, ps') \<Rightarrow> (r, (ps', a)))"

abbreviation dir_type :: "file_mode \<Rightarrow> bool" where
  "dir_type t \<equiv> t AND ModeDir \<noteq> 0"

definition unskip :: "file_mode \<Rightarrow> walk_error option \<Rightarrow> walk_error option" where
  "unskip d e = (if e = Some SkipDir \<and> dir_type d then None else e)"

text \<open>The loop over the entries, for any way to visit one.\<close>

fun walk_entries :: "(dirent \<Rightarrow> ('s, walk_error option option) state) \<Rightarrow> dirent list \<Rightarrow> ('s, walk_error option option) state" where
  "walk_entries visit [] = ret (Some None)"
| "walk_entries visit (d1 # ds) = do {
     r \<leftarrow> visit d1;
     (case r of
        None \<Rightarrow> ret None
      | Some None \<Rightarrow> walk_entries visit ds
      | Some (Some e) \<Rightarrow> ret (Some (if e = SkipDir then None else Some e)))
   }"

definition rel_below :: "string \<Rightarrow> string \<Rightarrow> string" where
  "rel_below relative name = (if relative = ''.'' then name else path_Join [relative, name])"

fun walkDir :: "nat \<Rightarrow> unixfs \<Rightarrow> 'w kernel \<Rightarrow> ('w, 'a) walk_fn \<Rightarrow> fd \<Rightarrow> string \<Rightarrow> string \<Rightarrow> dir_entry
    \<Rightarrow> ('w proc \<times> 'a, walk_error option option) state" where
  "walkDir 0 fs k fn parentfd name relative d = ret None"
| "walkDir (Suc n) fs k fn parentfd name relative d = do {
     e \<leftarrow> fn parentfd name relative (Some d) None;
     if e \<noteq> None \<or> \<not> dir_type (entry_type d) then ret (Some (unskip (entry_type d) e))
     else do {
       (dirfd, err) \<leftarrow> on_proc (openat fs k parentfd name {O_DIRECTORY} 0);
       r \<leftarrow> (case err of
               Some e \<Rightarrow> ret (Some (Some (WalkErr e)))
             | None \<Rightarrow> do {
                 dirs \<leftarrow> on_proc (readDir k dirfd name relative);
                 (case dirs of
                    Inl e \<Rightarrow> do {
                      x \<leftarrow> fn dirfd name relative (Some d) (Some e);
                      ret (Some (unskip (entry_type d) x))
                    }
                  | Inr ds \<Rightarrow>
                      walk_entries
                        (\<lambda>d1. walkDir n fs k fn dirfd (d_name d1) (rel_below relative (d_name d1)) (Listed (d_type d1))) ds)
               });
       on_proc (if_st (dirfd \<noteq> 0) (sys_close dirfd));
       ret r
     }
   }"

definition WalkDirat :: "nat \<Rightarrow> unixfs \<Rightarrow> 'w kernel \<Rightarrow> ('w, 'a) walk_fn \<Rightarrow> fd \<Rightarrow> string
    \<Rightarrow> ('w proc \<times> 'a, walk_error option option) state" where
  "WalkDirat n fs k fn dirfd name = do {
     info \<leftarrow> on_proc (Lstatat k dirfd name);
     r \<leftarrow> (case info of
             Inl e \<Rightarrow> do { x \<leftarrow> fn dirfd name ''.'' None (Some e); ret (Some x) }
           | Inr i \<Rightarrow> walkDir n fs k fn dirfd name ''.'' (Known i));
     ret (map_option (\<lambda>e. if e = Some SkipDir \<or> e = Some SkipAll then None else e) r)
   }"

section \<open>Users of the walk\<close>

definition chown_visit :: "'w kernel \<Rightarrow> int \<Rightarrow> int \<Rightarrow> ('w, 'a) walk_fn" where
  "chown_visit k uid gid dirfd name rel info err =
     (case err of
        Some e \<Rightarrow> ret (Some (WalkErr e))
      | None \<Rightarrow> do {
          r \<leftarrow> on_proc (Lchownat k dirfd name uid gid);
          ret (map_option WalkErr r)
        })"

text \<open>\<^verbatim>\<open>Filesystem.Chown\<close>; the error says which part failed.\<close>

datatype chown_error = ChownPath fs_error | ChownFirst fs_error | ChownWalk walk_error

definition fm_Chown :: "nat \<Rightarrow> filesystem \<Rightarrow> 'w kernel \<Rightarrow> string \<Rightarrow> ('w proc, chown_error option option) state" where
  "fm_Chown n fm k p =
     (if fm_isTest fm then ret (Some None)
      else with_safePath (q_fs (fm_q fm)) k p (\<lambda>e. Some (Some (ChownPath e))) (\<lambda>dirfd name. do {
        r \<leftarrow> Lchownat k dirfd name (fm_uid fm) (fm_gid fm);
        (case r of
           Some e \<Rightarrow> ret (Some (Some (ChownFirst e)))
         | None \<Rightarrow> do {
             st \<leftarrow> Lstatat k dirfd name;
             (case st of
                Inl _ \<Rightarrow> ret (Some None)
              | Inr i \<Rightarrow>
                  if \<not> IsDir i then ret (Some None)
                  else State (\<lambda>ps.
                    case run_state (WalkDirat n (q_fs (fm_q fm)) k (chown_visit k (fm_uid fm) (fm_gid fm)) dirfd name) (ps, ()) of
                      (w, (ps', _)) \<Rightarrow> (map_option (map_option ChownWalk) w, ps')))
           })
      }))"

text \<open>The state of the callback of \<^verbatim>\<open>DirectorySize\<close>: the inodes seen and the size so far.\<close>

type_synonym sizing = "nat list \<times> int"

definition size_visit :: "'w kernel \<Rightarrow> ('w, sizing) walk_fn" where
  "size_visit k dirfd name rel d err =
     (case err of
        Some e \<Rightarrow> ret (Some (WalkErr e))
      | None \<Rightarrow>
          if (case d of None \<Rightarrow> True | Some t \<Rightarrow> entry_type t AND ModeType \<noteq> 0) then ret None
          else do {
            r \<leftarrow> on_proc (Lstatat k dirfd name);
            (case r of
               Inl e \<Rightarrow> ret (Some (WalkErr e))
             | Inr info \<Rightarrow> do {
                 (ps, hardLinks, sz) \<leftarrow> read_st id;
                 (if st_nlink (fi_sys info) > 1 \<and> st_ino (fi_sys info) \<in> set hardLinks then ret None
                  else do {
                    modify_st (\<lambda>(ps, hardLinks, sz).
                      (ps, if st_nlink (fi_sys info) > 1 then hardLinks @ [st_ino (fi_sys info)] else hardLinks,
                       i64 (sz + fi_size info)));
                    ret None
                  })
               })
          })"

definition DirectorySize :: "nat \<Rightarrow> filesystem \<Rightarrow> 'w kernel \<Rightarrow> string \<Rightarrow> ('w proc, (int \<times> walk_error option) option) state" where
  "DirectorySize n fm k root =
     with_safePath (q_fs (fm_q fm)) k root (\<lambda>e. Some (0, Some (WalkErr e))) (\<lambda>dirfd name.
       State (\<lambda>ps.
         case run_state (WalkDirat n (q_fs (fm_q fm)) k (size_visit k) dirfd name) (ps, [], 0) of
           (r, (ps', _, sz)) \<Rightarrow> (map_option (\<lambda>e. (sz, e)) r, ps')))"

section \<open>Listings\<close>

fun map_entries :: "(dirent \<Rightarrow> ('s, fs_error + 'b) state) \<Rightarrow> dirent list \<Rightarrow> ('s, fs_error + 'b list) state" where
  "map_entries f [] = ret (Inr [])"
| "map_entries f (e # es) = do {
     r \<leftarrow> f e;
     (case r of
        Inl x \<Rightarrow> ret (Inl x)
      | Inr v \<Rightarrow> do { vs \<leftarrow> map_entries f es; ret (map_sum id (\<lambda>vs. v # vs) vs) })
   }"

definition ReadDirMap :: "unixfs \<Rightarrow> 'w kernel \<Rightarrow> string \<Rightarrow> (dirent \<Rightarrow> ('w proc, fs_error + 'b) state) \<Rightarrow> ('w proc, fs_error + 'b list) state" where
  "ReadDirMap fs k path fn =
     with_safePath fs k path Inl (\<lambda>dirfd name. do {
       (n, err) \<leftarrow> openat fs k dirfd name {O_DIRECTORY} 0;
       (case err of
          Some e \<Rightarrow> ret (Inl e)
        | None \<Rightarrow> do {
            es \<leftarrow> readDir k n ''.'' path;
            r \<leftarrow> (case es of Inl e \<Rightarrow> ret (Inl e) | Inr entries \<Rightarrow> map_entries fn entries);
            sys_close n;
            ret r
          })
     })"

definition dirent_Info :: "'w kernel \<Rightarrow> dirent \<Rightarrow> ('w proc, fs_error + file_info) state" where
  "dirent_Info k de = Lstatat k (d_dirfd de) (d_name de)"

definition ReadDirStat :: "filesystem \<Rightarrow> 'w kernel \<Rightarrow> string \<Rightarrow> ('w proc, fs_error + file_info list) state" where
  "ReadDirStat fm k path = ReadDirMap (q_fs (fm_q fm)) k path (dirent_Info k)"

text \<open>\<open>mime\<close> is the detection of the type of an open file, \<open>None\<close> when it cannot tell.\<close>

record stat = listing +
  stat_info :: file_info
  Mimetype :: string

definition list_entry :: "(fd \<Rightarrow> string option) \<Rightarrow> filesystem \<Rightarrow> 'w kernel \<Rightarrow> dirent \<Rightarrow> ('w proc, fs_error + stat) state" where
  "list_entry mime fm k e = do {
     info \<leftarrow> dirent_Info k e;
     (case info of
        Inl x \<Rightarrow> ret (Inl x)
      | Inr i \<Rightarrow>
          (let st = \<lambda>m. \<lparr>li_name = fi_name i, li_dir = IsDir i, stat_info = i,
                Mimetype = (case m of Some s \<Rightarrow> s | None \<Rightarrow>
                   if dir_type (d_type e) then ''inode/directory'' else ''application/octet-stream'')\<rparr>
           in if d_type e AND ModeType = 0 then do {
                f \<leftarrow> OpenFileat (q_fs (fm_q fm)) k (d_dirfd e) (d_name e) {} 0;
                (case f of
                   Inl x \<Rightarrow> ret (Inl x)
                 | Inr (n, _) \<Rightarrow> do { sys_close n; ret (Inr (st (mime n))) })
              }
              else ret (Inr (st None))))
   }"

definition ListDirectory :: "(fd \<Rightarrow> string option) \<Rightarrow> filesystem \<Rightarrow> 'w kernel \<Rightarrow> string \<Rightarrow> ('w proc, fs_error + stat list) state" where
  "ListDirectory mime fm k p = do {
     out \<leftarrow> ReadDirMap (q_fs (fm_q fm)) k p (list_entry mime fm k);
     ret (map_sum id sort_listing out)
   }"

text \<open>
  \<^verbatim>\<open>File\<close> and \<^verbatim>\<open>Stat\<close>: the file is opened, its type is read from its first bytes (\<open>sniff\<close> is the
  error of reading them or of going back to the start), and for \<^verbatim>\<open>Stat\<close> it is closed again.
\<close>

definition statFromFile :: "(fd \<Rightarrow> string + string) \<Rightarrow> 'w kernel \<Rightarrow> fd \<Rightarrow> string \<Rightarrow> ('w proc, fm_error + stat) state" where
  "statFromFile sniff k f name = do {
     s \<leftarrow> sys_fstat k f;
     ret (case s of
            Inl e \<Rightarrow> Inl (Ufs (PathError ''stat'' name (Errno e)))
          | Inr st \<Rightarrow>
              (let i = fillFileStatFromSys st name;
                   mk = \<lambda>m. Inr \<lparr>li_name = fi_name i, li_dir = IsDir i, stat_info = i, Mimetype = m\<rparr>
               in if IsDir i then mk ''inode/directory''
                  else (case sniff f of Inl e \<Rightarrow> Inl (IoError e) | Inr m \<Rightarrow> mk m)))
   }"

definition fm_File :: "(fd \<Rightarrow> string + string) \<Rightarrow> filesystem \<Rightarrow> 'w kernel \<Rightarrow> string \<Rightarrow> ('w proc, fm_error + fd \<times> stat) state" where
  "fm_File sniff fm k p = do {
     r \<leftarrow> Open (q_fs (fm_q fm)) k p;
     (case r of
        Inl e \<Rightarrow> ret (Inl (Ufs e))
      | Inr (f, nm) \<Rightarrow> do {
          st \<leftarrow> statFromFile sniff k f nm;
          (case st of
             Inl e \<Rightarrow> do { sys_close f; ret (Inl e) }
           | Inr s \<Rightarrow> ret (Inr (f, s)))
        })
   }"

definition fm_Stat :: "(fd \<Rightarrow> string + string) \<Rightarrow> filesystem \<Rightarrow> 'w kernel \<Rightarrow> string \<Rightarrow> ('w proc, fm_error + stat) state" where
  "fm_Stat sniff fm k p = do {
     r \<leftarrow> Open (q_fs (fm_q fm)) k p;
     (case r of
        Inl e \<Rightarrow> ret (Inl (Ufs e))
      | Inr (f, nm) \<Rightarrow> do {
          st \<leftarrow> statFromFile sniff k f nm;
          sys_close f;
          ret st
        })
   }"

section \<open>The walk stays in the sandbox\<close>

abbreviation wbox :: "unixfs \<Rightarrow> fd set \<Rightarrow> 'w proc \<times> 'a \<Rightarrow> bool" where
  "wbox fs D \<equiv> \<lambda>s. sbox fs D (fst s)"

lemma on_proc_triple: "triple P m Q \<Longrightarrow> triple (\<lambda>s. P (fst s)) (on_proc m) (\<lambda>r s. Q r (fst s))"
  by (auto simp: triple_def on_proc_def split: prod.splits)

text \<open>What a callback has to keep.\<close>

definition safe_fn :: "unixfs \<Rightarrow> ('w, 'a) walk_fn \<Rightarrow> bool" where
  "safe_fn fs fn \<longleftrightarrow> (\<forall>D d name rel t e. d \<in> D \<longrightarrow> single_name name \<longrightarrow> keeps (wbox fs D) (fn d name rel t e))"

lemma safe_fnD: "safe_fn fs fn \<Longrightarrow> d \<in> D \<Longrightarrow> single_name name \<Longrightarrow> keeps (wbox fs D) (fn d name rel t e)"
  by (simp add: safe_fn_def)

lemma walk_entries_keeps: "(\<And>d. d \<in> set ds \<Longrightarrow> keeps I (visit d)) \<Longrightarrow> keeps I (walk_entries visit ds)"
  by (induction ds) (auto intro!: keeps_bind triple_ret triple_option)

text \<open>The entries of a directory have proper names.\<close>

definition good_entries :: "fd \<Rightarrow> fs_error + dirent list \<Rightarrow> bool" where
  "good_entries n r \<longleftrightarrow> (\<forall>ds. r = Inr ds \<longrightarrow> (\<forall>d \<in> set ds. proper (d_name d) \<and> d_dirfd d = n))"

lemma good_entries_simps [simp]:
  "good_entries n (Inl e)"
  "good_entries n (Inr ds) \<longleftrightarrow> (\<forall>d \<in> set ds. proper (d_name d) \<and> d_dirfd d = n)"
  by (simp_all add: good_entries_def)

lemma readDir_loop_names:
  assumes "\<forall>de \<in> set des. CHR ''/'' \<notin> set (de_name de)" "\<forall>d \<in> set es. proper (d_name d) \<and> d_dirfd d = n"
  shows "triple P (readDir_loop k n name rel es des) (\<lambda>r s. good_entries n r)"
  using assms
proof (induction des arbitrary: es P)
  case Nil
  then show ?case by (auto intro!: triple_ret)
next
  case (Cons de des)
  have p: "proper (de_name de)" if "\<not> skip_dent de"
    using that Cons.prems by (auto simp: skip_dent_def proper_def)
  have IH: "triple Q (readDir_loop k n name rel (es @ [d]) des) (\<lambda>r s. good_entries n r)"
    if "proper (d_name d)" "d_dirfd d = n" for Q d
    by (rule Cons.IH) (use Cons.prems that in auto)
  show ?case
  proof (cases "skip_dent de")
    case True
    then show ?thesis using Cons by simp
  next
    case False
    have "triple P (do {
        mt \<leftarrow> modeTypeFromDirent k de n (de_name de);
        (case mt of
           Inl e \<Rightarrow> ret (Inl e)
         | Inr t \<Rightarrow> readDir_loop k n name rel
             (es @ [\<lparr>d_dirfd = n, d_name = de_name de,
                d_path = (if rel = ''.'' then name else path_Join [rel, de_name de]), d_type = t\<rparr>]) des) })
        (\<lambda>r s. good_entries n r)"
      by (rule triple_bind [where R = "\<lambda>_ _. True"])
         (simp add: triple_def, intro triple_sum triple_ret IH, simp_all add: p [OF False])
    then show ?thesis using False by simp
  qed
qed

lemma readDir_good:
  assumes "names_ok k"
  shows "triple P (readDir k n name rel) (\<lambda>r s. good_entries n r)"
proof -
  have g: "triple P (sys_getdents k n)
      (\<lambda>r s. \<forall>des. r = Inr des \<longrightarrow> (\<forall>de \<in> set des. CHR ''/'' \<notin> set (de_name de)))"
    using assms unfolding names_ok_def by (auto simp: sys_getdents_def triple_def)
  show ?thesis
    unfolding readDir_def
  proof (rule triple_bind [OF g], rule triple_sum)
    fix a :: "errno + raw_dent list" and des assume a: "a = Inr des"
    show "triple (\<lambda>s. \<forall>des. a = Inr des \<longrightarrow> (\<forall>de\<in>set des. CHR ''/'' \<notin> set (de_name de)))
        (readDir_loop k n name rel [] des) (\<lambda>r s. good_entries n r)"
    proof (cases "\<forall>de\<in>set des. CHR ''/'' \<notin> set (de_name de)")
      case True
      then show ?thesis by (rule readDir_loop_names) simp
    qed (auto simp: a triple_def)
  qed (auto intro!: triple_ret)
qed

lemma readDir_entries:
  assumes "names_ok k" "n \<in> D"
  shows "triple (sbox fs D) (readDir k n name rel) (\<lambda>r s. sbox fs D s \<and> good_entries n r)"
  using triple_conj [OF readDir_sbox [OF assms, of fs name rel] readDir_good [OF assms(1), of "sbox fs D" n name rel]] by simp

lemma close_dirfd:
  "triple (\<lambda>s. sbox fs (insert m D) s \<and> m \<notin> D) (if_st (m \<noteq> 0) (sys_close m)) (\<lambda>_. sbox fs D)"
  by (auto simp: sys_close_def triple_def sbox_def if_st_def)

text \<open>The descriptor that comes with an error of \<^verbatim>\<open>openat\<close> is none that is in use.\<close>

lemma openat_fresh:
  assumes "d \<in> D" "relative_path name"
  shows "triple (sbox fs D) (openat fs k d name fl m) (\<lambda>(n, err) s. n = 0 \<or> n \<notin> D)"
proof -
  have o: "triple (sbox fs D) (sys_openat k v (Some d) name fl' m') (\<lambda>r s. case r of Inl _ \<Rightarrow> True | Inr n \<Rightarrow> n \<notin> D)" for v fl' m'
    by (auto simp: triple_def sys_openat_def sbox_def split: prod.splits option.splits)
  have v: "triple (sbox fs D) (openat_v2 k (Some d) name fl' m') (\<lambda>r s. case r of Inl _ \<Rightarrow> True | Inr n \<Rightarrow> n \<notin> D)"
    "triple (sbox fs D) (openat_v1 k (Some d) name fl' m') (\<lambda>r s. case r of Inl _ \<Rightarrow> True | Inr n \<Rightarrow> n \<notin> D)" for fl' m'
    unfolding openat_v2_def openat_v1_def
    by (auto intro!: triple_bind [OF o] triple_ret split: sum.splits)
  show ?thesis
    unfolding openat_def Let_def
    by (auto intro!: triple_bind [OF v(1)] triple_bind [OF v(2)] triple_sum triple_ret split: sum.splits)
       (auto simp: triple_def split: prod.splits)
qed

lemma openat_opened:
  assumes "d \<in> D" "single_name name"
  shows "triple (sbox fs D) (openat fs k d name fl m) (\<lambda>(n, err) s. opened fs D (n, err) s \<and> (n = 0 \<or> n \<notin> D))"
  using triple_conj [OF openat_single [OF assms] openat_fresh [OF assms(1) single_relative [OF assms(2)]], of fs k fl m]
  by (simp add: case_prod_unfold)

lemma walk_open:
  assumes "d \<in> D" "single_name name"
    and body: "\<And>m. triple (\<lambda>s. sbox fs (insert m D) (fst s) \<and> m \<notin> D) (body m) (\<lambda>_ s. sbox fs (insert m D) (fst s) \<and> m \<notin> D)"
  shows "keeps (wbox fs D) (do {
      (dirfd, err) \<leftarrow> on_proc (openat fs k d name {O_DIRECTORY} 0);
      r \<leftarrow> (case err of Some e \<Rightarrow> ret (f e) | None \<Rightarrow> body dirfd);
      on_proc (if_st (dirfd \<noteq> 0) (sys_close dirfd));
      ret r })"
proof (rule triple_bind [OF on_proc_triple [OF openat_opened [OF assms(1,2)]]], rule triple_prod)
  fix a and m :: fd and err :: "fs_error option" assume a: "a = (m, err)"
  have no: "triple (\<lambda>s. sbox fs D s \<and> (m = 0 \<or> m \<notin> D)) (if_st (m \<noteq> 0) (sys_close m)) (\<lambda>_. sbox fs D)"
    by (auto simp: triple_def if_st_def sys_close_def sbox_def)
  show "triple (\<lambda>s. (\<lambda>(n, err) s. opened fs D (n, err) s \<and> (n = 0 \<or> n \<notin> D)) a (fst s)) (do {
      r \<leftarrow> (case err of Some e \<Rightarrow> ret (f e) | None \<Rightarrow> body m);
      on_proc (if_st (m \<noteq> 0) (sys_close m));
      ret r }) (\<lambda>_. wbox fs D)"
    by (cases err)
       (auto simp: a opened_def intro!: triple_bind [OF triple_pre [OF body]] triple_bind [OF on_proc_triple [OF no]]
          triple_bind [OF on_proc_triple [OF close_dirfd]] triple_ret simp del: neq0_conv)
qed

lemma walkDir_sbox:
  assumes "names_ok k" "safe_fn fs fn"
  shows "d \<in> D \<Longrightarrow> single_name name \<Longrightarrow> keeps (wbox fs D) (walkDir n fs k fn d name rel t)"
proof (induction n arbitrary: D d name rel t)
  case 0
  then show ?case by (simp add: triple_ret)
next
  case (Suc n)
  note fn = safe_fnD [OF assms(2)]
  have entries: "keeps (wbox fs (insert m D))
      (case dirs of
         Inl e \<Rightarrow> do { x \<leftarrow> fn m name rel (Some t) (Some e); ret (Some (unskip (entry_type t) x)) }
       | Inr ds \<Rightarrow> walk_entries
           (\<lambda>d1. walkDir n fs k fn m (d_name d1) (rel_below rel (d_name d1)) (Listed (d_type d1))) ds)"
    if "good_entries m dirs" for m dirs
    using that
    by (cases dirs) (auto intro!: triple_ret triple_bind [OF fn] walk_entries_keeps Suc.IH Suc.prems simp: single_name_def)
  have body: "triple (\<lambda>s. sbox fs (insert m D) (fst s) \<and> m \<notin> D) (do {
      dirs \<leftarrow> on_proc (readDir k m name rel);
      (case dirs of
         Inl e \<Rightarrow> do { x \<leftarrow> fn m name rel (Some t) (Some e); ret (Some (unskip (entry_type t) x)) }
       | Inr ds \<Rightarrow> walk_entries
           (\<lambda>d1. walkDir n fs k fn m (d_name d1) (rel_below rel (d_name d1)) (Listed (d_type d1))) ds) })
      (\<lambda>_ s. sbox fs (insert m D) (fst s) \<and> m \<notin> D)" for m
    by (rule triple_const, rule triple_bind [OF on_proc_triple [OF readDir_entries [OF assms(1)]]])
       (auto intro!: triple_pure entries)
  show ?case
    unfolding walkDir.simps
    by (intro triple_bind [OF fn] triple_if triple_ret Suc.prems walk_open body)
qed

lemma WalkDirat_sbox:
  assumes "names_ok k" "safe_fn fs fn" "d \<in> D" "single_name name"
  shows "keeps (wbox fs D) (WalkDirat n fs k fn d name)"
proof -
  have st: "keeps (wbox fs D) (on_proc (Lstatat k d name))"
    unfolding Lstatat_def by (rule on_proc_triple [OF fstatat_op_sbox [OF assms(3,4)]])
  show ?thesis
    unfolding WalkDirat_def
    by (intro keeps_bind st triple_sum triple_ret walkDir_sbox [OF assms(1,2)] safe_fnD [OF assms(2)] assms(3,4))
qed

lemma chown_visit_safe: "safe_fn fs (chown_visit k uid gid)"
proof -
  have "keeps (sbox fs D) (Lchownat k d name uid gid)" if "d \<in> D" "single_name name" for D d name
    unfolding Lchownat_def by (intro op_intros) (simp add: that)
  then show ?thesis
    unfolding safe_fn_def chown_visit_def by (auto intro!: triple_option triple_ret keeps_bind on_proc_triple)
qed

lemma size_visit_safe: "safe_fn fs (size_visit k)"
proof -
  have l: "keeps (wbox fs D) (on_proc (Lstatat k d name) :: (_ \<times> sizing, _) state)" if "d \<in> D" "single_name name" for D d name
    unfolding Lstatat_def by (rule on_proc_triple [OF fstatat_op_sbox [OF that]])
  have m: "keeps (wbox fs D) (modify_st (\<lambda>(ps, hl, sz). (ps, f hl sz)) :: (_ \<times> sizing, _) state)" for D f
    by (auto simp: triple_def)
  show ?thesis
    unfolding safe_fn_def size_visit_def
    by (auto intro!: triple_option triple_ret triple_if keeps_bind [OF l] triple_sum keeps_bind [OF read_keeps] triple_prod keeps_bind [OF m])
qed

lemma run_walk_sbox:
  assumes "keeps (wbox fs D) w"
  shows "keeps (sbox fs D) (State (\<lambda>ps. case run_state w (ps, a) of (r, (ps', b)) \<Rightarrow> (f r b, ps')))"
  using assms by (fastforce simp: triple_def split: prod.splits)

lemma fm_Chown_sbox:
  assumes "base_ok (q_fs (fm_q fm)) bs" "names_ok k"
  shows "keeps (sbox (q_fs (fm_q fm)) D) (fm_Chown n fm k p)"
proof -
  let ?fs = "q_fs (fm_q fm)"
  have l: "keeps (sbox ?fs E) (Lchownat k d name u g)" "keeps (sbox ?fs E) (Lstatat k d name)"
    if "d \<in> E" "single_name name" for E d name u g
    unfolding Lchownat_def Lstatat_def by (intro op_intros fstatat_op_sbox that; simp add: that)+
  show ?thesis
    unfolding fm_Chown_def
    by (auto intro!: triple_if triple_ret with_safePath_keeps [OF assms(1)] keeps_bind l triple_option triple_sum
        run_walk_sbox WalkDirat_sbox [OF assms(2) chown_visit_safe])
qed

lemma DirectorySize_sbox:
  assumes "base_ok (q_fs (fm_q fm)) bs" "names_ok k"
  shows "keeps (sbox (q_fs (fm_q fm)) D) (DirectorySize n fm k p)"
  unfolding DirectorySize_def
  by (rule with_safePath_keeps [OF assms(1)], simp only: case_prod_unfold)
     (auto intro!: run_walk_sbox [unfolded case_prod_unfold] WalkDirat_sbox [OF assms(2) size_visit_safe])

text \<open>Entries of an open directory are mapped while it is open.\<close>

lemma ReadDirMap_sbox:
  assumes "base_ok fs bs" "names_ok k"
    and fn: "\<And>D d. d_dirfd d \<in> D \<Longrightarrow> proper (d_name d) \<Longrightarrow> keeps (sbox fs D) (fn d)"
  shows "keeps (sbox fs D) (ReadDirMap fs k p fn)"
  unfolding ReadDirMap_def
proof (rule with_safePath_keeps [OF assms(1)])
  fix C :: "fd set" and d n assume dn: "d \<in> C" "single_name n"
  have maps: "keeps (sbox fs E) (map_entries fn es)" if "\<forall>d \<in> set es. proper (d_name d) \<and> d_dirfd d \<in> E" for es E
    using that by (induction es) (auto intro!: keeps_bind triple_ret triple_sum fn)
  have cas: "keeps (\<lambda>s. sbox fs (insert m (C \<union> D)) s \<and> m \<notin> C \<union> D)
      (case es of Inl e \<Rightarrow> ret (Inl e) | Inr entries \<Rightarrow> map_entries fn entries)"
    if "good_entries m es" for m es
    using that by (intro triple_const) (cases es, auto intro!: triple_ret maps)
  have rd: "triple (\<lambda>s. sbox fs (insert m (C \<union> D)) s \<and> m \<notin> C \<union> D) (readDir k m ''.'' p)
      (\<lambda>r s. (sbox fs (insert m (C \<union> D)) s \<and> m \<notin> C \<union> D) \<and> good_entries m r)" for m
    by (rule triple_post [OF triple_const [OF readDir_entries [OF assms(2)]]]) auto
  have cl: "triple (\<lambda>s. sbox fs (insert m (C \<union> D)) s \<and> m \<notin> C \<union> D) (sys_close m) (\<lambda>_. sbox fs (C \<union> D))" for m
    by (auto simp: sys_close_def triple_def sbox_def)
  show "keeps (sbox fs (C \<union> D)) (do { (m, err) \<leftarrow> openat fs k d n {O_DIRECTORY} 0;
      (case err of
         None \<Rightarrow> do { es \<leftarrow> readDir k m ''.'' p;
                  r \<leftarrow> (case es of Inl e \<Rightarrow> ret (Inl e) | Inr entries \<Rightarrow> map_entries fn entries);
                  sys_close m; ret r }
       | Some e \<Rightarrow> ret (Inl e)) })"
  proof (rule triple_bind [OF openat_single], use dn in simp, rule dn, intro triple_prod triple_option)
    fix a and m :: fd and err :: "fs_error option" assume a: "a = (m, err)" "err = None"
    show "triple (opened fs (C \<union> D) a) (do { es \<leftarrow> readDir k m ''.'' p;
        r \<leftarrow> (case es of Inl e \<Rightarrow> ret (Inl e) | Inr entries \<Rightarrow> map_entries fn entries);
        sys_close m; ret r }) (\<lambda>_. sbox fs (C \<union> D))"
      by (rule triple_pre [OF triple_bind [OF rd]], rule triple_pure, intro triple_bind [OF cas] triple_bind [OF cl] triple_ret)
         (auto simp: a opened_def)
  qed (auto simp: opened_def intro!: triple_ret)
qed

lemma ReadDirStat_sbox:
  "base_ok (q_fs (fm_q fm)) bs \<Longrightarrow> names_ok k \<Longrightarrow> keeps (sbox (q_fs (fm_q fm)) D) (ReadDirStat fm k p)"
  unfolding ReadDirStat_def dirent_Info_def Lstatat_def
  by (erule ReadDirMap_sbox) (auto intro!: fstatat_op_sbox simp: single_name_def)

lemma sys_fstat_sbox: "d \<in> D \<Longrightarrow> keeps (sbox fs D) (sys_fstat k d)"
  by (auto simp: sys_fstat_def triple_def sbox_def)

lemma close_file: "triple (got_file fs D (Inr (m, nm))) (sys_close m) (\<lambda>_. sbox fs D)"
  by (auto simp: sys_close_def triple_def sbox_def got_file_def)

lemma run_writer_sbox: "keeps (sbox fs D) (run_writer wr f)"
  by (auto simp: triple_def run_writer_def sbox_def split: prod.splits)

lemma store_contents_sbox: "keeps (sbox fs D) (store_contents wr f n c)"
proof -
  have "keeps (sbox fs D) (Add v)" for v by (auto simp: triple_def Add_def sbox_def Let_def)
  then show ?thesis
    unfolding store_contents_def by (intro triple_if keeps_bind triple_prod triple_ret run_writer_sbox)
qed

lemma chownFile_sbox: "base_ok (q_fs (fm_q fm)) bs \<Longrightarrow> keeps (sbox (q_fs (fm_q fm)) D) (chownFile fm k p)"
  unfolding chownFile_def by (intro triple_if triple_ret Lchown_sbox)

lemma file_kept: "keeps (sbox fs (insert f D)) m \<Longrightarrow> keeps (got_file fs D (Inr (f, nm))) m"
  unfolding got_file_def triple_def by auto

text \<open>A file that is opened, used and closed again.\<close>

lemma with_file_sbox:
  assumes "triple (sbox fs D) op (got_file fs D)" "\<And>f nm. keeps (sbox fs (insert f D)) (body f nm)"
  shows "keeps (sbox fs D) (op \<bind> (\<lambda>r. case r of Inl e \<Rightarrow> ret (g e) | Inr (f, nm) \<Rightarrow> do { out \<leftarrow> body f nm; sys_close f; ret out }))"
  by (rule triple_bind [OF assms(1)], rule triple_sum)
     (auto intro!: triple_ret triple_prod triple_bind [OF file_kept [OF assms(2)]] triple_bind [OF close_file] simp: got_file_def [of _ _ "Inl _"])

lemma write_over_sbox:
  assumes b: "base_ok (q_fs (fm_q fm)) bs"
  shows "keeps (sbox (q_fs (fm_q fm)) D) (write_over fm k wr p n m c)"
  unfolding write_over_def
  by (rule triple_bind [OF Touch_sbox [OF b]], rule triple_sum)
     (auto intro!: triple_bind [OF file_kept [OF store_contents_sbox]] triple_bind [OF file_kept [OF chownFile_sbox [OF b]]]
        triple_bind [OF close_file] triple_ret simp: got_file_def [of _ _ "Inl _"])

lemma Write_sbox:
  assumes "base_ok (q_fs (fm_q fm)) bs"
  shows "keeps (sbox (q_fs (fm_q fm)) D) (Write fm k wr p n m)"
  unfolding Write_def current_size_def HasSpaceFor_def
  by (intro keeps_bind stat_sbox [OF assms] triple_ret triple_sum triple_option read_keeps write_over_sbox [OF assms])

lemma ListDirectory_sbox:
  assumes "base_ok (q_fs (fm_q fm)) bs" "names_ok k"
  shows "keeps (sbox (q_fs (fm_q fm)) D) (ListDirectory mime fm k p)"
proof -
  let ?fs = "q_fs (fm_q fm)"
  have "keeps (sbox ?fs E) (list_entry mime fm k d)" if "d_dirfd d \<in> E" "proper (d_name d)" for E d
  proof -
    have i: "keeps (sbox ?fs E) (dirent_Info k d)"
      unfolding dirent_Info_def Lstatat_def using that by (intro fstatat_op_sbox) (auto simp: single_name_def)
    have o: "triple (sbox ?fs E) (OpenFileat ?fs k (d_dirfd d) (d_name d) {} 0) (got_file ?fs E)"
      using that by (intro OpenFileat_sbox) (auto simp: single_name_def)
    show ?thesis
      unfolding list_entry_def Let_def
      by (intro triple_bind [OF i] triple_sum triple_ret triple_if triple_bind [OF o] triple_prod triple_bind [OF close_file [THEN triple_pre]])
         (auto simp: got_file_def)
  qed
  then show ?thesis
    unfolding ListDirectory_def by (intro keeps_bind ReadDirMap_sbox [OF assms] triple_ret)
qed

section \<open>The walk ends\<close>

text \<open>
  What a walk relies on to end: below every directory there is a bounded number of levels \<open>h\<close>,
  opening an entry of it goes down a level, and the calls of the walk itself (opening other
  files, changing owners) make no directory deeper. Nobody else nests directories meanwhile.
\<close>

definition bounded_depth :: "'w kernel \<Rightarrow> ('w \<Rightarrow> fd \<Rightarrow> nat) \<Rightarrow> bool" where
  "bounded_depth k h \<longleftrightarrow>
     (\<forall>v2 d name fl m n w w'. k_openat k v2 (Some d) name fl m n w = (None, w') \<longrightarrow>
        h w' n \<le> h w d \<and> (proper name \<longrightarrow> h w' n < h w d)) \<and>
     (\<forall>v2 d name fl m n w e w' f. k_openat k v2 d name fl m n w = (e, w') \<longrightarrow> f \<noteq> n \<longrightarrow> h w' f \<le> h w f) \<and>
     (\<forall>d name uid gid nf w e w' f. k_at k (SysFchownat d name uid gid nf) w = (e, w') \<longrightarrow> h w' f \<le> h w f)"

lemma bounded_open:
  "bounded_depth k h \<Longrightarrow> k_openat k v2 (Some d) name fl m n w = (None, w') \<Longrightarrow>
   h w' n \<le> h w d \<and> (proper name \<longrightarrow> h w' n < h w d)"
  unfolding bounded_depth_def by metis

text \<open>The descriptors of a set are in use, and the trees below them no deeper than \<open>g\<close> says.\<close>

definition levels :: "('w \<Rightarrow> fd \<Rightarrow> nat) \<Rightarrow> fd set \<Rightarrow> (fd \<Rightarrow> nat) \<Rightarrow> 'w proc \<Rightarrow> bool" where
  "levels h F g ps \<longleftrightarrow> F \<subseteq> {..<next_fd ps} \<and> (\<forall>f \<in> F. h (world ps) f \<le> g f)"

definition calm_fn :: "('w \<Rightarrow> fd \<Rightarrow> nat) \<Rightarrow> ('w, 'a) walk_fn \<Rightarrow> bool" where
  "calm_fn h fn \<longleftrightarrow> (\<forall>F g d name rel t e. keeps (\<lambda>s. levels h F g (fst s)) (fn d name rel t e))"

lemma levels_quiet:
  "keeps (levels h F g) (sys_getdents k n)" "keeps (levels h F g) (sys_fstatat k d name nf)"
  "keeps (levels h F g) (sys_close n)" "keeps (levels h F g) (sys_eval k n)"
  by (auto simp: triple_def levels_def sys_getdents_def sys_fstatat_def sys_close_def sys_eval_def split: sum.splits)

lemma Lstatat_levels: "keeps (levels h F g) (Lstatat k d name)"
  unfolding Lstatat_def fstatat_op_def by (intro keeps_bind levels_quiet triple_ret triple_sum)

lemma readDir_loop_levels: "keeps (levels h F g) (readDir_loop k n name rel es des)"
proof (induction des arbitrary: es)
  case (Cons de des)
  have "keeps (levels h F g) (modeTypeFromDirent k de n name)" for name
    unfolding modeTypeFromDirent_def
    by (cases "de_type de") (auto intro!: keeps_bind triple_ret Lstatat_levels)
  with Cons show ?case by (auto intro!: keeps_bind triple_ret triple_sum)
qed (simp add: triple_ret)

lemma readDir_levels: "keeps (levels h F g) (readDir k n name rel)"
  unfolding readDir_def by (intro keeps_bind levels_quiet triple_sum triple_ret readDir_loop_levels)

lemma Lchownat_levels: "bounded_depth k h \<Longrightarrow> keeps (levels h F g) (Lchownat k d name u v)"
proof -
  assume b: "bounded_depth k h"
  have "keeps (levels h F g) (sys_at k (SysFchownat d name u v nf))" for nf
    using b unfolding bounded_depth_def
    by (fastforce simp: triple_def sys_at_def levels_def intro: order_trans split: prod.splits)
  then show ?thesis unfolding Lchownat_def by (intro keeps_bind triple_ret)
qed

lemma openat_levels:
  assumes "bounded_depth k h" "d \<in> F"
  shows "triple (levels h F g) (openat fs k d name fl m)
    (\<lambda>(n, err) s. levels h F g s \<and>
       (err = None \<longrightarrow> n \<notin> F \<and> levels h (insert n F) (g(n := if proper name then g d - 1 else g d)) s \<and>
          (proper name \<longrightarrow> 0 < g d)))"
proof -
  let ?Q = "\<lambda>r s. case r of Inl _ \<Rightarrow> levels h F g s
     | Inr n \<Rightarrow> levels h F g s \<and> n \<notin> F \<and> levels h (insert n F) (g(n := if proper name then g d - 1 else g d)) s \<and>
          (proper name \<longrightarrow> 0 < g d)"
  have o: "triple (levels h F g) (sys_openat k v (Some d) name fl' m') ?Q" for v fl' m'
  proof (rule tripleI)
    fix s r s' assume L: "levels h F g s" and run: "run_state (sys_openat k v (Some d) name fl' m') s = (r, s')"
    obtain e w where ko: "k_openat k v (Some d) name fl' m' (next_fd s) (world s) = (e, w)" by (rule prod.exhaust)
    have old: "h w f \<le> g f" if "f \<in> F" for f
      using assms(1) ko L that unfolding bounded_depth_def levels_def
      by (metis lessThan_iff nat_neq_iff order_trans subsetD)
    show "?Q r s'"
    proof (cases e)
      case None
      have "h w (next_fd s) \<le> h (world s) d \<and> (proper name \<longrightarrow> h w (next_fd s) < h (world s) d)"
        by (rule bounded_open [OF assms(1) ko [unfolded None]])
      moreover have "h (world s) d \<le> g d" using L assms(2) by (simp add: levels_def)
      ultimately have new: "h w (next_fd s) \<le> (if proper name then g d - 1 else g d)" "proper name \<longrightarrow> 0 < g d"
        by auto
      have fresh: "next_fd s \<notin> F" "F \<subseteq> {..<Suc (next_fd s)}" using L by (auto simp: levels_def)
      have "r = Inr (next_fd s)" "world s' = w" "next_fd s' = Suc (next_fd s)"
        using run ko None by (auto simp: sys_openat_def)
      then show ?thesis using new fresh old by (auto simp: levels_def)
    next
      case (Some x)
      then show ?thesis using run ko old L by (auto simp: sys_openat_def levels_def)
    qed
  qed
  have v: "triple (levels h F g) (openat_v2 k (Some d) name fl' m') ?Q"
    "triple (levels h F g) (openat_v1 k (Some d) name fl' m') ?Q" for fl' m'
    unfolding openat_v2_def openat_v1_def
    by (auto intro!: triple_bind [OF o] triple_ret split: sum.splits)
  have ev: "triple (?Q (Inr n)) (do { ev \<leftarrow> sys_eval k n; ret (n, check_final fs name ev) })
     (\<lambda>(n, err) s. levels h F g s \<and>
       (err = None \<longrightarrow> n \<notin> F \<and> levels h (insert n F) (g(n := if proper name then g d - 1 else g d)) s \<and>
          (proper name \<longrightarrow> 0 < g d)))" for n
    by (auto simp: triple_def sys_eval_def levels_def split: sum.splits prod.splits)
  show ?thesis
    unfolding openat_def Let_def
  proof (intro triple_if triple_bind [OF v(1)] triple_bind [OF v(2)])
    fix r :: "fs_error + fd"
    show "triple (?Q r) (case r of Inl e \<Rightarrow> ret (0, Some e) | Inr n \<Rightarrow> do { ev \<leftarrow> sys_eval k n; ret (n, check_final fs name ev) })
     (\<lambda>(n, err) s. levels h F g s \<and>
       (err = None \<longrightarrow> n \<notin> F \<and> levels h (insert n F) (g(n := if proper name then g d - 1 else g d)) s \<and>
          (proper name \<longrightarrow> 0 < g d)))"
      by (cases r) (use ev in \<open>auto intro!: triple_ret\<close>)
  qed (auto intro!: triple_ret split: sum.splits)
qed

lemma walk_entries_ends:
  assumes "\<And>d. d \<in> set ds \<Longrightarrow> triple I (visit d) (\<lambda>r s. I s \<and> r \<noteq> None)"
  shows "triple I (walk_entries visit ds) (\<lambda>r s. I s \<and> r \<noteq> None)"
  using assms
proof (induction ds)
  case (Cons d ds)
  have v: "triple I (visit d) (\<lambda>r s. I s \<and> r \<noteq> None)" using Cons.prems by simp
  have rest: "triple I (walk_entries visit ds) (\<lambda>r s. I s \<and> r \<noteq> None)" using Cons by simp
  show ?case
    unfolding walk_entries.simps
    by (intro triple_bind [OF v] triple_pure triple_option triple_ret rest) auto
qed (simp add: triple_ret)

lemma walkDir_ends:
  assumes "bounded_depth k h" "names_ok k" "calm_fn h fn"
  shows "d \<in> F \<Longrightarrow> (if proper name then g d else Suc (g d)) < n \<Longrightarrow>
    triple (\<lambda>s. levels h F g (fst s)) (walkDir n fs k fn d name rel t) (\<lambda>r s. levels h F g (fst s) \<and> r \<noteq> None)"
proof (induction n arbitrary: F g d name rel t)
  case (Suc n)
  have fn: "keeps (\<lambda>s. levels h F' g' (fst s)) (fn d name rel t e)" for F' g' d name rel t e
    using assms(3) by (simp add: calm_fn_def)
  let ?b = "\<lambda>m. do {
      dirs \<leftarrow> on_proc (readDir k m name rel);
      (case dirs of
         Inl e \<Rightarrow> do { x \<leftarrow> fn m name rel (Some t) (Some e); ret (Some (unskip (entry_type t) x)) }
       | Inr ds \<Rightarrow> walk_entries
           (\<lambda>d1. walkDir n fs k fn m (d_name d1) (rel_below rel (d_name d1)) (Listed (d_type d1))) ds) }"
  have rd: "triple (\<lambda>s. levels h E g' (fst s)) (on_proc (readDir k m name rel))
      (\<lambda>r s. levels h E g' (fst s) \<and> good_entries m r)" for E g' m
    using on_proc_triple [OF triple_conj [OF readDir_levels [of h E g' k m name rel] readDir_good [OF assms(2)]], of "\<lambda>_. True"]
    by simp
  have body: "triple (\<lambda>s. levels h E g' (fst s)) (?b m) (\<lambda>r s. levels h E g' (fst s) \<and> r \<noteq> None)"
    if "m \<in> E" "g' m < n" for m E g'
  proof (rule triple_bind [OF rd], rule triple_pure)
    fix dirs assume good: "good_entries m dirs"
    show "triple (\<lambda>s. levels h E g' (fst s))
        (case dirs of
           Inl e \<Rightarrow> do { x \<leftarrow> fn m name rel (Some t) (Some e); ret (Some (unskip (entry_type t) x)) }
         | Inr ds \<Rightarrow> walk_entries
             (\<lambda>d1. walkDir n fs k fn m (d_name d1) (rel_below rel (d_name d1)) (Listed (d_type d1))) ds)
        (\<lambda>r s. levels h E g' (fst s) \<and> r \<noteq> None)"
      using good that by (cases dirs) (auto intro!: triple_ret triple_bind [OF fn] walk_entries_ends Suc.IH simp del: not_None_eq)
  qed
  have cl: "keeps (\<lambda>s. levels h E g' (fst s)) (on_proc (if_st b (sys_close m)))" for E g' b m
    by (rule on_proc_triple [OF keeps_if_st [OF levels_quiet(3)]])
  have opened: "triple (\<lambda>s. levels h F g (fst s)) (do {
      (dirfd, err) \<leftarrow> on_proc (openat fs k d name {O_DIRECTORY} 0);
      r \<leftarrow> (case err of Some e \<Rightarrow> ret (Some (Some (WalkErr e))) | None \<Rightarrow> ?b dirfd);
      on_proc (if_st (dirfd \<noteq> 0) (sys_close dirfd));
      ret r }) (\<lambda>r s. levels h F g (fst s) \<and> r \<noteq> None)"
  proof (rule triple_bind [OF on_proc_triple [OF openat_levels [OF assms(1) Suc.prems(1)]]], rule triple_prod)
    fix a and m :: fd and err :: "fs_error option" assume a: "a = (m, err)"
    let ?g = "g(m := if proper name then g d - 1 else g d)"
    let ?P = "\<lambda>s. (\<lambda>(n, err) s. levels h F g s \<and>
       (err = None \<longrightarrow> n \<notin> F \<and> levels h (insert n F) (g(n := if proper name then g d - 1 else g d)) s \<and>
          (proper name \<longrightarrow> 0 < g d))) a (fst s)"
    show "triple ?P (do {
        r \<leftarrow> (case err of Some e \<Rightarrow> ret (Some (Some (WalkErr e))) | None \<Rightarrow> ?b m);
        on_proc (if_st (m \<noteq> 0) (sys_close m));
        ret r }) (\<lambda>r s. levels h F g (fst s) \<and> r \<noteq> None)"
    proof (cases err)
      case (Some e)
      have "triple ?P (on_proc (if_st (m \<noteq> 0) (sys_close m))) (\<lambda>_ s. levels h F g (fst s))"
        by (rule triple_pre [OF cl]) (simp add: a Some)
      with Some show ?thesis by (auto intro!: triple_bind triple_ret simp del: neq0_conv)
    next
      case None
      show ?thesis
      proof (cases "m \<notin> F \<and> (proper name \<longrightarrow> 0 < g d)")
        case True
        then have "triple ?P (?b m) (\<lambda>r s. levels h (insert m F) ?g (fst s) \<and> r \<noteq> None)"
          using Suc.prems(2) by (intro triple_pre [OF body]) (auto simp: a None split: if_splits)
        moreover have "triple (\<lambda>s. levels h (insert m F) ?g (fst s) \<and> r \<noteq> None)
            (do { on_proc (if_st (m \<noteq> 0) (sys_close m)); ret r }) (\<lambda>r s. levels h F g (fst s) \<and> r \<noteq> None)"
          for r :: "walk_error option option"
          by (rule triple_pure, rule triple_bind [OF cl], rule triple_ret)
             (use True in \<open>auto simp: levels_def split: if_splits; metis\<close>)
        ultimately show ?thesis unfolding None option.case by (rule triple_bind)
      qed (auto simp: triple_def a None)
    qed
  qed
  show ?case
    unfolding walkDir.simps
    by (intro triple_bind [OF fn] triple_if opened) (auto intro!: triple_ret)
qed simp

lemma WalkDirat_ends:
  assumes "bounded_depth k h" "names_ok k" "calm_fn h fn" "d < next_fd ps" "h (world ps) d + 2 \<le> n"
  shows "fst (run_state (WalkDirat n fs k fn d name) (ps, a)) \<noteq> None"
proof -
  let ?I = "\<lambda>s. levels h {d} (h (world ps)) (fst s)"
  have fn: "keeps ?I (fn d' name rel t e)" for d' name rel t e using assms(3) by (simp add: calm_fn_def)
  have w: "triple ?I (walkDir n fs k fn d name rel t) (\<lambda>r s. ?I s \<and> r \<noteq> None)" for rel t
    using assms(5) by (intro walkDir_ends [OF assms(1-3)]) auto
  have "triple ?I (WalkDirat n fs k fn d name) (\<lambda>r s. r \<noteq> None)"
    unfolding WalkDirat_def
    by (rule triple_bind [OF on_proc_triple [OF Lstatat_levels]], rule triple_bind [where R = "\<lambda>r s. ?I s \<and> r \<noteq> None"])
       (auto intro!: triple_sum triple_ret triple_bind [OF fn] w simp del: not_None_eq)
  moreover have "?I (ps, a)" using assms(4) by (simp add: levels_def)
  ultimately show ?thesis by (simp add: triple_def split_beta)
qed

lemma size_visit_calm: "calm_fn h (size_visit k)"
proof -
  have m: "keeps (\<lambda>s. levels h F g (fst s)) (modify_st (\<lambda>(ps, hl, sz). (ps, f hl sz)) :: (_ \<times> sizing, _) state)" for F g f
    by (auto simp: triple_def)
  show ?thesis
    unfolding calm_fn_def size_visit_def
    by (auto intro!: triple_option triple_ret triple_if keeps_bind [OF on_proc_triple [OF Lstatat_levels]] triple_sum
        keeps_bind [OF read_keeps] triple_prod keeps_bind [OF m])
qed

lemma chown_visit_calm: "bounded_depth k h \<Longrightarrow> calm_fn h (chown_visit k u g)"
  unfolding calm_fn_def chown_visit_def
  by (auto intro!: triple_option triple_ret keeps_bind on_proc_triple Lchownat_levels)

text \<open>After a path has been resolved its descriptors are in use.\<close>

lemma safePath_dirfd:
  "triple (\<lambda>_. True) (safePath fs k p) (\<lambda>sp s. sp_err sp = None \<longrightarrow> sp_dirfd sp < next_fd s)"
proof -
  have o: "triple (\<lambda>_. True) (sys_openat k v d name fl m) (\<lambda>r s. case r of Inl _ \<Rightarrow> True | Inr n \<Rightarrow> n < next_fd s)" for v d name fl m
    by (auto simp: triple_def sys_openat_def split: prod.splits option.splits)
  have v: "triple (\<lambda>_. True) (openat_v2 k d name fl m) (\<lambda>r s. case r of Inl _ \<Rightarrow> True | Inr n \<Rightarrow> n < next_fd s)"
    "triple (\<lambda>_. True) (openat_v1 k d name fl m) (\<lambda>r s. case r of Inl _ \<Rightarrow> True | Inr n \<Rightarrow> n < next_fd s)" for d name fl m
    unfolding openat_v2_def openat_v1_def by (auto intro!: triple_bind [OF o] triple_ret split: sum.splits)
  have ev: "keeps (\<lambda>s. n < next_fd s) (sys_eval k m)" for n m
    by (auto simp: triple_def sys_eval_def split: sum.splits)
  have op: "triple (\<lambda>_. True) (openat fs k d name fl m) (\<lambda>(n, err) s. err = None \<longrightarrow> n < next_fd s)" for d name fl m
    unfolding openat_def Let_def
    by (auto intro!: triple_bind [OF v(1)] triple_bind [OF v(2)] triple_bind [OF ev] triple_sum triple_ret split: sum.splits)
  show ?thesis
    unfolding safePath_def Let_def
    by (auto intro!: triple_sum triple_ret triple_bind [OF v(2)] triple_prod triple_if
        triple_bind [OF triple_pre [OF op]] split: sum.splits)
qed

lemma with_safePath_ends:
  assumes "\<And>d name ps. d < next_fd ps \<Longrightarrow> \<exists>n0. \<forall>n \<ge> n0. fst (run_state (body n d name) ps) \<noteq> None"
    and "\<And>e. fail e \<noteq> None"
  shows "\<exists>n0. \<forall>n \<ge> n0. fst (run_state (with_safePath fs k p fail (body n)) ps) \<noteq> None"
proof -
  obtain sp ps1 where sp: "run_state (safePath fs k p) ps = (sp, ps1)" by (rule prod.exhaust)
  show ?thesis
  proof (cases "sp_err sp")
    case None
    then have "sp_dirfd sp < next_fd ps1" using tripleD [OF safePath_dirfd TrueI sp] by simp
    from assms(1) [OF this, of "sp_file sp"]
    obtain n0 where "\<forall>n \<ge> n0. fst (run_state (body n (sp_dirfd sp) (sp_file sp)) ps1) \<noteq> None" ..
    then have "\<forall>n \<ge> n0. fst (run_state (with_safePath fs k p fail (body n)) ps) \<noteq> None"
      by (simp add: with_safePath_def sp None split_beta)
    then show ?thesis ..
  next
    case (Some e)
    then show ?thesis using assms(2) [of e] by (simp add: with_safePath_def sp split_beta)
  qed
qed

lemma DirectorySize_ends:
  assumes "bounded_depth k h" "names_ok k"
  shows "\<exists>n0. \<forall>n \<ge> n0. fst (run_state (DirectorySize n fm k root) ps) \<noteq> None"
  unfolding DirectorySize_def
proof (rule with_safePath_ends)
  fix d name and ps :: "'a proc" assume d: "d < next_fd ps"
  let ?w = "\<lambda>n. WalkDirat n (q_fs (fm_q fm)) k (size_visit k) d name"
  have "\<forall>n \<ge> h (world ps) d + 2. fst (run_state (?w n) (ps, [], 0)) \<noteq> None"
    using WalkDirat_ends [OF assms size_visit_calm d] by blast
  then show "\<exists>n0. \<forall>n \<ge> n0. fst (run_state (State (\<lambda>ps. case run_state (?w n) (ps, [], 0) of
      (r, (ps', _, sz)) \<Rightarrow> (map_option (\<lambda>e. (sz, e)) r, ps'))) ps) \<noteq> None"
    by (intro exI [of _ "h (world ps) d + 2"]) (auto simp: split_beta)
qed simp

lemma fm_Chown_ends:
  assumes "bounded_depth k h" "names_ok k"
  shows "\<exists>n0. \<forall>n \<ge> n0. fst (run_state (fm_Chown n fm k p) ps) \<noteq> None"
proof (cases "fm_isTest fm")
  case True
  then show ?thesis by (simp add: fm_Chown_def)
next
  case False
  let ?c = "\<lambda>d name. Lchownat k d name (fm_uid fm) (fm_gid fm)"
  let ?w = "\<lambda>n d name. WalkDirat n (q_fs (fm_q fm)) k (chown_visit k (fm_uid fm) (fm_gid fm)) d name"
  show ?thesis
    unfolding fm_Chown_def if_not_P [OF False]
  proof (rule with_safePath_ends)
    fix d name and ps :: "'a proc" assume d: "d < next_fd ps"
    obtain r ps1 where c: "run_state (?c d name) ps = (r, ps1)" by (rule prod.exhaust)
    obtain i ps2 where l: "run_state (Lstatat k d name) ps1 = (i, ps2)" by (rule prod.exhaust)
    have "levels h {d} (h (world ps)) ps" using d by (simp add: levels_def)
    from tripleD [OF Lstatat_levels tripleD [OF Lchownat_levels [OF assms(1)] this c] l]
    have "d < next_fd ps2" "h (world ps2) d \<le> h (world ps) d" by (simp_all add: levels_def)
    then have "\<forall>n \<ge> h (world ps) d + 2. fst (run_state (?w n d name) (ps2, ())) \<noteq> None"
      by (intro allI impI WalkDirat_ends [OF assms chown_visit_calm [OF assms(1)]]) simp_all
    then show "\<exists>n0. \<forall>n \<ge> n0. fst (run_state (do {
        r \<leftarrow> ?c d name;
        (case r of
           Some e \<Rightarrow> ret (Some (Some (ChownFirst e)))
         | None \<Rightarrow> do {
             st \<leftarrow> Lstatat k d name;
             (case st of
                Inl _ \<Rightarrow> ret (Some None)
              | Inr i \<Rightarrow>
                  if \<not> IsDir i then ret (Some None)
                  else State (\<lambda>ps. case run_state (?w n d name) (ps, ()) of
                      (w, (ps', _)) \<Rightarrow> (map_option (map_option ChownWalk) w, ps'))) }) }) ps) \<noteq> None"
      by (intro exI [of _ "h (world ps) d + 2"]) (auto simp: c l split_beta split: option.splits sum.splits)
  qed simp
qed

section \<open>Properties\<close>

text \<open>C23: The two walks of a server over its files, the one that measures the disk usage and the one
  that hands the files to the user of the server, come to an end on every file tree of
  bounded depth, however many files it has and whatever errors occur on the way.\<close>

theorem walks_end:
  assumes "bounded_depth k h" "names_ok k"
  shows "\<exists>n0. \<forall>n \<ge> n0. fst (run_state (DirectorySize n fm k root) ps) \<noteq> None \<and>
    fst (run_state (fm_Chown n fm k p) ps) \<noteq> None"
proof -
  obtain n1 where "\<forall>n \<ge> n1. fst (run_state (DirectorySize n fm k root) ps) \<noteq> None"
    using DirectorySize_ends [OF assms] by blast
  moreover obtain n2 where "\<forall>n \<ge> n2. fst (run_state (fm_Chown n fm k p) ps) \<noteq> None"
    using fm_Chown_ends [OF assms] by blast
  ultimately have "\<forall>n \<ge> max n1 n2. fst (run_state (DirectorySize n fm k root) ps) \<noteq> None \<and>
    fst (run_state (fm_Chown n fm k p) ps) \<noteq> None" by simp
  then show ?thesis by blast
qed

text \<open>Every directory has a directory \<open>a\<close> and a directory \<open>b\<close>, until the descriptors reach a bound.\<close>

definition nested_kernel :: "nat \<Rightarrow> unit kernel" where
  "nested_kernel b = (quiet_kernel ''/srv'' 0x4000 1)
     \<lparr>k_openat := (\<lambda>v2 d name fl m n w. (if n < b \<and> (case d of None \<Rightarrow> True | Some x \<Rightarrow> x < n) then None else Some ENOENT, w)),
      k_getdents := (\<lambda>n w. Inr [\<lparr>ino = 1, de_name = ''a'', de_type = DT_DIR\<rparr>, \<lparr>ino = 2, de_name = ''b'', de_type = DT_DIR\<rparr>])\<rparr>"

lemma nested_kernel_bounded: "bounded_depth (nested_kernel b) (\<lambda>w f. b - f)" "names_ok (nested_kernel b)"
  by (auto simp: bounded_depth_def names_ok_def nested_kernel_def quiet_kernel_def split: if_splits option.splits)

theorem walks_end_witness:
  "\<exists>n0. \<forall>n \<ge> n0. fst (run_state (DirectorySize n \<lparr>fm_q = NewQuota (NewUnixFS ''/srv'' False) 0, fm_uid = 1, fm_gid = 1, fm_isTest = False\<rparr>
        (nested_kernel 20) ''/'') start) \<noteq> None \<and>
     fst (run_state (fm_Chown n \<lparr>fm_q = NewQuota (NewUnixFS ''/srv'' False) 0, fm_uid = 1, fm_gid = 1, fm_isTest = False\<rparr>
        (nested_kernel 20) ''/'') start) \<noteq> None"
  by (rule walks_end [OF nested_kernel_bounded])

end
