(* ===== verification/Sftp.thy ===== *)
theory Sftp
  imports Walk Server_Power
begin

text \<open>
  The SFTP handlers, \<^verbatim>\<open>sftp/handler.go\<close> and \<^verbatim>\<open>sftp/utils.go\<close>, on the file manager of a server. The
  protocol, the credentials and the database are outside; what an SFTP client asks for arrives
  as a request. A request runs against the server as it is when the request is handled.
\<close>

section \<open>Handlers\<close>

datatype sftp_error =
  ErrSSHFxOk | ErrSSHFxPermissionDenied | ErrSSHFxNoSuchFile | ErrSSHFxFailure | ErrSSHFxOpUnsupported
| ErrSSHQuotaExceeded | OtherSftp fm_error

abbreviation PermissionFileRead :: string where "PermissionFileRead \<equiv> ''file.read''"
abbreviation PermissionFileReadContent :: string where "PermissionFileReadContent \<equiv> ''file.read-content''"
abbreviation PermissionFileCreate :: string where "PermissionFileCreate \<equiv> ''file.create''"
abbreviation PermissionFileUpdate :: string where "PermissionFileUpdate \<equiv> ''file.update''"
abbreviation PermissionFileDelete :: string where "PermissionFileDelete \<equiv> ''file.delete''"

record 'e sftp_handler =
  h_server :: "'e server"
  h_fs :: filesystem
  h_permissions :: "string list"
  h_ro :: bool

definition sftp_NewHandler :: "bool \<Rightarrow> (string \<rightharpoonup> string) \<Rightarrow> 'e server \<Rightarrow> filesystem \<Rightarrow> string + 'e sftp_handler" where
  "sftp_NewHandler readonly extensions s fm =
     (case extensions ''user'' of
        None \<Rightarrow> Inl ''sftp: mismatched Wings and Panel versions''
      | Some uuid \<Rightarrow>
          Inr \<lparr>h_server = s, h_fs = fm,
               h_permissions = Split (case extensions ''permissions'' of None \<Rightarrow> [] | Some p \<Rightarrow> p) (CHR '',''),
               h_ro = readonly\<rparr>)"

definition IsInProtectedState :: "'e server \<Rightarrow> bool" where
  "IsInProtectedState s \<longleftrightarrow> Load (installing s) \<or> Load (transferring s) \<or> Load (restoring s)"

definition can :: "'e sftp_handler \<Rightarrow> string \<Rightarrow> bool" where
  "can h permission =
     (if suspended (cfg (h_server h)) \<or> IsInProtectedState (h_server h) then False
      else list_ex (\<lambda>p. p = permission \<or> p = ''*'') (h_permissions h))"

text \<open>
  What the handlers change: the process, the cached lookup of the disk usage and the activity log.
  \<open>sx_sniff\<close> detects the type of a file, \<open>sx_fuel\<close> bounds the walks.
\<close>

record sftp_env =
  sx_now :: int
  sx_headroom :: bool
  sx_sniff :: "fd \<Rightarrow> string + string"
  sx_fuel :: nat

type_synonym file_action = "string \<times> string \<times> string"  \<comment> \<open>event, entity, target\<close>

type_synonym 'w sftp_state = "'w proc \<times> lookup \<times> file_action list"

definition sftp_log :: "string \<Rightarrow> string \<Rightarrow> string \<Rightarrow> ('w sftp_state, unit) state" where
  "sftp_log ev entity target = modify_st (\<lambda>(ps, l, as). (ps, l, as @ [(ev, entity, target)]))"

text \<open>\<^verbatim>\<open>HasSpaceAvailable(false)\<close>: the directory is measured only when the cached value is too old.\<close>

definition lookup_due :: "int \<Rightarrow> lookup \<Rightarrow> bool" where
  "lookup_due now l \<longleftrightarrow>
     diskCheckInterval l \<noteq> 0 \<and> \<not> (lastLookupTime l > now + i64 (i64 (1000000000 * diskCheckInterval l) * -1))"

definition fresh_space :: "sftp_env \<Rightarrow> filesystem \<Rightarrow> 'w kernel \<Rightarrow> ('w sftp_state, bool option) state" where
  "fresh_space x fm k = State (\<lambda>(ps, l, as).
     (case run_state (if lookup_due (sx_now x) l then DirectorySize (sx_fuel x) fm k ''/'' else ret (Some (0, None))) ps of
        (None, ps1) \<Rightarrow> (None, (ps1, l, as))
      | (Some (sz, e), ps1) \<Rightarrow>
          (case run_state (HasSpaceAvailable fm (sz, map_option (\<lambda>_. ''walk'') e) (sx_now x) (sx_headroom x) False l) ps1 of
             ((ok, l'), ps2) \<Rightarrow> (Some ok, (ps2, l', as)))))"

definition not_exist :: "fm_error \<Rightarrow> bool" where
  "not_exist e = (case e of Ufs u \<Rightarrow> is_not_exist u | _ \<Rightarrow> False)"

definition Fileread :: "sftp_env \<Rightarrow> 'w kernel \<Rightarrow> 'e sftp_handler \<Rightarrow> string \<Rightarrow> ('w sftp_state, sftp_error + fd) state" where
  "Fileread x k h path =
     (if \<not> can h PermissionFileReadContent then ret (Inl ErrSSHFxPermissionDenied)
      else do {
        r \<leftarrow> on_proc (fm_File (sx_sniff x) (h_fs h) k path);
        ret (case r of
               Inl e \<Rightarrow> Inl (if not_exist e then ErrSSHFxNoSuchFile else ErrSSHFxFailure)
             | Inr (f, _) \<Rightarrow> Inr f)
      })"

text \<open>The result \<open>None\<close> means that a walk ran out of fuel.\<close>

definition Filewrite :: "sftp_env \<Rightarrow> 'w kernel \<Rightarrow> 'e sftp_handler \<Rightarrow> string \<Rightarrow> ('w sftp_state, (sftp_error + quota_file) option) state" where
  "Filewrite x k h path =
     (if h_ro h then ret (Some (Inl ErrSSHFxOpUnsupported))
      else do {
        sp \<leftarrow> fresh_space x (h_fs h) k;
        (case sp of
           None \<Rightarrow> ret None
         | Some ok \<Rightarrow>
             if \<not> ok then ret (Some (Inl ErrSSHQuotaExceeded))
             else do {
             st \<leftarrow> on_proc (fm_Stat (sx_sniff x) (h_fs h) k path);
             (case (case st of Inr _ \<Rightarrow> Some PermissionFileUpdate
                    | Inl e \<Rightarrow> if not_exist e then Some PermissionFileCreate else None) of
                None \<Rightarrow> ret (Some (Inl ErrSSHFxFailure))
              | Some permission \<Rightarrow>
                  if \<not> can h permission then ret (Some (Inl ErrSSHFxPermissionDenied))
                  else do {
                    f \<leftarrow> on_proc (fm_Touch (h_fs h) k path {O_RDWR, O_TRUNC});
                    (case f of
                       Inl _ \<Rightarrow> ret (Some (Inl ErrSSHFxFailure))
                     | Inr qf \<Rightarrow> do {
                         c \<leftarrow> on_proc (fm_Chown (sx_fuel x) (h_fs h) k path);
                         (case c of
                            None \<Rightarrow> ret None
                          | Some _ \<Rightarrow> do {
                              sftp_log (if permission = PermissionFileCreate then ''server:sftp.create'' else ''server:sftp.write'')
                                path [];
                              ret (Some (Inr qf))
                            })
                       })
                  })
           })
      })"

text \<open>A write to a file that \<^verbatim>\<open>Filewrite\<close> has opened.\<close>

definition sftp_WriteAt ::
  "'w kernel \<Rightarrow> 'e sftp_handler \<Rightarrow> quota_file \<Rightarrow> int \<Rightarrow> int \<Rightarrow> 'w writer \<Rightarrow>
     ('w sftp_state, (int \<times> sftp_error option) \<times> quota_file) state" where
  "sftp_WriteAt k h qf len off wr =
     (if IsInProtectedState (h_server h) then ret ((0, Some ErrSSHFxPermissionDenied), qf)
      else do {
        ((n, err), qf') \<leftarrow> on_proc (qf_WriteAt (h_fs h) qf len off wr);
        ret ((n, map_option (\<lambda>e. if e = FmError ErrCodeDiskSpace then ErrSSHQuotaExceeded else OtherSftp e) err), qf')
      })"

record sftp_request =
  Method :: string
  Filepath :: string
  Target :: string
  attr_mode :: file_mode  \<comment> \<open>\<^verbatim>\<open>request.Attributes().FileMode()\<close>\<close>

definition setstat_mode :: "file_mode \<Rightarrow> file_mode" where
  "setstat_mode m =
     (if m AND ModeDir \<noteq> 0 then 0x1ED
      else if m AND 0x1FF = 0 then 0x1A4
      else m AND 0x1FF)"

definition not_found_or_failure :: "fs_error \<Rightarrow> sftp_error" where
  "not_found_or_failure e = (if is_not_exist e then ErrSSHFxNoSuchFile else ErrSSHFxFailure)"

definition fm_Delete :: "nat \<Rightarrow> filesystem \<Rightarrow> 'w kernel \<Rightarrow> string \<Rightarrow> ('w proc, fs_error option option) state" where
  "fm_Delete n fm k p = RemoveAll n (q_fs (fm_q fm)) (quota_remover (fm_q fm) k) k p"

text \<open>The end of \<^verbatim>\<open>Filecmd\<close>, reached from the cases that break.\<close>

definition chown_target :: "sftp_env \<Rightarrow> 'w kernel \<Rightarrow> 'e sftp_handler \<Rightarrow> sftp_request \<Rightarrow> ('w sftp_state, sftp_error option) state" where
  "chown_target x k h req = do {
     c \<leftarrow> on_proc (fm_Chown (sx_fuel x) (h_fs h) k (if Target req \<noteq> [] then Target req else Filepath req));
     ret (map_option (\<lambda>_. ErrSSHFxOk) c)
   }"

definition cmd_setstat :: "sftp_env \<Rightarrow> 'w kernel \<Rightarrow> 'e sftp_handler \<Rightarrow> sftp_request \<Rightarrow> ('w sftp_state, sftp_error option) state" where
  "cmd_setstat x k h req =
     (if \<not> can h PermissionFileUpdate then ret (Some ErrSSHFxPermissionDenied)
      else do {
        r \<leftarrow> on_proc (Chmod (q_fs (fm_q (h_fs h))) k (Filepath req) (setstat_mode (attr_mode req)));
        (case r of
           Some e \<Rightarrow> ret (Some (not_found_or_failure e))
         | None \<Rightarrow> chown_target x k h req)
      })"

definition cmd_rename :: "sftp_env \<Rightarrow> 'w kernel \<Rightarrow> 'e sftp_handler \<Rightarrow> sftp_request \<Rightarrow> ('w sftp_state, sftp_error option) state" where
  "cmd_rename x k h req =
     (if \<not> can h PermissionFileUpdate then ret (Some ErrSSHFxPermissionDenied)
      else do {
        r \<leftarrow> on_proc (Rename (q_fs (fm_q (h_fs h))) k (Filepath req) (Target req));
        (case r of
           Some e \<Rightarrow> ret (Some (not_found_or_failure e))
         | None \<Rightarrow> do { sftp_log ''server:sftp.rename'' (Filepath req) (Target req); chown_target x k h req })
      })"

definition cmd_delete :: "bool \<Rightarrow> sftp_env \<Rightarrow> 'w kernel \<Rightarrow> 'e sftp_handler \<Rightarrow> sftp_request \<Rightarrow> ('w sftp_state, sftp_error option) state" where
  "cmd_delete dir x k h req =
     (if \<not> can h PermissionFileDelete then ret (Some ErrSSHFxPermissionDenied)
      else do {
        r \<leftarrow> on_proc (fm_Delete (sx_fuel x) (h_fs h) k (if dir then Clean (Filepath req) else Filepath req));
        (case r of
           None \<Rightarrow> ret None
         | Some (Some e) \<Rightarrow> ret (Some (if dir then ErrSSHFxFailure else not_found_or_failure e))
         | Some None \<Rightarrow> do { sftp_log ''server:sftp.delete'' (Filepath req) []; ret (Some ErrSSHFxOk) })
      })"

definition cmd_mkdir :: "sftp_env \<Rightarrow> 'w kernel \<Rightarrow> 'e sftp_handler \<Rightarrow> sftp_request \<Rightarrow> ('w sftp_state, sftp_error option) state" where
  "cmd_mkdir x k h req =
     (if \<not> can h PermissionFileCreate then ret (Some ErrSSHFxPermissionDenied)
      else do {
        let name = Split (Clean (Filepath req)) (CHR ''/'');
        r \<leftarrow> on_proc (CreateDirectory (h_fs h) k (last name) (Join (butlast name) ''/''));
        (case r of
           Some e \<Rightarrow> ret (Some ErrSSHFxFailure)
         | None \<Rightarrow> do { sftp_log ''server:sftp.create-directory'' (Filepath req) []; chown_target x k h req })
      })"

definition cmd_symlink :: "sftp_env \<Rightarrow> 'w kernel \<Rightarrow> 'e sftp_handler \<Rightarrow> sftp_request \<Rightarrow> ('w sftp_state, sftp_error option) state" where
  "cmd_symlink x k h req =
     (if \<not> can h PermissionFileCreate then ret (Some ErrSSHFxPermissionDenied)
      else do {
        r \<leftarrow> on_proc (Symlink (q_fs (fm_q (h_fs h))) k (Filepath req) (Target req));
        (case r of
           Some e \<Rightarrow> ret (Some ErrSSHFxFailure)
         | None \<Rightarrow> chown_target x k h req)
      })"

definition Filecmd :: "sftp_env \<Rightarrow> 'w kernel \<Rightarrow> 'e sftp_handler \<Rightarrow> sftp_request \<Rightarrow> ('w sftp_state, sftp_error option) state" where
  "Filecmd x k h req =
     (if h_ro h then ret (Some ErrSSHFxOpUnsupported)
      else if Method req = ''Setstat'' then cmd_setstat x k h req
      else if Method req = ''Rename'' then cmd_rename x k h req
      else if Method req = ''Rmdir'' then cmd_delete True x k h req
      else if Method req = ''Mkdir'' then cmd_mkdir x k h req
      else if Method req = ''Symlink'' then cmd_symlink x k h req
      else if Method req = ''Remove'' then cmd_delete False x k h req
      else ret (Some ErrSSHFxOpUnsupported))"

definition Filelist :: "sftp_env \<Rightarrow> 'w kernel \<Rightarrow> 'e sftp_handler \<Rightarrow> sftp_request \<Rightarrow> ('w sftp_state, sftp_error + file_info list) state" where
  "Filelist x k h req =
     (if \<not> can h PermissionFileRead then ret (Inl ErrSSHFxPermissionDenied)
      else if Method req = ''List'' then do {
        r \<leftarrow> on_proc (ReadDirStat (h_fs h) k (Filepath req));
        ret (map_sum (\<lambda>_. ErrSSHFxFailure) id r)
      }
      else if Method req = ''Stat'' then do {
        r \<leftarrow> on_proc (fm_Stat (sx_sniff x) (h_fs h) k (Filepath req));
        ret (case r of
               Inl e \<Rightarrow> Inl (if not_exist e then ErrSSHFxNoSuchFile else ErrSSHFxFailure)
             | Inr i \<Rightarrow> Inr [stat_info i])
      }
      else ret (Inl ErrSSHFxOpUnsupported))"

text \<open>\<^verbatim>\<open>ListAt\<close>: the entries that are copied into a buffer of \<open>n\<close>, and whether the end was reached.\<close>

definition ListAt :: "'a list \<Rightarrow> nat \<Rightarrow> int \<Rightarrow> ('a list \<times> bool) outcome" where
  "ListAt l n offset =
     (if offset \<ge> int (length l) then Return ([], True)
      else if offset < 0 then Panic ''slice bounds out of range''
      else (let c = take n (drop (nat offset) l) in Return (c, length c < n)))"

section \<open>Sessions\<close>

datatype sftp_call =
  CallRead string | CallWrite string | CallCmd sftp_request | CallList sftp_request

text \<open>The handler sees the server as it is then.\<close>

definition sftp_serve :: "sftp_env \<Rightarrow> 'w kernel \<Rightarrow> 'e sftp_handler \<Rightarrow> sftp_call \<Rightarrow> ('w sftp_state, unit) state" where
  "sftp_serve x k h c =
     (case c of
        CallRead p \<Rightarrow> discard (Fileread x k h p)
      | CallWrite p \<Rightarrow> discard (Filewrite x k h p)
      | CallCmd r \<Rightarrow> discard (Filecmd x k h r)
      | CallList r \<Rightarrow> discard (Filelist x k h r))"

fun sftp_session :: "sftp_env \<Rightarrow> 'w kernel \<Rightarrow> ('e sftp_handler \<times> sftp_call) list \<Rightarrow> ('w sftp_state, unit) state" where
  "sftp_session x k [] = ret ()"
| "sftp_session x k ((h, c) # cs) = do { sftp_serve x k h c; sftp_session x k cs }"

section \<open>The sandbox\<close>

abbreviation sfbox :: "filesystem \<Rightarrow> 'w sftp_state \<Rightarrow> bool" where
  "sfbox fm \<equiv> wbox (q_fs (fm_q fm)) {}"

lemma statFromFile_sbox:
  "triple (got_file fs D (Inr (f, nm))) (statFromFile sniff k f nm) (\<lambda>_. got_file fs D (Inr (f, nm)))"
proof -
  have "keeps (sbox fs (insert f D)) (statFromFile sniff k f nm)"
    unfolding statFromFile_def by (intro keeps_bind sys_fstat_sbox triple_ret) simp
  then show ?thesis unfolding got_file_def triple_def by auto
qed

lemma fm_Stat_sbox:
  assumes "base_ok (q_fs (fm_q fm)) bs"
  shows "keeps (sbox (q_fs (fm_q fm)) D) (fm_Stat sniff fm k p)"
  unfolding fm_Stat_def
proof (rule triple_bind [OF Open_sbox [OF assms]], rule triple_sum)
  fix a :: "fs_error + open_file" and v assume a: "a = Inr v"
  show "triple (got_file (q_fs (fm_q fm)) D a)
      (case v of (f, nm) \<Rightarrow> do { st \<leftarrow> statFromFile sniff k f nm; sys_close f; ret st })
      (\<lambda>_. sbox (q_fs (fm_q fm)) D)"
    by (cases v) (auto simp: a intro!: triple_bind [OF statFromFile_sbox] triple_bind [OF close_file] triple_ret)
qed (auto simp: got_file_def intro!: triple_ret)

lemma fm_File_sbox:
  assumes "base_ok (q_fs (fm_q fm)) bs"
  shows "keeps (sbox (q_fs (fm_q fm)) D) (fm_File sniff fm k p)"
  unfolding fm_File_def
proof (rule triple_bind [OF Open_sbox [OF assms]], rule triple_sum)
  fix a :: "fs_error + open_file" and v assume a: "a = Inr v"
  show "triple (got_file (q_fs (fm_q fm)) D a)
      (case v of (f, nm) \<Rightarrow> do { st \<leftarrow> statFromFile sniff k f nm;
         (case st of Inl e \<Rightarrow> do { sys_close f; ret (Inl e) } | Inr s \<Rightarrow> ret (Inr (f, s))) })
      (\<lambda>_. sbox (q_fs (fm_q fm)) D)"
    by (cases v) (auto simp: a intro!: triple_bind [OF statFromFile_sbox] triple_bind [OF close_file] triple_ret triple_sum
        intro: got_file_sbox)
qed (auto simp: got_file_def intro!: triple_ret)

lemma fm_Touch_sbox:
  assumes "base_ok (q_fs (fm_q fm)) bs"
  shows "keeps (sbox (q_fs (fm_q fm)) D) (fm_Touch fm k p fl)"
  unfolding fm_Touch_def
  by (rule triple_bind [OF stat_sbox(1) [OF assms]], rule triple_sum)
     (auto intro!: triple_ret triple_bind [OF Touch_sbox [OF assms]] dest: got_file_sbox)

lemma space_keeps: "keeps (sbox fs D) (HasSpaceAvailable fm ds now hr stale l)"
  unfolding HasSpaceAvailable_def DiskUsage_def updateCachedDiskUsage_def SetUsage_def
  by (auto simp: triple_def sbox_def split: prod.splits)

lemma fresh_space_keeps:
  assumes m: "keeps I (DirectorySize (sx_fuel x) fm k ''/'')"
    and h: "\<And>ds l. keeps I (HasSpaceAvailable fm ds (sx_now x) (sx_headroom x) False l)"
  shows "keeps (\<lambda>s. I (fst s)) (fresh_space x fm k)"
proof (rule tripleI)
  fix s :: "'a sftp_state" and a s' assume "I (fst s)" and run: "run_state (fresh_space x fm k) s = (a, s')"
  obtain ps l as where s: "s = (ps, l, as)" by (rule prod_cases3)
  let ?d = "if lookup_due (sx_now x) l then DirectorySize (sx_fuel x) fm k ''/'' else ret (Some (0, None))"
  obtain r ps1 where d: "run_state ?d ps = (r, ps1)" by (rule prod.exhaust)
  have "keeps I ?d" by (intro triple_if m triple_ret)
  from tripleD [OF this _ d] have ps1: "I ps1" using \<open>I (fst s)\<close> by (simp add: s)
  show "I (fst s')"
  proof (cases r)
    case None
    then show ?thesis using run d ps1 by (auto simp: fresh_space_def s)
  next
    case (Some v)
    obtain sz e where v: "v = (sz, e)" by (rule prod.exhaust)
    obtain ol ps2 where sp: "run_state (HasSpaceAvailable fm (sz, map_option (\<lambda>_. ''walk'') e) (sx_now x) (sx_headroom x) False l) ps1 = (ol, ps2)"
      by (rule prod.exhaust)
    then have "I ps2" using tripleD [OF h ps1] by blast
    then show ?thesis using run d sp by (auto simp: fresh_space_def s Some v split: prod.splits)
  qed
qed

lemma fresh_space_sbox:
  "base_ok (q_fs (fm_q fm)) bs \<Longrightarrow> names_ok k \<Longrightarrow> keeps (sfbox fm) (fresh_space x fm k)"
  by (intro fresh_space_keeps DirectorySize_sbox space_keeps)

lemma sftp_log_sbox: "keeps (sfbox fm) (sftp_log e a t)"
  by (auto simp: triple_def sftp_log_def)

lemma Filecmd_sbox:
  assumes b: "base_ok (q_fs (fm_q (h_fs h))) bs" and n: "names_ok k"
  shows "keeps (sfbox (h_fs h)) (Filecmd x k h req)"
proof -
  have ct: "keeps (sfbox (h_fs h)) (chown_target x k h req)"
    unfolding chown_target_def by (intro keeps_bind on_proc_triple fm_Chown_sbox [OF b n] triple_ret)
  note rules = triple_if triple_ret triple_option ct keeps_bind [OF sftp_log_sbox]
  have "keeps (sfbox (h_fs h)) (cmd_setstat x k h req)"
    unfolding cmd_setstat_def by (intro rules keeps_bind [OF on_proc_triple [OF Chmod_sbox [OF b]]])
  moreover have "keeps (sfbox (h_fs h)) (cmd_rename x k h req)"
    unfolding cmd_rename_def by (intro rules keeps_bind [OF on_proc_triple [OF Rename_sbox [OF b]]])
  moreover have "keeps (sfbox (h_fs h)) (cmd_mkdir x k h req)"
    unfolding cmd_mkdir_def CreateDirectory_def Let_def by (intro rules keeps_bind [OF on_proc_triple [OF MkdirAll_sbox [OF b]]])
  moreover have "keeps (sfbox (h_fs h)) (cmd_symlink x k h req)"
    unfolding cmd_symlink_def by (intro rules keeps_bind [OF on_proc_triple [OF Symlink_sbox [OF b]]])
  moreover have "keeps (sfbox (h_fs h)) (cmd_delete dir x k h req)" for dir
    unfolding cmd_delete_def fm_Delete_def by (intro rules keeps_bind [OF on_proc_triple [OF quota_RemoveAll_sbox [OF b n]]])
  ultimately show ?thesis unfolding Filecmd_def by (intro triple_if triple_ret)
qed

lemma sftp_serve_sbox:
  assumes b: "base_ok (q_fs (fm_q (h_fs h))) bs" and n: "names_ok k"
  shows "keeps (sfbox (h_fs h)) (sftp_serve x k h c)"
proof -
  have "keeps (sfbox (h_fs h)) (Filewrite x k h p)" for p
    unfolding Filewrite_def
    by (intro triple_if triple_ret keeps_bind fresh_space_sbox [OF b n] triple_option on_proc_triple fm_Stat_sbox [OF b]
        fm_Touch_sbox [OF b] fm_Chown_sbox [OF b n] triple_sum sftp_log_sbox)
  moreover have "keeps (sfbox (h_fs h)) (Fileread x k h p)" for p
    unfolding Fileread_def by (intro triple_if triple_ret keeps_bind on_proc_triple fm_File_sbox [OF b])
  moreover have "keeps (sfbox (h_fs h)) (Filelist x k h r)" for r
    unfolding Filelist_def
    by (intro triple_if triple_ret keeps_bind on_proc_triple fm_Stat_sbox [OF b] ReadDirStat_sbox [OF b n])
  ultimately show ?thesis
    unfolding sftp_serve_def by (cases c) (auto intro!: keeps_bind triple_ret Filecmd_sbox [OF b n])
qed

section \<open>Who may change files\<close>

text \<open>The system calls that change something, or open a file in a way that could.\<close>

fun mutates :: "event \<Rightarrow> bool" where
  "mutates (EvAt c) = True"
| "mutates (EvOpen v d p fl r) = (fl \<inter> {O_WRONLY, O_RDWR, O_APPEND, O_CREATE, O_TRUNC} \<noteq> {})"
| "mutates _ = False"

definition changes :: "'w proc \<Rightarrow> event list" where
  "changes ps = filter mutates (events ps)"

abbreviation looks :: "event list \<Rightarrow> 'w proc \<Rightarrow> bool" where
  "looks E \<equiv> \<lambda>ps. changes ps = E"

abbreviation (input) reading :: "flags \<Rightarrow> bool" where
  "reading fl \<equiv> fl \<inter> {O_WRONLY, O_RDWR, O_APPEND, O_CREATE, O_TRUNC} = {}"

lemma sys_looks:
  "keeps (looks E) (sys_eval k f)" "keeps (looks E) (sys_fstatat k f name nf)" "keeps (looks E) (sys_fstat k f)"
  "keeps (looks E) (sys_getdents k f)" "keeps (looks E) (sys_close f)"
  by (auto simp: triple_def sys_eval_def sys_fstatat_def sys_fstat_def sys_getdents_def sys_close_def changes_def
      split: sum.splits)

lemma sys_openat_looks: "reading fl \<Longrightarrow> keeps (looks E) (sys_openat k v d name fl m)"
  by (auto simp: triple_def sys_openat_def changes_def split: prod.splits option.splits)

lemma openat_looks: "reading fl \<Longrightarrow> keeps (looks E) (openat fs k d name fl m)"
  unfolding openat_def openat_v1_def openat_v2_def Let_def
  by (intro triple_if keeps_bind sys_openat_looks triple_ret triple_sum sys_looks) auto

lemma close_fds_looks: "keeps (looks E) (close_fds ns)"
  by (induction ns) (auto intro!: keeps_bind triple_ret sys_looks)

lemma safePath_looks: "keeps (looks E) (safePath fs k p)"
  unfolding safePath_def openat_v1_def Let_def
  by (intro triple_sum triple_ret keeps_bind sys_openat_looks openat_looks triple_prod triple_if) auto

lemma with_safePath_looks: "(\<And>d n. keeps (looks E) (body d n)) \<Longrightarrow> keeps (looks E) (with_safePath fs k p fl body)"
  unfolding with_safePath_def by (intro keeps_bind safePath_looks triple_option triple_ret close_fds_looks)

lemma Lstatat_looks: "keeps (looks E) (Lstatat k d name)"
  unfolding Lstatat_def fstatat_op_def by (intro keeps_bind sys_looks triple_ret triple_sum)

lemma readDir_loop_looks: "keeps (looks E) (readDir_loop k n name rel es des)"
proof (induction des arbitrary: es)
  case (Cons de des)
  have "keeps (looks E) (modeTypeFromDirent k de n name)" for name
    unfolding modeTypeFromDirent_def by (cases "de_type de") (auto intro!: keeps_bind triple_ret Lstatat_looks)
  with Cons show ?case by (auto intro!: keeps_bind triple_ret triple_sum)
qed (simp add: triple_ret)

lemma readDir_looks: "keeps (looks E) (readDir k n name rel)"
  unfolding readDir_def by (intro keeps_bind sys_looks triple_sum triple_ret readDir_loop_looks)

abbreviation wlooks :: "event list \<Rightarrow> 'w proc \<times> 'a \<Rightarrow> bool" where
  "wlooks E \<equiv> \<lambda>s. changes (fst s) = E"

lemma walkDir_looks:
  assumes "\<And>d name rel t e. keeps (wlooks E) (fn d name rel t e)"
  shows "keeps (wlooks E) (walkDir n fs k fn d name rel t)"
proof (induction n arbitrary: d name rel t)
  case (Suc n)
  show ?case
    unfolding walkDir.simps
    by (intro keeps_bind assms triple_if triple_ret triple_prod on_proc_triple openat_looks triple_option readDir_looks
        triple_sum walk_entries_keeps Suc.IH keeps_if_st sys_looks) auto
qed (simp add: triple_ret)

lemma DirectorySize_looks: "keeps (looks E) (DirectorySize n fm k p)"
proof -
  have m: "keeps (wlooks E) (modify_st (\<lambda>(ps, hl, sz). (ps, f hl sz)) :: (_ \<times> sizing, _) state)" for f
    by (auto simp: triple_def)
  have v: "keeps (wlooks E) (size_visit k d name rel t e)" for d name rel t e
    unfolding size_visit_def
    by (intro triple_option triple_ret triple_if keeps_bind [OF on_proc_triple [OF Lstatat_looks]] triple_sum
        keeps_bind [OF read_keeps] triple_prod keeps_bind [OF m])
  have "keeps (wlooks E) (WalkDirat n fs k (size_visit k) d name)" for fs d name
    unfolding WalkDirat_def by (intro keeps_bind [OF on_proc_triple [OF Lstatat_looks]] keeps_bind [OF triple_sum] triple_ret walkDir_looks v keeps_bind [OF v])
  then show ?thesis
    unfolding DirectorySize_def by (intro with_safePath_looks) (fastforce simp: triple_def split: prod.splits)
qed

lemma fm_Stat_looks: "keeps (looks E) (fm_Stat sniff fm k p)"
  unfolding fm_Stat_def Open_def OpenFile_def openFile_def statFromFile_def
  by (intro keeps_bind with_safePath_looks openat_looks triple_prod triple_ret triple_sum sys_looks) auto

lemma fresh_space_looks: "keeps (wlooks E) (fresh_space x fm k)"
proof (rule fresh_space_keeps [OF DirectorySize_looks])
  show "keeps (looks E) (HasSpaceAvailable fm ds (sx_now x) (sx_headroom x) False l)" for ds l
    unfolding HasSpaceAvailable_def DiskUsage_def updateCachedDiskUsage_def SetUsage_def
    by (auto simp: triple_def changes_def split: prod.splits)
qed

lemma fm_File_looks: "keeps (looks E) (fm_File sniff fm k p)"
  unfolding fm_File_def Open_def OpenFile_def openFile_def statFromFile_def
  by (intro keeps_bind with_safePath_looks openat_looks triple_prod triple_ret triple_sum sys_looks) auto

lemma map_entries_looks: "(\<And>d. keeps (looks E) (fn d)) \<Longrightarrow> keeps (looks E) (map_entries fn es)"
  by (induction es) (auto intro!: keeps_bind triple_ret triple_sum)

lemma ReadDirStat_looks: "keeps (looks E) (ReadDirStat fm k p)"
  unfolding ReadDirStat_def ReadDirMap_def dirent_Info_def
  by (intro with_safePath_looks keeps_bind openat_looks triple_prod triple_option triple_ret readDir_looks triple_sum
      map_entries_looks Lstatat_looks sys_looks) auto

text \<open>What a call needs: a permission out of these, and a server that is not read-only.\<close>

definition needs :: "sftp_call \<Rightarrow> string list" where
  "needs c =
     (case c of
        CallRead _ \<Rightarrow> []
      | CallList _ \<Rightarrow> []
      | CallWrite _ \<Rightarrow> [PermissionFileUpdate, PermissionFileCreate]
      | CallCmd r \<Rightarrow>
          if Method r = ''Setstat'' \<or> Method r = ''Rename'' then [PermissionFileUpdate]
          else if Method r = ''Mkdir'' \<or> Method r = ''Symlink'' then [PermissionFileCreate]
          else if Method r = ''Rmdir'' \<or> Method r = ''Remove'' then [PermissionFileDelete]
          else [])"

lemma unpermitted_looks:
  assumes "h_ro h \<or> (\<forall>p \<in> set (needs c). \<not> can h p)"
  shows "keeps (wlooks E) (sftp_serve x k h c)"
proof (cases c)
  case (CallRead p)
  then show ?thesis
    unfolding sftp_serve_def Fileread_def
    by (auto intro!: keeps_bind triple_ret triple_if on_proc_triple fm_File_looks)
next
  case (CallList r)
  then show ?thesis
    unfolding sftp_serve_def Filelist_def
    by (auto intro!: keeps_bind triple_ret triple_if on_proc_triple fm_Stat_looks ReadDirStat_looks)
next
  case (CallCmd r)
  then show ?thesis
    using assms unfolding sftp_serve_def Filecmd_def
    by (auto simp: needs_def cmd_setstat_def cmd_rename_def cmd_mkdir_def cmd_symlink_def cmd_delete_def
        intro!: keeps_bind triple_ret split: if_splits)
next
  case (CallWrite p)
  show ?thesis
  proof (cases "h_ro h")
    case True
    then show ?thesis by (simp add: sftp_serve_def CallWrite Filewrite_def triple_ret)
  next
    case False
    then have no: "\<not> can h PermissionFileUpdate" "\<not> can h PermissionFileCreate"
      using assms CallWrite by (auto simp: needs_def)
    have "keeps (wlooks E) (Filewrite x k h p)"
      unfolding Filewrite_def if_not_P [OF False]
      by (intro keeps_bind [OF fresh_space_looks] triple_option triple_ret triple_if keeps_bind [OF on_proc_triple [OF fm_Stat_looks]])
         (auto simp: no split: sum.splits if_splits)
    then show ?thesis by (simp add: sftp_serve_def CallWrite) (intro keeps_bind triple_ret)
  qed
qed

section \<open>Properties\<close>

text \<open>C24: An SFTP request changes nothing on the disk, not even by opening a file for writing, unless
  the server is not read-only and the user holds the permission that the request needs: update
  for attributes and renames, create for directories and links, delete for removals, and one
  of update and create for writing a file. A suspended server, or one that is being installed,
  transferred or restored, permits nothing.\<close>

theorem sftp_change_needs_permission:
  assumes "h_ro h \<or> (\<forall>p \<in> set (needs c). \<not> can h p)"
  shows "changes (fst (snd (run_state (sftp_serve x k h c) s))) = changes (fst s)"
  by (rule triple_snd [OF unpermitted_looks [OF assms]]) simp

definition example_fm :: filesystem where
  "example_fm = \<lparr>fm_q = NewQuota (NewUnixFS ''/srv'' False) 100, fm_uid = 1, fm_gid = 1, fm_isTest = False\<rparr>"

definition example_handler :: "string list \<Rightarrow> env_cell sftp_handler" where
  "example_handler ps = \<lparr>h_server = simple_server Running, h_fs = example_fm, h_permissions = ps, h_ro = False\<rparr>"

definition example_env :: sftp_env where
  "example_env = \<lparr>sx_now = 0, sx_headroom = True, sx_sniff = (\<lambda>f. Inr ''text/plain''), sx_fuel = 9\<rparr>"

definition example_state :: "unit sftp_state" where
  "example_state = (start, \<lparr>lastLookupTime = 0, lookupInProgress = False, diskCheckInterval = 0\<rparr>, [])"

lemma reader_cannot: "\<not> can (example_handler [PermissionFileRead]) PermissionFileDelete"
  by (simp add: can_def example_handler_def)

theorem sftp_change_needs_permission_witness:
  "changes (fst (snd (run_state (sftp_serve example_env (quiet_kernel ''/srv'' 0x81A4 1) (example_handler [PermissionFileRead])
      (CallCmd \<lparr>Method = ''Remove'', Filepath = ''a'', Target = [], attr_mode = 0\<rparr>)) example_state))) = []"
proof -
  let ?c = "CallCmd \<lparr>Method = ''Remove'', Filepath = ''a'', Target = [], attr_mode = 0\<rparr>"
  have "h_ro (example_handler [PermissionFileRead]) \<or> (\<forall>p \<in> set (needs ?c). \<not> can (example_handler [PermissionFileRead]) p)"
    using reader_cannot by (simp add: needs_def)
  from sftp_change_needs_permission [OF this, of example_env "quiet_kernel ''/srv'' 0x81A4 1" example_state]
  show ?thesis by (simp add: example_state_def start_def changes_def)
qed

text \<open>C29: Whatever an SFTP client asks for in the course of a session, with whatever paths, link
  targets and permissions, and whatever the kernel answers, all system calls stay in the
  directory of the server.\<close>

theorem sftp_stays_in_sandbox:
  assumes "base_ok (q_fs (fm_q fm)) bs" "names_ok k" "\<forall>(h, c) \<in> set cs. h_fs h = fm"
    and "confined (q_fs (fm_q fm)) (events (fst s))"
  shows "confined (q_fs (fm_q fm)) (events (fst (snd (run_state (sftp_session x k cs) s))))"
proof -
  have "keeps (sfbox fm) (sftp_session x k cs)"
    using assms(3)
  proof (induction cs)
    case (Cons hc cs)
    obtain h c where "hc = (h, c)" by (rule prod.exhaust)
    then show ?case using Cons sftp_serve_sbox [of h bs k x c] assms(1,2) by (auto intro!: keeps_bind)
  qed (simp add: triple_ret)
  moreover have "sfbox fm s" using assms(4) by (simp add: sbox_def)
  ultimately have "sfbox fm (snd (run_state (sftp_session x k cs) s))" by (rule triple_snd)
  then show ?thesis by (simp add: sbox_def)
qed

lemma example_base: "base_ok (q_fs (fm_q example_fm)) [''srv'']"
  by (simp add: example_fm_def NewQuota_def base_ok_def NewUnixFS_def TrimSuffix_def HasSuffix_def render_def proper_def)

theorem sftp_stays_in_sandbox_witness:
  "confined (q_fs (fm_q example_fm)) (events (fst (snd (run_state
     (sftp_session example_env (quiet_kernel ''/etc'' 0x81A4 1)
        [(example_handler [''*''], CallWrite ''../../etc/passwd''),
         (example_handler [''*''], CallCmd \<lparr>Method = ''Rename'', Filepath = ''a'', Target = ''/../b'', attr_mode = 0\<rparr>)])
     example_state))))"
  by (rule sftp_stays_in_sandbox [OF example_base quiet_names_ok])
     (simp_all add: example_handler_def example_state_def start_def)

end
