(* ===== verification/Tasks.thy ===== *)
theory Tasks
  imports Server_Power
begin

text \<open>
  What the longer tasks of a server share (installation, backup, restoration, transfer): the server
  together with a journal of what the task did to the outside, in order.
\<close>

datatype task_event =
  Published string string
| ToldInstall bool bool
| CancelledSftp
| EnsuredDirectory
| WroteScript string
| PulledImage string
| CreatedContainer | StartedContainer | RemovedContainer
| StreamedOutput
| StartedScript "string list"
| RemovedTemp
| WroteLog
| ToldBackup string bool | ToldRestore string bool | ToldTransfer bool
| GeneratedArchive string | RemovedArchive
| SetSuspended bool
| RemovedFiles | ExtractedArchive | CreatedEnvironment | RemovedServer

abbreviation DaemonMessageEvent :: string where "DaemonMessageEvent \<equiv> ''daemon message''"
abbreviation InstallStartedEvent :: string where "InstallStartedEvent \<equiv> ''install started''"
abbreviation InstallCompletedEvent :: string where "InstallCompletedEvent \<equiv> ''install completed''"

record 'e tasks =
  srv :: "'e server"
  journal :: "task_event list"

definition tell :: "task_event \<Rightarrow> ('e tasks, unit) state" where
  "tell a = modify_st (\<lambda>t. t\<lparr>journal := journal t @ [a]\<rparr>)"

definition on_srv :: "('e server, 'r) state \<Rightarrow> ('e tasks, 'r) state" where
  "on_srv m = State (\<lambda>t. case run_state m (srv t) of (r, s) \<Rightarrow> (r, t\<lparr>srv := s\<rparr>))"

lemma run_tell [simp]: "run_state (tell a) t = ((), t\<lparr>journal := journal t @ [a]\<rparr>)"
  by (simp add: tell_def)

lemma run_on_srv [simp]:
  "run_state (on_srv m) t = (fst (run_state m (srv t)), t\<lparr>srv := snd (run_state m (srv t))\<rparr>)"
  by (simp add: on_srv_def split_beta)

text \<open>Events that do not reach the panel, and of those to the clients only messages of the daemon.\<close>

primrec inward :: "task_event \<Rightarrow> bool" where
  "inward (Published e _) \<longleftrightarrow> e = DaemonMessageEvent"
| "inward (ToldInstall _ _) \<longleftrightarrow> False"
| "inward CancelledSftp \<longleftrightarrow> True"
| "inward EnsuredDirectory \<longleftrightarrow> True"
| "inward (WroteScript _) \<longleftrightarrow> True"
| "inward (PulledImage _) \<longleftrightarrow> True"
| "inward CreatedContainer \<longleftrightarrow> True"
| "inward StartedContainer \<longleftrightarrow> True"
| "inward RemovedContainer \<longleftrightarrow> True"
| "inward StreamedOutput \<longleftrightarrow> True"
| "inward (StartedScript _) \<longleftrightarrow> True"
| "inward RemovedTemp \<longleftrightarrow> True"
| "inward WroteLog \<longleftrightarrow> True"
| "inward (ToldBackup _ _) \<longleftrightarrow> False"
| "inward (ToldRestore _ _) \<longleftrightarrow> False"
| "inward (ToldTransfer _) \<longleftrightarrow> False"
| "inward (GeneratedArchive _) \<longleftrightarrow> True"
| "inward RemovedArchive \<longleftrightarrow> True"
| "inward (SetSuspended _) \<longleftrightarrow> True"
| "inward RemovedFiles \<longleftrightarrow> True"
| "inward ExtractedArchive \<longleftrightarrow> True"
| "inward CreatedEnvironment \<longleftrightarrow> True"
| "inward RemovedServer \<longleftrightarrow> True"

definition does :: "(task_event \<Rightarrow> bool) \<Rightarrow> 'e tasks \<Rightarrow> 'e tasks \<Rightarrow> bool" where
  "does P t t' \<longleftrightarrow> srv t' = srv t \<and> (\<exists>ns. journal t' = journal t @ ns \<and> list_all P ns)"

lemma does_refl [simp]: "does P t t"
  by (simp add: does_def)

lemma tell_does: "P a \<Longrightarrow> keeps (does P t) (tell a)"
  by (auto simp: triple_def does_def)

end
