(* ===== verification/Installation.thy ===== *)
theory Installation
  imports Tasks Env_Settings
begin

text \<open>
  Installing a server: \<^verbatim>\<open>server/install.go\<close> and its two installers, a throwaway container
  (\<^verbatim>\<open>install_notwindows.go\<close>) and a native script (\<^verbatim>\<open>install_windows.go\<close>). What the client of an installer
  relies on is the locale \<open>installer\<close>; both installers interpret it.

  The answers of the panel, of the Docker engine and of the host's file system are parameters.
\<close>

section \<open>The installation lock\<close>

definition set_installing :: "bool \<Rightarrow> ('e tasks, unit) state" where
  "set_installing v = modify_st (\<lambda>t. t\<lparr>srv := (srv t)\<lparr>installing := Store v (installing (srv t))\<rparr>\<rparr>)"

lemma run_set_installing [simp]:
  "run_state (set_installing v) t = ((), t\<lparr>srv := (srv t)\<lparr>installing := Store v (installing (srv t))\<rparr>\<rparr>)"
  by (simp add: set_installing_def)

text \<open>The entry of both installers: \<^verbatim>\<open>SwapIf\<close> and its result.\<close>

definition take_install_lock :: "('e tasks, bool) state" where
  "take_install_lock = State (\<lambda>t. case SwapIf True (installing (srv t)) of
     (ok, ab) \<Rightarrow> (ok, t\<lparr>srv := (srv t)\<lparr>installing := ab\<rparr>\<rparr>))"

section \<open>What an installer is given\<close>

datatype 'x install_error =
  NoInstallLock | InstallFailed string | EggMismatch "'x power_error" | StopFailed 'x | SyncFailed' "'x power_error"

record script =
  ContainerImage :: string
  Entrypoint :: string
  Script :: string

fun to_lf :: "string \<Rightarrow> string" where
  "to_lf [] = []"
| "to_lf [c] = [c]"
| "to_lf (c # d # s) = (if c = CHR 0x0D \<and> d = CHR 0x0A then CHR 0x0A # to_lf s else c # to_lf (d # s))"

definition to_crlf :: "string \<Rightarrow> string" where
  "to_crlf s = concat (map (\<lambda>c. if c = CHR 0x0A then [CHR 0x0D, CHR 0x0A] else [c]) s)"

section \<open>The container installer\<close>

datatype engine_error = ContainerGone | EngineError string

datatype wait_reply = WaitError "string option" | WaitStatus

record docker_reply =
  d_client :: "string option"
  d_mkdir :: "string option"
  d_open :: "string option"
  d_copy :: "string option"
  d_pull :: "string option"
  d_images :: "string + string list list"
  d_progress :: "string option"
  d_remove :: "engine_error option"
  d_ensure :: "string option"
  d_create :: "string option"
  d_start :: "string option"
  d_wait :: wait_reply
  d_logs :: "engine_error option"
  d_log_open :: "string option"
  d_header :: "string option"
  d_log_copy :: "string option"

definition docker_writeScript :: "docker_reply \<Rightarrow> script \<Rightarrow> ('e tasks, string option) state" where
  "docker_writeScript d s =
     (case d_mkdir d of
        Some e \<Rightarrow> ret (Some e)
      | None \<Rightarrow>
          (case d_open d of
             Some e \<Rightarrow> ret (Some e)
           | None \<Rightarrow> do { tell (WroteScript (to_lf (Script s))); ret (d_copy d) }))"

definition pullInstallationImage :: "docker_reply \<Rightarrow> script \<Rightarrow> ('e tasks, string option) state" where
  "pullInstallationImage d s = do {
     tell (PulledImage (ContainerImage s));
     ret (case d_pull d of
            Some err \<Rightarrow>
              (case d_images d of
                 Inl ierr \<Rightarrow> Some ierr
               | Inr images \<Rightarrow> if list_ex (\<lambda>tags. ContainerImage s \<in> set tags) images then None else Some err)
          | None \<Rightarrow> d_progress d)
   }"

definition RemoveContainer :: "docker_reply \<Rightarrow> ('e tasks, string option) state" where
  "RemoveContainer d = do {
     tell RemovedContainer;
     ret (case d_remove d of Some (EngineError e) \<Rightarrow> Some e | _ \<Rightarrow> None)
   }"

definition BeforeExecute :: "docker_reply \<Rightarrow> script \<Rightarrow> ('e tasks, string option) state" where
  "BeforeExecute d s = do {
     e1 \<leftarrow> docker_writeScript d s;
     (case e1 of
        Some e \<Rightarrow> ret (Some e)
      | None \<Rightarrow> do {
          e2 \<leftarrow> pullInstallationImage d s;
          (case e2 of Some e \<Rightarrow> ret (Some e) | None \<Rightarrow> RemoveContainer d)
        })
   }"

text \<open>The deferred removal of the temporary directory comes last on every path after it.\<close>

definition ip_Execute :: "docker_reply \<Rightarrow> ('e tasks, string option) state" where
  "ip_Execute d = do {
     tell EnsuredDirectory;
     (case d_ensure d of
        Some e \<Rightarrow> ret (Some e)
      | None \<Rightarrow>
          (case d_create d of
             Some e \<Rightarrow> do { tell RemovedTemp; ret (Some e) }
           | None \<Rightarrow> do {
               tell CreatedContainer;
               (case d_start d of
                  Some e \<Rightarrow> do { tell RemovedTemp; ret (Some e) }
                | None \<Rightarrow> do {
                    tell StartedContainer;
                    tell StreamedOutput;
                    (case d_wait d of
                       WaitError (Some e) \<Rightarrow> do { tell RemovedTemp; ret (Some e) }
                     | WaitError None \<Rightarrow> do {
                         tell (Published DaemonMessageEvent ''Installation process completed.'');
                         tell RemovedTemp;
                         ret None
                       }
                     | WaitStatus \<Rightarrow> do { tell RemovedTemp; ret None })
                  })
             }))
   }"

text \<open>
  \<^verbatim>\<open>AfterExecute\<close>. A container that is gone gives no reader, and copying from it panics.
\<close>

definition AfterExecute :: "docker_reply \<Rightarrow> ('e tasks, string option outcome) state" where
  "AfterExecute d =
     (case d_logs d of
        Some (EngineError e) \<Rightarrow> do { _ \<leftarrow> RemoveContainer d; ret (Return (Some e)) }
      | logs \<Rightarrow>
          (case d_log_open d of
             Some e \<Rightarrow> do { _ \<leftarrow> RemoveContainer d; ret (Return (Some e)) }
           | None \<Rightarrow> do {
               tell WroteLog;
               _ \<leftarrow> RemoveContainer d;
               ret (case d_header d of
                      Some e \<Rightarrow> Return (Some e)
                    | None \<Rightarrow> if logs = Some ContainerGone then Panic ''invalid memory address or nil pointer dereference''
                              else Return (d_log_copy d))
             }))"

definition docker_body :: "docker_reply \<Rightarrow> script \<Rightarrow> ('e tasks, 'x install_error option outcome) state" where
  "docker_body d s = do {
     e1 \<leftarrow> BeforeExecute d s;
     (case e1 of
        Some e \<Rightarrow> ret (Return (Some (InstallFailed e)))
      | None \<Rightarrow> do {
          e2 \<leftarrow> ip_Execute d;
          (case e2 of
             Some e \<Rightarrow> do { _ \<leftarrow> RemoveContainer d; ret (Return (Some (InstallFailed e))) }
           | None \<Rightarrow> do {
               r \<leftarrow> AfterExecute d;
               ret (case r of Panic m \<Rightarrow> Panic m | Return _ \<Rightarrow> Return None)
             })
        })
   }"

text \<open>What both \<^verbatim>\<open>Run\<close> methods have around their body.\<close>

definition with_install_lock :: "('e tasks, 'x install_error option outcome) state \<Rightarrow> ('e tasks, 'x install_error option outcome) state" where
  "with_install_lock body = do {
     ok \<leftarrow> take_install_lock;
     if \<not> ok then ret (Return (Some NoInstallLock))
     else do {
       tell CancelledSftp;
       r \<leftarrow> body;
       set_installing False;
       ret r
     }
   }"

definition docker_Run :: "docker_reply \<Rightarrow> script \<Rightarrow> ('e tasks, 'x install_error option outcome) state" where
  "docker_Run d s = with_install_lock (docker_body d s)"

definition resourceLimits :: "limits \<Rightarrow> limits \<Rightarrow> limits" where
  "resourceLimits installer build =
     (let b = (if MemoryLimit build < MemoryLimit installer then build\<lparr>MemoryLimit := MemoryLimit installer\<rparr> else build)
      in if CpuLimit installer = 0 then b\<lparr>CpuLimit := 0\<rparr>
         else if CpuLimit b \<noteq> 0 \<and> CpuLimit b < CpuLimit installer then b\<lparr>CpuLimit := CpuLimit installer\<rparr>
         else b)"

section \<open>The native installer\<close>

datatype script_exit = ExitZero | ExitStatus int | WaitFailed string

record win_reply =
  ps_ensure :: "string option"
  ps_mkdir :: "string option"
  ps_write :: "string option"
  ps_pipe :: "string option"
  ps_start :: "string option"
  ps_exit :: script_exit
  ps_log :: "string option"
  ps_environ :: "string list"
  ps_vars :: "string list"

definition mergeInstallEnv :: "string list \<Rightarrow> string list \<Rightarrow> string list" where
  "mergeInstallEnv environ eggVars =
     (let (byKey, order) = fold env_put (environ @ eggVars) (Map.empty, []) in map (\<lambda>k. the (byKey k)) order)"

definition win_writeScript :: "win_reply \<Rightarrow> script \<Rightarrow> ('e tasks, string option) state" where
  "win_writeScript w s =
     (case ps_mkdir w of
        Some e \<Rightarrow> ret (Some e)
      | None \<Rightarrow> do { tell (WroteScript (to_crlf (to_lf (Script s)))); ret (ps_write w) })"

text \<open>
  The part of \<^verbatim>\<open>Run\<close> after the script has been written, with the deferred removal of the temporary
  directory at its end. A script that exits with an error status still counts as installed.
\<close>

definition run_script :: "win_reply \<Rightarrow> ('e tasks, string option) state" where
  "run_script w = do {
     tell (Published DaemonMessageEvent ''Starting installation process, this could take a few minutes...'');
     r \<leftarrow> (case ps_pipe w of
        Some e \<Rightarrow> ret (Some e)
      | None \<Rightarrow>
          (case ps_start w of
             Some e \<Rightarrow> ret (Some e)
           | None \<Rightarrow> do {
               tell (StartedScript (mergeInstallEnv (ps_environ w) (ps_vars w)));
               tell StreamedOutput;
               (case ps_exit w of
                  WaitFailed e \<Rightarrow> ret (Some e)
                | _ \<Rightarrow> do {
                    tell (Published DaemonMessageEvent ''Installation process completed.'');
                    tell WroteLog;
                    ret None
                  })
             }));
     tell RemovedTemp;
     ret r
   }"

definition win_body :: "win_reply \<Rightarrow> script \<Rightarrow> ('e tasks, 'x install_error option outcome) state" where
  "win_body w s = do {
     tell EnsuredDirectory;
     (case ps_ensure w of
        Some e \<Rightarrow> ret (Return (Some (InstallFailed e)))
      | None \<Rightarrow> do {
          e1 \<leftarrow> win_writeScript w s;
          (case e1 of
             Some e \<Rightarrow> ret (Return (Some (InstallFailed e)))
           | None \<Rightarrow> do { r \<leftarrow> run_script w; ret (Return (map_option InstallFailed r)) })
        })
   }"

definition win_Run :: "win_reply \<Rightarrow> script \<Rightarrow> ('e tasks, 'x install_error option outcome) state" where
  "win_Run w s = with_install_lock (win_body w s)"

section \<open>Installing\<close>

text \<open>The node is built for one platform; \<^verbatim>\<open>NewInstallationProcess\<close> of that platform gives the installer.\<close>

datatype node_reply = LinuxNode docker_reply | WindowsNode win_reply

primrec on_windows :: "node_reply \<Rightarrow> bool" where
  "on_windows (LinuxNode _) = False"
| "on_windows (WindowsNode _) = True"

primrec NewInstallationProcess ::
  "node_reply \<Rightarrow> script \<Rightarrow> string + ('e tasks, 'x install_error option outcome) state" where
  "NewInstallationProcess (LinuxNode d) s = (case d_client d of Some e \<Rightarrow> Inl e | None \<Rightarrow> Inr (docker_Run d s))"
| "NewInstallationProcess (WindowsNode w) s = Inr (win_Run w s)"

record install_reply =
  i_node :: node_reply
  i_skip :: bool
  i_script :: "string + script"
  i_world :: world_reply

definition internalInstall :: "install_reply \<Rightarrow> ('e tasks, 'x install_error option outcome) state" where
  "internalInstall i = do {
     img \<leftarrow> read_st (\<lambda>t. egg_image (cfg (srv t)));
     (case assertEggPlatform (on_windows (i_node i)) img of
        Some e \<Rightarrow> ret (Return (Some (EggMismatch e)))
      | None \<Rightarrow>
          (case i_script i of
             Inl e \<Rightarrow> ret (Return (Some (InstallFailed e)))
           | Inr s \<Rightarrow>
               (case NewInstallationProcess (i_node i) s of
                  Inl e \<Rightarrow> ret (Return (Some (InstallFailed e)))
                | Inr run \<Rightarrow> run)))
   }"

definition install :: "install_reply \<Rightarrow> bool \<Rightarrow> ('a env_cell_scheme tasks, 'x install_error option outcome) state" where
  "install i reinstall = do {
     r \<leftarrow> (if i_skip i then ret (Return None)
          else do { tell (Published InstallStartedEvent []); internalInstall i });
     (case r of
        Panic m \<Rightarrow> ret (Panic m)
      | Return err \<Rightarrow> do {
          tell (ToldInstall (err = None) reinstall);
          on_srv (in_env (enter_state Offline));
          tell (Published InstallCompletedEvent []);
          ret (Return err)
        })
   }"

definition Install :: "install_reply \<Rightarrow> ('a env_cell_scheme tasks, 'x install_error option outcome) state" where
  "Install i = install i False"

definition Reinstall ::
  "('a env_cell_scheme, 'x) backend \<Rightarrow> install_reply \<Rightarrow> ('a env_cell_scheme tasks, 'x install_error option outcome) state" where
  "Reinstall b i = do {
     e \<leftarrow> read_st (\<lambda>t. environment (srv t));
     stopped \<leftarrow> (if b_state b e \<noteq> Offline then on_srv (in_env (b_wait_for_stop b)) else ret None);
     (case stopped of
        Some e \<Rightarrow> ret (Return (Some (StopFailed e)))
      | None \<Rightarrow> do {
          synced \<leftarrow> on_srv (Sync b (i_world i));
          (case synced of
             Some e \<Rightarrow> ret (Return (Some (SyncFailed' e)))
           | None \<Rightarrow> install i True)
        })
   }"

section \<open>The contract of an installer\<close>

lemma triple_wait_reply:
  "(\<And>e. x = WaitError e \<Longrightarrow> triple P (f e) Q) \<Longrightarrow> (x = WaitStatus \<Longrightarrow> triple P m Q) \<Longrightarrow>
   triple P (case x of WaitError e \<Rightarrow> f e | WaitStatus \<Rightarrow> m) Q"
  by (cases x) simp_all

lemma triple_script_exit:
  "(x = ExitZero \<Longrightarrow> triple P m Q) \<Longrightarrow> (\<And>n. x = ExitStatus n \<Longrightarrow> triple P (f n) Q) \<Longrightarrow>
   (\<And>e. x = WaitFailed e \<Longrightarrow> triple P (g e) Q) \<Longrightarrow>
   triple P (case x of ExitZero \<Rightarrow> m | ExitStatus n \<Rightarrow> f n | WaitFailed e \<Rightarrow> g e) Q"
  by (cases x) simp_all

lemma triple_engine_error:
  "(x = ContainerGone \<Longrightarrow> triple P m Q) \<Longrightarrow> (\<And>e. x = EngineError e \<Longrightarrow> triple P (f e) Q) \<Longrightarrow>
   triple P (case x of ContainerGone \<Rightarrow> m | EngineError e \<Rightarrow> f e) Q"
  by (cases x) simp_all

lemmas does_intros = keeps_bind triple_ret triple_option triple_sum triple_if triple_wait_reply triple_script_exit
  triple_engine_error tell_does

locale installer =
  fixes run :: "('e tasks, 'x install_error option outcome) state"
  assumes held: "Load (installing (srv t)) \<Longrightarrow> run_state run t = (Return (Some NoInstallLock), t)"
    and free: "\<not> Load (installing (srv t)) \<Longrightarrow> run_state run t = (r, t') \<Longrightarrow> does inward t t'"
begin

lemma run_inward: "run_state run t = (r, t') \<Longrightarrow> does inward t t'"
  using held [of t] free [of t r t'] by (cases "Load (installing (srv t))") auto

lemma run_keeps_lock: "run_state run t = (r, t') \<Longrightarrow> installing (srv t') = installing (srv t)"
  using run_inward by (simp add: does_def)

end

text \<open>Whatever happens inside, the lock is what it was, and a lock that is held keeps the body out.\<close>

lemma with_install_lock_held:
  "Load (installing (srv t)) \<Longrightarrow> run_state (with_install_lock body) t = (Return (Some NoInstallLock), t)"
  by (simp add: with_install_lock_def take_install_lock_def SwapIf_def Load_def)

lemma with_install_lock_free:
  assumes "\<And>u. keeps (does inward u) body"
    and "\<not> Load (installing (srv t))" "run_state (with_install_lock body) t = (r, t')"
  shows "does inward t t'"
proof -
  let ?u = "t\<lparr>srv := (srv t)\<lparr>installing := Store True (installing (srv t))\<rparr>, journal := journal t @ [CancelledSftp]\<rparr>"
  obtain r' v where v: "run_state body ?u = (r', v)" by (rule prod.exhaust)
  have "does inward ?u v" by (rule tripleD [OF assms(1) does_refl v])
  moreover have "t' = v\<lparr>srv := (srv v)\<lparr>installing := Store False (installing (srv v))\<rparr>\<rparr>"
    using assms(2,3) v by (simp add: with_install_lock_def take_install_lock_def SwapIf_spec)
  moreover have "Store False (Store True (installing (srv t))) = installing (srv t)"
    using assms(2) by (simp add: Store_def Load_def)
  ultimately show ?thesis by (auto simp: does_def)
qed

lemma RemoveContainer_inward: "keeps (does inward u) (RemoveContainer d)"
  unfolding RemoveContainer_def by (intro does_intros) simp_all

lemma BeforeExecute_inward: "keeps (does inward u) (BeforeExecute d s)"
  unfolding BeforeExecute_def docker_writeScript_def pullInstallationImage_def
  by (intro does_intros RemoveContainer_inward) simp_all

lemma ip_Execute_inward: "keeps (does inward u) (ip_Execute d)"
  unfolding ip_Execute_def by (intro does_intros) simp_all

lemma AfterExecute_inward: "keeps (does inward u) (AfterExecute d)"
  unfolding AfterExecute_def by (intro does_intros RemoveContainer_inward) simp_all

lemma docker_body_inward: "keeps (does inward u) (docker_body d s)"
  unfolding docker_body_def
  by (intro does_intros BeforeExecute_inward ip_Execute_inward AfterExecute_inward RemoveContainer_inward) simp_all

lemma win_body_inward: "keeps (does inward u) (win_body w s)"
  unfolding win_body_def win_writeScript_def run_script_def
  by (intro does_intros) simp_all

interpretation docker_installer: installer "docker_Run d s" for d s
  by unfold_locales
     (auto simp: docker_Run_def with_install_lock_held intro: with_install_lock_free [OF docker_body_inward])

interpretation win_installer: installer "win_Run w s" for w s
  by unfold_locales
     (auto simp: win_Run_def with_install_lock_held intro: with_install_lock_free [OF win_body_inward])

lemma NewInstallationProcess_inward:
  "NewInstallationProcess n s = Inr run \<Longrightarrow> run_state run t = (r, t') \<Longrightarrow> does inward t t'"
  by (cases n) (auto split: option.splits intro: docker_installer.run_inward win_installer.run_inward)

lemma internalInstall_inward: "run_state (internalInstall i) t = (r, t') \<Longrightarrow> does inward t t'"
  by (auto simp: internalInstall_def intro: NewInstallationProcess_inward split: option.splits sum.splits)

section \<open>What an installation leaves behind\<close>

text \<open>
  The installer container and the temporary directory, as far as the journal tells: a removal that
  was asked for counts.
\<close>

fun container_left :: "task_event list \<Rightarrow> bool \<Rightarrow> bool" where
  "container_left [] b = b"
| "container_left (CreatedContainer # es) b = container_left es True"
| "container_left (RemovedContainer # es) b = container_left es False"
| "container_left (_ # es) b = container_left es b"

fun temp_left :: "task_event list \<Rightarrow> bool \<Rightarrow> bool" where
  "temp_left [] b = b"
| "temp_left (WroteScript _ # es) b = temp_left es True"
| "temp_left (RemovedTemp # es) b = temp_left es False"
| "temp_left (_ # es) b = temp_left es b"

lemma container_left_append: "container_left (xs @ ys) b = container_left ys (container_left xs b)"
  by (induction xs b rule: container_left.induct) simp_all

lemma temp_left_append: "temp_left (xs @ ys) b = temp_left ys (temp_left xs b)"
  by (induction xs b rule: temp_left.induct) simp_all

definition tidy :: "'e tasks \<Rightarrow> bool" where
  "tidy t \<longleftrightarrow> \<not> container_left (journal t) False"

lemma tell_tidy: "a \<noteq> CreatedContainer \<Longrightarrow> keeps tidy (tell a)"
  by (cases a) (auto simp: triple_def tidy_def container_left_append)

lemma RemoveContainer_tidy: "triple P (RemoveContainer d) (\<lambda>_. tidy)"
  by (auto simp: triple_def RemoveContainer_def tidy_def container_left_append)

lemmas tidy_intros = keeps_bind triple_ret triple_option triple_sum triple_if triple_wait_reply triple_script_exit
  triple_engine_error tell_tidy RemoveContainer_tidy

lemma BeforeExecute_tidy: "keeps tidy (BeforeExecute d s)"
  unfolding BeforeExecute_def docker_writeScript_def pullInstallationImage_def
  by (intro tidy_intros) simp_all

text \<open>The container may be left by \<^verbatim>\<open>Execute\<close>, but whoever comes next removes it.\<close>

lemma AfterExecute_tidy: "triple P (AfterExecute d) (\<lambda>_. tidy)"
proof -
  have k: "keeps tidy (ret (a :: string option outcome))" for a by (rule triple_ret)
  show ?thesis
    unfolding AfterExecute_def
    by (intro triple_option triple_engine_error triple_bind [OF RemoveContainer_tidy] k)
       (rule triple_bind [where R = "\<lambda>_ _. True"], simp add: triple_def, rule triple_bind [OF RemoveContainer_tidy], rule k)+
qed

lemma docker_body_tidy: "keeps tidy (docker_body d s)"
proof -
  have k: "keeps tidy (ret (a :: 'x install_error option outcome))" for a by (rule triple_ret)
  have e: "triple tidy (ip_Execute d) (\<lambda>_ _. True)" by (simp add: triple_def split_beta)
  show ?thesis
    unfolding docker_body_def
    by (intro triple_bind [OF BeforeExecute_tidy] triple_option k triple_bind [OF e] triple_bind [OF RemoveContainer_tidy]
        triple_bind [OF AfterExecute_tidy])
qed

lemma with_install_lock_tidy: "keeps tidy body \<Longrightarrow> keeps tidy (with_install_lock body)"
  unfolding with_install_lock_def
  by (intro keeps_bind triple_if triple_ret tell_tidy)
     (auto simp: triple_def tidy_def take_install_lock_def split: prod.splits)

lemma install_process_tidy: "NewInstallationProcess n s = Inr run \<Longrightarrow> keeps tidy run"
proof (cases n)
  case (WindowsNode w)
  have "keeps tidy (win_body w s)"
    unfolding win_body_def win_writeScript_def run_script_def by (intro tidy_intros) simp_all
  moreover assume "NewInstallationProcess n s = Inr run"
  ultimately show ?thesis using WindowsNode by (auto simp: win_Run_def intro: with_install_lock_tidy)
qed (auto simp: docker_Run_def intro: with_install_lock_tidy docker_body_tidy split: option.splits)

lemma internalInstall_tidy: "keeps tidy (internalInstall i)"
  unfolding internalInstall_def
  by (intro keeps_bind read_keeps triple_option triple_sum triple_ret install_process_tidy) auto

lemma on_env_tidy: "keeps tidy (on_srv m)"
  by (simp add: triple_def tidy_def)

section \<open>Scripts and limits\<close>

text \<open>Converting a script for Windows loses nothing, and converting back gives the lines of the original.\<close>

lemma to_lf_to_crlf: "to_lf (to_crlf s) = s"
proof (induction s)
  case (Cons c s)
  then show ?case by (cases s) (auto simp: to_crlf_def)
qed (simp add: to_crlf_def)

text \<open>An installation never gets less memory than the server or the installer limit, and an unlimited
  processor share of either stays unlimited.\<close>

lemma resourceLimits_memory: "MemoryLimit (resourceLimits l b) = max (MemoryLimit b) (MemoryLimit l)"
  by (simp add: resourceLimits_def Let_def max_def)

lemma resourceLimits_cpu:
  "CpuLimit (resourceLimits l b) = (if CpuLimit l = 0 \<or> CpuLimit b = 0 then 0 else max (CpuLimit b) (CpuLimit l))"
  by (simp add: resourceLimits_def Let_def max_def)

section \<open>Properties\<close>


text \<open>Whatever fails during an installation, even when the daemon panics, no installer container is
  left without a removal having been requested.\<close>

theorem install_removes_container:
  assumes "\<not> container_left (journal t) False"
  shows "\<not> container_left (journal (snd (run_state (install i reinstall) t))) False"
proof -
  have "keeps tidy (install i reinstall)"
    unfolding install_def
    by (intro keeps_bind triple_if triple_ret tell_tidy internalInstall_tidy)
       (auto split: outcome.splits intro!: keeps_bind triple_ret tell_tidy on_env_tidy)
  from triple_snd [OF this, of t] show ?thesis using assms by (simp add: tidy_def)
qed

definition quiet_docker :: docker_reply where
  "quiet_docker =
     \<lparr>d_client = None, d_mkdir = None, d_open = None, d_copy = None, d_pull = None, d_images = Inr [], d_progress = None,
      d_remove = None, d_ensure = None, d_create = None, d_start = None, d_wait = WaitStatus, d_logs = None,
      d_log_open = None, d_header = None, d_log_copy = None\<rparr>"

definition example_script :: script where
  "example_script = \<lparr>ContainerImage = ''alpine'', Entrypoint = ''ash'', Script = ''true''\<rparr>"

definition example_install :: "docker_reply \<Rightarrow> install_reply" where
  "example_install d =
     \<lparr>i_node = LinuxNode d, i_skip = False, i_script = Inr example_script,
      i_world = \<lparr>r_sync = SyncNotFound, r_space = True, r_check_permissions = False, r_chown = None, r_windows = False\<rparr>\<rparr>"

definition example_tasks :: "env_cell tasks" where
  "example_tasks =
     \<lparr>srv = server_New \<lparr>suspended = False, egg_image = [], build_disk_space = 0, crash_detection = False\<rparr>
              \<lparr>st = Starting, published = []\<rparr>, journal = []\<rparr>"

lemma empty_image: "assertEggPlatform False [] = None"
  by (simp add: assertEggPlatform_def isWindowsImage_def HasPrefix_def TrimPrefix_def ToLower_def TrimSpace_def)

lemmas install_run_defs = install_def internalInstall_def docker_Run_def with_install_lock_def take_install_lock_def docker_body_def
  BeforeExecute_def docker_writeScript_def pullInstallationImage_def RemoveContainer_def ip_Execute_def AfterExecute_def
  in_env_def SwapIf_def server_New_def NewAtomic_def


theorem install_removes_container_witness:
  "\<not> container_left (journal (snd (run_state
      (install (example_install (quiet_docker\<lparr>d_logs := Some ContainerGone\<rparr>)) True :: (env_cell tasks, unit install_error option outcome) state)
      example_tasks))) False"
  by (rule install_removes_container) (simp add: example_tasks_def)

text \<open>A second installation that is requested while one is running does not disturb the files, but it
  reports a failed installation to the panel, announces the end of the installation to the clients
  and marks the server offline, while the first one still runs.\<close>

theorem second_install_reports_failure:
  assumes "Load (installing (srv t))" "\<not> i_skip i" "i_script i = Inr s" "\<forall>d. i_node i = LinuxNode d \<longrightarrow> d_client d = None"
    and "assertEggPlatform (on_windows (i_node i)) (egg_image (cfg (srv t))) = (None :: 'x power_error option)"
    and "run_state (install i reinstall) t = ((r :: 'x install_error option outcome), t')"
  shows "r = Return (Some NoInstallLock) \<and> Load (installing (srv t')) \<and> st (environment (srv t')) = Offline \<and>
    journal t' = journal t @ [Published InstallStartedEvent [], ToldInstall False reinstall, Published InstallCompletedEvent []]"
proof -
  obtain run where run: "NewInstallationProcess (i_node i) s = Inr (run :: ('a env_cell_scheme tasks, 'x install_error option outcome) state)"
    using assms(4) by (cases "i_node i") auto
  have "run_state run u = (Return (Some NoInstallLock), u)" if "Load (installing (srv u))" for u
    using run that docker_installer.held win_installer.held by (cases "i_node i") (auto split: option.splits)
  then show ?thesis
    using assms run by (auto simp: install_def internalInstall_def in_env_def)
qed

theorem second_install_reports_failure_witness:
  "ToldInstall False True \<in> set (journal (snd (run_state
     (install (example_install quiet_docker) True :: (env_cell tasks, unit install_error option outcome) state)
     (example_tasks\<lparr>srv := (srv example_tasks)\<lparr>installing := NewAtomic True\<rparr>\<rparr>))))"
proof -
  let ?t = "example_tasks\<lparr>srv := (srv example_tasks)\<lparr>installing := NewAtomic True\<rparr>\<rparr>"
  let ?m = "install (example_install quiet_docker) True :: (env_cell tasks, unit install_error option outcome) state"
  have "run_state ?m ?t = (fst (run_state ?m ?t), snd (run_state ?m ?t))" by simp
  from second_install_reports_failure [OF _ _ _ _ _ this]
  show ?thesis by (simp add: example_install_def quiet_docker_def example_tasks_def server_New_def empty_image)
qed

text \<open>Two more ways an installation ends badly: the daemon panics when the container is gone before its
  logs are read, and the script stays on the disk when the image cannot be pulled.\<close>

lemma missing_logs_panic:
  "fst (run_state (install (example_install (quiet_docker\<lparr>d_logs := Some ContainerGone\<rparr>)) False
      :: (env_cell tasks, unit install_error option outcome) state) example_tasks)
   = Panic ''invalid memory address or nil pointer dereference''"
  by (simp add: example_install_def example_tasks_def quiet_docker_def install_run_defs empty_image)

lemma failed_pull_leaves_script:
  "temp_left (journal (snd (run_state (install (example_install (quiet_docker\<lparr>d_pull := Some ''denied''\<rparr>)) False
      :: (env_cell tasks, unit install_error option outcome) state) example_tasks))) False"
  by (simp add: example_install_def example_tasks_def quiet_docker_def install_run_defs empty_image)

end
