(* ===== verification/Net_Guard.thy ===== *)
theory Net_Guard
  imports Walk
begin

text \<open>
  The guards against requests to the node's own network: the download of a remote file
  (\<^verbatim>\<open>router/downloader/downloader.go\<close>) and of a backup that is restored
  (\<^verbatim>\<open>router/router_server_backup.go\<close>), with the address predicates of \<^verbatim>\<open>net\<close> and \<^verbatim>\<open>net/netip\<close> that they
  use, and the table of running downloads. The prefixes of the sources are shown to be ranges of
  addresses, so that the guards can be compared with each other and with the list of special
  purpose networks.
\<close>

unbundle bit_operations_syntax

section \<open>Addresses\<close>

text \<open>A \<^verbatim>\<open>net.IP\<close> is a slice of 4 or 16 bytes; a slice of another length is no address.\<close>

datatype net_ip = IP4 "32 word" | IP16 "128 word" | IPInvalid

text \<open>A \<^verbatim>\<open>netip.Addr\<close>, without zones.\<close>

datatype addr = V4 "32 word" | V6 "128 word"

definition mapped4 :: "128 word \<Rightarrow> bool" where
  "mapped4 w \<longleftrightarrow> drop_bit 32 w = 0xFFFF"

fun To4 :: "net_ip \<Rightarrow> 32 word option" where
  "To4 (IP4 w) = Some w"
| "To4 (IP16 w) = (if mapped4 w then Some (ucast w) else None)"
| "To4 IPInvalid = None"

fun AddrFromSlice :: "net_ip \<Rightarrow> addr option" where
  "AddrFromSlice (IP4 w) = Some (V4 w)"
| "AddrFromSlice (IP16 w) = Some (V6 w)"
| "AddrFromSlice IPInvalid = None"

fun Unmap :: "addr \<Rightarrow> addr" where
  "Unmap (V4 w) = V4 w"
| "Unmap (V6 w) = (if mapped4 w then V4 (ucast w) else V6 w)"

text \<open>Prefixes: the first bits of the address are those of the network.\<close>

definition in4 :: "32 word \<Rightarrow> nat \<Rightarrow> 32 word \<Rightarrow> bool" where
  "in4 net bits w \<longleftrightarrow> drop_bit (32 - bits) w = drop_bit (32 - bits) net"

definition in6 :: "128 word \<Rightarrow> nat \<Rightarrow> 128 word \<Rightarrow> bool" where
  "in6 net bits w \<longleftrightarrow> drop_bit (128 - bits) w = drop_bit (128 - bits) net"

datatype prefix = P4 "32 word" nat | P6 "128 word" nat

text \<open>\<^verbatim>\<open>netip.Prefix.Contains\<close>: an address of the other family is never contained.\<close>

fun Prefix_Contains :: "prefix \<Rightarrow> addr \<Rightarrow> bool" where
  "Prefix_Contains (P4 n b) (V4 w) = in4 n b w"
| "Prefix_Contains (P6 n b) (V6 w) = in6 n b w"
| "Prefix_Contains _ _ = False"

text \<open>\<^verbatim>\<open>net.IPNet.Contains\<close>: a mapped address counts as one of four bytes.\<close>

definition IPNet_Contains :: "prefix \<Rightarrow> net_ip \<Rightarrow> bool" where
  "IPNet_Contains p ip =
     (case To4 ip of
        Some w \<Rightarrow> (case p of P4 n b \<Rightarrow> in4 n b w | P6 _ _ \<Rightarrow> False)
      | None \<Rightarrow> (case (p, ip) of (P6 n b, IP16 w) \<Rightarrow> in6 n b w | _ \<Rightarrow> False))"

subsection \<open>Predicates of \<^verbatim>\<open>net.IP\<close>\<close>

definition ip_IsLoopback :: "net_ip \<Rightarrow> bool" where
  "ip_IsLoopback ip =
     (case To4 ip of Some w \<Rightarrow> in4 0x7F000000 8 w | None \<Rightarrow> (case ip of IP16 w \<Rightarrow> w = 1 | _ \<Rightarrow> False))"

definition ip_IsLinkLocalUnicast :: "net_ip \<Rightarrow> bool" where
  "ip_IsLinkLocalUnicast ip =
     (case To4 ip of
        Some w \<Rightarrow> in4 0xA9FE0000 16 w
      | None \<Rightarrow> (case ip of IP16 w \<Rightarrow> in6 (push_bit 112 0xFE80) 10 w | _ \<Rightarrow> False))"

definition ip_IsLinkLocalMulticast :: "net_ip \<Rightarrow> bool" where
  "ip_IsLinkLocalMulticast ip =
     (case To4 ip of
        Some w \<Rightarrow> in4 0xE0000000 24 w
      | None \<Rightarrow> (case ip of IP16 w \<Rightarrow> drop_bit 120 w = 0xFF \<and> drop_bit 112 w AND 0x0F = 0x02 | _ \<Rightarrow> False))"

definition ip_IsInterfaceLocalMulticast :: "net_ip \<Rightarrow> bool" where
  "ip_IsInterfaceLocalMulticast ip =
     (case ip of IP16 w \<Rightarrow> drop_bit 120 w = 0xFF \<and> drop_bit 112 w AND 0x0F = 0x01 | _ \<Rightarrow> False)"

subsection \<open>Predicates of \<^verbatim>\<open>netip.Addr\<close>\<close>

fun IsLoopback :: "addr \<Rightarrow> bool" where
  "IsLoopback (V4 w) = in4 0x7F000000 8 w"
| "IsLoopback (V6 w) = (if mapped4 w then in4 0x7F000000 8 (ucast w) else w = 1)"

fun IsMulticast :: "addr \<Rightarrow> bool" where
  "IsMulticast (V4 w) = in4 0xE0000000 4 w"
| "IsMulticast (V6 w) = (if mapped4 w then in4 0xE0000000 4 (ucast w) else drop_bit 120 w = 0xFF)"

fun IsLinkLocalUnicast :: "addr \<Rightarrow> bool" where
  "IsLinkLocalUnicast (V4 w) = in4 0xA9FE0000 16 w"
| "IsLinkLocalUnicast (V6 w) =
     (if mapped4 w then in4 0xA9FE0000 16 (ucast w) else in6 (push_bit 112 0xFE80) 10 w)"

fun IsPrivate :: "addr \<Rightarrow> bool" where
  "IsPrivate (V4 w) = (in4 0x0A000000 8 w \<or> in4 0xAC100000 12 w \<or> in4 0xC0A80000 16 w)"
| "IsPrivate (V6 w) =
     (if mapped4 w then in4 0x0A000000 8 (ucast w) \<or> in4 0xAC100000 12 (ucast w) \<or> in4 0xC0A80000 16 (ucast w)
      else in6 (push_bit 120 0xFC) 7 w)"

definition IsGlobalUnicast :: "addr \<Rightarrow> bool" where
  "IsGlobalUnicast a \<longleftrightarrow>
     Unmap a \<noteq> V4 0 \<and> Unmap a \<noteq> V4 0xFFFFFFFF \<and> a \<noteq> V6 0 \<and>
     \<not> IsLoopback a \<and> \<not> IsMulticast a \<and> \<not> IsLinkLocalUnicast a"

section \<open>Restoring a backup\<close>

definition blockedBackupRestorePrefixes :: "prefix list" where
  "blockedBackupRestorePrefixes = [P4 0x64400000 10, P4 0xC6120000 15]"

definition isExplicitlyBlockedBackupRestoreIP :: "addr \<Rightarrow> bool" where
  "isExplicitlyBlockedBackupRestoreIP a = list_ex (\<lambda>p. Prefix_Contains p a) blockedBackupRestorePrefixes"

text \<open>
  The allowlist of the configuration, with the parsers of \<^verbatim>\<open>netip\<close> as parameters.
\<close>

record ip_parsers =
  ParseAddr :: "string \<Rightarrow> addr option"
  ParsePrefix :: "string \<Rightarrow> prefix option"

definition allow_entry :: "ip_parsers \<Rightarrow> string \<Rightarrow> addr \<Rightarrow> string \<Rightarrow> bool" where
  "allow_entry P host a entry0 =
     (let entry = TrimSuffix (ToLower (TrimSpace entry0)) ''.'' in
      entry \<noteq> [] \<and>
      (entry = host \<or>
       (case ParseAddr P entry of Some x \<Rightarrow> Unmap x = a | None \<Rightarrow> False) \<or>
       (case ParsePrefix P entry of Some p \<Rightarrow> Prefix_Contains p a | None \<Rightarrow> False)))"

definition isAllowedBackupRestoreDestination :: "ip_parsers \<Rightarrow> string list \<Rightarrow> string \<Rightarrow> addr \<Rightarrow> bool" where
  "isAllowedBackupRestoreDestination P allowlist host a =
     list_ex (allow_entry P (TrimSuffix (ToLower host) ''.'') a) allowlist"

definition isBlockedBackupRestoreIP :: "ip_parsers \<Rightarrow> string list \<Rightarrow> string \<Rightarrow> net_ip \<Rightarrow> bool" where
  "isBlockedBackupRestoreIP P allowlist host ip =
     (case AddrFromSlice ip of
        None \<Rightarrow> True
      | Some a0 \<Rightarrow>
          (let a = Unmap a0 in
           if \<not> IsGlobalUnicast a \<or> IsPrivate a \<or> IsLoopback a \<or> IsLinkLocalUnicast a \<or>
              isExplicitlyBlockedBackupRestoreIP a
           then \<not> isAllowedBackupRestoreDestination P allowlist host a
           else False))"

text \<open>\<^verbatim>\<open>validateBackupDownloadUrl\<close>: \<open>parsed\<close> is what \<^verbatim>\<open>url.Parse\<close> gives, and \<open>literal\<close> reads an address.\<close>

record parsed_url =
  u_scheme :: string
  u_host :: string
  u_hostname :: string

datatype url_error = NotAUrl | NotHttp | BlockedAddress

definition validateBackupDownloadUrl ::
  "ip_parsers \<Rightarrow> string list \<Rightarrow> (string \<Rightarrow> net_ip option) \<Rightarrow> parsed_url option \<Rightarrow> url_error option" where
  "validateBackupDownloadUrl P allowlist literal parsed =
     (case parsed of
        None \<Rightarrow> Some NotAUrl
      | Some u \<Rightarrow>
          if u_host u = [] then Some NotAUrl
          else if u_scheme u \<noteq> ''http'' \<and> u_scheme u \<noteq> ''https'' then Some NotHttp
          else (case literal (u_hostname u) of
                  Some ip \<Rightarrow> if isBlockedBackupRestoreIP P allowlist (u_hostname u) ip then Some BlockedAddress else None
                | None \<Rightarrow> None))"

text \<open>
  The dialer of the client: the addresses a host resolves to, and which of them accept. It returns
  the addresses a connection was tried to, in order, and the one that was reached.
\<close>

fun dial_first :: "(net_ip \<Rightarrow> bool) \<Rightarrow> net_ip list \<Rightarrow> net_ip list \<times> net_ip option" where
  "dial_first accepts [] = ([], None)"
| "dial_first accepts (ip # ips) =
     (if accepts ip then ([ip], Some ip)
      else (case dial_first accepts ips of (tried, r) \<Rightarrow> (ip # tried, r)))"

datatype dial_error = ResolveFailed | NoAddresses | DialBlocked | DialFailed

definition backup_dial ::
  "ip_parsers \<Rightarrow> string list \<Rightarrow> (net_ip \<Rightarrow> bool) \<Rightarrow> string \<Rightarrow> net_ip list option \<Rightarrow> net_ip list \<times> (dial_error + net_ip)" where
  "backup_dial P allowlist accepts host ips =
     (case ips of
        None \<Rightarrow> ([], Inl ResolveFailed)
      | Some ips \<Rightarrow>
          if ips = [] then ([], Inl NoAddresses)
          else if list_ex (isBlockedBackupRestoreIP P allowlist host) ips then ([], Inl DialBlocked)
          else (case dial_first accepts ips of
                  (tried, Some ip) \<Rightarrow> (tried, Inr ip)
                | (tried, None) \<Rightarrow> (tried, Inl DialFailed)))"

text \<open>
  The client with its redirects. A hop is the address of a request, what \<^verbatim>\<open>url.Parse\<close> makes of it, and
  what its host resolves to. \<open>via\<close> counts the requests made before; the first of them is checked by the
  handler, the others by \<^verbatim>\<open>CheckRedirect\<close>. The result lists the connections that were tried.
\<close>

record hop =
  hop_url :: "parsed_url option"
  hop_ips :: "net_ip list option"

datatype fetch_error = InvalidLink url_error | TooManyRedirects | DialError dial_error

record restore_net =
  net_parsers :: ip_parsers
  net_literal :: "string \<Rightarrow> net_ip option"
  net_allowlist :: "string list"
  net_accepts :: "net_ip \<Rightarrow> bool"

definition CheckRedirect :: "restore_net \<Rightarrow> nat \<Rightarrow> hop \<Rightarrow> fetch_error option" where
  "CheckRedirect N via h =
     (if via \<ge> 10 then Some TooManyRedirects
      else map_option InvalidLink (validateBackupDownloadUrl (net_parsers N) (net_allowlist N) (net_literal N) (hop_url h)))"

definition hop_host :: "hop \<Rightarrow> string" where
  "hop_host h = (case hop_url h of None \<Rightarrow> [] | Some u \<Rightarrow> u_hostname u)"

definition hop_dial :: "restore_net \<Rightarrow> hop \<Rightarrow> net_ip list \<times> (dial_error + net_ip)" where
  "hop_dial N h = backup_dial (net_parsers N) (net_allowlist N) (net_accepts N) (hop_host h) (hop_ips h)"

fun fetch :: "restore_net \<Rightarrow> nat \<Rightarrow> hop list \<Rightarrow> (string \<times> net_ip list) list \<times> fetch_error option" where
  "fetch N via [] = ([], None)"
| "fetch N via (h # hs) =
     (case CheckRedirect N via h of
        Some e \<Rightarrow> ([], Some e)
      | None \<Rightarrow>
          (case hop_dial N h of
             (tried, Inl e) \<Rightarrow> ([(hop_host h, tried)], Some (DialError e))
           | (tried, Inr _) \<Rightarrow>
               (case fetch N (Suc via) hs of (rest, r) \<Rightarrow> ((hop_host h, tried) # rest, r))))"

text \<open>\<open>media\<close> is \<^verbatim>\<open>mime.ParseMediaType\<close>.\<close>

definition isSupportedBackupRestoreContentType :: "(string \<Rightarrow> string option) \<Rightarrow> string \<Rightarrow> bool" where
  "isSupportedBackupRestoreContentType media v =
     (let t = ToLower (case media v of Some m \<Rightarrow> m | None \<Rightarrow> TrimSpace v)
      in t = ''application/x-gzip'' \<or> t = ''application/gzip'')"

section \<open>Downloading a remote file\<close>

definition internalRanges :: "prefix list" where
  "internalRanges =
     [P4 0x7F000000 8, P4 0x0A000000 8, P4 0xAC100000 12, P4 0xC0A80000 16, P4 0xA9FE0000 16,
      P6 1 128, P6 (push_bit 112 0xFE80) 10, P6 (push_bit 120 0xFC) 7]"

datatype download_error = ErrInvalidIPAddress | ErrInternalResolution

text \<open>
  The check of the dialer, which comes after the connection has been made: \<open>remote\<close> is the address
  of the other end, if it can be read.
\<close>

definition check_remote :: "net_ip option \<Rightarrow> download_error option" where
  "check_remote remote =
     (case remote of
        None \<Rightarrow> Some ErrInvalidIPAddress
      | Some ip \<Rightarrow>
          if ip_IsLoopback ip \<or> ip_IsLinkLocalUnicast ip \<or> ip_IsLinkLocalMulticast ip \<or> ip_IsInterfaceLocalMulticast ip
          then Some ErrInternalResolution
          else if list_ex (\<lambda>block. IPNet_Contains block ip) internalRanges then Some ErrInternalResolution
          else None)"

section \<open>Running downloads\<close>

record download =
  Identifier :: string
  dl_server :: string

record downloader =
  downloadCache :: "string \<rightharpoonup> download"
  serverCache :: "string \<rightharpoonup> string list"

definition track :: "download \<Rightarrow> downloader \<Rightarrow> downloader" where
  "track dl d =
     (if downloadCache d (Identifier dl) = None
      then d\<lparr>downloadCache := (downloadCache d)(Identifier dl \<mapsto> dl),
             serverCache := (serverCache d)(dl_server dl \<mapsto>
               (case serverCache d (dl_server dl) of None \<Rightarrow> [] | Some v \<Rightarrow> v) @ [Identifier dl])\<rparr>
      else d)"

definition find_download :: "string \<Rightarrow> downloader \<Rightarrow> download option" where
  "find_download dlid d = downloadCache d dlid"

definition remove_download :: "string \<Rightarrow> downloader \<Rightarrow> downloader" where
  "remove_download dlID d =
     (case downloadCache d dlID of
        None \<Rightarrow> d
      | Some dl \<Rightarrow>
          d\<lparr>downloadCache := (downloadCache d)(dlID := None),
            serverCache := (case serverCache d (dl_server dl) of
               None \<Rightarrow> serverCache d
             | Some tracked \<Rightarrow> (serverCache d)(dl_server dl \<mapsto> filter (\<lambda>k. k \<noteq> dlID) tracked))\<rparr>)"

definition ByServer :: "string \<Rightarrow> downloader \<Rightarrow> download list" where
  "ByServer srv d =
     (case serverCache d srv of None \<Rightarrow> [] | Some v \<Rightarrow> List.map_filter (downloadCache d) v)"

text \<open>\<^verbatim>\<open>New\<close>: the identifier is a fresh random one.\<close>

definition dl_New :: "string \<Rightarrow> string \<Rightarrow> downloader \<Rightarrow> downloader" where
  "dl_New uuid srv = track \<lparr>Identifier = uuid, dl_server = srv\<rparr>"

definition BelongsTo :: "download \<Rightarrow> string \<Rightarrow> bool" where
  "BelongsTo dl srv = (dl_server dl = srv)"

subsection \<open>Carrying out a download\<close>

record download_request =
  Directory :: string
  url_path :: string
  FileName :: string
  UseHeader :: bool

text \<open>
  The answer of the server: the header \<^verbatim>\<open>Content-Disposition\<close>, and the body as what a copy of so many
  bytes does to the file. \<open>media\<close> gives the parameter \<^verbatim>\<open>filename\<close> of a header, if it has one.
\<close>

record 'w response =
  StatusCode :: int
  ContentLength :: int
  disposition :: string
  res_body :: "int \<Rightarrow> 'w writer"

datatype execute_error =
  CreateRequestFailed | Unreachable | Refused download_error | BadStatus | NoContentLength | InvalidDisposition
| WriteFailed fm_error

definition header_path :: "(string \<Rightarrow> string option option) \<Rightarrow> download_request \<Rightarrow> 'w response \<Rightarrow> execute_error + string" where
  "header_path media req res =
     (if UseHeader req \<and> disposition res \<noteq> []
      then (case media (disposition res) of
              None \<Rightarrow> Inl InvalidDisposition
            | Some params \<Rightarrow> Inr (case params of Some v \<Rightarrow> v | None \<Rightarrow> []))
      else Inr [])"

definition chosen_path :: "download_request \<Rightarrow> string \<Rightarrow> string" where
  "chosen_path req p =
     (if p \<noteq> [] then p else if FileName req \<noteq> [] then FileName req else last (Split (url_path req) (CHR ''/'')))"

definition dl_Path :: "download_request \<Rightarrow> string \<Rightarrow> string" where
  "dl_Path req p = path_Join [Directory req, p]"

definition Cancel :: "string \<Rightarrow> downloader \<Rightarrow> downloader" where
  "Cancel dlID = remove_download dlID"

definition transfer_body ::
  "filesystem \<Rightarrow> 'w kernel \<Rightarrow> (string \<Rightarrow> string option option) \<Rightarrow> download_request \<Rightarrow> execute_error + 'w response \<Rightarrow> ('w proc, execute_error option) state" where
  "transfer_body fm k media req answer =
     (case answer of
        Inl e \<Rightarrow> ret (Some e)
      | Inr res \<Rightarrow>
          if StatusCode res \<noteq> 200 then ret (Some BadStatus)
          else if ContentLength res < 1 then ret (Some NoContentLength)
          else (case header_path media req res of
                  Inl e \<Rightarrow> ret (Some e)
                | Inr p \<Rightarrow> do {
                    err \<leftarrow> Write fm k (res_body res) (dl_Path req (chosen_path req p)) (ContentLength res) 0x1A4;
                    ret (map_option WriteFailed err)
                  }))"

definition Execute ::
  "filesystem \<Rightarrow> 'w kernel \<Rightarrow> (string \<Rightarrow> string option option) \<Rightarrow> string \<Rightarrow> download_request \<Rightarrow> execute_error + 'w response \<Rightarrow>
   downloader \<Rightarrow> ('w proc, execute_error option \<times> downloader) state" where
  "Execute fm k media dlID req answer d = do {
     r \<leftarrow> transfer_body fm k media req answer;
     ret (r, Cancel dlID d)
   }"

section \<open>Prefixes are ranges\<close>

lemma nat_div_range: "0 < d \<Longrightarrow> (x::nat) div d = q \<longleftrightarrow> q * d \<le> x \<and> x < q * d + d"
  by (metis add.commute div_nat_eqI div_times_less_eq_dividend dividend_less_div_times mult.commute mult_Suc)

text \<open>The networks that are not reachable from the outside, from the first to the last address.\<close>

fun dotted :: "nat \<times> nat \<times> nat \<times> nat \<Rightarrow> nat" where
  "dotted (a, b, c, d) = ((a * 256 + b) * 256 + c) * 256 + d"

definition between :: "nat \<Rightarrow> nat \<times> nat \<Rightarrow> bool" where
  "between x r \<longleftrightarrow> fst r \<le> x \<and> x \<le> snd r"

lemma between_self [simp]: "between x (x, x)"
  by (simp add: between_def)

definition internal4 :: "(nat \<times> nat) list" where
  "internal4 =
     [(dotted (10, 0, 0, 0), dotted (10, 255, 255, 255)),
      (dotted (127, 0, 0, 0), dotted (127, 255, 255, 255)),
      (dotted (169, 254, 0, 0), dotted (169, 254, 255, 255)),
      (dotted (172, 16, 0, 0), dotted (172, 31, 255, 255)),
      (dotted (192, 168, 0, 0), dotted (192, 168, 255, 255))]"

definition special4 :: "(nat \<times> nat) list" where
  "special4 = internal4 @
     [(dotted (0, 0, 0, 0), dotted (0, 0, 0, 0)),
      (dotted (100, 64, 0, 0), dotted (100, 127, 255, 255)),
      (dotted (198, 18, 0, 0), dotted (198, 19, 255, 255)),
      (dotted (224, 0, 0, 0), dotted (239, 255, 255, 255)),
      (dotted (255, 255, 255, 255), dotted (255, 255, 255, 255))]"

definition special6 :: "(nat \<times> nat) list" where
  "special6 =
     [(0, 0), (1, 1), (0xFC * 2 ^ 120, 0xFE * 2 ^ 120 - 1), (0xFE80 * 2 ^ 112, 0xFEC0 * 2 ^ 112 - 1),
      (0xFF * 2 ^ 120, 0x100 * 2 ^ 120 - 1)]"

lemma drop_bit_between:
  "drop_bit k w = n \<longleftrightarrow> between (unat w) (unat n * 2 ^ k, unat n * 2 ^ k + (2 ^ k - 1))" for w n :: "'a::len word"
proof -
  have "drop_bit k w = n \<longleftrightarrow> unat w div 2 ^ k = unat n"
    by (metis drop_bit_eq_div unat_drop_bit_eq word_unat_eq_iff)
  moreover have "unat w < lo + 2 ^ k \<longleftrightarrow> unat w \<le> lo + (2 ^ k - 1)" for lo
    using zero_less_power [of "2::nat" k] by linarith
  ultimately show ?thesis by (simp add: nat_div_range between_def)
qed

lemma in_between:
  "in4 n b w \<longleftrightarrow> between (unat w) (let l = unat n div 2 ^ (32 - b) * 2 ^ (32 - b) in (l, l + (2 ^ (32 - b) - 1)))"
  "in6 m b v \<longleftrightarrow> between (unat v) (let l = unat m div 2 ^ (128 - b) * 2 ^ (128 - b) in (l, l + (2 ^ (128 - b) - 1)))"
  unfolding in4_def in6_def drop_bit_between unat_drop_bit_eq drop_bit_eq_div [where 'a = nat] Let_def by (rule refl)+

lemma nets4:
  "in4 0x0A000000 8 w \<longleftrightarrow> between (unat w) (dotted (10, 0, 0, 0), dotted (10, 255, 255, 255))"
  "in4 0x7F000000 8 w \<longleftrightarrow> between (unat w) (dotted (127, 0, 0, 0), dotted (127, 255, 255, 255))"
  "in4 0xA9FE0000 16 w \<longleftrightarrow> between (unat w) (dotted (169, 254, 0, 0), dotted (169, 254, 255, 255))"
  "in4 0xAC100000 12 w \<longleftrightarrow> between (unat w) (dotted (172, 16, 0, 0), dotted (172, 31, 255, 255))"
  "in4 0xC0A80000 16 w \<longleftrightarrow> between (unat w) (dotted (192, 168, 0, 0), dotted (192, 168, 255, 255))"
  "in4 0x64400000 10 w \<longleftrightarrow> between (unat w) (dotted (100, 64, 0, 0), dotted (100, 127, 255, 255))"
  "in4 0xC6120000 15 w \<longleftrightarrow> between (unat w) (dotted (198, 18, 0, 0), dotted (198, 19, 255, 255))"
  "in4 0xE0000000 4 w \<longleftrightarrow> between (unat w) (dotted (224, 0, 0, 0), dotted (239, 255, 255, 255))"
  "in4 0xE0000000 24 w \<longleftrightarrow> between (unat w) (dotted (224, 0, 0, 0), dotted (224, 0, 0, 255))"
  "w = 0 \<longleftrightarrow> between (unat w) (dotted (0, 0, 0, 0), dotted (0, 0, 0, 0))"
  "w = 0xFFFFFFFF \<longleftrightarrow> between (unat w) (dotted (255, 255, 255, 255), dotted (255, 255, 255, 255))"
  by (simp_all add: in_between) (auto simp: between_def word_unat_eq_iff)

lemma nets6:
  "in6 (push_bit 112 0xFE80) 10 w \<longleftrightarrow> between (unat w) (0xFE80 * 2 ^ 112, 0xFEC0 * 2 ^ 112 - 1)"
  "in6 (push_bit 120 0xFC) 7 w \<longleftrightarrow> between (unat w) (0xFC * 2 ^ 120, 0xFE * 2 ^ 120 - 1)"
  "drop_bit 120 w = 0xFF \<longleftrightarrow> between (unat w) (0xFF * 2 ^ 120, 0x100 * 2 ^ 120 - 1)"
  "w = 0 \<longleftrightarrow> between (unat w) (0, 0)" "w = 1 \<longleftrightarrow> between (unat w) (1, 1)"
  "in6 1 128 w \<longleftrightarrow> between (unat w) (1, 1)"
  by (simp_all add: in_between drop_bit_between) (auto simp: between_def word_unat_eq_iff)

definition special_ip :: "net_ip \<Rightarrow> bool" where
  "special_ip ip =
     (case To4 ip of
        Some w \<Rightarrow> list_ex (between (unat w)) special4
      | None \<Rightarrow> (case ip of IP16 w \<Rightarrow> list_ex (between (unat w)) special6 | _ \<Rightarrow> True))"

definition internal_ip :: "net_ip \<Rightarrow> bool" where
  "internal_ip ip =
     (case To4 ip of
        Some w \<Rightarrow> list_ex (between (unat w)) (internal4 @ [(dotted (224, 0, 0, 0), dotted (224, 0, 0, 255))])
      | None \<Rightarrow>
          (case ip of
             IP16 w \<Rightarrow> between (unat w) (1, 1) \<or> between (unat w) (0xFC * 2 ^ 120, 0xFE * 2 ^ 120 - 1) \<or>
               between (unat w) (0xFE80 * 2 ^ 112, 0xFEC0 * 2 ^ 112 - 1) \<or>
               drop_bit 120 w = 0xFF \<and> drop_bit 112 w AND 0x0F \<in> {0x01, 0x02}
           | _ \<Rightarrow> False))"

definition allowlisted :: "restore_net \<Rightarrow> string \<Rightarrow> net_ip \<Rightarrow> bool" where
  "allowlisted N host ip =
     (case AddrFromSlice ip of
        None \<Rightarrow> False
      | Some a \<Rightarrow> isAllowedBackupRestoreDestination (net_parsers N) (net_allowlist N) host (Unmap a))"

section \<open>What the guards let through\<close>

lemmas nets6_numeral = nets6 [simplified]

lemma restore_blocked_iff:
  "isBlockedBackupRestoreIP (net_parsers N) (net_allowlist N) host ip \<longleftrightarrow> special_ip ip \<and> \<not> allowlisted N host ip"
  by (cases ip)
     (simp_all add: isBlockedBackupRestoreIP_def IsGlobalUnicast_def isExplicitlyBlockedBackupRestoreIP_def special_ip_def
      blockedBackupRestorePrefixes_def allowlisted_def internal4_def special4_def special6_def nets4 nets6_numeral
      del: dotted.simps)

lemma mapped_not_multicast: "mapped4 w \<Longrightarrow> drop_bit 120 w \<noteq> 0xFF"
  by (simp add: mapped4_def drop_bit_between) (simp add: between_def)

lemma internalRanges_iff:
  "list_ex (\<lambda>block. IPNet_Contains block ip) internalRanges \<longleftrightarrow>
   (case To4 ip of
      Some w \<Rightarrow> list_ex (between (unat w)) internal4
    | None \<Rightarrow> (case ip of
        IP16 w \<Rightarrow> between (unat w) (1, 1) \<or> between (unat w) (0xFC * 2 ^ 120, 0xFE * 2 ^ 120 - 1) \<or>
                  between (unat w) (0xFE80 * 2 ^ 112, 0xFEC0 * 2 ^ 112 - 1)
      | _ \<Rightarrow> False))"
  by (cases ip) (auto simp: internalRanges_def IPNet_Contains_def internal4_def nets4 nets6_numeral simp del: dotted.simps)

lemma download_refused_iff:
  "check_remote (Some ip) = (if internal_ip ip then Some ErrInternalResolution else None)"
proof (cases "To4 ip")
  case (Some w)
  then have "\<not> ip_IsInterfaceLocalMulticast ip"
    by (cases ip) (auto simp: ip_IsInterfaceLocalMulticast_def mapped_not_multicast split: if_splits)
  then show ?thesis using Some
    by (simp add: check_remote_def internal_ip_def ip_IsLoopback_def ip_IsLinkLocalUnicast_def ip_IsLinkLocalMulticast_def
        internalRanges_iff nets4 internal4_def del: dotted.simps)
next
  case None
  then show ?thesis
    by (cases ip) (auto simp: check_remote_def internal_ip_def ip_IsLoopback_def ip_IsLinkLocalUnicast_def ip_IsLinkLocalMulticast_def
        ip_IsInterfaceLocalMulticast_def internalRanges_iff nets6_numeral(1))
qed

lemma internal_special: "internal_ip ip \<Longrightarrow> special_ip ip"
  by (cases ip)
     (auto simp: internal_ip_def special_ip_def special4_def special6_def drop_bit_between between_def split: if_splits)

text \<open>An address of a shared or of a test network is refused by one guard only.\<close>

lemma guards_differ: "special_ip (IP4 0x64400001) \<and> \<not> internal_ip (IP4 0x64400001)"
  by (simp add: special_ip_def internal_ip_def special4_def internal4_def between_def)

lemma dial_first_tried: "set (fst (dial_first accepts ips)) \<subseteq> set ips"
  by (induction ips) (auto split: prod.splits)

lemma dial_first_reached: "snd (dial_first accepts ips) = Some ip \<Longrightarrow> ip \<in> set (fst (dial_first accepts ips)) \<and> accepts ip"
  by (induction ips) (auto split: prod.splits if_splits)

lemma backup_dial_tried:
  assumes "ip \<in> set (fst (backup_dial P al accepts host ips))"
  shows "\<not> isBlockedBackupRestoreIP P al host ip"
proof (cases ips)
  case (Some ys)
  then have "\<not> list_ex (isBlockedBackupRestoreIP P al host) ys" "ip \<in> set (fst (dial_first accepts ys))"
    using assms by (auto simp: backup_dial_def split: if_splits prod.splits option.splits)
  then show ?thesis using dial_first_tried [of accepts ys] by (auto simp: list_ex_iff)
qed (use assms in \<open>simp add: backup_dial_def\<close>)

lemma fetch_length: "length (fst (fetch N via hs)) \<le> 10 - via"
proof (induction hs arbitrary: via)
  case (Cons h hs)
  have "Suc (length (fst (fetch N (Suc via) hs))) \<le> 10 - via" if "via < 10"
    using Cons [of "Suc via"] that by linarith
  then show ?case
    by (auto simp: CheckRedirect_def split: option.splits prod.splits sum.splits if_splits)
qed simp

lemma hop_dial_tried: "ip \<in> set (fst (hop_dial N h)) \<Longrightarrow> special_ip ip \<Longrightarrow> allowlisted N (hop_host h) ip"
  unfolding hop_dial_def using backup_dial_tried restore_blocked_iff by blast

lemma fetch_tried:
  "(host, tried) \<in> set (fst (fetch N via hs)) \<Longrightarrow> ip \<in> set tried \<Longrightarrow> special_ip ip \<Longrightarrow> allowlisted N host ip"
proof (induction hs arbitrary: via)
  case (Cons h hs)
  from Cons.prems(1) consider "host = hop_host h" "tried = fst (hop_dial N h)"
    | "(host, tried) \<in> set (fst (fetch N (Suc via) hs))"
    by (auto split: option.splits prod.splits sum.splits)
  then show ?case by cases (use Cons hop_dial_tried in blast)+
qed simp


definition example_net :: restore_net where
  "example_net =
     \<lparr>net_parsers = \<lparr>ParseAddr = (\<lambda>s. if s = ''10.0.0.7'' then Some (V4 0x0A000007) else None), ParsePrefix = (\<lambda>_. None)\<rparr>,
      net_literal = (\<lambda>_. None), net_allowlist = ['' 10.0.0.7 ''], net_accepts = (\<lambda>_. True)\<rparr>"

definition example_hop :: hop where
  "example_hop = \<lparr>hop_url = Some \<lparr>u_scheme = ''https'', u_host = ''s3'', u_hostname = ''s3''\<rparr>, hop_ips = Some [IP4 0x0A000007]\<rparr>"


text \<open>Without an allowlist, the restore guard refuses exactly the special purpose networks, and the
  download guard, which looks at the address of the open connection, exactly the internal ones:
  whatever a download is refused, a restore is refused too.\<close>

theorem guard_ranges:
  "(isBlockedBackupRestoreIP P [] host ip \<longleftrightarrow> special_ip ip) \<and> (check_remote (Some ip) \<noteq> None \<longleftrightarrow> internal_ip ip) \<and>
   Collect internal_ip \<subset> Collect special_ip"
proof -
  have "Collect internal_ip \<subset> Collect special_ip" using internal_special guards_differ by blast
  then show ?thesis
    using restore_blocked_iff [of "\<lparr>net_parsers = P, net_literal = Map.empty, net_allowlist = [], net_accepts = (\<lambda>_. True)\<rparr>" host ip]
    by (simp add: download_refused_iff allowlisted_def isAllowedBackupRestoreDestination_def option.case_eq_if)
qed

section \<open>The table of downloads\<close>

definition running :: "downloader \<Rightarrow> string \<Rightarrow> string set" where
  "running d srv = {i. \<exists>dl. downloadCache d i = Some dl \<and> dl_server dl = srv}"

definition ids_of :: "downloader \<Rightarrow> string \<Rightarrow> string list" where
  "ids_of d srv = (case serverCache d srv of None \<Rightarrow> [] | Some v \<Rightarrow> v)"

definition table_ok :: "downloader \<Rightarrow> bool" where
  "table_ok d \<longleftrightarrow>
     (\<forall>i dl. downloadCache d i = Some dl \<longrightarrow> Identifier dl = i) \<and>
     (\<forall>srv. distinct (ids_of d srv) \<and> set (ids_of d srv) = running d srv)"

datatype table_event = Started string string | Ended string

fun table_step :: "table_event \<Rightarrow> downloader \<Rightarrow> downloader" where
  "table_step (Started i srv) = dl_New i srv"
| "table_step (Ended i) = Cancel i"

definition no_downloads :: downloader where
  "no_downloads = \<lparr>downloadCache = Map.empty, serverCache = Map.empty\<rparr>"

lemma track_ok:
  assumes "table_ok d"
  shows "table_ok (track dl d)"
proof (cases "downloadCache d (Identifier dl)")
  case None
  then have "ids_of (track dl d) srv = ids_of d srv @ (if srv = dl_server dl then [Identifier dl] else [])"
    and "running (track dl d) srv = running d srv \<union> (if srv = dl_server dl then {Identifier dl} else {})" for srv
    by (auto simp: track_def ids_of_def running_def)
  moreover have "Identifier dl \<notin> running d srv" for srv using None by (simp add: running_def)
  moreover have "downloadCache (track dl d) = (downloadCache d)(Identifier dl \<mapsto> dl)" using None by (simp add: track_def)
  ultimately show ?thesis using assms by (simp add: table_ok_def)
qed (use assms in \<open>simp add: track_def\<close>)

lemma remove_ok:
  assumes "table_ok d"
  shows "table_ok (remove_download i d)"
proof (cases "downloadCache d i")
  case (Some dl)
  have "i \<notin> running d srv" if "srv \<noteq> dl_server dl" for srv using Some that by (auto simp: running_def)
  then have "filter (\<lambda>k. k \<noteq> i) (ids_of d srv) = ids_of d srv" if "srv \<noteq> dl_server dl" for srv
    using assms that by (auto simp: table_ok_def filter_id_conv)
  then have "ids_of (remove_download i d) srv = filter (\<lambda>k. k \<noteq> i) (ids_of d srv)" for srv
    using Some by (cases "srv = dl_server dl") (auto simp: remove_download_def ids_of_def split: option.splits)
  moreover have "running (remove_download i d) srv = running d srv - {i}" for srv
    using Some by (auto simp: remove_download_def running_def)
  moreover have "downloadCache (remove_download i d) = (downloadCache d)(i := None)" using Some by (simp add: remove_download_def)
  ultimately show ?thesis using assms by (auto simp: table_ok_def)
qed (use assms in \<open>simp add: remove_download_def\<close>)

lemma table_steps_ok: "table_ok d \<Longrightarrow> table_ok (fold table_step es d)"
proof (induction es arbitrary: d)
  case (Cons e es)
  then show ?case by (cases e) (simp_all add: dl_New_def Cancel_def track_ok remove_ok)
qed simp

lemma map_filter_same: "\<forall>x \<in> set xs. \<exists>y. f x = Some y \<and> g y = x \<Longrightarrow> map g (List.map_filter f xs) = xs"
  by (induction xs) (auto simp: List.map_filter_simps)

lemma ByServer_ids: "table_ok d \<Longrightarrow> map Identifier (ByServer srv d) = ids_of d srv"
proof -
  assume "table_ok d"
  then have "\<forall>i \<in> set (ids_of d srv). \<exists>dl. downloadCache d i = Some dl \<and> Identifier dl = i"
    by (auto simp: table_ok_def running_def)
  from map_filter_same [OF this] show ?thesis
    by (cases "serverCache d srv") (simp_all add: ByServer_def ids_of_def)
qed

lemma no_downloads_ok: "table_ok no_downloads"
  by (simp add: table_ok_def no_downloads_def ids_of_def running_def)

text \<open>However downloads start and end, those listed for a server are exactly the running downloads
  of that server, each of them once.\<close>

theorem downloads_listed:
  "distinct (ByServer srv (fold table_step es no_downloads)) \<and>
   set (map Identifier (ByServer srv (fold table_step es no_downloads))) = running (fold table_step es no_downloads) srv"
proof -
  let ?d = "fold table_step es no_downloads"
  have ok: "table_ok ?d" by (rule table_steps_ok [OF no_downloads_ok])
  then have "distinct (map Identifier (ByServer srv ?d))" by (simp only: ByServer_ids [OF ok]) (simp add: table_ok_def)
  then have "distinct (ByServer srv ?d)" by (simp add: distinct_map)
  moreover have "set (map Identifier (ByServer srv ?d)) = running ?d srv"
    using ok by (simp only: ByServer_ids [OF ok]) (simp add: table_ok_def)
  ultimately show ?thesis by blast
qed

lemma Execute_forgets:
  "find_download i (snd (fst (run_state (Execute fm k media i req answer d) ps))) = None"
  by (auto simp: Execute_def Cancel_def find_download_def remove_download_def split: option.splits prod.splits)

text \<open>Whatever name the answer gives the file, it is written in the directory of the server.\<close>

lemma transfer_body_sbox:
  "base_ok (q_fs (fm_q fm)) bs \<Longrightarrow> keeps (sbox (q_fs (fm_q fm)) D) (transfer_body fm k media req answer)"
  unfolding transfer_body_def by (intro triple_sum triple_ret triple_if keeps_bind Write_sbox)

lemma Execute_sbox:
  "base_ok (q_fs (fm_q fm)) bs \<Longrightarrow> keeps (sbox (q_fs (fm_q fm)) D) (Execute fm k media i req answer d)"
  unfolding Execute_def by (intro keeps_bind transfer_body_sbox triple_ret)

end
