(* ===== verification/Backups.thy ===== *)
theory Backups
  imports Tasks Net_Guard Fs_Api
begin

text \<open>
  Backups: where they are stored, how they are generated and uploaded (\<^verbatim>\<open>server/backup/\<close>), and how a
  server is backed up and restored (\<^verbatim>\<open>server/backup.go\<close>). The archive format, the panel and the object
  storage are parameters: an archive is the list of the entries that reading it gives.
\<close>

section \<open>Identifiers and paths\<close>

text \<open>\<open>parse\<close> is \<^verbatim>\<open>uuid.Parse\<close> with the canonical text of its result.\<close>

definition normalizedIdentifier :: "(string \<Rightarrow> string option) \<Rightarrow> string \<Rightarrow> string option" where
  "normalizedIdentifier parse ident =
     (case parse ident of
        None \<Rightarrow> None
      | Some c \<Rightarrow> if length ident \<noteq> length c \<or> c \<noteq> ToLower ident then None else Some c)"

definition parseBackupUuid :: "(string \<Rightarrow> string option) \<Rightarrow> string \<Rightarrow> string option" where
  "parseBackupUuid parse v =
     (case parse v of
        Some c \<Rightarrow> if length v = length c \<and> c = ToLower v then Some c else None
      | None \<Rightarrow> None)"

text \<open>\<^verbatim>\<open>path.Base\<close>.\<close>

definition path_Base :: "string \<Rightarrow> string" where
  "path_Base p =
     (if p = [] then ''.''
      else (let q = rev (dropWhile (\<lambda>c. c = CHR ''/'') (rev p));
                b = rev (takeWhile (\<lambda>c. c \<noteq> CHR ''/'') (rev q))
            in if b = [] then ''/'' else b))"

definition backup_Path :: "string \<Rightarrow> (string \<Rightarrow> string option) \<Rightarrow> string \<Rightarrow> string" where
  "backup_Path dir parse ident =
     path_Join [dir, (case normalizedIdentifier parse ident of Some c \<Rightarrow> c | None \<Rightarrow> path_Base ident) @ ''.tar.gz'']"

section \<open>Uploading\<close>

text \<open>The size of part \<open>i\<close> of \<open>n\<close>.\<close>

definition part_size :: "int \<Rightarrow> int \<Rightarrow> nat \<Rightarrow> nat \<Rightarrow> int" where
  "part_size len partSize n i = (if i + 1 < n then partSize else i64 (len - i64 (int i * partSize)))"

text \<open>
  An attempt to send a part. The body is a limited reader over the archive that all attempts share:
  \<open>left\<close> is what it may still give. An attempt fails before it reads the body, or the answer comes after
  some bytes of it (\<open>Answered\<close>, with the bytes the transport has taken by then), or the whole body was
  taken and its length does not match the announced one.
\<close>

datatype attempt = Unsent bool | Answered nat int string

datatype upload_error = PermanentError | GaveUp

definition body_short :: "nat \<Rightarrow> nat \<Rightarrow> nat \<Rightarrow> bool" where
  "body_short n left taken \<longleftrightarrow> taken \<ge> left \<and> left < n"

fun uploadPart :: "nat \<Rightarrow> nat \<Rightarrow> attempt list \<Rightarrow> (upload_error + string) \<times> nat" where
  "uploadPart n left [] = (Inl GaveUp, left)"
| "uploadPart n left (Unsent permanent # as) =
     (if permanent then (Inl PermanentError, left) else uploadPart n left as)"
| "uploadPart n left (Answered taken code etag # as) =
     (if body_short n left taken then uploadPart n 0 as
      else if code = 200 then (Inr etag, left - taken)
      else if code \<ge> 500 then uploadPart n (left - taken) as
      else (Inl PermanentError, left - taken))"

record backup_part =
  ETag :: string
  PartNumber :: nat

text \<open>The loop over the upload addresses; each comes with the attempts made for it.\<close>

fun upload_from :: "int \<Rightarrow> int \<Rightarrow> nat \<Rightarrow> nat \<Rightarrow> attempt list list \<Rightarrow> upload_error + backup_part list" where
  "upload_from len partSize n i [] = Inr []"
| "upload_from len partSize n i (as # parts) =
     (let part = nat (part_size len partSize n i) in
      case fst (uploadPart part part as) of
        Inl e \<Rightarrow> Inl e
      | Inr etag \<Rightarrow>
          (case upload_from len partSize n (i + 1) parts of
             Inl e \<Rightarrow> Inl e
           | Inr ps \<Rightarrow> Inr (\<lparr>ETag = etag, PartNumber = i + 1\<rparr> # ps)))"

section \<open>Generating\<close>

record details =
  Checksum :: string
  Size :: int
  Parts :: "backup_part list"

record archive_reply =
  a_create :: "string option"
  a_checksum :: "string + string"
  a_stat :: "string + int"
  a_open :: "string option"
  a_urls :: "string + int \<times> attempt list list"

datatype adapter = LocalAdapter | S3Adapter

record backup =
  Uuid :: string
  Ignore :: string
  adapter :: adapter

datatype backup_error = BadIdentifier | ArchiveError string | UploadError upload_error

text \<open>Checksum and size are computed at the same time; when both fail, the first failure counts, here that
  of the checksum.\<close>

definition Details :: "archive_reply \<Rightarrow> backup_part list \<Rightarrow> backup_error + details" where
  "Details a parts =
     (case a_checksum a of
        Inl e \<Rightarrow> Inl (ArchiveError e)
      | Inr c \<Rightarrow>
          (case a_stat a of
             Inl e \<Rightarrow> Inl (ArchiveError e)
           | Inr n \<Rightarrow> Inr \<lparr>Checksum = c, Size = n, Parts = parts\<rparr>))"

definition generateRemoteRequest :: "archive_reply \<Rightarrow> backup_error + backup_part list" where
  "generateRemoteRequest a =
     (case a_stat a of
        Inl e \<Rightarrow> Inl (ArchiveError e)
      | Inr len \<Rightarrow>
          (case a_urls a of
             Inl e \<Rightarrow> Inl (ArchiveError e)
           | Inr (partSize, parts) \<Rightarrow>
               (case upload_from len partSize (length parts) 0 parts of
                  Inl e \<Rightarrow> Inl (UploadError e)
                | Inr ps \<Rightarrow> Inr ps)))"

definition local_Generate :: "archive_reply \<Rightarrow> string \<Rightarrow> ('e tasks, backup_error + details) state" where
  "local_Generate a ignored = do {
     tell (GeneratedArchive ignored);
     ret (case a_create a of Some e \<Rightarrow> Inl (ArchiveError e) | None \<Rightarrow> Details a [])
   }"

definition s3_Generate :: "archive_reply \<Rightarrow> string \<Rightarrow> ('e tasks, backup_error + details) state" where
  "s3_Generate a ignored = do {
     tell (GeneratedArchive ignored);
     tell RemovedArchive;
     ret (case a_create a of
            Some e \<Rightarrow> Inl (ArchiveError e)
          | None \<Rightarrow>
              (case a_open a of
                 Some e \<Rightarrow> Inl (ArchiveError e)
               | None \<Rightarrow>
                   (case generateRemoteRequest a of
                      Inl e \<Rightarrow> Inl e
                    | Inr parts \<Rightarrow> Details a parts)))
   }"

definition Generate :: "(string \<Rightarrow> string option) \<Rightarrow> archive_reply \<Rightarrow> backup \<Rightarrow> string \<Rightarrow> ('e tasks, backup_error + details) state" where
  "Generate parse a b ignored =
     (if normalizedIdentifier parse (Uuid b) = None then ret (Inl BadIdentifier)
      else case adapter b of LocalAdapter \<Rightarrow> local_Generate a ignored | S3Adapter \<Rightarrow> s3_Generate a ignored)"

definition backup_Remove :: "(string \<Rightarrow> string option) \<Rightarrow> backup \<Rightarrow> ('e tasks, unit) state" where
  "backup_Remove parse b = if_st (normalizedIdentifier parse (Uuid b) \<noteq> None) (tell RemovedArchive)"

section \<open>Backing up a server\<close>

text \<open>The file system of the server and its tasks. \<open>contents\<close> is what reading an open file gives.\<close>

definition on_tasks :: "('e tasks, 'r) state \<Rightarrow> ('w proc \<times> 'e tasks, 'r) state" where
  "on_tasks m = State (\<lambda>(ps, t). case run_state m t of (r, t') \<Rightarrow> (r, (ps, t')))"

record 'w backup_env =
  bk_fs :: filesystem
  bk_kernel :: "'w kernel"
  bk_sniff :: "fd \<Rightarrow> string + string"
  bk_contents :: "fd \<Rightarrow> string + string"
  bk_parse :: "string \<Rightarrow> string option"

fun missing :: "fm_error \<Rightarrow> bool" where
  "missing (Ufs e) = is_not_exist e"
| "missing _ = False"

definition getServerwideIgnoredFiles :: "'w backup_env \<Rightarrow> ('w proc, fm_error + string) state" where
  "getServerwideIgnoredFiles x = do {
     r \<leftarrow> fm_File (bk_sniff x) (bk_fs x) (bk_kernel x) ''.pteroignore'';
     (case r of
        Inl e \<Rightarrow> ret (if missing e then Inr [] else Inl e)
      | Inr (f, info) \<Rightarrow> do {
          sys_close f;
          ret (if IsSymlink (stat_info info) \<or> fi_size (stat_info info) > 32 * 1024 then Inr []
               else (case bk_contents x f of Inl e \<Rightarrow> Inl (IoError e) | Inr s \<Rightarrow> Inr s))
        })
   }"

abbreviation BackupCompletedEvent :: string where "BackupCompletedEvent \<equiv> ''backup completed''"

text \<open>
  \<^verbatim>\<open>Backup\<close>. \<open>told\<close> is whether the panel took the notification. After an archive was generated but the panel
  could not be told, the function returns the error of the generation, which is none.
\<close>

definition server_Backup ::
  "'w backup_env \<Rightarrow> archive_reply \<Rightarrow> bool \<Rightarrow> backup \<Rightarrow> ('w proc \<times> 'e tasks, backup_error option) state" where
  "server_Backup x a told b = do {
     ignored \<leftarrow> (if Ignore b = []
        then do { i \<leftarrow> on_proc (getServerwideIgnoredFiles x); ret (case i of Inl _ \<Rightarrow> [] | Inr i \<Rightarrow> i) }
        else ret (Ignore b));
     r \<leftarrow> on_tasks (Generate (bk_parse x) a b ignored);
     (case r of
        Inl e \<Rightarrow> do {
          on_tasks (tell (ToldBackup (Uuid b) False));
          on_tasks (tell (Published (BackupCompletedEvent @ '':'' @ Uuid b) ''false''));
          ret (Some e)
        }
      | Inr ad \<Rightarrow> do {
          on_tasks (tell (ToldBackup (Uuid b) True));
          if \<not> told then do { on_tasks (backup_Remove (bk_parse x) b); ret None }
          else do {
            on_tasks (tell (Published (BackupCompletedEvent @ '':'' @ Uuid b) ''true''));
            ret None
          }
        })
   }"

section \<open>Restoring a server\<close>

text \<open>An entry of the archive; its body copies at most so many bytes to the file.\<close>

record 'w entry =
  en_name :: string
  en_open :: "string option"
  en_size :: int
  en_mode :: file_mode
  en_mtime :: int
  en_body :: "int \<Rightarrow> 'w writer"

definition fm_Chtimes :: "filesystem \<Rightarrow> 'w kernel \<Rightarrow> string \<Rightarrow> int option \<Rightarrow> int option \<Rightarrow> ('w proc, fs_error option) state" where
  "fm_Chtimes fm k p atime mtime = (if fm_isTest fm then ret None else Chtimes (q_fs (fm_q fm)) k p atime mtime)"

text \<open>The callback of \<^verbatim>\<open>RestoreBackup\<close>, and the loop of the adapters that calls it.\<close>

definition restore_entry :: "'w backup_env \<Rightarrow> 'w entry \<Rightarrow> ('w proc \<times> 'e tasks, fm_error option) state" where
  "restore_entry x e =
     (case en_open e of
        Some m \<Rightarrow> ret (Some (IoError m))
      | None \<Rightarrow> do {
          on_tasks (tell (Published DaemonMessageEvent (''(restoring): '' @ en_name e)));
          r \<leftarrow> on_proc (Write (bk_fs x) (bk_kernel x) (en_body e) (en_name e) (en_size e) (en_mode e));
          (case r of
             Some err \<Rightarrow> ret (Some err)
           | None \<Rightarrow> do {
               c \<leftarrow> on_proc (fm_Chtimes (bk_fs x) (bk_kernel x) (en_name e) (Some (en_mtime e)) (Some (en_mtime e)));
               ret (map_option Ufs c)
             })
        })"

fun extract_entries :: "'w backup_env \<Rightarrow> 'w entry list \<Rightarrow> string option \<Rightarrow> ('w proc \<times> 'e tasks, fm_error option) state" where
  "extract_entries x [] broken = ret (map_option IoError broken)"
| "extract_entries x (e # es) broken = do {
     r \<leftarrow> restore_entry x e;
     (case r of Some err \<Rightarrow> ret (Some err) | None \<Rightarrow> extract_entries x es broken)
   }"

text \<open>
  Where the archive comes from: a local file that may fail to open, or the body of a download. \<open>ar_broken\<close>
  is the error that ends the reading, if one does.
\<close>

record 'w archive =
  ar_open :: "string option"
  ar_entries :: "'w entry list"
  ar_broken :: "string option"

datatype 'x restore_error = RestoreStopFailed 'x | RestoreFailed fm_error | RestoreBadIdentifier

definition backup_Restore :: "'w backup_env \<Rightarrow> backup \<Rightarrow> 'w archive \<Rightarrow> ('w proc \<times> 'e tasks, 'x restore_error option) state" where
  "backup_Restore x b a =
     (if adapter b = LocalAdapter \<and> normalizedIdentifier (bk_parse x) (Uuid b) = None then ret (Some RestoreBadIdentifier)
      else if adapter b = LocalAdapter \<and> ar_open a \<noteq> None
      then ret (map_option (\<lambda>m. RestoreFailed (IoError m)) (ar_open a))
      else do { r \<leftarrow> extract_entries x (ar_entries a) (ar_broken a); ret (map_option RestoreFailed r) })"

definition set_suspended :: "bool \<Rightarrow> ('e tasks, unit) state" where
  "set_suspended v = do {
     tell (SetSuspended v);
     modify_st (\<lambda>t. t\<lparr>srv := (srv t)\<lparr>cfg := (cfg (srv t))\<lparr>suspended := v\<rparr>\<rparr>\<rparr>)
   }"

text \<open>\<open>gone\<close> recognises the error for a container that does not exist.\<close>

definition RestoreBackup ::
  "'w backup_env \<Rightarrow> ('e, 'x) backend \<Rightarrow> ('x \<Rightarrow> bool) \<Rightarrow> backup \<Rightarrow> 'w archive \<Rightarrow> ('w proc \<times> 'e tasks, 'x restore_error option) state" where
  "RestoreBackup x bk gone b a = do {
     on_tasks (set_suspended True);
     e \<leftarrow> on_tasks (read_st (\<lambda>t. environment (srv t)));
     stopped \<leftarrow> (if b_state bk e \<noteq> Offline then on_tasks (on_srv (in_env (b_wait_for_stop bk))) else ret None);
     err \<leftarrow> (case stopped of
        Some e \<Rightarrow> if gone e then backup_Restore x b a else ret (Some (RestoreStopFailed e))
      | None \<Rightarrow> backup_Restore x b a);
     on_tasks (tell (ToldRestore (Uuid b) (err = None)));
     on_tasks (set_suspended False);
     ret err
   }"

section \<open>The request to restore\<close>

definition set_restoring :: "bool \<Rightarrow> ('e tasks, unit) state" where
  "set_restoring v = do {
     modify_st (\<lambda>t. t\<lparr>srv := (srv t)\<lparr>restoring := Store v (restoring (srv t))\<rparr>\<rparr>);
     if_st v (tell CancelledSftp)
   }"

text \<open>
  The request, with the answers of what the handler calls: whether its body could be read, the check of
  the link and of the fetched response (\<open>None\<close> when it is fine), the emptying of the directory and
  the search for a local archive.
\<close>

record restore_request =
  rq_bound :: bool
  rq_uuid :: string
  rq_adapter :: adapter
  rq_url :: string
  rq_truncate :: bool
  rq_link :: "url_error option"
  rq_truncated :: "string option"
  rq_located :: "string option"
  rq_request :: "string option"
  rq_fetched :: "fetch_error option"
  rq_status :: int
  rq_type_ok :: bool

datatype http_reply = Accepted | BadRequest | ServerError | Unbound

fun is_download_error :: "fetch_error \<Rightarrow> bool" where
  "is_download_error (InvalidLink _) = True"
| "is_download_error TooManyRedirects = True"
| "is_download_error (DialError e) = (e = DialBlocked)"

text \<open>What is done between the two settings of the flag; \<open>None\<close> when the restoration can start.\<close>

definition prepare_restore :: "restore_request \<Rightarrow> ('e tasks, http_reply option) state" where
  "prepare_restore q = do {
     if_st (rq_truncate q) (tell RemovedFiles);
     ret (if rq_truncate q \<and> rq_truncated q \<noteq> None then Some ServerError
          else if rq_adapter q = LocalAdapter then (if rq_located q \<noteq> None then Some ServerError else None)
          else if rq_request q \<noteq> None then Some ServerError
          else if rq_fetched q \<noteq> None
          then Some (if is_download_error (the (rq_fetched q)) then BadRequest else ServerError)
          else if rq_status q \<noteq> 200 then Some BadRequest
          else if \<not> rq_type_ok q then Some BadRequest
          else None)
   }"

definition postServerRestoreBackup :: "(string \<Rightarrow> string option) \<Rightarrow> restore_request \<Rightarrow> ('e tasks, http_reply) state" where
  "postServerRestoreBackup parse q =
     (if \<not> rq_bound q then ret Unbound
      else if parseBackupUuid parse (rq_uuid q) = None then ret BadRequest
      else if rq_adapter q = S3Adapter \<and> rq_url q = [] then ret BadRequest
      else if rq_adapter q = S3Adapter \<and> rq_link q \<noteq> None then ret BadRequest
      else do {
        set_restoring True;
        r \<leftarrow> prepare_restore q;
        (case r of
           Some e \<Rightarrow> do { set_restoring False; ret e }
         | None \<Rightarrow> ret Accepted)
      })"

text \<open>The goroutine of an accepted request.\<close>

definition restore_task ::
  "'w backup_env \<Rightarrow> ('e, 'x) backend \<Rightarrow> ('x \<Rightarrow> bool) \<Rightarrow> backup \<Rightarrow> 'w archive \<Rightarrow> ('w proc \<times> 'e tasks, unit) state" where
  "restore_task x bk gone b a = do {
     _ \<leftarrow> RestoreBackup x bk gone b a;
     on_tasks (tell (Published DaemonMessageEvent (if adapter b = LocalAdapter
       then ''Completed server restoration from local backup.'' else ''Completed server restoration from S3 backup.'')));
     on_tasks (tell (Published ''backup restore completed'' []));
     on_tasks (set_restoring False)
   }"

section \<open>The sandbox\<close>

abbreviation bbox :: "filesystem \<Rightarrow> 'w proc \<times> 'e tasks \<Rightarrow> bool" where
  "bbox fm \<equiv> wbox (q_fs (fm_q fm)) {}"

lemma on_tasks_keeps: "keeps (\<lambda>s. I (fst s)) (on_tasks m)"
  by (auto simp: triple_def on_tasks_def split: prod.splits)

lemma restore_entry_sbox: "base_ok (q_fs (fm_q (bk_fs x))) bs \<Longrightarrow> keeps (bbox (bk_fs x)) (restore_entry x e)"
  unfolding restore_entry_def fm_Chtimes_def
  by (intro triple_option triple_ret keeps_bind on_tasks_keeps on_proc_triple triple_if Write_sbox Chtimes_sbox)

lemma extract_sbox: "base_ok (q_fs (fm_q (bk_fs x))) bs \<Longrightarrow> keeps (bbox (bk_fs x)) (extract_entries x es br)"
  by (induction es) (auto intro!: keeps_bind triple_ret triple_option restore_entry_sbox)

lemma RestoreBackup_sbox:
  "base_ok (q_fs (fm_q (bk_fs x))) bs \<Longrightarrow> keeps (bbox (bk_fs x)) (RestoreBackup x bk gone b a)"
  unfolding RestoreBackup_def backup_Restore_def
  by (intro keeps_bind on_tasks_keeps triple_if triple_option triple_ret extract_sbox)

section \<open>What the panel learns\<close>

lemma run_on_tasks [simp]:
  "run_state (on_tasks m) s = (fst (run_state m (snd s)), (fst s, snd (run_state m (snd s))))"
  by (cases s) (simp add: on_tasks_def split_beta)

lemma run_on_proc [simp]:
  "run_state (on_proc m) s = (fst (run_state m (fst s)), (snd (run_state m (fst s)), snd s))"
  by (cases s) (simp add: on_proc_def split_beta)

lemma run_set_suspended [simp]:
  "run_state (set_suspended v) t =
     ((), t\<lparr>journal := journal t @ [SetSuspended v], srv := (srv t)\<lparr>cfg := (cfg (srv t))\<lparr>suspended := v\<rparr>\<rparr>\<rparr>)"
  by (simp add: set_suspended_def)

abbreviation told :: "'s \<times> 'e tasks \<Rightarrow> task_event list" where
  "told s \<equiv> filter (\<lambda>e. \<not> inward e) (journal (snd s))"

lemma on_proc_told: "keeps (\<lambda>s. told s = l) (on_proc m)"
  by (simp add: triple_def split_beta)

lemma on_tasks_tell_told: "inward e \<Longrightarrow> keeps (\<lambda>s. told s = l) (on_tasks (tell e))"
  by (simp add: triple_def)

lemma extract_told: "keeps (\<lambda>s. told s = l) (extract_entries x es br)"
  by (induction es)
     (auto simp: restore_entry_def fm_Chtimes_def
        intro!: keeps_bind triple_ret triple_option on_proc_told on_tasks_tell_told)

lemma backup_Restore_told: "keeps (\<lambda>s. told s = l) (backup_Restore x b a)"
  unfolding backup_Restore_def by (intro triple_if triple_ret keeps_bind extract_told)

lemma on_tasks_srv_told: "keeps (\<lambda>s. told s = l) (on_tasks (on_srv m))"
  by (simp add: triple_def)

lemma RestoreBackup_told:
  "triple (\<lambda>s. told s = l) (RestoreBackup x bk gone b a)
     (\<lambda>r s. told s = l @ [ToldRestore (Uuid b) (r = None)] \<and> \<not> suspended (cfg (srv (snd s))))"
proof -
  have t: "triple (\<lambda>s. told s = l) (on_tasks (tell (ToldRestore u ok))) (\<lambda>_ s. told s = l @ [ToldRestore u ok])" for u ok
    by (simp add: triple_def)
  have s: "triple (\<lambda>s. told s = l') (on_tasks (set_suspended False)) (\<lambda>_ s. told s = l' \<and> \<not> suspended (cfg (srv (snd s))))" for l'
    by (simp add: triple_def)
  have k: "keeps (\<lambda>s. told s = l) (on_tasks (set_suspended True))" by (simp add: triple_def)
  have rd: "keeps (\<lambda>s. told s = l) (on_tasks (read_st f))" for f by (simp add: triple_def)
  show ?thesis
    unfolding RestoreBackup_def
    by (rule triple_bind [OF k], rule triple_bind [OF rd],
        rule triple_bind [where R = "\<lambda>_ s. told s = l"], intro triple_if triple_ret on_tasks_srv_told, assumption,
        rule triple_bind [where R = "\<lambda>_ s. told s = l"], intro triple_option triple_if triple_ret backup_Restore_told, assumption,
        rule triple_bind [OF t], rule triple_bind [OF s], rule triple_ret, assumption)
qed

section \<open>Properties\<close>

text \<open>Whatever names the entries of an archive have, restoring it makes no system call outside of the
  directory of the server.\<close>

theorem restore_stays_in_sandbox:
  assumes "base_ok (q_fs (fm_q (bk_fs x))) bs" "confined (q_fs (fm_q (bk_fs x))) (events (fst s))"
  shows "confined (q_fs (fm_q (bk_fs x))) (events (fst (snd (run_state (RestoreBackup x bk gone b a) s))))"
proof -
  have "bbox (bk_fs x) s" using assms(2) by (simp add: sbox_def)
  then have "bbox (bk_fs x) (snd (run_state (RestoreBackup x bk gone b a) s))"
    by (rule triple_snd [OF RestoreBackup_sbox [OF assms(1)]])
  then show ?thesis by (simp add: sbox_def)
qed

text \<open>A restoration tells the panel its outcome exactly once and truthfully, whatever failed; and it
  always ends with the server not suspended, even when it was suspended before.\<close>

theorem restore_reports:
  "told (snd (run_state (RestoreBackup x bk gone b a) s)) =
     told s @ [ToldRestore (Uuid b) (fst (run_state (RestoreBackup x bk gone b a) s) = None)] \<and>
   \<not> suspended (cfg (srv (snd (snd (run_state (RestoreBackup x bk gone b a) s)))))"
  using tripleD [OF RestoreBackup_told refl, of x bk gone b a s "fst (run_state (RestoreBackup x bk gone b a) s)"
      "snd (run_state (RestoreBackup x bk gone b a) s)"]
  by simp

definition example_bk :: "unit backup_env" where
  "example_bk =
     \<lparr>bk_fs = \<lparr>fm_q = NewQuota (NewUnixFS ''/srv'' False) 100, fm_uid = 0, fm_gid = 0, fm_isTest = False\<rparr>,
      bk_kernel = quiet_kernel ''/etc'' 0x81A4 1, bk_sniff = (\<lambda>_. Inr []), bk_contents = (\<lambda>_. Inr []), bk_parse = Some\<rparr>"

definition example_backend :: "(env_cell, unit) backend" where
  "example_backend =
     \<lparr>b_state = st, b_start = ret None, b_wait_for_stop = ret None, b_terminate = ret None, b_exit_state = ret (Inl ())\<rparr>"

definition example_backup :: backup where
  "example_backup = \<lparr>Uuid = ''b1'', Ignore = [], adapter = LocalAdapter\<rparr>"

definition example_tasks' :: "env_cell tasks" where
  "example_tasks' =
     \<lparr>srv = server_New \<lparr>suspended = True, egg_image = [], build_disk_space = 0, crash_detection = False\<rparr>
              \<lparr>st = Running, published = []\<rparr>, journal = []\<rparr>"

definition example_archive :: "unit archive" where
  "example_archive =
     \<lparr>ar_open = None,
      ar_entries = [\<lparr>en_name = ''../../etc/passwd'', en_open = None, en_size = 1, en_mode = 0x1A4, en_mtime = 0,
                     en_body = (\<lambda>n f w. ((1, None), w))\<rparr>],
      ar_broken = None\<rparr>"

theorem restore_stays_in_sandbox_witness:
  "confined (q_fs (fm_q (bk_fs example_bk))) (events (fst (snd (run_state
     (RestoreBackup example_bk example_backend (\<lambda>_. False) example_backup
        example_archive)
     (start, example_tasks')))))"
proof -
  have "base_ok (q_fs (fm_q (bk_fs example_bk))) [''srv'']"
    by (simp add: example_bk_def NewQuota_def base_ok_def NewUnixFS_def TrimSuffix_def HasSuffix_def render_def proper_def)
  then show ?thesis by (rule restore_stays_in_sandbox) (simp add: start_def)
qed

lemma prepare_restore_state:
  "snd (run_state (prepare_restore q) t) = t\<lparr>journal := journal t @ (if rq_truncate q then [RemovedFiles] else [])\<rparr>"
  by (simp add: prepare_restore_def if_st_def)

lemma prepare_restore_refuses: "fst (run_state (prepare_restore q) t) \<noteq> Some Accepted"
  by (simp add: prepare_restore_def if_st_def)

lemma accepted_restoring:
  assumes "run_state (postServerRestoreBackup parse q) t = (Accepted, t')"
  shows "Load (restoring (srv t')) \<and> CancelledSftp \<in> set (journal t')"
proof -
  let ?u = "snd (run_state (set_restoring True) t)"
  obtain r v where rv: "run_state (prepare_restore q) ?u = (r, v)" by (rule prod.exhaust)
  have "r \<noteq> Some Accepted" "v = ?u\<lparr>journal := journal ?u @ (if rq_truncate q then [RemovedFiles] else [])\<rparr>"
    using prepare_restore_refuses [of q ?u] prepare_restore_state [of q ?u] by (simp_all add: rv)
  moreover have "r = None \<and> t' = v"
    using assms rv calculation(1) by (simp add: postServerRestoreBackup_def split_beta split: if_splits option.splits)
  ultimately show ?thesis by (simp add: set_restoring_def)
qed

text \<open>While an accepted restoration has not ended, every power action, a termination included, is
  refused without touching the server, and open SFTP sessions have been cancelled.\<close>

theorem restore_request_protects:
  assumes "run_state (postServerRestoreBackup parse q) t = (Accepted, t')"
  shows "HandlePowerAction bk w cx pick ws action (srv t') = (Returned (Some ErrServerIsRestoring), srv t') \<and>
    CancelledSftp \<in> set (journal t')"
  using accepted_restoring [OF assms] by (simp add: HandlePowerAction_def busy_error_def)

definition example_request :: restore_request where
  "example_request =
     \<lparr>rq_bound = True, rq_uuid = ''b1'', rq_adapter = LocalAdapter, rq_url = [], rq_truncate = False, rq_link = None,
      rq_truncated = None, rq_located = None, rq_request = None, rq_fetched = None, rq_status = 200, rq_type_ok = True\<rparr>"

lemma example_uuid: "parseBackupUuid Some ''b1'' = Some ''b1''"
  by (simp add: parseBackupUuid_def ToLower_def lower_char_def)

theorem restore_request_protects_witness:
  "HandlePowerAction example_backend \<lparr>r_sync = SyncNotFound, r_space = True, r_check_permissions = False, r_chown = None, r_windows = False\<rparr>
     CtxLive 0 [] ''kill'' (srv (snd (run_state (postServerRestoreBackup Some example_request) example_tasks')))
   = (Returned (Some ErrServerIsRestoring), srv (snd (run_state (postServerRestoreBackup Some example_request) example_tasks')))"
proof -
  have "fst (run_state (postServerRestoreBackup Some example_request) example_tasks') = Accepted"
    by (simp add: postServerRestoreBackup_def prepare_restore_def set_restoring_def example_request_def example_uuid)
  then have "run_state (postServerRestoreBackup Some example_request) example_tasks' =
      (Accepted, snd (run_state (postServerRestoreBackup Some example_request) example_tasks'))"
    by (simp add: prod_eq_iff)
  from restore_request_protects [OF this] show ?thesis by blast
qed

text \<open>A restoration that runs is no longer protected once another request to restore has failed, for
  instance because there is no such backup: power actions are let through again.\<close>

theorem failed_request_unprotects:
  assumes "run_state (postServerRestoreBackup parse q) t = (r, t')" "rq_bound q" "parseBackupUuid parse (rq_uuid q) \<noteq> None"
    and "rq_adapter q = LocalAdapter" "rq_located q \<noteq> None" "Load (restoring (srv t))"
    and "\<not> Load (installing (srv t))" "\<not> Load (transferring (srv t))"
  shows "r = ServerError \<and> busy_error (srv t') = None"
  using assms
  by (auto simp: postServerRestoreBackup_def prepare_restore_def set_restoring_def busy_error_def if_st_def split: if_splits)

theorem failed_request_unprotects_witness:
  "busy_error (srv (snd (run_state
     (postServerRestoreBackup Some (example_request\<lparr>rq_located := Some ''missing''\<rparr>))
     (snd (run_state (postServerRestoreBackup Some example_request) example_tasks'))))) = (None :: unit power_error option)"
proof -
  let ?t = "snd (run_state (postServerRestoreBackup Some example_request) example_tasks')"
  have t: "Load (restoring (srv ?t))" "\<not> Load (installing (srv ?t))" "\<not> Load (transferring (srv ?t))"
    by (simp_all add: postServerRestoreBackup_def prepare_restore_def set_restoring_def example_request_def example_uuid
        example_tasks'_def server_New_def)
  let ?q = "example_request\<lparr>rq_located := Some ''missing''\<rparr>"
  have q: "rq_bound ?q" "parseBackupUuid Some (rq_uuid ?q) \<noteq> None" "rq_adapter ?q = LocalAdapter" "rq_located ?q \<noteq> None"
    by (simp_all add: example_request_def example_uuid)
  from failed_request_unprotects [OF _ q t] show ?thesis by (metis prod.collapse)
qed

section \<open>Where archives are\<close>

text \<open>What is relied on of the library: the text of a parsed identifier has no slash.\<close>

definition uuid_ok :: "(string \<Rightarrow> string option) \<Rightarrow> bool" where
  "uuid_ok parse \<longleftrightarrow> (\<forall>s c. parse s = Some c \<longrightarrow> CHR ''/'' \<notin> set c)"

lemma path_Base_cases: "path_Base p = ''/'' \<or> CHR ''/'' \<notin> set (path_Base p)"
proof -
  have "CHR ''/'' \<notin> set (takeWhile (\<lambda>c. c \<noteq> CHR ''/'') xs)" for xs by (auto dest: set_takeWhileD)
  then show ?thesis by (simp add: path_Base_def Let_def)
qed

lemma tar_gz_proper: "CHR ''/'' \<notin> set n \<Longrightarrow> proper (n @ ''.tar.gz'')"
  by (auto simp: proper_def append_eq_Cons_conv)

lemma resolve_single: "proper n \<Longrightarrow> resolve bs n = bs @ [n]"
  by (simp add: resolve_def proper_def Split_plain clean_step_def)

lemma resolve_slash_single: "proper n \<Longrightarrow> resolve bs (CHR ''/'' # n) = bs @ [n]"
  using Split_append_sep [of "CHR ''/''" "[]" n] by (simp add: resolve_def proper_def Split_plain clean_step_def)

text \<open>The file of a backup lies directly in the backup directory, whatever the identifier is, even one
  that is no identifier at all.\<close>

theorem backup_path_confined:
  assumes "uuid_ok parse" "list_all proper ds" "ds \<noteq> []"
  shows "\<exists>n. proper n \<and> backup_Path (render ds) parse ident = render (ds @ [n])"
proof -
  have join: "path_Join [render ds, p] = render (resolve ds p)" for p by (rule path_Join_base [OF assms(2,3)])
  have plain: "\<exists>n. proper n \<and> path_Join [render ds, m @ ''.tar.gz''] = render (ds @ [n])" if "CHR ''/'' \<notin> set m" for m
    using tar_gz_proper [OF that] by (auto simp: join resolve_single)
  show ?thesis
  proof (cases "normalizedIdentifier parse ident")
    case (Some c)
    then have "CHR ''/'' \<notin> set c"
      using assms(1) by (auto simp: normalizedIdentifier_def uuid_ok_def split: option.splits if_splits)
    then show ?thesis using Some plain [of c] by (simp add: backup_Path_def)
  next
    case None
    have "\<exists>n. proper n \<and> path_Join [render ds, ''/.tar.gz''] = render (ds @ [n])"
      by (rule exI [of _ "''.tar.gz''"]) (simp add: join resolve_slash_single proper_def)
    then show ?thesis using None path_Base_cases [of ident] plain [of "path_Base ident"] by (auto simp: backup_Path_def)
  qed
qed

theorem backup_path_confined_witness:
  "\<exists>n. proper n \<and> backup_Path (render [''backups'']) Map.empty ''../../etc/x'' = render [''backups'', n]"
  using backup_path_confined [of Map.empty "[''backups'']" "''../../etc/x''"] by (simp add: uuid_ok_def proper_def)

section \<open>Uploads\<close>

lemma sum_part_sizes:
  assumes "0 < n" "in_i64 len" "\<And>i. i < n \<Longrightarrow> in_i64 (int i * partSize)" "in_i64 (len - int (n - 1) * partSize)"
  shows "(\<Sum>i<n. part_size len partSize n i) = len"
proof -
  obtain m where n: "n = Suc m" using assms(1) by (cases n) auto
  have "(\<Sum>i<m. part_size len partSize n i) = (\<Sum>i<m. partSize)"
    by (rule sum.cong) (auto simp: part_size_def n)
  then show ?thesis
    using assms(3) [of m] assms(4) by (simp add: n part_size_def i64_id)
qed

text \<open>A part whose bytes were taken by an attempt that failed is never uploaded: the next attempts find
  the body empty, although the comment promises to try again.\<close>

lemma exhausted_body_fails: "0 < n \<Longrightarrow> \<exists>e. fst (uploadPart n 0 as) = Inl e"
proof (induction as)
  case (Cons a as)
  then show ?case by (cases a) (auto simp: body_short_def)
qed simp

lemma retry_never_succeeds:
  assumes "0 < n" "500 \<le> code"
  shows "\<exists>e. fst (uploadPart n n (Answered n code etag # as)) = Inl e"
  using exhausted_body_fails [OF assms(1)] assms by (simp add: body_short_def)

section \<open>Backups and the panel\<close>

lemma Generate_told: "keeps (\<lambda>s. told s = l) (on_tasks (Generate parse a b ign))"
  by (auto simp: triple_def Generate_def local_Generate_def s3_Generate_def split: adapter.splits)

lemma server_Backup_told:
  "triple (\<lambda>s. told s = l) (server_Backup x a ok b)
     (\<lambda>r s. \<exists>succ. told s = l @ ToldBackup (Uuid b) succ #
        (if succ \<and> \<not> ok then [] else [Published (BackupCompletedEvent @ '':'' @ Uuid b) (if succ then ''true'' else ''false'')]) \<and>
        (r = None \<longleftrightarrow> succ))"
proof -
  have ign: "keeps (\<lambda>s. told s = l) (if Ignore b = []
        then do { i \<leftarrow> on_proc (getServerwideIgnoredFiles x); ret (case i of Inl _ \<Rightarrow> [] | Inr i \<Rightarrow> i) } else ret (Ignore b))"
    by (intro triple_if triple_ret keeps_bind on_proc_told)
  show ?thesis
    unfolding server_Backup_def
    by (rule triple_bind [OF ign], rule triple_bind [OF Generate_told], rule triple_sum)
       (auto simp: triple_def backup_Remove_def if_st_def)
qed

end
