(* ===== verification/Transfers.thy ===== *)
theory Transfers
  imports Tasks
begin

text \<open>
  Moving a server to another node: the transfer and its managers (\<^verbatim>\<open>server/transfer/\<close>), the handler of the
  source node (\<^verbatim>\<open>router/router_server_transfer.go\<close>) and of the target node (\<^verbatim>\<open>router/router_transfer.go\<close>).
  The archive, the hash function and the panel are parameters.
\<close>

section \<open>Transfers and their managers\<close>

datatype status = StatusPending | StatusProcessing | StatusCancelling | StatusCancelled | StatusFailed | StatusCompleted

primrec status_name :: "status \<Rightarrow> string" where
  "status_name StatusPending = ''pending''"
| "status_name StatusProcessing = ''processing''"
| "status_name StatusCancelling = ''cancelling''"
| "status_name StatusCancelled = ''cancelled''"
| "status_name StatusFailed = ''failed''"
| "status_name StatusCompleted = ''completed''"

abbreviation TransferStatusEvent :: string where "TransferStatusEvent \<equiv> ''transfer status''"
abbreviation TransferLogsEvent :: string where "TransferLogsEvent \<equiv> ''transfer logs''"

text \<open>A transfer: its status, whether its context has been cancelled, and the identifier of its server.\<close>

record transfer =
  tr_server :: string
  tr_status :: status
  tr_cancelled :: bool

definition transfer_New :: "string \<Rightarrow> transfer" where
  "transfer_New i = \<lparr>tr_server = i, tr_status = StatusPending, tr_cancelled = False\<rparr>"

definition SetStatus :: "status \<Rightarrow> transfer \<Rightarrow> transfer \<times> task_event" where
  "SetStatus s t = (t\<lparr>tr_status := s\<rparr>, Published TransferStatusEvent (status_name s))"

definition transfer_Cancel :: "transfer \<Rightarrow> transfer \<times> task_event list" where
  "transfer_Cancel t =
     (if tr_status t \<in> {StatusCancelling, StatusCancelled, StatusCompleted, StatusFailed} then (t, [])
      else (case SetStatus StatusCancelling t of (t', e) \<Rightarrow> (t'\<lparr>tr_cancelled := True\<rparr>, [e])))"

type_synonym transfers = "string \<rightharpoonup> transfer"

definition mgr_Add :: "transfer \<Rightarrow> transfers \<Rightarrow> transfers" where
  "mgr_Add t m = m(tr_server t \<mapsto> t)"

definition mgr_Remove :: "transfer \<Rightarrow> transfers \<Rightarrow> transfers" where
  "mgr_Remove t m = m(tr_server t := None)"

definition mgr_Get :: "string \<Rightarrow> transfers \<Rightarrow> transfer option" where
  "mgr_Get i m = m i"

text \<open>\<^verbatim>\<open>deleteServerTransfer\<close> and \<^verbatim>\<open>deleteTransfer\<close>, which differ in the manager only.\<close>

definition cancel_request :: "bool \<Rightarrow> string \<Rightarrow> transfers \<Rightarrow> bool \<times> transfers \<times> task_event list" where
  "cancel_request busy i m =
     (if \<not> busy then (False, m, [])
      else (case mgr_Get i m of
              None \<Rightarrow> (False, m, [])
            | Some t \<Rightarrow> (case transfer_Cancel t of (t', es) \<Rightarrow> (True, m(i \<mapsto> t'), es))))"

section \<open>The source node\<close>

definition set_transferring :: "bool \<Rightarrow> ('e tasks, unit) state" where
  "set_transferring v = do {
     modify_st (\<lambda>t. t\<lparr>srv := (srv t)\<lparr>transferring := Store v (transferring (srv t))\<rparr>\<rparr>);
     if_st v (tell CancelledSftp)
   }"

datatype transfer_reply = TransferAccepted | TransferConflict | TransferStopFailed

definition transfer_check :: "('e tasks, bool) state" where
  "transfer_check = read_st (\<lambda>t. Load (transferring (srv t)))"

text \<open>\<open>gone\<close> recognises the message for a container that does not exist.\<close>

definition transfer_start :: "('e, 'x) backend \<Rightarrow> ('x \<Rightarrow> bool) \<Rightarrow> ('e tasks, transfer_reply) state" where
  "transfer_start b gone = do {
     set_transferring True;
     e \<leftarrow> read_st (\<lambda>t. environment (srv t));
     stopped \<leftarrow> (if b_state b e \<noteq> Offline then on_srv (in_env (b_wait_for_stop b)) else ret None);
     (case stopped of
        Some e \<Rightarrow> if gone e then ret TransferAccepted
                 else do { set_transferring False; ret TransferStopFailed }
      | None \<Rightarrow> ret TransferAccepted)
   }"

definition postServerTransfer :: "('e, 'x) backend \<Rightarrow> ('x \<Rightarrow> bool) \<Rightarrow> ('e tasks, transfer_reply) state" where
  "postServerTransfer b gone = do {
     busy \<leftarrow> transfer_check;
     if busy then ret TransferConflict else transfer_start b gone
   }"

text \<open>The goroutine of an accepted transfer: \<open>pushed\<close> is the result of \<^verbatim>\<open>PushArchiveToTarget\<close>. Success is left
  to the target node to report.\<close>

datatype push_error = PushCanceled | PushFailed string

definition notifyPanelOfFailure :: "('e tasks, unit) state" where
  "notifyPanelOfFailure = do {
     tell (ToldTransfer False);
     tell (Published TransferStatusEvent ''failure'');
     set_transferring False
   }"

definition push_task :: "push_error option \<Rightarrow> ('e tasks, unit) state" where
  "push_task pushed =
     (case pushed of
        None \<Rightarrow> ret ()
      | Some e \<Rightarrow> do {
          notifyPanelOfFailure;
          if_st (e = PushCanceled) (tell (Published TransferLogsEvent ''Canceled.''))
        })"

section \<open>The target node\<close>

text \<open>
  What the loop over the parts of the request meets: the context has ended, a part cannot be read, an
  archive (with the errors of preparing the directory and of extracting, and the bytes that were read), a
  checksum (with the error of reading it and its decoded value), or another field.
\<close>

datatype ('d, 'h) incoming =
  Cancelled | BadPart string | ArchivePart "string option" "string option" "'d list"
| ChecksumPart "string option" "'h option" | OtherPart

datatype receive_error =
  PartError string | ChecksumFirst | ChecksumUnreadable | ChecksumMismatch | Incomplete | EnvironmentError string

record 'd received =
  hasArchive :: bool
  hasChecksum :: bool
  checksumVerified :: bool
  hashed :: "'d list"

definition nothing_received :: "'d received" where
  "nothing_received = \<lparr>hasArchive = False, hasChecksum = False, checksumVerified = False, hashed = []\<rparr>"

definition take_checksum :: "('d list \<Rightarrow> 'h) \<Rightarrow> string option \<Rightarrow> 'h option \<Rightarrow> 'd received \<Rightarrow> receive_error + 'd received" where
  "take_checksum H broken v s =
     (if \<not> hasArchive s then Inl ChecksumFirst
      else if broken \<noteq> None then Inl ChecksumUnreadable
      else (case v of
              None \<Rightarrow> Inl ChecksumUnreadable
            | Some expected \<Rightarrow>
                if expected \<noteq> H (hashed s) then Inl ChecksumMismatch
                else Inr (s\<lparr>hasChecksum := True, checksumVerified := True\<rparr>)))"

fun receive_parts :: "('d list \<Rightarrow> 'h) \<Rightarrow> 'd received \<Rightarrow> ('d, 'h) incoming list \<Rightarrow> ('e tasks, receive_error + 'd received) state" where
  "receive_parts H s [] = ret (Inr s)"
| "receive_parts H s (Cancelled # ps) = ret (Inr s)"
| "receive_parts H s (BadPart e # ps) = ret (Inl (PartError e))"
| "receive_parts H s (ArchivePart ensure broken d # ps) = do {
     tell EnsuredDirectory;
     (case ensure of
        Some e \<Rightarrow> ret (Inl (PartError e))
      | None \<Rightarrow> do {
          tell ExtractedArchive;
          (case broken of
             Some e \<Rightarrow> ret (Inl (PartError e))
           | None \<Rightarrow> receive_parts H (s\<lparr>hasArchive := True, hashed := hashed s @ d\<rparr>) ps)
        })
   }"
| "receive_parts H s (ChecksumPart broken v # ps) =
     (case take_checksum H broken v s of
        Inl e \<Rightarrow> ret (Inl e)
      | Inr s' \<Rightarrow> receive_parts H s' ps)"
| "receive_parts H s (OtherPart # ps) = receive_parts H s ps"

definition accept_parts :: "('d list \<Rightarrow> 'h) \<Rightarrow> string option \<Rightarrow> ('d, 'h) incoming list \<Rightarrow> ('e tasks, receive_error option) state" where
  "accept_parts H created ps = do {
     r \<leftarrow> receive_parts H nothing_received ps;
     (case r of
        Inl e \<Rightarrow> ret (Some e)
      | Inr s \<Rightarrow>
          if \<not> hasArchive s \<or> \<not> hasChecksum s then ret (Some Incomplete)
          else if \<not> checksumVerified s then ret (Some ChecksumMismatch)
          else do { tell CreatedEnvironment; ret (map_option EnvironmentError created) })
   }"

text \<open>The deferred function; \<open>heard\<close> is whether the panel took the status.\<close>

definition finish_transfer :: "bool \<Rightarrow> bool \<Rightarrow> ('e tasks, unit) state" where
  "finish_transfer successful heard = do {
     if_st (\<not> successful) (do { tell (Published TransferStatusEvent ''failure''); tell RemovedServer });
     tell (ToldTransfer successful);
     if \<not> heard then if_st (\<not> successful) (tell RemovedFiles)
     else do {
       set_transferring False;
       tell (Published TransferStatusEvent ''success'')
     }
   }"

text \<open>
  The part of \<^verbatim>\<open>postTransfers\<close> after the token has been checked. \<open>fresh\<close> is whether no transfer of this server is
  known yet, \<open>installed\<close> the result of preparing the new server; a failure of it is handled with the server
  of the transfer, which does not exist yet. \<open>media\<close> is the error of the content type.
\<close>

record ('d, 'h) transfer_request =
  tq_fresh :: bool
  tq_installed :: "string option"
  tq_media :: "string option"
  tq_parts :: "('d, 'h) incoming list"
  tq_created :: "string option"
  tq_heard :: bool

definition postTransfers ::
  "('d list \<Rightarrow> 'h) \<Rightarrow> ('d, 'h) transfer_request \<Rightarrow> ('e tasks, receive_error option outcome) state" where
  "postTransfers H q =
     (if tq_fresh q \<and> tq_installed q \<noteq> None then ret (Panic ''invalid memory address or nil pointer dereference'')
      else do {
        if_st (tq_fresh q) (set_transferring True);
        r \<leftarrow> (case tq_media q of
           Some e \<Rightarrow> ret (Some (PartError e))
         | None \<Rightarrow> accept_parts H (tq_created q) (tq_parts q));
        finish_transfer (r = None) (tq_heard q);
        ret (Return r)
      })"

section \<open>What a successful transfer has checked\<close>

primrec archive_bytes :: "('d, 'h) incoming \<Rightarrow> 'd list" where
  "archive_bytes Cancelled = []"
| "archive_bytes (BadPart _) = []"
| "archive_bytes (ArchivePart _ _ d) = d"
| "archive_bytes (ChecksumPart _ _) = []"
| "archive_bytes OtherPart = []"

primrec is_archive :: "('d, 'h) incoming \<Rightarrow> bool" where
  "is_archive Cancelled = False"
| "is_archive (BadPart _) = False"
| "is_archive (ArchivePart _ _ _) = True"
| "is_archive (ChecksumPart _ _) = False"
| "is_archive OtherPart = False"

text \<open>A checksum among the parts that matches everything extracted before it.\<close>

definition verified_by :: "('d list \<Rightarrow> 'h) \<Rightarrow> 'd received \<Rightarrow> ('d, 'h) incoming list \<Rightarrow> bool" where
  "verified_by H s ps \<longleftrightarrow>
     (\<exists>xs v ys. ps = xs @ ChecksumPart None (Some v) # ys \<and> v = H (hashed s @ concat (map archive_bytes xs)) \<and>
        (hasArchive s \<or> list_ex is_archive xs))"

lemma verified_by_Cons:
  assumes "verified_by H s' ps" "hashed s' = hashed s @ archive_bytes p" "hasArchive s' \<longrightarrow> hasArchive s \<or> is_archive p"
  shows "verified_by H s (p # ps)"
proof -
  obtain xs v ys where "ps = xs @ ChecksumPart None (Some v) # ys" "v = H (hashed s' @ concat (map archive_bytes xs))"
    "hasArchive s' \<or> list_ex is_archive xs"
    using assms(1) by (auto simp: verified_by_def)
  then show ?thesis
    unfolding verified_by_def using assms(2,3) by (intro exI [of _ "p # xs"] exI [of _ v] exI [of _ ys]) auto
qed

lemma take_checksum_ok:
  "take_checksum H broken v s = Inr s' \<Longrightarrow>
   broken = None \<and> v = Some (H (hashed s)) \<and> hasArchive s \<and> hashed s' = hashed s \<and> hasArchive s' = hasArchive s"
  by (auto simp: take_checksum_def split: if_splits option.splits)

lemma receive_verified:
  "fst (run_state (receive_parts H s ps) t) = Inr s' \<Longrightarrow> checksumVerified s' \<Longrightarrow> checksumVerified s \<or> verified_by H s ps"
proof (induction H s ps arbitrary: t rule: receive_parts.induct)
  case (4 H s ensure broken d ps)
  let ?s = "s\<lparr>hasArchive := True, hashed := hashed s @ d\<rparr>"
  from 4 have "checksumVerified ?s \<or> verified_by H ?s ps"
    by (auto simp: split_beta split: option.splits)
  then show ?case using verified_by_Cons [of H ?s ps s "ArchivePart ensure broken d"] by auto
next
  case (5 H s broken v ps)
  then obtain s1 where s1: "take_checksum H broken v s = Inr s1" by (cases "take_checksum H broken v s") auto
  from take_checksum_ok [OF s1] have "verified_by H s (ChecksumPart broken v # ps)"
    unfolding verified_by_def by (intro exI [of _ "[]"] exI [of _ "H (hashed s)"] exI [of _ ps]) simp
  then show ?case by blast
next
  case (6 H s ps)
  then show ?case using verified_by_Cons [of H s ps s OtherPart] by auto
qed auto

lemma accept_verified:
  assumes "fst (run_state (accept_parts H c ps) t) = None"
  shows "verified_by H nothing_received ps"
proof -
  obtain r u where ru: "run_state (receive_parts H nothing_received ps) t = (r, u)" by (rule prod.exhaust)
  then obtain s where s: "r = Inr s" "checksumVerified s"
    using assms by (auto simp: accept_parts_def split: sum.splits if_splits)
  then have "fst (run_state (receive_parts H nothing_received ps) t) = Inr s" by (simp add: ru)
  from receive_verified [OF this s(2)] show ?thesis by (simp add: nothing_received_def)
qed

lemma receive_inward: "keeps (does inward u) (receive_parts H s ps)"
  by (induction H s ps rule: receive_parts.induct)
     (auto intro!: keeps_bind triple_ret triple_option triple_sum tell_does)

lemma accept_inward: "keeps (does inward u) (accept_parts H c ps)"
  unfolding accept_parts_def
  by (intro keeps_bind receive_inward triple_sum triple_ret triple_if tell_does) simp_all

abbreviation visible :: "'e tasks \<Rightarrow> task_event list" where
  "visible t \<equiv> filter (\<lambda>e. \<not> inward e) (journal t)"

lemma does_inward_visible: "does inward t t' \<Longrightarrow> visible t' = visible t \<and> srv t' = srv t"
  by (auto simp: does_def list_all_iff)

text \<open>Everything of the handler but its deferred function.\<close>

definition transfer_work ::
  "('d list \<Rightarrow> 'h) \<Rightarrow> ('d, 'h) transfer_request \<Rightarrow> ('e tasks, receive_error option) state" where
  "transfer_work H q =
     (case tq_media q of Some e \<Rightarrow> ret (Some (PartError e)) | None \<Rightarrow> accept_parts H (tq_created q) (tq_parts q))"

lemma transfer_work_inward: "keeps (does inward u) (transfer_work H q)"
  unfolding transfer_work_def by (intro triple_option triple_ret accept_inward)

lemma postTransfers_run:
  assumes "run_state (postTransfers H q) t = (Return r, t')"
  obtains u v where "u = (if tq_fresh q then snd (run_state (set_transferring True) t) else t)"
    and "run_state (transfer_work H q) u = (r, v)" and "t' = snd (run_state (finish_transfer (r = None) (tq_heard q)) v)"
    and "visible v = visible t" and "srv v = srv u"
proof -
  let ?u = "if tq_fresh q then snd (run_state (set_transferring True) t) else t"
  obtain r' v where v: "run_state (transfer_work H q) ?u = (r', v)" by (rule prod.exhaust)
  have "r' = r" "t' = snd (run_state (finish_transfer (r = None) (tq_heard q)) v)"
    using assms v by (auto simp: postTransfers_def transfer_work_def [symmetric] if_st_def split_beta split: if_splits)
  moreover have "visible v = visible ?u \<and> srv v = srv ?u"
    by (rule does_inward_visible [OF tripleD [OF transfer_work_inward does_refl v]])
  moreover have "visible ?u = visible t" by (simp add: set_transferring_def)
  ultimately show thesis using that [OF refl] v by simp
qed

section \<open>Properties\<close>

text \<open>C32: A transfer is reported as successful only when an archive was received and, after it, a checksum
  that matches every byte extracted up to then.\<close>

theorem transfer_success_verified:
  assumes "run_state (postTransfers H q) t = (Return None, t')"
  shows "\<exists>xs v ys. tq_parts q = xs @ ChecksumPart None (Some v) # ys \<and> v = H (concat (map archive_bytes xs)) \<and>
    list_ex is_archive xs"
  using assms
proof (rule postTransfers_run)
  fix u v assume "run_state (transfer_work H q) u = (None, v)"
  then have "fst (run_state (accept_parts H (tq_created q) (tq_parts q)) u) = None"
    by (auto simp: transfer_work_def split: option.splits)
  from accept_verified [OF this] show ?thesis by (simp add: verified_by_def nothing_received_def)
qed

text \<open>The target node reports the outcome of a transfer to the panel exactly once and truthfully. The
  clients of a failed transfer are told of the failure and then, when the panel took the report, also of
  a success; when it did not, a server that has arrived stays locked as being transferred.\<close>

theorem transfer_outcome:
  assumes "run_state (postTransfers H q) t = (Return r, t')"
  shows "visible t' = visible t @ (if r = None then [] else [Published TransferStatusEvent ''failure'']) @
      ToldTransfer (r = None) # (if tq_heard q then [Published TransferStatusEvent ''success''] else []) \<and>
    Load (transferring (srv t')) = (\<not> tq_heard q \<and> (tq_fresh q \<or> Load (transferring (srv t))))"
  using assms
proof (rule postTransfers_run)
  fix u v assume "u = (if tq_fresh q then snd (run_state (set_transferring True) t) else t)"
    "t' = snd (run_state (finish_transfer (r = None) (tq_heard q)) v)" "visible v = visible t" "srv v = srv u"
  then show ?thesis by (cases r) (auto simp: finish_transfer_def set_transferring_def if_st_def)
qed

definition example_transfer :: "('d, 'h) incoming list \<Rightarrow> ('d, 'h) transfer_request" where
  "example_transfer ps =
     \<lparr>tq_fresh = True, tq_installed = None, tq_media = None, tq_parts = ps, tq_created = None, tq_heard = True\<rparr>"

definition example_target :: "env_cell tasks" where
  "example_target =
     \<lparr>srv = server_New \<lparr>suspended = False, egg_image = [], build_disk_space = 0, crash_detection = False\<rparr>
              \<lparr>st = Offline, published = []\<rparr>, journal = []\<rparr>"

lemma run_prod: "run_state m t = (fst (run_state m t), snd (run_state m t))"
  by simp

lemmas transfer_run_defs = postTransfers_def example_transfer_def accept_parts_def take_checksum_def nothing_received_def
  finish_transfer_def set_transferring_def

theorem transfer_success_verified_witness:
  "\<exists>xs v ys. [ArchivePart None None [1, 2], OtherPart, ChecksumPart None (Some (3::nat))] = xs @ ChecksumPart None (Some v) # ys \<and>
     v = sum_list (concat (map archive_bytes xs)) \<and> list_ex is_archive xs"
proof -
  let ?q = "example_transfer [ArchivePart None None [1, 2], OtherPart, ChecksumPart None (Some (3::nat))]"
  have "fst (run_state (postTransfers sum_list ?q) example_target) = Return None" by (simp add: transfer_run_defs)
  then have "run_state (postTransfers sum_list ?q) example_target = (Return None, snd (run_state (postTransfers sum_list ?q) example_target))"
    by (simp add: prod_eq_iff)
  from transfer_success_verified [OF this] show ?thesis by (simp add: example_transfer_def)
qed

theorem transfer_outcome_witness:
  "visible (snd (run_state (postTransfers (sum_list :: nat list \<Rightarrow> nat) (example_transfer [BadPart ''eof''])) example_target)) =
     [Published TransferStatusEvent ''failure'', ToldTransfer False, Published TransferStatusEvent ''success'']"
proof -
  let ?m = "postTransfers (sum_list :: nat list \<Rightarrow> nat) (example_transfer [BadPart ''eof''])"
  have "fst (run_state ?m example_target) = Return (Some (PartError ''eof''))" by (simp add: transfer_run_defs)
  then have "run_state ?m example_target = (Return (Some (PartError ''eof'')), snd (run_state ?m example_target))"
    by (simp add: prod_eq_iff)
  from transfer_outcome [OF this] show ?thesis by (simp add: example_transfer_def example_target_def)
qed

text \<open>An archive that follows a verified checksum is extracted and never compared with one.\<close>

lemma late_archive_unverified:
  "fst (run_state (postTransfers sum_list (example_transfer
     [ArchivePart None None [1], ChecksumPart None (Some (1::nat)), ArchivePart None None [7]])) example_target) = Return None"
  by (simp add: transfer_run_defs)

text \<open>When the new server cannot be prepared the handler dereferences the missing server.\<close>

lemma failed_preparation_panics:
  "tq_fresh q \<Longrightarrow> tq_installed q \<noteq> None \<Longrightarrow>
   run_state (postTransfers H q) t = (Panic ''invalid memory address or nil pointer dereference'', t)"
  by (simp add: postTransfers_def)

text \<open>Two requests that both check before either sets the flag are both accepted.\<close>

lemma transfers_race:
  assumes "\<not> Load (transferring (srv t))" "b_state b (environment (srv t)) = Offline"
  shows "fst (run_state (do { b1 \<leftarrow> transfer_check; b2 \<leftarrow> transfer_check;
      r1 \<leftarrow> (if b1 then ret TransferConflict else transfer_start b gone);
      r2 \<leftarrow> (if b2 then ret TransferConflict else transfer_start b gone); ret (r1, r2) }) t) = (TransferAccepted, TransferAccepted)"
  using assms by (simp add: transfer_check_def transfer_start_def set_transferring_def)

text \<open>An accepted transfer keeps power actions out.\<close>

lemma transfer_protects:
  assumes "run_state (postServerTransfer b gone) t = (TransferAccepted, t')" "\<not> Load (restoring (srv t))"
  shows "HandlePowerAction bk w cx pick ws action (srv t') = (Returned (Some ErrServerIsTransferring), srv t')"
  using assms
  by (auto simp: postServerTransfer_def transfer_check_def transfer_start_def set_transferring_def in_env_def
      HandlePowerAction_def busy_error_def split_beta split: if_splits option.splits)

end
