(* ===== verification/Archives.thy ===== *)
theory Archives
  imports Backups
begin

text \<open>
  Archives of a server's files: building one from a walk of a directory (\<^verbatim>\<open>archive.go\<close>), compressing
  files on request, the space check before an extraction and the extraction itself (\<^verbatim>\<open>compress.go\<close>),
  and the denylist (\<^verbatim>\<open>path.go\<close>), all of \<^verbatim>\<open>server/filesystem\<close>. The compressors and the library that
  recognises archives are parameters; the tar writer is modelled as the entries it has taken.
\<close>

section \<open>The tar writer\<close>

datatype tar_type = TypeReg | TypeDir | TypeSymlink | TypeChar | TypeBlock | TypeFifo

record tar_header =
  th_type :: tar_type
  th_name :: string
  th_link :: string
  th_size :: int

text \<open>The entries, oldest first, with the bytes each has got so far; and the bytes counted by the progress tracker.\<close>

record tar_writer =
  tw_entries :: "(tar_header \<times> string) list"
  tw_written :: "int option"

definition FileInfoHeader :: "file_info \<Rightarrow> string \<Rightarrow> string + tar_header" where
  "FileInfoHeader i link =
     (let h = \<lambda>t nm l s. Inr \<lparr>th_type = t, th_name = nm, th_link = l, th_size = s\<rparr>
      in if IsRegular i then h TypeReg (fi_name i) [] (fi_size i)
         else if IsDir i then h TypeDir (fi_name i @ ''/'') [] 0
         else if IsSymlink i then h TypeSymlink (fi_name i) link 0
         else if fi_mode i AND ModeDevice \<noteq> 0
              then h (if fi_mode i AND ModeCharDevice \<noteq> 0 then TypeChar else TypeBlock) (fi_name i) [] 0
         else if fi_mode i AND ModeNamedPipe \<noteq> 0 then h TypeFifo (fi_name i) [] 0
         else if fi_mode i AND ModeSocket \<noteq> 0 then Inl ''archive/tar: sockets not supported''
         else Inl ''archive/tar: unknown file mode'')"

text \<open>How many bytes of the current entry are still to come.\<close>

definition missing :: "tar_writer \<Rightarrow> int" where
  "missing tw =
     (if tw_entries tw = [] then 0
      else th_size (fst (last (tw_entries tw))) - int (length (snd (last (tw_entries tw)))))"

text \<open>
  What the code around the file system answers: the links and file contents it reads, the
  error the sink behind the tar writer gives to the next write if it fails, the size of what it
  has packed, the cancelled context and the ignore rules. \<^verbatim>\<open>os.Readlink\<close> gets a bare name, so its
  answer does not depend on the directory that is walked; an error says whether nothing was there.
\<close>

record 'w archive_env =
  ax_kernel :: "'w kernel"
  ax_readlink :: "string \<Rightarrow> 'w \<Rightarrow> bool + string"
  ax_read :: "fd \<Rightarrow> 'w \<Rightarrow> string list \<times> string option"
  ax_sink :: "tar_writer \<Rightarrow> string option"
  ax_packed :: "tar_writer \<Rightarrow> int"
  ax_cancelled :: "'w \<Rightarrow> bool"
  ax_ignores :: "string list \<Rightarrow> string \<Rightarrow> bool"

definition WriteHeader :: "'w archive_env \<Rightarrow> tar_header \<Rightarrow> (tar_writer, string option) state" where
  "WriteHeader x h = State (\<lambda>tw.
     if missing tw > 0 then (Some ''archive/tar: missed writing bytes'', tw)
     else if th_size h < 0 then (Some ''archive/tar: cannot encode header'', tw)
     else case ax_sink x tw of
       Some e \<Rightarrow> (Some e, tw)
     | None \<Rightarrow> (None, tw\<lparr>tw_entries := tw_entries tw @ [(h, [])]\<rparr>))"

text \<open>\<^verbatim>\<open>TarProgress.Write\<close>: the tracker, if there is one, counts the bytes before they are written.\<close>

definition Progress_Write :: "nat \<Rightarrow> int \<Rightarrow> int" where
  "Progress_Write n written = (written + int n) mod 2 ^ 64"

definition TarProgress_Write :: "'w archive_env \<Rightarrow> string \<Rightarrow> (tar_writer, string option) state" where
  "TarProgress_Write x v = State (\<lambda>tw0.
     let tw = tw0\<lparr>tw_written := map_option (Progress_Write (length v)) (tw_written tw0)\<rparr>
     in case ax_sink x tw of
          Some e \<Rightarrow> (Some e, tw)
        | None \<Rightarrow>
            (None, tw\<lparr>tw_entries := butlast (tw_entries tw) @
               [(fst (last (tw_entries tw)), snd (last (tw_entries tw)) @ v)]\<rparr>))"

text \<open>\<^verbatim>\<open>io.LimitReader\<close> over the chunks of a file, and the loop of \<^verbatim>\<open>io.CopyBuffer\<close>.\<close>

fun LimitReader :: "nat \<Rightarrow> string list \<Rightarrow> string option \<Rightarrow> string list \<times> string option" where
  "LimitReader 0 cs e = ([], None)"
| "LimitReader (Suc n) [] e = ([], e)"
| "LimitReader (Suc n) (c # cs) e =
     (case LimitReader (Suc n - length c) cs e of (ds, e') \<Rightarrow> (take (Suc n) c # ds, e'))"

fun CopyBuffer :: "'w archive_env \<Rightarrow> string list \<times> string option \<Rightarrow> (tar_writer, string option) state" where
  "CopyBuffer x ([], e) = ret e"
| "CopyBuffer x (c # cs, e) = do {
     r \<leftarrow> TarProgress_Write x c;
     (case r of Some err \<Rightarrow> ret (Some err) | None \<Rightarrow> CopyBuffer x (cs, e))
   }"

section \<open>Building an archive\<close>

record Archive =
  a_BaseDirectory :: string
  a_Files :: "string list"
  a_Ignore :: string
  a_Progress :: "int option"

definition on_tar :: "('a, 'r) state \<Rightarrow> ('w proc \<times> 'a, 'r) state" where
  "on_tar m = State (\<lambda>(ps, a). case run_state m a of (r, a') \<Rightarrow> (r, (ps, a')))"

definition entry_Info :: "'w kernel \<Rightarrow> fd \<Rightarrow> string \<Rightarrow> dir_entry \<Rightarrow> ('w proc, fs_error + file_info) state" where
  "entry_Info k dirfd name d = (case d of Known i \<Rightarrow> ret (Inr i) | Listed _ \<Rightarrow> Lstatat k dirfd name)"

text \<open>The contents of an entry whose header has been written.\<close>

definition archive_contents :: "unixfs \<Rightarrow> 'w archive_env \<Rightarrow> fd \<Rightarrow> string \<Rightarrow> int \<Rightarrow> ('w proc \<times> tar_writer, walk_error option) state" where
  "archive_contents fs x dirfd name sz =
     (if sz < 1 then ret None
      else do {
        r \<leftarrow> on_proc (OpenFileat fs (ax_kernel x) dirfd name O_RDONLY 0);
        (case r of
           Inl e \<Rightarrow> ret (if is_not_exist e then None else Some (WalkErr e))
         | Inr (f, _) \<Rightarrow> do {
             (ps, _) \<leftarrow> read_st id;
             c \<leftarrow> on_tar (CopyBuffer x (case ax_read x f (world ps) of (cs, e) \<Rightarrow> LimitReader (nat sz) cs e));
             on_proc (sys_close f);
             ret (map_option FnErr c)
           })
      })"

definition addToArchive :: "unixfs \<Rightarrow> 'w archive_env \<Rightarrow> fd \<Rightarrow> string \<Rightarrow> string \<Rightarrow> dir_entry \<Rightarrow> ('w proc \<times> tar_writer, walk_error option) state" where
  "addToArchive fs x dirfd name relative d = do {
     s \<leftarrow> on_proc (entry_Info (ax_kernel x) dirfd name d);
     (case s of
        Inl e \<Rightarrow> ret (if is_not_exist e then None else Some (WalkErr e))
      | Inr i \<Rightarrow>
          if fi_mode i AND ModeSocket \<noteq> 0 then ret None
          else do {
            (ps, _) \<leftarrow> read_st id;
            (case (if IsSymlink i then ax_readlink x (fi_name i) (world ps) else Inr []) of
               Inl _ \<Rightarrow> ret None
             | Inr target \<Rightarrow>
                 (case FileInfoHeader i target of
                    Inl e \<Rightarrow> ret (Some (FnErr e))
                  | Inr h \<Rightarrow> do {
                      let header = (if IsSymlink i then h else h\<lparr>th_name := relative\<rparr>);
                      e \<leftarrow> on_tar (WriteHeader x header);
                      (case e of
                         Some e \<Rightarrow> ret (Some (FnErr e))
                       | None \<Rightarrow> archive_contents fs x dirfd name (th_size header))
                    }))
          })
   }"

text \<open>\<^verbatim>\<open>callback\<close>; an option is a test that skips the file when it holds.\<close>

definition archive_base :: "Archive \<Rightarrow> string" where
  "archive_base a = (if a_BaseDirectory a \<noteq> [] then path_Base (a_BaseDirectory a) @ ''/'' else [])"

definition archive_callback :: "unixfs \<Rightarrow> 'w archive_env \<Rightarrow> Archive \<Rightarrow> (string \<Rightarrow> bool) list
    \<Rightarrow> fd \<Rightarrow> string \<Rightarrow> string \<Rightarrow> dir_entry \<Rightarrow> ('w proc \<times> tar_writer, walk_error option) state" where
  "archive_callback fs x a opts dirfd name relative d =
     (if dir_type (entry_type d) then ret None
      else
        (let rel = (if archive_base a \<noteq> [] then TrimPrefix relative (archive_base a) else relative)
         in if list_ex (\<lambda>opt. opt rel) opts then ret None
            else addToArchive fs x dirfd name rel d))"

definition selects :: "string \<Rightarrow> string \<Rightarrow> bool" where
  "selects f relative \<longleftrightarrow>
     f = relative \<or> HasPrefix (TrimSuffix relative ''/'' @ ''/'') (TrimSuffix f ''/'' @ ''/'')"

definition withFilesCallback :: "Archive \<Rightarrow> string \<Rightarrow> bool" where
  "withFilesCallback a relative \<longleftrightarrow> \<not> list_ex (\<lambda>f. selects f relative) (a_Files a)"

definition archive_opts :: "'w archive_env \<Rightarrow> Archive \<Rightarrow> (string \<Rightarrow> bool) list" where
  "archive_opts x a =
     (if a_Files a = [] \<and> a_Ignore a \<noteq> [] then [ax_ignores x (Split (a_Ignore a) (CHR 0x0A))]
      else if a_Files a \<noteq> [] then [withFilesCallback a]
      else [])"

definition stream_visit :: "unixfs \<Rightarrow> 'w archive_env \<Rightarrow> Archive \<Rightarrow> ('w, tar_writer) walk_fn" where
  "stream_visit fs x a dirfd name relative d err =
     (case err of
        Some e \<Rightarrow> ret (Some (WalkErr e))
      | None \<Rightarrow> do {
          (ps, _) \<leftarrow> read_st id;
          if ax_cancelled x (world ps) then ret (Some (FnErr ''context canceled''))
          else (case d of
                  None \<Rightarrow> ret None
                | Some d \<Rightarrow> archive_callback fs x a (archive_opts x a) dirfd name relative d)
        })"

text \<open>
  The paths of an archive are made relative to the base. The result of \<^verbatim>\<open>Stream\<close> is its error, what
  the tar writer has taken, and whether closing it wrote the end of the archive: the code does not
  look at the error of that. \<open>None\<close> is a walk that has run out of fuel.
\<close>

definition relative_to_root :: "unixfs \<Rightarrow> Archive \<Rightarrow> Archive" where
  "relative_to_root fs a = a\<lparr>
     a_BaseDirectory := TrimPrefix (a_BaseDirectory a) ''/'',
     a_Files := map (\<lambda>f. if HasPrefix f (basePath fs) then TrimPrefix (TrimPrefix f (basePath fs)) ''/'' else f) (a_Files a)\<rparr>"

definition tar_Close :: "'w archive_env \<Rightarrow> tar_writer \<Rightarrow> bool" where
  "tar_Close x tw \<longleftrightarrow> missing tw \<le> 0 \<and> ax_sink x tw = None"

definition Stream :: "nat \<Rightarrow> filesystem \<Rightarrow> 'w archive_env \<Rightarrow> Archive \<Rightarrow> ('w proc, (walk_error option \<times> tar_writer \<times> bool) option) state" where
  "Stream n fm x a0 =
     (let a = relative_to_root (q_fs (fm_q fm)) a0;
          tw0 = \<lparr>tw_entries = [], tw_written = a_Progress a\<rparr>
      in with_safePath (q_fs (fm_q fm)) (ax_kernel x) (a_BaseDirectory a)
           (\<lambda>e. Some (Some (WalkErr e), tw0, tar_Close x tw0))
           (\<lambda>dirfd name. State (\<lambda>ps.
              case run_state (WalkDirat n (q_fs (fm_q fm)) (ax_kernel x) (stream_visit (q_fs (fm_q fm)) x a) dirfd name) (ps, tw0) of
                (r, (ps', tw)) \<Rightarrow> (map_option (\<lambda>e. (e, tw, tar_Close x tw)) r, ps'))))"

text \<open>\<^verbatim>\<open>Create\<close>: the destination is opened outside of the sandbox; \<open>dst\<close> is the error of that.\<close>

definition archive_Create :: "nat \<Rightarrow> filesystem \<Rightarrow> 'w archive_env \<Rightarrow> Archive \<Rightarrow> string option
    \<Rightarrow> ('w proc, (walk_error option \<times> tar_writer \<times> bool) option) state" where
  "archive_Create n fm x a dst =
     (case dst of
        Some e \<Rightarrow> ret (Some (Some (FnErr e), \<lparr>tw_entries = [], tw_written = a_Progress a\<rparr>, False))
      | None \<Rightarrow> Stream n fm x a)"

section \<open>Compressing files on request\<close>

text \<open>\<open>stamp\<close> is the formatted time without its colons.\<close>

datatype compress_error = CompressFs fs_error | CompressWalk walk_error | CompressFull

definition compress_path :: "string \<Rightarrow> string \<Rightarrow> string" where
  "compress_path dir stamp = path_Join [dir, ''archive-'' @ stamp @ ''.tar.gz'']"

text \<open>What happens once the archive is in the file \<open>f\<close> at \<open>d\<close>: it is counted, or removed when it does not fit.\<close>

definition settle_compressed :: "filesystem \<Rightarrow> 'w kernel \<Rightarrow> string \<Rightarrow> fd \<Rightarrow> int \<Rightarrow> ('w proc, compress_error + file_info) state" where
  "settle_compressed fm k d f n = do {
     u \<leftarrow> read_st usage;
     if n < 0 \<or> \<not> CanFit (fm_q fm) u n then do {
       _ \<leftarrow> quota_Remove (fm_q fm) k d;
       ret (Inl CompressFull)
     }
     else do {
       _ \<leftarrow> Add n;
       s \<leftarrow> sys_fstat k f;
       ret (case s of
              Inl e \<Rightarrow> Inl (CompressFs (PathError ''stat'' d (Errno e)))
            | Inr s \<Rightarrow> Inr (fillFileStatFromSys s d))
     }
   }"

definition compress_into :: "nat \<Rightarrow> filesystem \<Rightarrow> 'w archive_env \<Rightarrow> Archive \<Rightarrow> string \<Rightarrow> fd \<Rightarrow> ('w proc, (compress_error + file_info) option) state" where
  "compress_into n fm x a d f = do {
     s \<leftarrow> Stream n fm x a;
     (case s of
        None \<Rightarrow> ret None
      | Some (Some e, _, _) \<Rightarrow> ret (Some (Inl (CompressWalk e)))
      | Some (None, tw, _) \<Rightarrow> do {
          v \<leftarrow> settle_compressed fm (ax_kernel x) d f (ax_packed x tw);
          ret (Some v)
        })
   }"

definition CompressFiles :: "nat \<Rightarrow> filesystem \<Rightarrow> 'w archive_env \<Rightarrow> string \<Rightarrow> string \<Rightarrow> string list
    \<Rightarrow> ('w proc, (compress_error + file_info) option) state" where
  "CompressFiles n fm x stamp dir paths = do {
     let d = compress_path dir stamp;
     let a = \<lparr>a_BaseDirectory = dir, a_Files = paths, a_Ignore = [], a_Progress = None\<rparr>;
     r \<leftarrow> OpenFile (q_fs (fm_q fm)) (ax_kernel x) d {O_WRONLY, O_CREATE} 0x1A4;
     (case r of
        Inl e \<Rightarrow> ret (Some (Inl (CompressFs e)))
      | Inr (f, _) \<Rightarrow> do {
          out \<leftarrow> compress_into n fm x a d f;
          sys_close f;
          ret out
        })
   }"

section \<open>The denylist\<close>

text \<open>\<open>deny\<close> is the compiled denylist of the server.\<close>

definition IsIgnored :: "(string \<Rightarrow> bool) \<Rightarrow> string list \<Rightarrow> fm_error option" where
  "IsIgnored deny paths = (if list_ex deny paths then Some (FmError ErrCodeDenylistFile) else None)"

definition wrapError :: "fm_error \<Rightarrow> fm_error" where
  "wrapError e = (case e of FmError c \<Rightarrow> FmError c | _ \<Rightarrow> FmError ErrCodeUnknownError)"

section \<open>Space for an extraction\<close>

text \<open>
  What the recognition of an archive says of an open file: an error, no known format, or one of the
  kinds of format. \<open>Listing\<close> is what walking an archive shows for each entry.
\<close>

datatype 'f identified = IdError string | NoMatch | Recognised 'f

datatype listing_step = WalkFails string | InfoFails string | EntrySize int

datatype archive_kind = ZipKind "string + listing_step list" | ExtractionKind "listing_step list" | CompressionKind "listing_step list" | OtherKind

text \<open>\<open>seek\<close> is the error of going back to the start of the file.\<close>

definition archiverFileSystem :: "filesystem \<Rightarrow> 'w kernel \<Rightarrow> (fd \<Rightarrow> archive_kind identified) \<Rightarrow> (fd \<Rightarrow> string option) \<Rightarrow> string
    \<Rightarrow> ('w proc, (fm_error option) + listing_step list) state" where
  "archiverFileSystem fm k identify seek p = do {
     r \<leftarrow> Open (q_fs (fm_q fm)) k p;
     (case r of
        Inl e \<Rightarrow> ret (Inl (Some (Ufs e)))
      | Inr (f, nm) \<Rightarrow>
          (case identify f of
             IdError e \<Rightarrow> do { sys_close f; ret (Inl (Some (IoError e))) }
           | idf \<Rightarrow>
               (case seek f of
                  Some e \<Rightarrow> do { sys_close f; ret (Inl (Some (IoError e))) }
                | None \<Rightarrow> do {
                    info \<leftarrow> sys_fstat k f;
                    (case info of
                       Inl e \<Rightarrow> do { sys_close f; ret (Inl (Some (Ufs (PathError ''stat'' nm (Errno e))))) }
                     | Inr _ \<Rightarrow>
                         (case idf of
                            Recognised (ZipKind (Inl e)) \<Rightarrow> ret (Inl (Some (IoError e)))
                          | Recognised (ZipKind (Inr es)) \<Rightarrow> ret (Inr es)
                          | Recognised (ExtractionKind es) \<Rightarrow> ret (Inr es)
                          | Recognised (CompressionKind es) \<Rightarrow> ret (Inr es)
                          | _ \<Rightarrow> do { sys_close f; ret (Inl None) }))
                  })))
   }"

text \<open>The visit of one entry: its size is added to the sum if the sum still fits.\<close>

definition space_step :: "quota \<Rightarrow> int \<Rightarrow> int \<Rightarrow> listing_step \<Rightarrow> fm_error + int" where
  "space_step q u current e =
     (case e of
        WalkFails m \<Rightarrow> Inl (IoError m)
      | InfoFails m \<Rightarrow> Inl (IoError m)
      | EntrySize fileSize \<Rightarrow>
          if fileSize \<le> 0 then Inr current
          else if fileSize > i64 (MaxInt64 - current) then Inl (FmError ErrCodeDiskSpace)
          else
            (let next' = i64 (current + fileSize)
             in if \<not> CanFit q u next' then Inl (FmError ErrCodeDiskSpace) else Inr next'))"

fun space_walk :: "quota \<Rightarrow> int \<Rightarrow> bool list \<Rightarrow> int \<Rightarrow> listing_step list \<Rightarrow> fm_error option" where
  "space_walk q u cancelled current [] = None"
| "space_walk q u cancelled current (WalkFails m # es) = Some (IoError m)"
| "space_walk q u cancelled current (e # es) =
     (if cancelled \<noteq> [] \<and> hd cancelled then Some (IoError ''context canceled'')
      else
        (case space_step q u current e of
           Inl err \<Rightarrow> Some err
         | Inr next' \<Rightarrow> space_walk q u (tl cancelled) next' es))"

definition SpaceAvailableForDecompression :: "filesystem \<Rightarrow> 'w kernel \<Rightarrow> (fd \<Rightarrow> archive_kind identified) \<Rightarrow> (fd \<Rightarrow> string option)
    \<Rightarrow> bool list \<Rightarrow> string \<Rightarrow> string \<Rightarrow> ('w proc, fm_error option) state" where
  "SpaceAvailableForDecompression fm k identify seek cancelled dir arch =
     (if q_limit (fm_q fm) \<le> 0 then ret None
      else do {
        r \<leftarrow> archiverFileSystem fm k identify seek (path_Join [dir, arch]);
        (case r of
           Inl None \<Rightarrow> ret (Some (FmError ErrCodeUnknownArchive))
         | Inl (Some e) \<Rightarrow> ret (Some e)
         | Inr es \<Rightarrow> do {
             u \<leftarrow> read_st usage;
             ret (space_walk (fm_q fm) u cancelled 0 es)
           })
      })"

section \<open>Extracting\<close>

text \<open>
  An extractor calls back for each entry until the archive ends or fails (\<open>string option\<close>). A single
  compressed file gives chunks of at most 4096 bytes, then its end or an error; \<open>String\<close> is the
  error of opening the reader.
\<close>

record 'w unpacked = "'w entry" +
  en_dir :: bool

datatype 'w format =
  Extractor "'w unpacked list" "string option"
| Decompressor string "string + (nat \<times> 'w writer) list \<times> string option"
| OtherFormat

definition extract_one :: "filesystem \<Rightarrow> 'w kernel \<Rightarrow> (string \<Rightarrow> bool) \<Rightarrow> string \<Rightarrow> 'w unpacked \<Rightarrow> ('w proc, fm_error option) state" where
  "extract_one fm k deny dir f =
     (if en_dir f then ret None
      else
        (let p = path_Join [dir, en_name f]
         in if IsIgnored deny [p] \<noteq> None then ret None
            else (case en_open f of
                    Some e \<Rightarrow> ret (Some (IoError e))
                  | None \<Rightarrow> do {
                      r \<leftarrow> Write fm k (en_body f) p (en_size f) (en_mode f);
                      (case r of
                         Some e \<Rightarrow> ret (Some (wrapError e))
                       | None \<Rightarrow> do {
                           c \<leftarrow> fm_Chtimes fm k p (Some (en_mtime f)) (Some (en_mtime f));
                           ret (map_option (\<lambda>e. wrapError (Ufs e)) c)
                         })
                    })))"

fun extract_all :: "filesystem \<Rightarrow> 'w kernel \<Rightarrow> (string \<Rightarrow> bool) \<Rightarrow> string \<Rightarrow> 'w unpacked list \<Rightarrow> string option \<Rightarrow> ('w proc, fm_error option) state" where
  "extract_all fm k deny dir [] broken = ret (map_option IoError broken)"
| "extract_all fm k deny dir (f # fs) broken = do {
     r \<leftarrow> extract_one fm k deny dir f;
     (case r of Some e \<Rightarrow> ret (Some e) | None \<Rightarrow> extract_all fm k deny dir fs broken)
   }"

text \<open>The chunks of a single compressed file; each is checked against the quota, written and counted.\<close>

fun write_chunks :: "filesystem \<Rightarrow> fd \<Rightarrow> (nat \<times> 'w writer) list \<Rightarrow> string option \<Rightarrow> ('w proc, fm_error option) state" where
  "write_chunks fm f [] e = ret (map_option IoError e)"
| "write_chunks fm f ((n, wr) # cs) e =
     (if n = 0 then write_chunks fm f cs e
      else do {
        full \<leftarrow> HasSpaceFor fm (int n);
        (case full of
           Some q \<Rightarrow> ret (Some q)
         | None \<Rightarrow> do {
             (_, err) \<leftarrow> run_writer wr f;
             (case err of
                Some m \<Rightarrow> ret (Some (IoError m))
              | None \<Rightarrow> do { _ \<leftarrow> Add (int n); write_chunks fm f cs e })
           })
      })"

definition extractStream :: "filesystem \<Rightarrow> 'w kernel \<Rightarrow> (string \<Rightarrow> bool) \<Rightarrow> string \<Rightarrow> string \<Rightarrow> 'w format \<Rightarrow> ('w proc, fm_error option) state" where
  "extractStream fm k deny dir fileName fmt =
     (case fmt of
        OtherFormat \<Rightarrow> ret None
      | Extractor es broken \<Rightarrow> extract_all fm k deny dir es broken
      | Decompressor extension content \<Rightarrow>
          (let p = path_Join [dir, TrimSuffix fileName extension]
           in if IsIgnored deny [p] \<noteq> None then ret None
              else (case content of
                      Inl e \<Rightarrow> ret (Some (IoError e))
                    | Inr (cs, e) \<Rightarrow> do {
                        r \<leftarrow> OpenFile (q_fs (fm_q fm)) k p {O_WRONLY, O_CREATE} 0x1A4;
                        (case r of
                           Inl e \<Rightarrow> ret (Some (Ufs e))
                         | Inr (f, _) \<Rightarrow> do {
                             out \<leftarrow> write_chunks fm f cs e;
                             sys_close f;
                             ret out
                           })
                      })))"

definition extract_identified :: "filesystem \<Rightarrow> 'w kernel \<Rightarrow> (string \<Rightarrow> bool) \<Rightarrow> string \<Rightarrow> string \<Rightarrow> 'w format identified \<Rightarrow> ('w proc, fm_error option) state" where
  "extract_identified fm k deny dir fileName idf =
     (case idf of
        IdError e \<Rightarrow> ret (Some (IoError e))
      | NoMatch \<Rightarrow> ret (Some (FmError ErrCodeUnknownArchive))
      | Recognised fmt \<Rightarrow> extractStream fm k deny dir fileName fmt)"

definition DecompressFile :: "filesystem \<Rightarrow> 'w kernel \<Rightarrow> (string \<Rightarrow> bool) \<Rightarrow> (fd \<Rightarrow> 'w format identified) \<Rightarrow> string \<Rightarrow> string
    \<Rightarrow> ('w proc, fm_error option) state" where
  "DecompressFile fm k deny identify dir arch = do {
     r \<leftarrow> Open (q_fs (fm_q fm)) k (path_Join [dir, arch]);
     (case r of
        Inl e \<Rightarrow> ret (Some (Ufs e))
      | Inr (f, _) \<Rightarrow> do {
          out \<leftarrow> extract_identified fm k deny dir arch (identify f);
          sys_close f;
          ret out
        })
   }"

definition ExtractStreamUnsafe :: "filesystem \<Rightarrow> 'w kernel \<Rightarrow> (string \<Rightarrow> bool) \<Rightarrow> 'w format identified \<Rightarrow> string \<Rightarrow> ('w proc, fm_error option) state" where
  "ExtractStreamUnsafe fm k deny idf dir = extract_identified fm k deny dir [] idf"

section \<open>Which files an archive takes\<close>

text \<open>The names on a path, and the files below a path, as lists of names.\<close>

definition path_names :: "string \<Rightarrow> string list" where
  "path_names p = Split (TrimSuffix p ''/'') (CHR ''/'')"

lemma below_iff: "HasPrefix (q @ ''/'') (p @ ''/'') \<longleftrightarrow> (\<exists>r. Split q (CHR ''/'') = Split p (CHR ''/'') @ r)"
proof
  assume "HasPrefix (q @ ''/'') (p @ ''/'')"
  then obtain t where t: "q @ ''/'' = p @ ''/'' @ t" by (auto simp: HasPrefix_iff)
  show "\<exists>r. Split q (CHR ''/'') = Split p (CHR ''/'') @ r"
  proof (cases t rule: rev_cases)
    case (snoc t' c)
    with t have "q = p @ CHR ''/'' # t'" by simp
    then show ?thesis by (auto simp: Split_append)
  qed (use t in simp)
next
  assume "\<exists>r. Split q (CHR ''/'') = Split p (CHR ''/'') @ r"
  then obtain r where r: "Split q (CHR ''/'') = Split p (CHR ''/'') @ r" by blast
  show "HasPrefix (q @ ''/'') (p @ ''/'')"
  proof (cases "r = []")
    case True
    with r have "q = p" by (metis Join_Split append_Nil2)
    then show ?thesis by (simp add: HasPrefix_def)
  next
    case False
    then have "q = p @ ''/'' @ Join r ''/''"
      using r Join_append [of "Split p (CHR ''/'')" r "''/''"] Join_Split [of q "CHR ''/''"] Join_Split [of p "CHR ''/''"] by simp
    then show ?thesis by (auto simp: HasPrefix_iff)
  qed
qed

lemma selects_iff: "selects f relative \<longleftrightarrow> (\<exists>r. path_names relative = path_names f @ r)"
  by (auto simp: selects_def below_iff path_names_def)

section \<open>Well-formed archives\<close>

text \<open>Every entry but the last has all of its bytes, the last has no more than it should, and a regular file is in the archive only if the options let it.\<close>

definition entry_full :: "tar_header \<times> string \<Rightarrow> bool" where
  "entry_full e \<longleftrightarrow> int (length (snd e)) = th_size (fst e)"

definition tar_ok :: "(string \<Rightarrow> bool) list \<Rightarrow> tar_writer \<Rightarrow> bool" where
  "tar_ok opts tw \<longleftrightarrow>
     (\<forall>e \<in> set (butlast (tw_entries tw)). entry_full e) \<and> 0 \<le> missing tw \<and>
     (\<forall>e \<in> set (tw_entries tw). th_type (fst e) \<noteq> TypeReg \<or> \<not> list_ex (\<lambda>opt. opt (th_name (fst e))) opts)"

abbreviation twf :: "(string \<Rightarrow> bool) list \<Rightarrow> 'w proc \<times> tar_writer \<Rightarrow> bool" where
  "twf opts \<equiv> \<lambda>s. tar_ok opts (snd s)"

lemma on_tar_triple: "triple P m Q \<Longrightarrow> triple (\<lambda>s. P (snd s)) (on_tar m) (\<lambda>r s. Q r (snd s))"
  by (auto simp: triple_def on_tar_def split: prod.splits)

lemma on_proc_twf: "keeps (\<lambda>s. I (snd s)) (on_proc m)"
  by (simp add: triple_def split_beta)

lemma on_tar_wbox: "keeps (wbox fs D) (on_tar m)"
  by (auto simp: triple_def on_tar_def split: prod.splits)

lemma WriteHeader_ok:
  assumes "th_type h \<noteq> TypeReg \<or> \<not> list_ex (\<lambda>opt. opt (th_name h)) opts"
  shows "triple (tar_ok opts) (WriteHeader x h)
    (\<lambda>r tw. tar_ok opts tw \<and> (r = None \<longrightarrow> missing tw = th_size h \<and> tw_entries tw \<noteq> []))"
proof (rule tripleI)
  fix tw r tw' assume ok: "tar_ok opts tw" and run: "run_state (WriteHeader x h) tw = (r, tw')"
  show "tar_ok opts tw' \<and> (r = None \<longrightarrow> missing tw' = th_size h \<and> tw_entries tw' \<noteq> [])"
  proof (cases "r = None")
    case True
    then have tw': "tw' = tw\<lparr>tw_entries := tw_entries tw @ [(h, [])]\<rparr>" "missing tw \<le> 0" "0 \<le> th_size h"
      using run by (auto simp: WriteHeader_def split: if_splits option.splits)
    have "entry_full e" if "e \<in> set (tw_entries tw)" for e
    proof -
      have "e \<in> set (butlast (tw_entries tw)) \<or> e = last (tw_entries tw)"
        using that by (cases "tw_entries tw" rule: rev_cases) auto
      then show ?thesis using ok tw'(2) that by (auto simp: tar_ok_def missing_def entry_full_def split: if_splits)
    qed
    then show ?thesis using ok tw' assms by (auto simp: tar_ok_def missing_def)
  qed (use ok run in \<open>auto simp: WriteHeader_def split: if_splits option.splits\<close>)
qed

lemma TarProgress_Write_ok:
  "triple (\<lambda>tw. tar_ok opts tw \<and> tw_entries tw \<noteq> [] \<and> int n \<le> missing tw \<and> length v \<le> n) (TarProgress_Write x v)
     (\<lambda>r tw. tar_ok opts tw \<and> (r = None \<longrightarrow> tw_entries tw \<noteq> [] \<and> int (n - length v) \<le> missing tw))"
proof (rule tripleI)
  fix tw r tw'
  assume ok: "tar_ok opts tw \<and> tw_entries tw \<noteq> [] \<and> int n \<le> missing tw \<and> length v \<le> n"
    and run: "run_state (TarProgress_Write x v) tw = (r, tw')"
  obtain es h b where es: "tw_entries tw = es @ [(h, b)]" using ok by (cases "tw_entries tw" rule: rev_cases) auto
  have "tw_entries tw' = (if r = None then es @ [(h, b @ v)] else es @ [(h, b)])"
    using run es by (auto simp: TarProgress_Write_def Let_def split: option.splits)
  then show "tar_ok opts tw' \<and> (r = None \<longrightarrow> tw_entries tw' \<noteq> [] \<and> int (n - length v) \<le> missing tw')"
    using ok es by (auto simp: tar_ok_def missing_def)
qed

lemma LimitReader_length: "length (concat (fst (LimitReader n cs e))) \<le> n"
proof (induction n cs e rule: LimitReader.induct)
  case (3 n c cs e)
  then show ?case by (auto split: prod.splits)
qed simp_all

lemma CopyBuffer_ok:
  "length (concat (fst ce)) \<le> n \<Longrightarrow>
   triple (\<lambda>tw. tar_ok opts tw \<and> tw_entries tw \<noteq> [] \<and> int n \<le> missing tw) (CopyBuffer x ce) (\<lambda>_. tar_ok opts)"
proof (induction x ce arbitrary: n rule: CopyBuffer.induct)
  case (2 x c cs e)
  have w: "triple (\<lambda>tw. tar_ok opts tw \<and> tw_entries tw \<noteq> [] \<and> int n \<le> missing tw) (TarProgress_Write x c)
     (\<lambda>r tw. tar_ok opts tw \<and> (r = None \<longrightarrow> tw_entries tw \<noteq> [] \<and> int (n - length c) \<le> missing tw))"
    by (rule triple_pre [OF TarProgress_Write_ok]) (use 2 in auto)
  have rest: "triple (\<lambda>tw. tar_ok opts tw \<and> tw_entries tw \<noteq> [] \<and> int (n - length c) \<le> missing tw) (CopyBuffer x (cs, e)) (\<lambda>_. tar_ok opts)"
    using 2 by (intro "2.IH") auto
  show ?case
    unfolding CopyBuffer.simps
    by (rule triple_bind [OF w], rule triple_option) (auto intro!: triple_pre [OF rest] triple_ret)
qed (auto intro!: triple_ret)

lemma archive_contents_ok:
  "triple (\<lambda>s. tar_ok opts (snd s) \<and> missing (snd s) = sz \<and> tw_entries (snd s) \<noteq> []) (archive_contents fs x d name sz) (\<lambda>_. twf opts)"
proof (cases "sz < 1")
  case False
  let ?P = "\<lambda>s. tar_ok opts (snd s) \<and> missing (snd s) = sz \<and> tw_entries (snd s) \<noteq> []"
  have c: "triple ?P (on_tar (CopyBuffer x (case ax_read x f w of (cs, e) \<Rightarrow> LimitReader (nat sz) cs e))) (\<lambda>_. twf opts)" for f w
    by (rule triple_pre [OF on_tar_triple [OF CopyBuffer_ok [of _ "nat sz"]]])
       (use False LimitReader_length in \<open>auto split: prod.splits\<close>)
  show ?thesis
    unfolding archive_contents_def
    by (simp add: False, rule triple_bind [OF on_proc_twf [of "\<lambda>tw. tar_ok opts tw \<and> missing tw = sz \<and> tw_entries tw \<noteq> []"]], rule triple_sum)
       (auto intro!: triple_ret triple_prod triple_bind [OF read_keeps] triple_bind [OF c] triple_bind [OF on_proc_twf])
qed (auto simp: archive_contents_def intro!: triple_ret)

lemma FileInfoHeader_type: "FileInfoHeader i l = Inr h \<Longrightarrow> IsSymlink i \<Longrightarrow> th_type h \<noteq> TypeReg"
proof -
  assume h: "FileInfoHeader i l = Inr h" and l: "IsSymlink i"
  have "fi_mode i AND ModeSymlink = (fi_mode i AND ModeType) AND ModeSymlink"
    unfolding and.assoc by simp
  then have "fi_mode i AND ModeSymlink = 0" if "fi_mode i AND ModeType = 0" by (simp add: that)
  with l have "\<not> IsRegular i" by (auto simp: IsSymlink_def IsRegular_def)
  with h show ?thesis by (auto simp: FileInfoHeader_def Let_def split: if_splits)
qed

lemma addToArchive_ok:
  assumes "\<not> list_ex (\<lambda>opt. opt rel) opts"
  shows "keeps (twf opts) (addToArchive fs x d name rel e)"
proof -
  have w: "triple (twf opts) (on_tar (WriteHeader x (if IsSymlink i then h else h\<lparr>th_name := rel\<rparr>)))
      (\<lambda>r s. tar_ok opts (snd s) \<and> (r = None \<longrightarrow>
         missing (snd s) = th_size (if IsSymlink i then h else h\<lparr>th_name := rel\<rparr>) \<and> tw_entries (snd s) \<noteq> []))"
    if "FileInfoHeader i l = Inr h" for i l h
    by (rule on_tar_triple, rule WriteHeader_ok) (use that assms FileInfoHeader_type in auto)
  show ?thesis
    unfolding addToArchive_def Let_def
    by (auto intro!: triple_ret triple_sum triple_if triple_prod triple_bind [OF on_proc_twf] triple_bind [OF read_keeps]
        triple_bind [OF w] triple_option triple_pre [OF archive_contents_ok])
qed

lemma stream_visit_ok: "keeps (twf (archive_opts x a)) (stream_visit fs x a d name rel t e)"
  unfolding stream_visit_def archive_callback_def Let_def
  by (intro triple_option triple_ret triple_bind [OF read_keeps] triple_prod triple_if addToArchive_ok) auto

text \<open>What the callback of a walk keeps of its own state, the walk keeps.\<close>

lemma walkDir_own:
  assumes "\<And>d name rel t e. keeps (\<lambda>s. I (snd s)) (fn d name rel t e)"
  shows "keeps (\<lambda>s. I (snd s)) (walkDir n fs k fn d name rel t)"
proof (induction n arbitrary: d name rel t)
  case (Suc n)
  show ?case
    unfolding walkDir.simps
    by (intro keeps_bind assms triple_if triple_ret on_proc_twf triple_prod triple_option triple_sum walk_entries_keeps Suc.IH)
qed (simp add: triple_ret)

lemma WalkDirat_own:
  assumes "\<And>d name rel t e. keeps (\<lambda>s. I (snd s)) (fn d name rel t e)"
  shows "keeps (\<lambda>s. I (snd s)) (WalkDirat n fs k fn d name)"
  unfolding WalkDirat_def by (intro keeps_bind on_proc_twf triple_sum triple_ret walkDir_own assms)

lemma with_safePath_result:
  assumes "\<And>e. Q (fl e)" "\<And>d n s. Q (fst (run_state (body d n) s))"
  shows "Q (fst (run_state (with_safePath fs k path fl body) ps))"
  by (auto simp: with_safePath_def split_beta assms split: option.splits)

lemma Stream_ok:
  assumes "fst (run_state (Stream n fm x a) ps) = Some (err, tw, closed)"
  shows "tar_ok (archive_opts x (relative_to_root (q_fs (fm_q fm)) a)) tw \<and> closed = tar_Close x tw"
proof -
  let ?a = "relative_to_root (q_fs (fm_q fm)) a"
  let ?tw = "\<lparr>tw_entries = [], tw_written = a_Progress ?a\<rparr>"
  let ?Q = "\<lambda>r. \<forall>err tw closed. r = Some (err, tw, closed) \<longrightarrow> tar_ok (archive_opts x ?a) tw \<and> closed = tar_Close x tw"
  have t0: "tar_ok (archive_opts x ?a) ?tw" by (simp add: tar_ok_def missing_def)
  have w: "tar_ok (archive_opts x ?a) (snd (snd (run_state (WalkDirat n (q_fs (fm_q fm)) (ax_kernel x)
      (stream_visit (q_fs (fm_q fm)) x ?a) d m) (s, ?tw))))" for d m s
    using triple_snd [OF WalkDirat_own [OF stream_visit_ok], of x ?a "(s, ?tw)"] t0 by simp
  have "?Q (fst (run_state (Stream n fm x a) ps))"
    unfolding Stream_def Let_def
    by (rule with_safePath_result) (use t0 w in \<open>auto simp: split_beta\<close>)
  with assms show ?thesis by simp
qed

section \<open>The sandbox\<close>

lemma entry_Info_sbox: "d \<in> D \<Longrightarrow> single_name n \<Longrightarrow> keeps (sbox fs D) (entry_Info k d n e)"
  unfolding entry_Info_def Lstatat_def by (cases e) (auto intro: triple_ret fstatat_op_sbox)

lemma archive_contents_sbox:
  assumes "d \<in> D" "single_name n"
  shows "keeps (wbox fs D) (archive_contents fs x d n sz)"
proof -
  let ?got = "\<lambda>r s. got_file fs D r (fst s)"
  have o: "triple (wbox fs D) (on_proc (OpenFileat fs (ax_kernel x) d n {} 0)) ?got"
    by (rule on_proc_triple [OF OpenFileat_sbox [OF assms]])
  have c: "keeps (?got (Inr (f, nm))) (on_tar m)" for f nm m
    by (auto simp: triple_def on_tar_def split: prod.splits)
  have cl: "triple (?got (Inr (f, nm))) (on_proc (sys_close f)) (\<lambda>_. wbox fs D)" for f nm
    by (rule on_proc_triple [OF close_file])
  show ?thesis
    unfolding archive_contents_def
    by (rule triple_if, rule triple_ret, assumption, rule triple_bind [OF o], rule triple_sum)
       (auto intro!: triple_ret triple_prod triple_bind [OF read_keeps] triple_bind [OF c] triple_bind [OF cl] simp: got_file_def [of _ _ "Inl _"])
qed

lemma addToArchive_sbox:
  assumes "d \<in> D" "single_name n"
  shows "keeps (wbox fs D) (addToArchive fs x d n rel e)"
  unfolding addToArchive_def Let_def
  by (intro keeps_bind on_proc_triple [OF entry_Info_sbox [OF assms]] triple_sum triple_ret triple_if read_keeps triple_prod
      on_tar_wbox triple_option archive_contents_sbox [OF assms])

lemma stream_visit_safe: "safe_fn fs (stream_visit fs x a)"
  unfolding safe_fn_def stream_visit_def archive_callback_def Let_def
  by (intro allI impI triple_option triple_ret keeps_bind read_keeps triple_prod triple_if addToArchive_sbox) auto

lemma Stream_sbox:
  assumes "base_ok (q_fs (fm_q fm)) bs" "names_ok (ax_kernel x)"
  shows "keeps (sbox (q_fs (fm_q fm)) D) (Stream n fm x a)"
  unfolding Stream_def Let_def
  by (rule with_safePath_keeps [OF assms(1)])
     (auto intro!: run_walk_sbox WalkDirat_sbox [OF assms(2) stream_visit_safe])

lemma settle_compressed_sbox:
  assumes "base_ok (q_fs (fm_q fm)) bs" "f \<in> D"
  shows "keeps (sbox (q_fs (fm_q fm)) D) (settle_compressed fm k d f v)"
  unfolding settle_compressed_def
  by (intro keeps_bind read_keeps triple_if triple_ret quota_Remove_sbox [OF assms(1) refl] Add_sbox sys_fstat_sbox assms(2))

lemma CompressFiles_sbox:
  assumes "base_ok (q_fs (fm_q fm)) bs" "names_ok (ax_kernel x)"
  shows "keeps (sbox (q_fs (fm_q fm)) D) (CompressFiles n fm x stamp dir paths)"
proof -
  have "keeps (sbox (q_fs (fm_q fm)) (insert f D)) (compress_into n fm x a d f)" for f d a
    unfolding compress_into_def
    by (intro keeps_bind Stream_sbox [OF assms] triple_option triple_prod triple_ret settle_compressed_sbox [OF assms(1)]; simp)
  then show ?thesis
    unfolding CompressFiles_def Let_def by (intro with_file_sbox [OF OpenFile_sbox [OF assms(1)]])
qed

lemma write_chunks_sbox: "keeps (sbox fs D) (write_chunks fm f cs e)"
  by (induction fm f cs e rule: write_chunks.induct)
     (auto simp: HasSpaceFor_def intro!: keeps_bind triple_ret read_keeps triple_option triple_prod run_writer_sbox Add_sbox)

lemma extract_one_sbox:
  "base_ok (q_fs (fm_q fm)) bs \<Longrightarrow> keeps (sbox (q_fs (fm_q fm)) D) (extract_one fm k deny dir f)"
  unfolding extract_one_def fm_Chtimes_def Let_def
  by (intro triple_if triple_ret triple_option keeps_bind Write_sbox Chtimes_sbox)

lemma extract_all_sbox:
  "base_ok (q_fs (fm_q fm)) bs \<Longrightarrow> keeps (sbox (q_fs (fm_q fm)) D) (extract_all fm k deny dir es br)"
  by (induction es) (auto intro!: triple_ret keeps_bind triple_option extract_one_sbox)

lemma extractStream_sbox:
  assumes b: "base_ok (q_fs (fm_q fm)) bs"
  shows "keeps (sbox (q_fs (fm_q fm)) D) (extractStream fm k deny dir name fmt)"
proof (cases fmt)
  case (Decompressor ext content)
  have "keeps (sbox (q_fs (fm_q fm)) D) (OpenFile (q_fs (fm_q fm)) k p fl m \<bind> (\<lambda>r. case r of
      Inl e \<Rightarrow> ret (Some (Ufs e)) | Inr (f, _) \<Rightarrow> do { out \<leftarrow> write_chunks fm f cs e; sys_close f; ret out }))" for p fl m cs e
    by (rule with_file_sbox [OF OpenFile_sbox [OF b] write_chunks_sbox])
  then show ?thesis
    unfolding extractStream_def Decompressor Let_def
    by (simp only: format.case) (intro triple_if triple_ret triple_sum triple_prod)
qed (auto simp: extractStream_def intro!: triple_ret extract_all_sbox b)

lemma extract_identified_sbox:
  "base_ok (q_fs (fm_q fm)) bs \<Longrightarrow> keeps (sbox (q_fs (fm_q fm)) D) (extract_identified fm k deny dir arch i)"
  unfolding extract_identified_def by (cases i) (auto intro!: triple_ret extractStream_sbox)

lemma DecompressFile_sbox:
  assumes b: "base_ok (q_fs (fm_q fm)) bs"
  shows "keeps (sbox (q_fs (fm_q fm)) D) (DecompressFile fm k deny identify dir arch)"
  unfolding DecompressFile_def
  by (rule with_file_sbox [OF Open_sbox [OF b] extract_identified_sbox [OF b]])

lemma archiverFileSystem_sbox:
  assumes b: "base_ok (q_fs (fm_q fm)) bs"
  shows "keeps (sbox (q_fs (fm_q fm)) D) (archiverFileSystem fm k identify seek p)"
proof -
  let ?fs = "q_fs (fm_q fm)"
  have cl: "triple (got_file ?fs D (Inr (f, nm))) (do { sys_close f; ret v }) (\<lambda>_. sbox ?fs D)" for f nm and v :: 'x
    by (rule triple_bind [OF close_file]) (rule triple_ret)
  have fst: "keeps (got_file ?fs D (Inr (f, nm))) (sys_fstat k f)" for f nm
    by (rule file_kept [OF sys_fstat_sbox]) simp
  have r: "triple (got_file ?fs D (Inr (f, nm))) (ret v) (\<lambda>_. sbox ?fs D)" for f nm and v :: 'x
    by (rule triple_ret) (auto simp: got_file_def elim: sbox_mono)
  show ?thesis
    unfolding archiverFileSystem_def
    by (rule triple_bind [OF Open_sbox [OF b]], rule triple_sum)
       (auto intro!: triple_ret triple_prod triple_option triple_sum triple_bind [OF fst] cl r split: identified.split archive_kind.split
          simp: got_file_def [of _ _ "Inl _"])
qed

lemma SpaceAvailable_sbox:
  assumes b: "base_ok (q_fs (fm_q fm)) bs"
  shows "keeps (sbox (q_fs (fm_q fm)) D) (SpaceAvailableForDecompression fm k identify seek cancelled dir arch)"
  unfolding SpaceAvailableForDecompression_def
  by (intro triple_if triple_ret keeps_bind archiverFileSystem_sbox [OF b] triple_sum triple_option read_keeps)

section \<open>An archive is finished\<close>

lemma openat_calm:
  assumes "bounded_depth k h"
  shows "keeps (levels h F g) (openat fs k d name fl m)"
proof -
  have o: "keeps (levels h F g) (sys_openat k v (Some d) name fl' m')" for v fl' m'
  proof (rule tripleI)
    fix s r s' assume L: "levels h F g s" and run: "run_state (sys_openat k v (Some d) name fl' m') s = (r, s')"
    obtain e w where ko: "k_openat k v (Some d) name fl' m' (next_fd s) (world s) = (e, w)" by (rule prod.exhaust)
    have "h w f \<le> g f" if "f \<in> F" for f
      using assms(1) ko L that unfolding bounded_depth_def levels_def
      by (metis lessThan_iff nat_neq_iff order_trans subsetD)
    then show "levels h F g s'"
      using run ko L by (cases e) (auto simp: sys_openat_def levels_def)
  qed
  show ?thesis
    unfolding openat_def Let_def openat_v1_def openat_v2_def
    by (intro triple_if keeps_bind o triple_ret triple_sum levels_quiet)
qed

lemma stream_visit_calm: "bounded_depth (ax_kernel x) h \<Longrightarrow> calm_fn h (stream_visit fs x a)"
proof -
  assume b: "bounded_depth (ax_kernel x) h"
  let ?L = "\<lambda>F g. \<lambda>s. levels h F g (fst s)"
  have o: "keeps (?L F g) (on_proc (OpenFileat fs (ax_kernel x) d name {} 0))" for F g d name
    unfolding OpenFileat_def by (intro on_proc_triple keeps_bind openat_calm [OF b] triple_prod triple_ret)
  have i: "keeps (?L F g) (on_proc (entry_Info (ax_kernel x) d name e))" for F g d name e
    unfolding entry_Info_def by (intro on_proc_triple) (cases e, auto intro!: triple_ret Lstatat_levels)
  have t: "keeps (?L F g) (on_tar m)" for F g and m :: "(tar_writer, 'z) state"
    by (auto simp: triple_def on_tar_def split: prod.splits)
  have c: "keeps (?L F g) (on_proc (sys_close f))" for F g f by (rule on_proc_triple [OF levels_quiet(3)])
  show ?thesis
    unfolding calm_fn_def stream_visit_def archive_callback_def addToArchive_def archive_contents_def Let_def
    by (intro allI triple_option triple_ret keeps_bind read_keeps triple_prod triple_if triple_sum o i t c)
qed

lemma Stream_ends:
  assumes "bounded_depth (ax_kernel x) h" "names_ok (ax_kernel x)"
  shows "\<exists>n0. \<forall>n \<ge> n0. fst (run_state (Stream n fm x a) ps) \<noteq> None"
proof -
  let ?a = "relative_to_root (q_fs (fm_q fm)) a"
  let ?tw = "\<lparr>tw_entries = [], tw_written = a_Progress ?a\<rparr>"
  show ?thesis
    unfolding Stream_def Let_def
  proof (rule with_safePath_ends)
    fix d name and ps :: "'a proc" assume d: "d < next_fd ps"
    let ?w = "\<lambda>n. WalkDirat n (q_fs (fm_q fm)) (ax_kernel x) (stream_visit (q_fs (fm_q fm)) x ?a) d name"
    have "\<forall>n \<ge> h (world ps) d + 2. fst (run_state (?w n) (ps, ?tw)) \<noteq> None"
      using WalkDirat_ends [OF assms stream_visit_calm [OF assms(1)] d] by blast
    then show "\<exists>n0. \<forall>n \<ge> n0. fst (run_state (State (\<lambda>ps. case run_state (?w n) (ps, ?tw) of
        (r, (ps', tw)) \<Rightarrow> (map_option (\<lambda>e. (e, tw, tar_Close x tw)) r, ps'))) ps) \<noteq> None"
      by (intro exI [of _ "h (world ps) d + 2"]) (auto simp: split_beta)
  qed simp
qed

section \<open>Space and denylist\<close>

primrec listed_size :: "listing_step \<Rightarrow> int" where
  "listed_size (WalkFails _) = 0"
| "listed_size (InfoFails _) = 0"
| "listed_size (EntrySize n) = max 0 n"

lemma space_step_fits:
  assumes "0 < q_limit q" "in_i64 (q_limit q)" "0 \<le> u" "in_i64 u" "0 \<le> c" "in_i64 c"
    and "space_step q u c e = Inr c'" "0 < c \<Longrightarrow> u + c \<le> q_limit q"
  shows "c' = c + listed_size e \<and> 0 \<le> c' \<and> in_i64 c' \<and> (0 < c' \<longrightarrow> u + c' \<le> q_limit q)"
proof (cases e)
  case (EntrySize n)
  show ?thesis
  proof (cases "n \<le> 0")
    case False
    have "i64 (MaxInt64 - c) = MaxInt64 - c" using assms by (intro i64_id) (auto simp: in_i64_def)
    then have "n \<le> MaxInt64 - c" using assms(7) False EntrySize by (auto simp: space_step_def split: if_splits)
    then have r: "in_i64 (c + n)" using assms False by (auto simp: in_i64_def)
    then have "c' = c + n" "CanFit q u (c + n)"
      using assms(7) False EntrySize by (auto simp: space_step_def i64_id Let_def split: if_splits)
    then show ?thesis using CanFit_iff [OF assms(2) r assms(3,4,1)] False EntrySize r assms(5) by auto
  qed (use assms EntrySize in \<open>auto simp: space_step_def\<close>)
qed (use assms in \<open>auto simp: space_step_def\<close>)

lemma space_walk_step:
  "space_walk q u cs c (e # es) = None \<Longrightarrow> \<exists>c'. space_step q u c e = Inr c' \<and> space_walk q u (tl cs) c' es = None"
  by (cases e) (auto split: if_splits sum.splits)

lemma space_walk_fits:
  assumes "0 < q_limit q" "in_i64 (q_limit q)" "0 \<le> u" "in_i64 u"
  shows "space_walk q u cs c es = None \<Longrightarrow> 0 \<le> c \<Longrightarrow> in_i64 c \<Longrightarrow> (0 < c \<Longrightarrow> u + c \<le> q_limit q) \<Longrightarrow>
    0 < c + sum_list (map listed_size es) \<Longrightarrow> u + (c + sum_list (map listed_size es)) \<le> q_limit q"
proof (induction es arbitrary: cs c)
  case (Cons e es)
  obtain c' where c': "space_step q u c e = Inr c'" "space_walk q u (tl cs) c' es = None"
    using space_walk_step [OF Cons.prems(1)] by blast
  from space_step_fits [OF assms Cons.prems(2,3) c'(1) Cons.prems(4)]
  have *: "c' = c + listed_size e" "0 \<le> c'" "in_i64 c'" "0 < c' \<Longrightarrow> u + c' \<le> q_limit q" by blast+
  have "u + (c' + sum_list (map listed_size es)) \<le> q_limit q"
    by (rule Cons.IH [OF c'(2) *(2-4)]) (use Cons.prems(5) *(1) in simp_all)
  then show ?case using *(1) by (simp add: add.assoc)
qed simp

text \<open>The entries that the denylist leaves.\<close>

definition allowed :: "(string \<Rightarrow> bool) \<Rightarrow> string \<Rightarrow> 'w unpacked \<Rightarrow> bool" where
  "allowed deny dir f \<longleftrightarrow> \<not> en_dir f \<and> \<not> deny (path_Join [dir, en_name f])"

lemma extract_one_denied: "\<not> allowed deny dir f \<Longrightarrow> extract_one fm k deny dir f = ret None"
  by (auto simp: allowed_def extract_one_def IsIgnored_def Let_def)

lemma extract_one_allowed: "allowed deny dir f \<Longrightarrow> extract_one fm k deny dir f = extract_one fm k (\<lambda>_. False) dir f"
  by (auto simp: allowed_def extract_one_def IsIgnored_def Let_def)

lemma extract_all_filter:
  "extract_all fm k deny dir es br = extract_all fm k (\<lambda>_. False) dir (filter (allowed deny dir) es) br"
  by (induction es) (simp_all add: extract_one_denied extract_one_allowed)

section \<open>Examples\<close>

definition archive_fs :: filesystem where
  "archive_fs = \<lparr>fm_q = NewQuota (NewUnixFS ''/srv'' False) 100, fm_uid = 1, fm_gid = 1, fm_isTest = False\<rparr>"

text \<open>A directory with two files of five bytes each.\<close>

definition two_files :: "unit kernel" where
  "two_files = (quiet_kernel ''/srv'' 0x81A4 5)
     \<lparr>k_fstatat := (\<lambda>_ n _ _. Inr \<lparr>st_mode = (if n = ''.'' then 0x41ED else 0x81A4), st_size = 5, st_mtim = 0, st_nlink = 1, st_ino = 2\<rparr>),
      k_getdents := (\<lambda>n w. Inr [\<lparr>ino = 1, de_name = ''a'', de_type = DT_REG\<rparr>, \<lparr>ino = 2, de_name = ''b'', de_type = DT_REG\<rparr>])\<rparr>"

definition archive_ax :: "(fd \<Rightarrow> string list) \<Rightarrow> unit archive_env" where
  "archive_ax rd = \<lparr>ax_kernel = two_files, ax_readlink = (\<lambda>_ _. Inl True), ax_read = (\<lambda>f _. (rd f, None)), ax_sink = (\<lambda>_. None),
     ax_packed = (\<lambda>tw. 10), ax_cancelled = (\<lambda>_. False), ax_ignores = (\<lambda>_ _. False)\<rparr>"

abbreviation reg :: "string \<Rightarrow> int \<Rightarrow> tar_header" where
  "reg nm n \<equiv> \<lparr>th_type = TypeReg, th_name = nm, th_link = [], th_size = n\<rparr>"

lemma stream_example:
  "fst (run_state (Stream 2 archive_fs (archive_ax (\<lambda>_. [''hel'', ''lo!''])) \<lparr>a_BaseDirectory = ''/'', a_Files = [''b''], a_Ignore = [], a_Progress = None\<rparr>) start) =
     Some (None, \<lparr>tw_entries = [(reg ''b'' 5, ''hello'')], tw_written = None\<rparr>, True)"
  by code_simp

text \<open>A file that has become shorter while it is copied: if it is the last one, nothing reports that the archive has no end.\<close>

lemma shrunk_file_unnoticed:
  "fst (run_state (Stream 2 archive_fs (archive_ax (\<lambda>_. [''he''])) \<lparr>a_BaseDirectory = ''/'', a_Files = [''b''], a_Ignore = [], a_Progress = None\<rparr>) start) =
     Some (None, \<lparr>tw_entries = [(reg ''b'' 5, ''he'')], tw_written = None\<rparr>, False)"
  by code_simp

text \<open>If it is not the last one, the next file fails and with it the archive.\<close>

lemma shrunk_file_fails:
  "fst (run_state (Stream 2 archive_fs (archive_ax (\<lambda>_. [''he''])) \<lparr>a_BaseDirectory = ''/'', a_Files = [], a_Ignore = [], a_Progress = Some 0\<rparr>) start) =
     Some (Some (FnErr ''archive/tar: missed writing bytes''), \<lparr>tw_entries = [(reg ''a'' 5, ''he'')], tw_written = Some 2\<rparr>, False)"
  by code_simp

text \<open>The space check of an archive that fits leaves the archive open.\<close>

lemma space_check_leaves_open:
  "run_state (SpaceAvailableForDecompression archive_fs two_files (\<lambda>_. Recognised (ExtractionKind [EntrySize 60])) (\<lambda>_. None) [] ''/'' ''x.tar'') start =
     (None, snd (run_state (SpaceAvailableForDecompression archive_fs two_files (\<lambda>_. Recognised (ExtractionKind [EntrySize 60])) (\<lambda>_. None) [] ''/'' ''x.tar'') start)) \<and>
   open_fds (snd (run_state (SpaceAvailableForDecompression archive_fs two_files (\<lambda>_. Recognised (ExtractionKind [EntrySize 60])) (\<lambda>_. None) [] ''/'' ''x.tar'') start)) = {4}"
  by code_simp

text \<open>
  Below a base directory the name of the base is taken off the relative paths, which do not have it:
  a file in a directory of the same name gets the name of another file.
\<close>

lemma nested_base_collides:
  assumes "a_BaseDirectory a \<noteq> []" "\<not> HasPrefix r (archive_base a)" "\<not> dir_type (entry_type d)"
  shows "archive_callback fs x a opts dirfd name (archive_base a @ r) d = archive_callback fs x a opts dirfd name r d"
  using assms by (simp add: archive_callback_def)

section \<open>Properties\<close>

text \<open>Of the files that are to be archived, one is taken exactly when the names on its path start with all the
  names of a listed path: a listed directory takes everything below it, and no other path that merely starts
  with the same letters.\<close>

theorem archive_selection:
  "\<not> withFilesCallback a relative \<longleftrightarrow>
     list_ex (\<lambda>f. take (length (path_names f)) (path_names relative) = path_names f) (a_Files a)"
proof -
  have "selects f relative \<longleftrightarrow> take (length (path_names f)) (path_names relative) = path_names f" for f
    unfolding selects_iff by (metis append_eq_conv_conj append_take_drop_id)
  then show ?thesis by (simp add: withFilesCallback_def)
qed

text \<open>C25: However the files change while they are archived, every entry of the archive but the last has exactly the number of bytes
  its header announces, the last has no more, and if the archive got its end every entry is complete; and a
  regular file is in it under a name that the requested selection allows.\<close>

theorem archive_well_formed:
  assumes "fst (run_state (Stream n fm x a) ps) = Some (err, tw, closed)"
  shows "list_all (\<lambda>(h, b). int (length b) = th_size h) (if closed then tw_entries tw else butlast (tw_entries tw)) \<and>
    0 \<le> missing tw \<and>
    list_all (\<lambda>(h, b). th_type h = TypeReg \<longrightarrow>
       \<not> list_ex (\<lambda>skip. skip (th_name h)) (archive_opts x (relative_to_root (q_fs (fm_q fm)) a))) (tw_entries tw)"
proof -
  note ok = Stream_ok [OF assms]
  have "entry_full e" if "closed" "e \<in> set (tw_entries tw)" for e
  proof -
    have "e \<in> set (butlast (tw_entries tw)) \<or> e = last (tw_entries tw)"
      using that by (cases "tw_entries tw" rule: rev_cases) auto
    then show ?thesis using ok that by (auto simp: tar_ok_def tar_Close_def missing_def entry_full_def split: if_splits)
  qed
  then show ?thesis using ok by (fastforce simp: tar_ok_def entry_full_def list_all_iff)
qed

theorem archive_well_formed_witness:
  "list_all (\<lambda>(h, b). int (length b) = th_size h) [(reg ''b'' 5, ''hello'')]"
  using archive_well_formed [OF stream_example] by simp



text \<open>Extracting an archive under a denylist does exactly what extracting, without a denylist, the archive
  without its directories and its listed files does.\<close>

theorem extraction_respects_denylist:
  "extractStream fm k deny dir fileName (Extractor es broken) =
     extractStream fm k (\<lambda>_. False) dir fileName (Extractor (filter (\<lambda>f. \<not> en_dir f \<and> \<not> deny (path_Join [dir, en_name f])) es) broken)"
  using extract_all_filter [of fm k deny dir es broken] by (simp add: extractStream_def allowed_def [abs_def])

end
