(* ===== verification/File_Requests.thy ===== *)
theory File_Requests
  imports Archives Access_Tokens Sftp
begin

text \<open>
  The HTTP requests on the files of a server: \<^verbatim>\<open>router/router_server_files.go\<close>, the download of a
  file in \<^verbatim>\<open>router_download.go\<close>, the part of \<^verbatim>\<open>router/middleware\<close> that guards a request and turns
  an error into a status, and the error codes of \<^verbatim>\<open>server/filesystem/errors.go\<close>. The web framework is
  a parameter: a handler gets the parsed body of a request and gives a reply.
\<close>

section \<open>Errors and statuses\<close>

datatype web_error = WebFs fm_error | WebWalk walk_error | InvalidFileMode | ContextCanceled | WebOther string

text \<open>A reply with a status, or an error left to the middleware.\<close>

datatype web_reply = Replied nat | Captured web_error

text \<open>\<^verbatim>\<open>IsErrorCode\<close> looks for an error of the file manager; errors of \<^verbatim>\<open>ufs\<close> are none.\<close>

definition IsErrorCode :: "web_error \<Rightarrow> code \<Rightarrow> bool" where
  "IsErrorCode e c \<longleftrightarrow> e = WebFs (FmError c)"

text \<open>\<open>txt\<close> is the text of the error, \<open>readdirent\<close> says whether it is the failed system call of that name.\<close>

definition asFilesystemError :: "web_error \<Rightarrow> string \<Rightarrow> bool \<Rightarrow> nat option" where
  "asFilesystemError e txt readdirent =
     (if IsErrorCode e ErrCodeNotExist \<or> IsErrorCode e ErrCodePathResolution
         \<or> Contains txt ''resolves to a location outside the server root'' then Some 404
      else if IsErrorCode e ErrCodeDenylistFile \<or> Contains txt ''filesystem: file access prohibited'' then Some 403
      else if IsErrorCode e ErrCodeIsDirectory \<or> Contains txt ''filesystem: is a directory'' then Some 400
      else if IsErrorCode e ErrCodeDiskSpace \<or> Contains txt ''filesystem: not enough disk space'' then Some 400
      else if HasSuffix txt ''file name too long'' then Some 400
      else if readdirent then Some 404
      else None)"

text \<open>\<^verbatim>\<open>CaptureErrors\<close>: the status of the response, \<open>written\<close> being the one set before.\<close>

definition CaptureErrors :: "(web_error \<Rightarrow> string) \<Rightarrow> (web_error \<Rightarrow> bool) \<Rightarrow> nat \<Rightarrow> web_reply \<Rightarrow> nat" where
  "CaptureErrors text readdirent written r =
     (case r of
        Replied s \<Rightarrow> s
      | Captured e \<Rightarrow>
          if text e = ''EOF'' then 400
          else (case asFilesystemError e (text e) (readdirent e) of
                  Some s \<Rightarrow> s
                | None \<Rightarrow> if written \<noteq> 200 then written else 500))"

text \<open>The guards of the routes of a server; \<open>servers\<close> are the identifiers the manager has.\<close>

definition SplitN2 :: "string \<Rightarrow> char \<Rightarrow> string list" where
  "SplitN2 s c = (case IndexByte s c of None \<Rightarrow> [s] | Some i \<Rightarrow> [take i s, drop (Suc i) s])"

definition RequireAuthorization :: "string \<Rightarrow> string \<Rightarrow> nat option" where
  "RequireAuthorization token header =
     (let auth = SplitN2 header (CHR '' '')
      in if length auth \<noteq> 2 \<or> hd auth \<noteq> ''Bearer'' then Some 401
         else if auth ! 1 \<noteq> token then Some 403
         else None)"

definition ServerExists :: "string list \<Rightarrow> string \<Rightarrow> nat option" where
  "ServerExists servers param = (if param \<noteq> [] \<and> param \<in> set servers then None else Some 404)"

definition RemoteDownloadEnabled :: "bool \<Rightarrow> nat option" where
  "RemoteDownloadEnabled disabled = (if disabled then Some 400 else None)"

section \<open>Requests\<close>

text \<open>
  What a handler finds around it. \<open>fx_headroom\<close> says whether the volume has room at all, \<open>fx_copied\<close>
  is the error of sending an open file, \<open>fx_get\<close> and \<open>fx_add\<close> are the cache of used tokens.
\<close>

record ('w, 'c) files_env =
  fx_fm :: filesystem
  fx_deny :: "string \<Rightarrow> bool"
  fx_archive :: "'w archive_env"
  fx_fuel :: nat
  fx_stamp :: string
  fx_sniff :: "fd \<Rightarrow> string + string"
  fx_mime :: "fd \<Rightarrow> string option"
  fx_headroom :: bool
  fx_now :: int
  fx_copied :: "fd \<Rightarrow> string option"
  fx_text :: "web_error \<Rightarrow> string"
  fx_get :: "'c \<Rightarrow> string \<Rightarrow> bool"
  fx_add :: "'c \<Rightarrow> string \<Rightarrow> 'c"

abbreviation fx_kernel :: "('w, 'c) files_env \<Rightarrow> 'w kernel" where
  "fx_kernel x \<equiv> ax_kernel (fx_archive x)"

abbreviation fx_fs :: "('w, 'c) files_env \<Rightarrow> unixfs" where
  "fx_fs x \<equiv> q_fs (fm_q (fx_fm x))"

text \<open>The state the handlers share: running downloads, the cached usage, used tokens, downloads waiting in the background, saved activity.\<close>

record 'c web =
  wb_downloads :: downloader
  wb_lookup :: lookup
  wb_tokens :: 'c
  wb_jobs :: "(string \<times> download_request) list"
  wb_activity :: "(string \<times> string) list"

type_synonym ('w, 'c) handler = "('w proc \<times> 'c web, web_reply option) state"

abbreviation replied :: "nat \<Rightarrow> ('s, web_reply option) state" where
  "replied s \<equiv> ret (Some (Replied s))"

abbreviation captured :: "web_error \<Rightarrow> ('s, web_reply option) state" where
  "captured e \<equiv> ret (Some (Captured e))"

definition finish :: "web_error option \<Rightarrow> ('s, web_reply option) state" where
  "finish e = (case e of Some e \<Rightarrow> captured e | None \<Rightarrow> replied 204)"

definition TrimLeft :: "string \<Rightarrow> char \<Rightarrow> string" where
  "TrimLeft s c = dropWhile (\<lambda>x. x = c) s"

subsection \<open>Reading\<close>

definition getServerFileContents :: "('w, 'c) files_env \<Rightarrow> string \<Rightarrow> ('w, 'c) handler" where
  "getServerFileContents x fileParam = do {
     let p = TrimLeft fileParam (CHR ''/'');
     r \<leftarrow> on_proc (fm_File (fx_sniff x) (fx_fm x) (fx_kernel x) p);
     (case r of
        Inl e \<Rightarrow> captured (WebFs e)
      | Inr (f, s) \<Rightarrow> do {
          reply \<leftarrow> (if fi_mode (stat_info s) AND ModeNamedPipe \<noteq> 0 then replied 400
                    else (case fx_copied x f of Some e \<Rightarrow> captured (WebOther e) | None \<Rightarrow> replied 200));
          on_proc (sys_close f);
          ret reply
        })
   }"

definition getServerListDirectory :: "('w, 'c) files_env \<Rightarrow> string \<Rightarrow> ('w, 'c) handler" where
  "getServerListDirectory x dir = do {
     r \<leftarrow> on_proc (ListDirectory (fx_mime x) (fx_fm x) (fx_kernel x) dir);
     (case r of Inl e \<Rightarrow> captured (WebFs (Ufs e)) | Inr _ \<Rightarrow> replied 200)
   }"

subsection \<open>Groups of changes\<close>

text \<open>
  An \<^verbatim>\<open>errgroup\<close> runs its functions concurrently. The schedule lists them in the order in which they do
  their work, with whether they find the context done before they start; the group returns the first error.
  \<open>parent\<close> is the error of the surrounding context, if that can be done by itself.
\<close>

type_synonym schedule = "(nat \<times> bool) list"

fun run_group :: "web_error option \<Rightarrow> (bool \<times> ('s, web_error option option) state) list \<Rightarrow> web_error option
    \<Rightarrow> ('s, web_error option option) state" where
  "run_group parent [] err = ret (Some err)"
| "run_group parent ((done, t) # ts) err =
     (if done \<and> err \<noteq> None then run_group parent ts err
      else if done \<and> parent \<noteq> None then run_group parent ts parent
      else do {
        r \<leftarrow> t;
        (case r of
           None \<Rightarrow> ret None
         | Some e \<Rightarrow> run_group parent ts (if err = None then e else err))
      })"

definition scheduled :: "schedule \<Rightarrow> 't list \<Rightarrow> (bool \<times> 't) list" where
  "scheduled sched ts = map (\<lambda>(i, d). (d, ts ! i)) (filter (\<lambda>(i, d). i < length ts) sched)"

definition rename_one :: "('w, 'c) files_env \<Rightarrow> string \<Rightarrow> string \<Rightarrow> ('w proc \<times> 'c web, web_error option option) state" where
  "rename_one x pf pt =
     (case IsIgnored (fx_deny x) [pf, pt] of
        Some e \<Rightarrow> ret (Some (Some (WebFs e)))
      | None \<Rightarrow> do {
          r \<leftarrow> on_proc (Rename (fx_fs x) (fx_kernel x) pf pt);
          ret (Some (case r of
             None \<Rightarrow> None
           | Some e \<Rightarrow> if is_not_exist e then None else Some (WebFs (Ufs e))))
        })"

fun is_exist :: "fs_error \<Rightarrow> bool" where
  "is_exist (PathError _ _ c) \<longleftrightarrow> c = ErrExist \<or> c = Errno EEXIST"
| "is_exist (LinkError _ _ _ e) \<longleftrightarrow> e = EEXIST"
| "is_exist (BareErrno e) \<longleftrightarrow> e = EEXIST"
| "is_exist (EvalSymlinkError e) \<longleftrightarrow> is_exist e"

definition putServerRenameFiles :: "('w, 'c) files_env \<Rightarrow> schedule \<Rightarrow> string \<Rightarrow> (string \<times> string) list \<Rightarrow> ('w, 'c) handler" where
  "putServerRenameFiles x sched root files =
     (if files = [] then replied 422
      else do {
        r \<leftarrow> run_group (Some ContextCanceled)
               (scheduled sched (map (\<lambda>(from, to). rename_one x (path_Join [root, from]) (path_Join [root, to])) files)) None;
        (case r of
           None \<Rightarrow> ret None
         | Some (Some (WebFs (Ufs e))) \<Rightarrow> if is_exist e then replied 400 else captured (WebFs (Ufs e))
         | Some e \<Rightarrow> finish e)
      })"

definition postServerCopyFile :: "('w, 'c) files_env \<Rightarrow> (int \<Rightarrow> 'w writer) \<Rightarrow> string \<Rightarrow> ('w, 'c) handler" where
  "postServerCopyFile x wr location =
     (case IsIgnored (fx_deny x) [location] of
        Some e \<Rightarrow> captured (WebFs e)
      | None \<Rightarrow> do {
          r \<leftarrow> on_proc (Copy (fx_fm x) (fx_kernel x) wr (fx_stamp x) location);
          finish (map_option WebFs r)
        })"

definition delete_one :: "('w, 'c) files_env \<Rightarrow> string \<Rightarrow> ('w proc \<times> 'c web, web_error option option) state" where
  "delete_one x p = do {
     r \<leftarrow> on_proc (fm_Delete (fx_fuel x) (fx_fm x) (fx_kernel x) p);
     ret (map_option (map_option (\<lambda>e. WebFs (Ufs e))) r)
   }"

definition postServerDeleteFiles :: "('w, 'c) files_env \<Rightarrow> schedule \<Rightarrow> string \<Rightarrow> string list \<Rightarrow> ('w, 'c) handler" where
  "postServerDeleteFiles x sched root files =
     (if files = [] then replied 422
      else do {
        r \<leftarrow> run_group None (scheduled sched (map (\<lambda>p. delete_one x (path_Join [root, p])) files)) None;
        (case r of None \<Rightarrow> ret None | Some e \<Rightarrow> finish e)
      })"

text \<open>\<^verbatim>\<open>strconv.ParseUint(s, 8, 32)\<close>.\<close>

fun octal :: "string \<Rightarrow> nat \<Rightarrow> nat option" where
  "octal [] n = Some n"
| "octal (c # cs) n =
     (let d = (of_char c :: nat)
      in if 48 \<le> d \<and> d < 56 \<and> n * 8 + (d - 48) < 2 ^ 32 then octal cs (n * 8 + (d - 48)) else None)"

definition ParseUint8 :: "string \<Rightarrow> nat option" where
  "ParseUint8 s = (if s = [] then None else octal s 0)"

definition chmod_one :: "('w, 'c) files_env \<Rightarrow> string \<Rightarrow> string \<Rightarrow> ('w proc \<times> 'c web, web_error option option) state" where
  "chmod_one x p mode =
     (case ParseUint8 mode of
        None \<Rightarrow> ret (Some (Some InvalidFileMode))
      | Some m \<Rightarrow> do {
          r \<leftarrow> on_proc (Chmod (fx_fs x) (fx_kernel x) p (of_nat m));
          ret (Some (case r of
             None \<Rightarrow> None
           | Some e \<Rightarrow> if is_not_exist e then None else Some (WebFs (Ufs e))))
        })"

definition postServerChmodFile :: "('w, 'c) files_env \<Rightarrow> schedule \<Rightarrow> string \<Rightarrow> (string \<times> string) list \<Rightarrow> ('w, 'c) handler" where
  "postServerChmodFile x sched root files =
     (if files = [] then replied 422
      else do {
        r \<leftarrow> run_group None (scheduled sched (map (\<lambda>(f, mode). chmod_one x (path_Join [root, f]) mode) files)) None;
        (case r of
           None \<Rightarrow> ret None
         | Some (Some InvalidFileMode) \<Rightarrow> replied 400
         | Some e \<Rightarrow> finish e)
      })"

subsection \<open>Writing\<close>

definition postServerWriteFile :: "('w, 'c) files_env \<Rightarrow> (int \<Rightarrow> 'w writer) \<Rightarrow> string \<Rightarrow> int \<Rightarrow> ('w, 'c) handler" where
  "postServerWriteFile x body fileParam contentLength =
     (let f = ''/'' @ TrimLeft fileParam (CHR ''/'')
      in case IsIgnored (fx_deny x) [f] of
           Some e \<Rightarrow> captured (WebFs e)
         | None \<Rightarrow>
             if contentLength = -1 then replied 400
             else do {
               r \<leftarrow> on_proc (Write (fx_fm x) (fx_kernel x) body f contentLength 0x1A4);
               (case r of
                  Some e \<Rightarrow> if IsErrorCode (WebFs e) ErrCodeIsDirectory then replied 400 else captured (WebFs e)
                | None \<Rightarrow> replied 204)
             })"

definition postServerCreateDirectory :: "('w, 'c) files_env \<Rightarrow> string \<Rightarrow> string \<Rightarrow> ('w, 'c) handler" where
  "postServerCreateDirectory x name p = do {
     r \<leftarrow> on_proc (CreateDirectory (fx_fm x) (fx_kernel x) name p);
     (case r of
        None \<Rightarrow> replied 204
      | Some e \<Rightarrow> if fx_text x (WebFs (Ufs e)) = ''not a directory'' then replied 400 else captured (WebFs (Ufs e)))
   }"

text \<open>\<^verbatim>\<open>HasSpaceAvailable(true)\<close>: a stale value will do; a measurement may be started in the background.\<close>

definition stale_space :: "('w, 'c) files_env \<Rightarrow> ('w proc \<times> 'c web, bool) state" where
  "stale_space x = State (\<lambda>(ps, w).
     case run_state (HasSpaceAvailable (fx_fm x) (0, None) (fx_now x) (fx_headroom x) True (wb_lookup w)) ps of
       ((ok, l), ps') \<Rightarrow> (ok, (ps', w\<lparr>wb_lookup := l\<rparr>)))"

definition postServerCompressFiles :: "('w, 'c) files_env \<Rightarrow> string \<Rightarrow> string list \<Rightarrow> ('w, 'c) handler" where
  "postServerCompressFiles x root files =
     (if files = [] then replied 422
      else do {
        ok \<leftarrow> stale_space x;
        if \<not> ok then replied 409
        else do {
          r \<leftarrow> on_proc (CompressFiles (fx_fuel x) (fx_fm x) (fx_archive x) (fx_stamp x) root files);
          (case r of
             None \<Rightarrow> ret None
           | Some (Inr _) \<Rightarrow> replied 200
           | Some (Inl (CompressFs e)) \<Rightarrow> captured (WebFs (Ufs e))
           | Some (Inl (CompressWalk e)) \<Rightarrow> captured (WebWalk e)
           | Some (Inl CompressFull) \<Rightarrow> captured (WebFs (FmError ErrCodeDiskSpace)))
        }
      })"

text \<open>The recognition of the archive is asked twice, for the check and for the extraction.\<close>

definition postServerDecompressFiles :: "('w, 'c) files_env \<Rightarrow> (fd \<Rightarrow> archive_kind identified) \<Rightarrow> (fd \<Rightarrow> string option)
    \<Rightarrow> (fd \<Rightarrow> 'w format identified) \<Rightarrow> string \<Rightarrow> string \<Rightarrow> ('w, 'c) handler" where
  "postServerDecompressFiles x kinds seek formats root arch = do {
     r \<leftarrow> on_proc (SpaceAvailableForDecompression (fx_fm x) (fx_kernel x) kinds seek [] root arch);
     (case r of
        Some e \<Rightarrow> if IsErrorCode (WebFs e) ErrCodeUnknownArchive then replied 400 else captured (WebFs e)
      | None \<Rightarrow> do {
          d \<leftarrow> on_proc (DecompressFile (fx_fm x) (fx_kernel x) (fx_deny x) formats root arch);
          (case d of
             Some e \<Rightarrow> if Contains (fx_text x (WebFs e)) ''text file busy'' then replied 400 else captured (WebFs e)
           | None \<Rightarrow> replied 204)
        })
   }"

subsection \<open>Pulling remote files\<close>

text \<open>The running downloads are shared, the state of the handlers has them.\<close>

definition on_downloads :: "(downloader \<Rightarrow> downloader) \<Rightarrow> ('w proc \<times> 'c web, unit) state" where
  "on_downloads f = modify_st (\<lambda>(ps, w). (ps, w\<lparr>wb_downloads := f (wb_downloads w)\<rparr>))"

definition run_download :: "('w, 'c) files_env \<Rightarrow> (string \<Rightarrow> string option option) \<Rightarrow> string \<Rightarrow> download_request \<Rightarrow> execute_error + 'w response
    \<Rightarrow> ('w proc \<times> 'c web, execute_error option) state" where
  "run_download x media dlID req answer = State (\<lambda>(ps, w).
     case run_state (Execute (fx_fm x) (fx_kernel x) media dlID req answer (wb_downloads w)) ps of
       ((r, d), ps') \<Rightarrow> (r, (ps', w\<lparr>wb_downloads := d\<rparr>)))"

text \<open>Only the two errors of a refused address are recognised: the third is wrapped as a text.\<close>

definition IsDownloadError :: "execute_error \<Rightarrow> bool" where
  "IsDownloadError e = (case e of Refused _ \<Rightarrow> True | _ \<Rightarrow> False)"

text \<open>
  \<open>url\<close> is what parsing the URL gives: \<open>None\<close> with an error of the parser, or its path. \<open>dlID\<close> is the
  fresh identifier, \<open>answer\<close> what the remote server says.
\<close>

record pull_request =
  pl_Directory :: string
  pl_RootPath :: string
  pl_url :: "string option"
  pl_FileName :: string
  pl_UseHeader :: bool
  pl_Foreground :: bool

definition pull_target :: "pull_request \<Rightarrow> string \<Rightarrow> download_request" where
  "pull_target r u =
     \<lparr>Directory = (if pl_Directory r \<noteq> [] \<and> pl_RootPath r = [] then pl_Directory r else pl_RootPath r),
      url_path = u, FileName = pl_FileName r, UseHeader = pl_UseHeader r\<rparr>"

text \<open>The path of the finished download, as \<^verbatim>\<open>Path\<close> gives it after \<^verbatim>\<open>Execute\<close>.\<close>

definition pulled_path :: "(string \<Rightarrow> string option option) \<Rightarrow> download_request \<Rightarrow> execute_error + 'w response \<Rightarrow> string" where
  "pulled_path media req answer =
     dl_Path req (chosen_path req (case answer of
        Inl _ \<Rightarrow> [] | Inr res \<Rightarrow> (case header_path media req res of Inl _ \<Rightarrow> [] | Inr p \<Rightarrow> p)))"

definition pull_foreground :: "('w, 'c) files_env \<Rightarrow> (string \<Rightarrow> string option option) \<Rightarrow> string \<Rightarrow> download_request \<Rightarrow> execute_error + 'w response
    \<Rightarrow> ('w, 'c) handler" where
  "pull_foreground x media dlID req answer = do {
     r \<leftarrow> run_download x media dlID req answer;
     (case r of
        Some e \<Rightarrow> if IsDownloadError e then replied 400 else captured (WebOther ''download'')
      | None \<Rightarrow> do {
          s \<leftarrow> on_proc (fm_Stat (fx_sniff x) (fx_fm x) (fx_kernel x) (pulled_path media req answer));
          (case s of Inl e \<Rightarrow> captured (WebFs e) | Inr _ \<Rightarrow> replied 200)
        })
   }"

definition postServerPullRemoteFile :: "('w, 'c) files_env \<Rightarrow> (string \<Rightarrow> string option option) \<Rightarrow> string \<Rightarrow> string \<Rightarrow> pull_request
    \<Rightarrow> execute_error + 'w response \<Rightarrow> ('w, 'c) handler" where
  "postServerPullRemoteFile x media sid dlID r answer =
     (case pl_url r of
        None \<Rightarrow> replied 400
      | Some u \<Rightarrow> do {
          ok \<leftarrow> stale_space x;
          if \<not> ok then captured (WebFs (FmError ErrCodeDiskSpace))
          else do {
            (ps, w) \<leftarrow> read_st id;
            if length (ByServer sid (wb_downloads w)) \<ge> 3 then replied 400
            else do {
              on_downloads (dl_New dlID sid);
              let req = pull_target r u;
              (if \<not> pl_Foreground r then do {
                 modify_st (\<lambda>(ps, w). (ps, w\<lparr>wb_jobs := wb_jobs w @ [(dlID, req)]\<rparr>));
                 replied 202
               }
               else pull_foreground x media dlID req answer)
            }
          }
        })"

text \<open>The goroutine of a download in the background.\<close>

definition background_download :: "('w, 'c) files_env \<Rightarrow> (string \<Rightarrow> string option option) \<Rightarrow> execute_error + 'w response \<Rightarrow> ('w proc \<times> 'c web, unit) state" where
  "background_download x media answer = do {
     (ps, w) \<leftarrow> read_st id;
     (case wb_jobs w of
        [] \<Rightarrow> ret ()
      | (dlID, req) # js \<Rightarrow> do {
          modify_st (\<lambda>(ps, w). (ps, w\<lparr>wb_jobs := js\<rparr>));
          _ \<leftarrow> run_download x media dlID req answer;
          ret ()
        })
   }"

definition deleteServerPullRemoteFile :: "string \<Rightarrow> string \<Rightarrow> ('w, 'c) handler" where
  "deleteServerPullRemoteFile sid dlID = do {
     (ps, w) \<leftarrow> read_st id;
     (case find_download dlID (wb_downloads w) of
        Some dl \<Rightarrow> if_st (BelongsTo dl sid) (on_downloads (Cancel dlID))
      | None \<Rightarrow> ret ());
     replied 204
   }"

subsection \<open>Signed URLs\<close>

text \<open>
  A signed token: whether it parses, the server it names and whether that exists here, its identifier and
  its scopes. The identifier is used up only once the server is known, and before the scope is looked at.
\<close>

record signed_token =
  tk_error :: "string option"
  tk_known :: bool
  tk_unique :: string
  tk_scope :: string

definition use_token :: "('w, 'c) files_env \<Rightarrow> signed_token \<Rightarrow> string \<Rightarrow> ('w proc \<times> 'c web, bool) state" where
  "use_token x tk scope =
     (if \<not> tk_known tk then ret False
      else State (\<lambda>(ps, w).
        case IsValidToken (fx_get x) (fx_add x) (tk_unique tk) (wb_tokens w) of
          (fresh, c) \<Rightarrow> (fresh \<and> HasScope (tk_scope tk) scope, (ps, w\<lparr>wb_tokens := c\<rparr>))))"

record 'w upload =
  up_Filename :: string
  up_Size :: int
  up_open :: "string option"
  up_body :: "int \<Rightarrow> 'w writer"

definition handleFileUpload :: "('w, 'c) files_env \<Rightarrow> string \<Rightarrow> 'w upload \<Rightarrow> ('w proc \<times> 'c web, web_error option) state" where
  "handleFileUpload x p h =
     (case up_open h of
        Some e \<Rightarrow> ret (Some (WebOther e))
      | None \<Rightarrow>
          (case IsIgnored (fx_deny x) [p] of
             Some e \<Rightarrow> ret (Some (WebFs e))
           | None \<Rightarrow> do {
               r \<leftarrow> on_proc (Write (fx_fm x) (fx_kernel x) (up_body h) p (up_Size h) 0x1A4);
               ret (map_option WebFs r)
             }))"

fun upload_all :: "('w, 'c) files_env \<Rightarrow> string \<Rightarrow> 'w upload list \<Rightarrow> ('w, 'c) handler" where
  "upload_all x dir [] = replied 200"
| "upload_all x dir (h # hs) = do {
     r \<leftarrow> handleFileUpload x (path_Join [dir, up_Filename h]) h;
     (case r of
        Some e \<Rightarrow> captured e
      | None \<Rightarrow> do {
          modify_st (\<lambda>(ps, w). (ps, w\<lparr>wb_activity := wb_activity w @ [(up_Filename h, Clean dir)]\<rparr>));
          upload_all x dir hs
        })
   }"

text \<open>\<open>form\<close> is the multipart form: an error, no files, or the files. \<open>limitMB\<close> is the configured upload limit.\<close>

definition postServerUploadFiles :: "('w, 'c) files_env \<Rightarrow> int \<Rightarrow> signed_token \<Rightarrow> ('w upload list option) option \<Rightarrow> string \<Rightarrow> ('w, 'c) handler" where
  "postServerUploadFiles x limitMB tk form dir =
     (case tk_error tk of
        Some e \<Rightarrow> captured (WebOther e)
      | None \<Rightarrow> do {
          ok \<leftarrow> use_token x tk ''file-upload'';
          if \<not> ok then replied 404
          else (case form of
                  None \<Rightarrow> replied 400
                | Some None \<Rightarrow> replied 400
                | Some (Some headers) \<Rightarrow>
                    if list_ex (\<lambda>h. up_Size h > i64 (i64 (limitMB * 1024) * 1024)) headers then replied 400
                    else upload_all x dir headers)
        })"

definition getDownloadFile :: "('w, 'c) files_env \<Rightarrow> signed_token \<Rightarrow> string \<Rightarrow> ('w, 'c) handler" where
  "getDownloadFile x tk filePath =
     (case tk_error tk of
        Some e \<Rightarrow> captured (WebOther e)
      | None \<Rightarrow> do {
          ok \<leftarrow> use_token x tk ''file-download'';
          if \<not> ok then replied 404
          else do {
            r \<leftarrow> on_proc (fm_File (fx_sniff x) (fx_fm x) (fx_kernel x) filePath);
            (case r of
               Inl e \<Rightarrow> captured (WebFs e)
             | Inr (f, s) \<Rightarrow> do {
                 on_proc (sys_close f);
                 replied (if li_dir s then 404 else 200)
               })
          }
        })"

section \<open>Serving requests\<close>

datatype ('w, 'c) file_request =
  WebContents string | WebList string | WebRename schedule string "(string \<times> string) list"
| WebCopy "int \<Rightarrow> 'w writer" string | WebDelete schedule string "string list"
| WebWrite "int \<Rightarrow> 'w writer" string int | WebMkdir string string
| WebCompress string "string list"
| WebDecompress "fd \<Rightarrow> archive_kind identified" "fd \<Rightarrow> string option" "fd \<Rightarrow> 'w format identified" string string
| WebChmod schedule string "(string \<times> string) list"
| WebPull "string \<Rightarrow> string option option" string string pull_request "execute_error + 'w response"
| WebBackground "string \<Rightarrow> string option option" "execute_error + 'w response"
| WebCancel string string
| WebUpload int signed_token "('w upload list option) option" string
| WebDownload signed_token string

definition serve :: "('w, 'c) files_env \<Rightarrow> ('w, 'c) file_request \<Rightarrow> ('w, 'c) handler" where
  "serve x r =
     (case r of
        WebContents p \<Rightarrow> getServerFileContents x p
      | WebList p \<Rightarrow> getServerListDirectory x p
      | WebRename sched root fs \<Rightarrow> putServerRenameFiles x sched root fs
      | WebCopy wr p \<Rightarrow> postServerCopyFile x wr p
      | WebDelete sched root fs \<Rightarrow> postServerDeleteFiles x sched root fs
      | WebWrite wr p n \<Rightarrow> postServerWriteFile x wr p n
      | WebMkdir name p \<Rightarrow> postServerCreateDirectory x name p
      | WebCompress root fs \<Rightarrow> postServerCompressFiles x root fs
      | WebDecompress kinds seek formats root arch \<Rightarrow> postServerDecompressFiles x kinds seek formats root arch
      | WebChmod sched root fs \<Rightarrow> postServerChmodFile x sched root fs
      | WebPull media sid dlID r answer \<Rightarrow> postServerPullRemoteFile x media sid dlID r answer
      | WebBackground media answer \<Rightarrow> do { background_download x media answer; ret None }
      | WebCancel sid dlID \<Rightarrow> deleteServerPullRemoteFile sid dlID
      | WebUpload limitMB tk form dir \<Rightarrow> postServerUploadFiles x limitMB tk form dir
      | WebDownload tk p \<Rightarrow> getDownloadFile x tk p)"

fun serve_all :: "(('w, 'c) files_env \<times> ('w, 'c) file_request) list \<Rightarrow> ('w proc \<times> 'c web, unit) state" where
  "serve_all [] = ret ()"
| "serve_all ((x, r) # rs) = do { _ \<leftarrow> serve x r; serve_all rs }"

section \<open>The sandbox\<close>

text \<open>The names of copies are names of entries: the time stamp has no slash.\<close>

definition no_slash :: "string \<Rightarrow> bool" where
  "no_slash s \<longleftrightarrow> CHR ''/'' \<notin> set s"

lemma set_TrimSuffix: "set (TrimSuffix s p) \<subseteq> set s"
  by (auto simp: TrimSuffix_def dest: in_set_takeD)

lemma set_strip: "set (strip_trailing n) \<subseteq> set n"
proof (induction n rule: strip_trailing.induct)
  case (1 n)
  then show ?case by (subst strip_trailing.simps) (auto dest: in_set_butlastD)
qed

lemma basename_no_slash: "no_slash n \<Longrightarrow> no_slash (basename n)"
  using set_strip [of n] by (auto simp: no_slash_def basename_def Let_def split: option.splits dest: in_set_dropD)

lemma Ext_no_slash: "no_slash (Ext p)"
  by (auto simp: Ext.simps no_slash_def Let_def dest: set_takeWhileD)

lemma copy_parts_no_slash:
  assumes "no_slash b" "copy_parts b = (name, ext)"
  shows "no_slash name \<and> no_slash ext"
  using assms Ext_no_slash [of b] set_TrimSuffix [of b "Ext b"] set_TrimSuffix [of "TrimSuffix b (Ext b)" "''.tar''"]
  by (auto simp: copy_parts_def Let_def no_slash_def split: if_splits)

lemma copy_name_single:
  assumes "no_slash name" "no_slash ext" "no_slash s" "CHR ''c'' \<in> set s"
  shows "single_name (name @ s @ ext)"
proof -
  have "name @ s @ ext \<noteq> v" if "CHR ''c'' \<notin> set v" for v
    using assms(4) that by (metis UnCI set_append)
  from this [of "[]"] this [of "''.''"] this [of "''..''"] show ?thesis using assms by (simp add: single_name_def proper_def no_slash_def)
qed

lemma copy_suffix_ok: "no_slash (copy_suffix i)" "CHR ''c'' \<in> set (copy_suffix i)"
  using nat_digits_no [of "CHR ''/''" i] by (auto simp: copy_suffix_def no_slash_def)

text \<open>The suffix is one of those of the loop or the time stamp, and the result the name with it.\<close>

lemma findCopySuffix_sbox:
  assumes "d \<in> D" "no_slash name" "no_slash ext" "no_slash stamp"
  shows "triple (sbox fs D) (findCopySuffix k d name ext stamp) (\<lambda>r s. sbox fs D s \<and> (\<forall>nn. r = Inr nn \<longrightarrow> single_name nn))"
proof -
  note one = copy_name_single [OF assms(2,3)]
  have l: "keeps (sbox fs D) (Lstatat k d (name @ copy_suffix i @ ext))" for i
    unfolding Lstatat_def by (intro fstatat_op_sbox assms(1) one copy_suffix_ok)
  have "triple (sbox fs D) (findCopySuffix_loop k d name ext stamp is suffix) (\<lambda>r s. sbox fs D s \<and> (\<forall>nn. r = Inr nn \<longrightarrow> single_name nn))"
    if "no_slash suffix" "CHR ''c'' \<in> set suffix" for "is" suffix
    using that
  proof (induction "is" arbitrary: suffix)
    case (Cons i "is")
    have "no_slash (if i = 50 then ''copy.'' @ stamp else copy_suffix i)" "CHR ''c'' \<in> set (if i = 50 then ''copy.'' @ stamp else copy_suffix i)"
      using assms(4) copy_suffix_ok by (auto simp: no_slash_def)
    with Cons.IH show ?case
      unfolding findCopySuffix_loop.simps Let_def
      by (intro triple_bind [OF l] triple_sum triple_ret) (auto intro: one copy_suffix_ok)
  qed (auto intro!: triple_ret intro: one)
  then show ?thesis by (simp add: findCopySuffix_def no_slash_def)
qed

lemma copy_source_sbox:
  assumes "d \<in> D" "no_slash (fi_name info)" "no_slash stamp"
  shows "keeps (sbox (q_fs (fm_q fm)) D) (copy_source fm k wr stamp d name info)"
proof -
  let ?fs = "q_fs (fm_q fm)"
  obtain b e where be: "copy_parts (fi_name info) = (b, e)" by (rule prod.exhaust)
  note ns = copy_parts_no_slash [OF assms(2) be]
  have s: "keeps (sbox ?fs D) (HasSpaceFor fm n)" for n unfolding HasSpaceFor_def by (intro keeps_bind read_keeps triple_ret)
  have c: "keeps (sbox ?fs E) (Lchownat k d nn u g)" if "d \<in> E" "single_name nn" for nn u g E
    unfolding Lchownat_def by (intro op_intros) (simp add: that)
  have dst: "keeps (sbox ?fs D) (do {
      dst \<leftarrow> OpenFileat ?fs k d nn {O_WRONLY, O_CREATE} (fi_mode info);
      (case dst of
         Inl e \<Rightarrow> ret (Some (Ufs e))
       | Inr (f, _) \<Rightarrow> do {
           (n, err) \<leftarrow> run_writer (wr (fi_size info)) f;
           _ \<leftarrow> Add n;
           c \<leftarrow> (if fm_isTest fm then ret None else Lchownat k d nn (fm_uid fm) (fm_gid fm));
           ret (case c of Some e \<Rightarrow> Some (Ufs e) | None \<Rightarrow> map_option IoError err)
         }) })" if "single_name nn" for nn
    by (rule triple_bind [OF triple_post [OF OpenFileat_sbox [OF assms(1) that] got_file_sbox]], assumption, rule triple_sum)
       (auto intro!: triple_ret triple_prod keeps_bind run_writer_sbox Add_sbox triple_if c assms(1) that)
  show ?thesis
    unfolding copy_source_def be Let_def prod.case
    by (intro triple_if triple_ret triple_bind [OF s] triple_option triple_bind [OF findCopySuffix_sbox [OF assms(1) _ _ assms(3)]]
        triple_pure triple_sum) (use ns dst in auto)
qed

lemma Copy_sbox:
  assumes b: "base_ok (q_fs (fm_q fm)) bs" and st: "no_slash stamp"
  shows "keeps (sbox (q_fs (fm_q fm)) D) (Copy fm k wr stamp p)"
  unfolding Copy_def
proof (rule with_safePath_keeps [OF b])
  fix C :: "fd set" and d n assume dn: "d \<in> C" "C \<inter> D = {}" "single_name n"
  let ?fs = "q_fs (fm_q fm)"
  let ?c = "\<lambda>r. case r of Inl e \<Rightarrow> ret (Some (Ufs (BareErrno e)))
     | Inr s \<Rightarrow> copy_source fm k wr stamp d n (fillFileStatFromSys s n)"
  have "no_slash n" using dn(3) by (auto simp: single_name_def no_slash_def proper_no_slash)
  then have c: "keeps (sbox ?fs (insert f (C \<union> D))) (?c r)" for f r
    using dn(1) st basename_no_slash by (intro triple_sum triple_ret copy_source_sbox) (auto simp: fillFileStatFromSys_def)
  have o: "triple (sbox ?fs (C \<union> D)) (OpenFileat ?fs k d n {} 0) (got_file ?fs (C \<union> D))"
    using dn by (intro OpenFileat_sbox) auto
  have stat: "keeps (sbox ?fs (insert f (C \<union> D))) (sys_fstat k f)" for f by (rule sys_fstat_sbox) simp
  show "keeps (sbox ?fs (C \<union> D)) (do {
      src \<leftarrow> OpenFileat ?fs k d n {} 0;
      (case src of
         Inl e \<Rightarrow> ret (Some (Ufs e))
       | Inr (f, _) \<Rightarrow> do { st \<leftarrow> sys_fstat k f; r \<leftarrow> ?c st; sys_close f; ret r }) })"
    by (rule triple_bind [OF o], rule triple_sum)
       (auto intro!: triple_ret triple_prod triple_bind [OF file_kept [OF stat]] triple_bind [OF file_kept [OF c]]
          triple_bind [OF close_file] simp: got_file_def [of _ _ "Inl _"])
qed

text \<open>The base directory is proper, the kernel lists proper names, and the time stamp is one.\<close>

definition env_ok :: "('w, 'c) files_env \<Rightarrow> bool" where
  "env_ok x \<longleftrightarrow> (\<exists>bs. base_ok (fx_fs x) bs) \<and> names_ok (fx_kernel x) \<and> no_slash (fx_stamp x)"

lemma own_keeps: "keeps (\<lambda>s. I (fst s)) (modify_st (\<lambda>(ps, w). (ps, f w)))"
  by (auto simp: triple_def)

lemma run_group_keeps: "\<forall>t \<in> snd ` set ts. keeps I t \<Longrightarrow> keeps I (run_group parent ts err)"
proof (induction parent ts err rule: run_group.induct)
  case (2 parent d t ts err)
  have "keeps I t" using 2(4) by simp
  then show ?case using 2 by (auto intro!: keeps_bind triple_option triple_ret)
qed (simp add: triple_ret)

lemma scheduled_keeps: "(\<And>t. t \<in> set ts \<Longrightarrow> keeps I t) \<Longrightarrow> keeps I (run_group parent (scheduled sched ts) err)"
  by (rule run_group_keeps) (auto simp: scheduled_def)

lemma stale_space_keeps:
  "(\<And>l. keeps I (HasSpaceAvailable (fx_fm x) (0, None) (fx_now x) (fx_headroom x) True l)) \<Longrightarrow> keeps (\<lambda>s. I (fst s)) (stale_space x)"
  by (fastforce simp: triple_def stale_space_def split: prod.splits)

lemma finish_keeps: "keeps I (finish e)"
  by (cases e) (auto simp: finish_def intro: triple_ret)

lemma use_token_keeps: "keeps (\<lambda>s. I (fst s)) (use_token x tk scope)"
  by (auto simp: triple_def use_token_def split: prod.splits)

lemma run_download_sbox:
  assumes "base_ok (fx_fs x) bs"
  shows "keeps (wbox (fx_fs x) {}) (run_download x media dlID req answer)"
proof -
  have e: "keeps (sbox (fx_fs x) {}) (Execute (fx_fm x) (fx_kernel x) media dlID req answer d)" for d
    unfolding Execute_def transfer_body_def
    by (intro keeps_bind triple_ret triple_sum triple_if Write_sbox [OF assms])
  show ?thesis
    using e by (fastforce simp: triple_def run_download_def split: prod.splits)
qed

lemma upload_all_sbox:
  assumes "base_ok (fx_fs x) bs"
  shows "keeps (wbox (fx_fs x) {}) (upload_all x dir hs)"
proof (induction hs)
  case (Cons h hs)
  have "keeps (wbox (fx_fs x) {}) (handleFileUpload x p h)" for p
    unfolding handleFileUpload_def by (intro triple_option triple_ret keeps_bind on_proc_triple Write_sbox [OF assms])
  with Cons show ?case by (auto intro!: keeps_bind triple_option triple_ret own_keeps)
qed (simp add: triple_ret)

text \<open>The changes of the shared state that a handler makes beside its file operations.\<close>

lemmas handler_rules =
  keeps_bind triple_ret triple_if triple_option triple_sum triple_prod read_keeps own_keeps finish_keeps use_token_keeps keeps_if_st
  stale_space_keeps space_keeps

lemma serve_sbox:
  assumes "env_ok x"
  shows "keeps (wbox (fx_fs x) {}) (serve x r)"
proof -
  obtain bs where b: "base_ok (fx_fs x) bs" and n: "names_ok (fx_kernel x)" and st: "no_slash (fx_stamp x)"
    using assms by (auto simp: env_ok_def)
  note rules = handler_rules on_proc_triple
  have ren: "keeps (wbox (fx_fs x) {}) (rename_one x p q)" for p q
    unfolding rename_one_def by (intro rules Rename_sbox [OF b])
  have del: "keeps (wbox (fx_fs x) {}) (delete_one x p)" for p
    unfolding delete_one_def fm_Delete_def by (intro rules quota_RemoveAll_sbox [OF b n])
  have chm: "keeps (wbox (fx_fs x) {}) (chmod_one x p m)" for p m
    unfolding chmod_one_def by (intro rules Chmod_sbox [OF b])
  have closed: "keeps (sbox (fx_fs x) {}) (sys_close f)" for f
    by (auto simp: triple_def sys_close_def sbox_def)
  note ops = fm_File_sbox [OF b] ListDirectory_sbox [OF b n] Copy_sbox [OF b st] Write_sbox [OF b] MkdirAll_sbox [OF b]
    SpaceAvailable_sbox [OF b] DecompressFile_sbox [OF b] fm_Stat_sbox [OF b] run_download_sbox [OF b] upload_all_sbox [OF b] closed
    scheduled_keeps
  show ?thesis
  proof (cases r)
    case (WebCompress root fs)
    then show ?thesis
      by (auto simp: serve_def postServerCompressFiles_def split: compress_error.split intro!: rules CompressFiles_sbox [OF b n])
  next
    case (WebRename sched root fs)
    have "keeps (wbox (fx_fs x) {}) (run_group p (scheduled sched (map (\<lambda>(from, to). rename_one x (path_Join [root, from]) (path_Join [root, to])) fs)) e)" for p e
      by (rule scheduled_keeps) (auto intro: ren)
    then show ?thesis
      by (auto simp: WebRename serve_def putServerRenameFiles_def split: web_error.split fm_error.split intro!: rules)
  next
    case (WebDelete sched root fs)
    have "keeps (wbox (fx_fs x) {}) (run_group p (scheduled sched (map (\<lambda>p. delete_one x (path_Join [root, p])) fs)) e)" for p e
      by (rule scheduled_keeps) (auto intro: del)
    then show ?thesis by (auto simp: WebDelete serve_def postServerDeleteFiles_def intro!: rules)
  next
    case (WebChmod sched root fs)
    have "keeps (wbox (fx_fs x) {}) (run_group p (scheduled sched (map (\<lambda>(f, mode). chmod_one x (path_Join [root, f]) mode) fs)) e)" for p e
      by (rule scheduled_keeps) (auto intro: chm)
    then show ?thesis
      by (auto simp: WebChmod serve_def postServerChmodFile_def split: web_error.split intro!: rules)
  qed (auto simp: serve_def getServerFileContents_def getServerListDirectory_def putServerRenameFiles_def postServerCopyFile_def
      postServerDeleteFiles_def postServerWriteFile_def postServerCreateDirectory_def
      postServerDecompressFiles_def postServerChmodFile_def postServerPullRemoteFile_def background_download_def
      deleteServerPullRemoteFile_def postServerUploadFiles_def getDownloadFile_def pull_foreground_def CreateDirectory_def on_downloads_def Let_def
      intro!: rules ops split: list.split)
qed

section \<open>Used tokens\<close>

text \<open>A token that is in the cache stays there, whatever is requested.\<close>

lemma serve_tokens:
  assumes add: "\<And>c t'. fx_get x c t \<Longrightarrow> fx_get x (fx_add x c t') t"
  shows "keeps (\<lambda>s. fx_get x (wb_tokens (snd s)) t) (serve x r)"
proof -
  let ?I = "\<lambda>s. fx_get x (wb_tokens (snd s)) t"
  note p = on_proc_twf [where I = "\<lambda>w. fx_get x (wb_tokens w) t"]
  have o: "keeps ?I (modify_st (\<lambda>(ps, w). (ps, w\<lparr>wb_jobs := f w\<rparr>)))"
    "keeps ?I (modify_st (\<lambda>(ps, w). (ps, w\<lparr>wb_activity := g w\<rparr>)))"
    "keeps ?I (on_downloads h)" "keeps ?I (stale_space x)" "keeps ?I (run_download x media d req answer)" for f g h media d req answer
    by (auto simp: triple_def on_downloads_def stale_space_def run_download_def split: prod.splits)
  have u: "keeps ?I (use_token x tk scope)" for tk scope
    by (auto simp: triple_def use_token_def IsValidToken_def Let_def add split: prod.splits)
  have up: "keeps ?I (upload_all x dir hs)" for dir hs
    by (induction hs) (auto simp: handleFileUpload_def intro!: keeps_bind triple_option triple_ret p o)
  note rules = keeps_bind triple_ret triple_if triple_option triple_sum triple_prod read_keeps finish_keeps keeps_if_st p o u up
  have g: "keeps ?I (run_group par (scheduled sched (map (\<lambda>(a, b). rename_one x (f a) (f b)) fs)) e)"
    "keeps ?I (run_group par (scheduled sched (map (\<lambda>q. delete_one x (f q)) qs)) e)"
    "keeps ?I (run_group par (scheduled sched (map (\<lambda>(a, m). chmod_one x (f a) m) fs)) e)" for par sched f fs qs e
    by (auto simp: rename_one_def delete_one_def chmod_one_def intro!: scheduled_keeps rules)
  show ?thesis
    by (cases r)
       (auto simp: serve_def getServerFileContents_def getServerListDirectory_def putServerRenameFiles_def postServerCopyFile_def
          postServerDeleteFiles_def postServerWriteFile_def postServerCreateDirectory_def postServerCompressFiles_def
          postServerDecompressFiles_def postServerChmodFile_def postServerPullRemoteFile_def background_download_def
          deleteServerPullRemoteFile_def postServerUploadFiles_def getDownloadFile_def pull_foreground_def Let_def
          intro!: rules g split: list.split web_error.split fm_error.split compress_error.split)
qed

lemma serve_all_tokens:
  assumes "\<forall>(x, r) \<in> set rs. fx_get x = get \<and> fx_add x = add" "\<And>c t t'. get c t \<Longrightarrow> get (add c t') t"
  shows "keeps (\<lambda>s. get (wb_tokens (snd s)) t) (serve_all rs)"
  using assms(1)
proof (induction rs rule: serve_all.induct)
  case (2 x r rs)
  then have x: "fx_get x = get" "fx_add x = add" by auto
  have "keeps (\<lambda>s. get (wb_tokens (snd s)) t) (serve x r)"
    using serve_tokens [of x t r] x assms(2) by simp
  then show ?case using 2 by (auto intro!: keeps_bind)
qed (simp add: triple_ret)

lemma use_token_used:
  assumes "\<And>c t. fx_get x (fx_add x c t) t" "tk_known tk"
  shows "triple (\<lambda>_. True) (use_token x tk scope) (\<lambda>_ s. fx_get x (wb_tokens (snd s)) (tk_unique tk))"
  using assms by (auto simp: triple_def use_token_def IsValidToken_def Let_def split: prod.splits)

text \<open>Whatever a signed request does afterwards, its token is used.\<close>

lemma signed_uses:
  assumes "\<And>c t. fx_get x (fx_add x c t) t" "\<And>c t t'. fx_get x c t \<Longrightarrow> fx_get x (fx_add x c t') t"
    and "tk_known tk" "tk_error tk = None"
    and "r = WebDownload tk p \<or> r = WebUpload limit tk form dir"
  shows "fx_get x (wb_tokens (snd (snd (run_state (serve x r) s)))) (tk_unique tk)"
proof -
  let ?I = "\<lambda>s. fx_get x (wb_tokens (snd s)) (tk_unique tk)"
  note p = on_proc_twf [where I = "\<lambda>w. fx_get x (wb_tokens w) (tk_unique tk)"]
  have a: "keeps ?I (modify_st (\<lambda>(ps, w). (ps, w\<lparr>wb_activity := g w\<rparr>)))" for g by (auto simp: triple_def)
  have up: "keeps ?I (upload_all x dir hs)" for dir hs
    by (induction hs) (auto simp: handleFileUpload_def intro!: keeps_bind triple_option triple_ret p a)
  note u = triple_bind [OF use_token_used [OF assms(1) assms(3)]]
  have "triple (\<lambda>_. True) (serve x r) (\<lambda>_. ?I)"
    using assms(4,5)
    by (auto simp: serve_def getDownloadFile_def postServerUploadFiles_def
        intro!: u triple_if triple_ret triple_option triple_sum keeps_bind p triple_prod up)
  then show ?thesis by (rule triple_snd) simp
qed

lemma used_token_refused:
  assumes "fx_get x (wb_tokens (snd s)) (tk_unique tk)" "tk_error tk = None" "r = WebDownload tk p \<or> r = WebUpload limit tk form dir"
  shows "fst (run_state (serve x r) s) = Some (Replied 404)"
  using assms by (cases s) (auto simp: serve_def getDownloadFile_def postServerUploadFiles_def use_token_def IsValidToken_def Let_def)

section \<open>Examples\<close>

definition web_env :: "(string \<Rightarrow> bool) \<Rightarrow> (unit, string list) files_env" where
  "web_env denied = \<lparr>fx_fm = archive_fs, fx_deny = denied, fx_archive = archive_ax (\<lambda>_. []), fx_fuel = 3, fx_stamp = ''2024'',
     fx_sniff = (\<lambda>_. Inr ''text/plain''), fx_mime = (\<lambda>_. None), fx_headroom = True, fx_now = 0, fx_copied = (\<lambda>_. None),
     fx_text = (\<lambda>_. []), fx_get = (\<lambda>c t. t \<in> set c), fx_add = (\<lambda>c t. t # c)\<rparr>"

definition web_start :: "unit proc \<times> string list web" where
  "web_start = (start, \<lparr>wb_downloads = no_downloads, wb_lookup = \<lparr>lastLookupTime = 0, lookupInProgress = False, diskCheckInterval = 0\<rparr>,
     wb_tokens = [], wb_jobs = [], wb_activity = []\<rparr>)"

definition one_byte :: "int \<Rightarrow> unit writer" where
  "one_byte n f w = ((1, None), w)"

text \<open>
  The denylist is matched against the path as it was sent: a detour leads to the same file past it.
\<close>

lemma denylist_refuses_direct:
  "fst (run_state (postServerWriteFile (web_env (\<lambda>p. p = ''/a'')) one_byte ''a'' 1) web_start) = Some (Captured (WebFs (FmError ErrCodeDenylistFile)))"
  by code_simp

lemma denylist_detour:
  "postServerWriteFile (x\<lparr>fx_deny := \<lambda>p. p = ''/a''\<rparr>) wr ''x/../a'' n = postServerWriteFile (x\<lparr>fx_deny := \<lambda>_. False\<rparr>) wr ''x/../a'' n"
  by (simp add: postServerWriteFile_def IsIgnored_def TrimLeft_def Let_def)

lemma detour_same_file:
  "unsafePath (NewUnixFS ''/srv'' False) ''/x/../a'' = unsafePath (NewUnixFS ''/srv'' False) ''/a''"
  by code_simp

text \<open>Deleting does not ask the denylist.\<close>

lemma delete_ignores_denylist: "postServerDeleteFiles (x\<lparr>fx_deny := denied\<rparr>) sched root files = postServerDeleteFiles x sched root files"
  by (simp add: postServerDeleteFiles_def delete_one_def)

text \<open>A path that leads out of the sandbox is answered as an internal error.\<close>

lemma escape_is_internal_error:
  "CaptureErrors (\<lambda>_. ''openat ../x: bad path resolution'') (\<lambda>_. False) 200
     (Captured (WebFs (Ufs (PathError ''openat'' ''../x'' ErrBadPathResolution)))) = 500"
  by code_simp

section \<open>Properties\<close>







text \<open>A request passes the authorization exactly when its header is the word for bearer tokens, a space and the token of the
  configuration.\<close>

theorem authorized_iff: "RequireAuthorization token header = None \<longleftrightarrow> header = ''Bearer '' @ token"
proof (cases "IndexByte header (CHR '' '')")
  case None
  then have "CHR '' '' \<notin> set header" by (simp add: IndexByte_None)
  then show ?thesis using None by (auto simp: RequireAuthorization_def SplitN2_def)
next
  case (Some i)
  note h = IndexByte_Some [OF Some]
  have "header = ''Bearer '' @ token \<longleftrightarrow> take i header = ''Bearer'' \<and> drop (Suc i) header = token"
  proof
    assume e: "header = ''Bearer '' @ token"
    then have "i = 6" using Some by simp
    then show "take i header = ''Bearer'' \<and> drop (Suc i) header = token" using e by simp
  next
    assume "take i header = ''Bearer'' \<and> drop (Suc i) header = token"
    then show "header = ''Bearer '' @ token" using h by (metis append_Cons append_Nil append_assoc)
  qed
  then show ?thesis by (auto simp: RequireAuthorization_def SplitN2_def Some)
qed

end
