(* ===== verification/Activity_Log.thy ===== *)
theory Activity_Log
  imports Locker Effects
begin

text \<open>
  The periodic jobs that send the activity log to the panel, \<^verbatim>\<open>internal/cron\<close>: the job for ordinary
  activity and the one that merges the records of SFTP sessions. The database is a list of records; the
  rows that other parts of the daemon insert between two queries, failing queries and the answer of the
  panel are parameters.
\<close>

section \<open>Records\<close>

text \<open>
  \<open>ac_files\<close> is the list under \<^verbatim>\<open>files\<close> in the metadata, \<open>None\<close> when there is none or it is no list.
  Timestamps are seconds.
\<close>

record activity =
  ac_ID :: int
  ac_User :: string
  ac_Server :: string
  ac_IP :: string
  ac_Event :: string
  ac_files :: "string list option"
  ac_Timestamp :: int

record mapKey =
  mk_User :: string
  mk_Server :: string
  mk_IP :: string
  mk_Event :: string
  mk_minute :: int

definition activity_key :: "activity \<Rightarrow> mapKey" where
  "activity_key a = \<lparr>mk_User = ac_User a, mk_Server = ac_Server a, mk_IP = ac_IP a, mk_Event = ac_Event a, mk_minute = ac_Timestamp a div 60\<rparr>"

text \<open>The map keeps the order in which its keys were added; the code iterates over it in any order.\<close>

record eventMap =
  em_max :: nat
  em_ids :: "int list"
  em_m :: "(mapKey \<times> activity) list"

definition forActivity :: "activity \<Rightarrow> eventMap \<Rightarrow> (activity \<times> eventMap) option" where
  "forActivity a em =
     (case map_of (em_m em) (activity_key a) of
        Some v \<Rightarrow> Some (v, em)
      | None \<Rightarrow>
          if length (em_m em) \<ge> em_max em then None
          else (let v = a\<lparr>ac_files := Some []\<rparr> in Some (v, em\<lparr>em_m := em_m em @ [(activity_key a, v)]\<rparr>)))"

fun set_entry :: "mapKey \<Rightarrow> activity \<Rightarrow> (mapKey \<times> activity) list \<Rightarrow> (mapKey \<times> activity) list" where
  "set_entry k v [] = []"
| "set_entry k v ((k', v') # m) = (if k' = k then (k', v) else (k', v')) # set_entry k v m"

definition merge_into :: "activity \<Rightarrow> activity \<Rightarrow> activity" where
  "merge_into a v =
     (let v1 = (if ac_Timestamp a < ac_Timestamp v then v\<lparr>ac_Timestamp := ac_Timestamp a\<rparr> else v)
      in case ac_files a of
           None \<Rightarrow> v1
         | Some fs \<Rightarrow> v1\<lparr>ac_files := map_option (\<lambda>l. l @ fs) (ac_files v1)\<rparr>)"

definition em_Push :: "activity \<Rightarrow> eventMap \<Rightarrow> eventMap" where
  "em_Push a em =
     (case forActivity a em of
        None \<Rightarrow> em
      | Some (v, em') \<Rightarrow>
          em'\<lparr>em_ids := em_ids em' @ [ac_ID a], em_m := set_entry (activity_key a) (merge_into a v) (em_m em')\<rparr>)"

definition Elements :: "eventMap \<Rightarrow> activity list" where
  "Elements em = map snd (em_m em)"

section \<open>The jobs\<close>

datatype cron_error = ErrCronRunning | DbError nat | PanelError

text \<open>
  Before the \<open>n\<close>-th query the rows \<open>cx_arrive n\<close> are inserted; the query may fail. \<open>cx_order\<close> is the order in
  which the database returns rows of one event, \<open>cx_panel\<close> whether the panel takes what it is sent, \<open>cx_ip\<close>
  whether an address parses.
\<close>

record cron_env =
  cx_max :: nat
  cx_arrive :: "nat \<Rightarrow> activity list"
  cx_fails :: "nat \<Rightarrow> bool"
  cx_order :: "activity list \<Rightarrow> activity list"
  cx_panel :: bool
  cx_ip :: "string \<Rightarrow> bool"

record cron_state =
  cs_db :: "activity list"
  cs_queries :: nat
  cs_sent :: "activity list list"
  cs_activity :: atomic_bool
  cs_sftp :: atomic_bool

definition is_sftp :: "activity \<Rightarrow> bool" where
  "is_sftp a \<longleftrightarrow> take 12 (ac_Event a) = ''server:sftp.''"

definition db_query :: "cron_env \<Rightarrow> (activity list \<Rightarrow> 'r) \<Rightarrow> (cron_state, cron_error + 'r) state" where
  "db_query x f = State (\<lambda>s0.
     let s = s0\<lparr>cs_db := cs_db s0 @ cx_arrive x (cs_queries s0), cs_queries := Suc (cs_queries s0)\<rparr>
     in if cx_fails x (cs_queries s0) then (Inl (DbError (cs_queries s0)), s) else (Inr (f (cs_db s)), s))"

definition db_delete :: "cron_env \<Rightarrow> int list \<Rightarrow> (cron_state, cron_error option) state" where
  "db_delete x ids = do {
     r \<leftarrow> db_query x (\<lambda>_. ());
     (case r of
        Inl e \<Rightarrow> ret (Some e)
      | Inr _ \<Rightarrow> do {
          modify_st (\<lambda>s. s\<lparr>cs_db := filter (\<lambda>a. ac_ID a \<notin> set ids) (cs_db s)\<rparr>);
          ret None
        })
   }"

definition SendActivityLogs :: "cron_env \<Rightarrow> activity list \<Rightarrow> (cron_state, cron_error option) state" where
  "SendActivityLogs x as =
     (if cx_panel x then do { modify_st (\<lambda>s. s\<lparr>cs_sent := cs_sent s @ [as]\<rparr>); ret None }
      else ret (Some PanelError))"

text \<open>The loop that deletes in chunks of 32000.\<close>

function delete_chunks :: "cron_env \<Rightarrow> int list \<Rightarrow> (cron_state, cron_error option) state" where
  "delete_chunks x ids =
     (if ids = [] then ret None
      else do {
        r \<leftarrow> db_delete x (take 32000 ids);
        (case r of Some e \<Rightarrow> ret (Some e) | None \<Rightarrow> delete_chunks x (drop 32000 ids))
      })"
  by pat_completeness auto
termination by (relation "measure (\<lambda>(x, ids). length ids)") auto

declare delete_chunks.simps [simp del]

text \<open>The body of the ordinary job, under its flag.\<close>

definition activity_body :: "cron_env \<Rightarrow> (cron_state, cron_error option) state" where
  "activity_body x = do {
     r \<leftarrow> db_query x (\<lambda>db. take (cx_max x) (filter (\<lambda>a. \<not> is_sftp a) db));
     (case r of
        Inl e \<Rightarrow> ret (Some e)
      | Inr as \<Rightarrow>
          if as = [] then ret None
          else do {
            let invalid = filter (\<lambda>a. \<not> cx_ip x (ac_IP a)) as;
            let activities = filter (\<lambda>a. cx_ip x (ac_IP a)) as;
            d \<leftarrow> (if invalid \<noteq> [] then db_delete x (map ac_ID invalid) else ret None);
            (case d of
               Some e \<Rightarrow> ret (Some e)
             | None \<Rightarrow>
                 if activities = [] then ret None
                 else do {
                   p \<leftarrow> SendActivityLogs x activities;
                   (case p of
                      Some e \<Rightarrow> ret (Some e)
                    | None \<Rightarrow> delete_chunks x (map ac_ID activities))
                 })
          })
   }"

text \<open>The page of the SFTP records; \<^verbatim>\<open>event DESC\<close> with the rows of one event in the order of the database.\<close>

definition fetchRecords :: "cron_env \<Rightarrow> nat \<Rightarrow> (cron_state, cron_error + activity list) state" where
  "fetchRecords x offset = db_query x (\<lambda>db. take (cx_max x) (drop offset (cx_order x (filter is_sftp db))))"

text \<open>The loop over the pages; without fuel it does not end when rows keep arriving.\<close>

fun fetch_pages :: "nat \<Rightarrow> cron_env \<Rightarrow> nat \<Rightarrow> activity list \<Rightarrow> eventMap \<Rightarrow> (cron_state, (cron_error + eventMap) option) state" where
  "fetch_pages 0 x offset as em = ret None"
| "fetch_pages (Suc n) x offset as em =
     (if as = [] then ret (Some (Inr em))
      else
        (let em' = fold em_Push as em
         in if length (em_ids em') > length (em_ids em) then do {
              r \<leftarrow> fetchRecords x offset;
              (case r of
                 Inl e \<Rightarrow> ret (Some (Inl e))
               | Inr as' \<Rightarrow> fetch_pages n x (offset + length as') as' em')
            }
            else ret (Some (Inr em'))))"

definition sftp_body :: "nat \<Rightarrow> cron_env \<Rightarrow> (cron_state, cron_error option option) state" where
  "sftp_body n x = do {
     r \<leftarrow> fetchRecords x 0;
     (case r of
        Inl e \<Rightarrow> ret (Some (Some e))
      | Inr as \<Rightarrow> do {
          p \<leftarrow> fetch_pages n x (length as) as \<lparr>em_max = cx_max x, em_ids = [], em_m = []\<rparr>;
          (case p of
             None \<Rightarrow> ret None
           | Some (Inl e) \<Rightarrow> ret (Some (Some e))
           | Some (Inr em) \<Rightarrow>
               if em_m em = [] then ret (Some None)
               else do {
                 s \<leftarrow> SendActivityLogs x (Elements em);
                 (case s of
                    Some e \<Rightarrow> ret (Some (Some e))
                  | None \<Rightarrow> do { d \<leftarrow> delete_chunks x (em_ids em); ret (Some d) })
               })
        })
   }"

text \<open>Each job holds its flag while it runs.\<close>

definition activity_Run :: "cron_env \<Rightarrow> (cron_state, cron_error option) state" where
  "activity_Run x = do {
     ok \<leftarrow> State (\<lambda>s. case SwapIf True (cs_activity s) of (ok, b) \<Rightarrow> (ok, s\<lparr>cs_activity := b\<rparr>));
     if \<not> ok then ret (Some ErrCronRunning)
     else do {
       r \<leftarrow> activity_body x;
       modify_st (\<lambda>s. s\<lparr>cs_activity := Store False (cs_activity s)\<rparr>);
       ret r
     }
   }"

definition sftp_Run :: "nat \<Rightarrow> cron_env \<Rightarrow> (cron_state, cron_error option option) state" where
  "sftp_Run n x = do {
     ok \<leftarrow> State (\<lambda>s. case SwapIf True (cs_sftp s) of (ok, b) \<Rightarrow> (ok, s\<lparr>cs_sftp := b\<rparr>));
     if \<not> ok then ret (Some (Some ErrCronRunning))
     else do {
       r \<leftarrow> sftp_body n x;
       modify_st (\<lambda>s. s\<lparr>cs_sftp := Store False (cs_sftp s)\<rparr>);
       ret r
     }
   }"

section \<open>What merging does\<close>

definition files_of :: "activity \<Rightarrow> string list" where
  "files_of a = (case ac_files a of None \<Rightarrow> [] | Some fs \<Rightarrow> fs)"

abbreviation keys_of :: "eventMap \<Rightarrow> mapKey set" where
  "keys_of em \<equiv> fst ` set (em_m em)"

text \<open>
  The map after the records \<open>as\<close> have been pushed: the entry of a key has the files of all records with that key,
  in order; the identifiers are those of the records that went into an entry; a record that did not found the map full.
\<close>

definition entry_ok :: "activity list \<Rightarrow> mapKey \<times> activity \<Rightarrow> bool" where
  "entry_ok as = (\<lambda>(k, v). ac_files v = Some (concat (map files_of (filter (\<lambda>a. activity_key a = k) as))) \<and>
     activity_key (v\<lparr>ac_Timestamp := mk_minute k * 60\<rparr>) = k \<and>
     (\<forall>a \<in> set as. activity_key a = k \<longrightarrow> ac_Timestamp v \<le> ac_Timestamp a) \<and>
     ac_Timestamp v \<in> ac_Timestamp ` {a \<in> set as. activity_key a = k})"

definition merged :: "nat \<Rightarrow> activity list \<Rightarrow> eventMap \<Rightarrow> bool" where
  "merged M as em \<longleftrightarrow> em_max em = M \<and> distinct (map fst (em_m em)) \<and> length (em_m em) \<le> M \<and>
     em_ids em = map ac_ID (filter (\<lambda>a. activity_key a \<in> keys_of em) as) \<and>
     (\<forall>e \<in> set (em_m em). entry_ok as e) \<and>
     (\<forall>a \<in> set as. activity_key a \<notin> keys_of em \<longrightarrow> length (em_m em) = M)"

lemma merged_empty: "merged M [] \<lparr>em_max = M, em_ids = [], em_m = []\<rparr>"
  by (simp add: merged_def)

lemma set_entry_keys [simp]: "map fst (set_entry k v m) = map fst m"
  by (induction m) auto

lemma set_entry_length [simp]: "length (set_entry k v m) = length m"
  by (induction m) auto

lemma set_entry_mem: "(j, u) \<in> set (set_entry k w m) \<Longrightarrow> j = k \<and> u = w \<or> j \<noteq> k \<and> (j, u) \<in> set m"
  by (induction m) (auto split: if_splits)

lemma set_entry_append: "k \<notin> fst ` set m \<Longrightarrow> set_entry k w (m @ [(k, v)]) = m @ [(k, w)]"
  by (induction m) auto

lemma merge_into_simps [simp]:
  "ac_files (merge_into a v) = (case ac_files a of None \<Rightarrow> ac_files v | Some fs \<Rightarrow> map_option (\<lambda>l. l @ fs) (ac_files v))"
  "ac_Timestamp (merge_into a v) = min (ac_Timestamp a) (ac_Timestamp v)"
  "ac_User (merge_into a v) = ac_User v" "ac_Server (merge_into a v) = ac_Server v"
  "ac_IP (merge_into a v) = ac_IP v" "ac_Event (merge_into a v) = ac_Event v"
  by (auto simp: merge_into_def Let_def split: option.splits)

lemma entry_ok_merge: "entry_ok as (activity_key a, v) \<Longrightarrow> entry_ok (as @ [a]) (activity_key a, merge_into a v)"
  by (auto simp: entry_ok_def files_of_def activity_key_def min_def split: option.splits)

lemma entry_ok_other: "entry_ok as (k, v) \<Longrightarrow> activity_key a \<noteq> k \<Longrightarrow> entry_ok (as @ [a]) (k, v)"
  by (auto simp: entry_ok_def)

lemma entry_ok_first:
  assumes "\<forall>b \<in> set as. activity_key b \<noteq> activity_key a"
  shows "entry_ok (as @ [a]) (activity_key a, merge_into a (a\<lparr>ac_files := Some []\<rparr>))"
proof -
  have "filter (\<lambda>b. activity_key b = activity_key a) as = []" using assms by (simp add: filter_empty_conv)
  then show ?thesis using assms by (auto simp: entry_ok_def files_of_def activity_key_def split: option.splits)
qed

lemma em_Push_merged:
  assumes m: "merged M as em"
  shows "merged M (as @ [a]) (em_Push a em)"
proof -
  let ?k = "activity_key a"
  have M: "em_max em = M" "distinct (map fst (em_m em))" "length (em_m em) \<le> M"
    "em_ids em = map ac_ID (filter (\<lambda>a. activity_key a \<in> keys_of em) as)"
    "\<And>e. e \<in> set (em_m em) \<Longrightarrow> entry_ok as e"
    "\<And>b. b \<in> set as \<Longrightarrow> activity_key b \<notin> keys_of em \<Longrightarrow> length (em_m em) = M"
    using m by (auto simp: merged_def)
  consider (old) v where "map_of (em_m em) ?k = Some v" | (full) "map_of (em_m em) ?k = None" "length (em_m em) \<ge> M"
    | (new) "map_of (em_m em) ?k = None" "length (em_m em) < M" by force
  then show ?thesis
  proof cases
    case old
    have v: "(?k, v) \<in> set (em_m em)" using old by (rule map_of_SomeD)
    let ?m = "set_entry ?k (merge_into a v) (em_m em)"
    have p: "em_Push a em = em\<lparr>em_ids := em_ids em @ [ac_ID a], em_m := ?m\<rparr>"
      by (simp add: em_Push_def forActivity_def old)
    have keys: "fst ` set ?m = keys_of em" using set_entry_keys by (metis list.set_map)
    have e: "entry_ok (as @ [a]) (j, u)" if "(j, u) \<in> set ?m" for j u
      using set_entry_mem [OF that] M(5) v entry_ok_merge [of as a v] entry_ok_other [of as j u a] by auto
    show ?thesis
      using M(1-4,6) e v keys unfolding merged_def p by (force simp: image_iff)
  next
    case full
    then have "?k \<notin> keys_of em" by (simp add: map_of_eq_None_iff)
    moreover have "em_Push a em = em" using full M(1) by (simp add: em_Push_def forActivity_def)
    ultimately show ?thesis
      using M full(2) entry_ok_other [of as _ _ a] unfolding merged_def by force
  next
    case new
    then have k: "?k \<notin> keys_of em" by (simp add: map_of_eq_None_iff)
    have none: "\<forall>b \<in> set as. activity_key b \<noteq> ?k" using M(6) k new(2) by force
    let ?v = "a\<lparr>ac_files := Some []\<rparr>"
    let ?m = "em_m em @ [(?k, merge_into a ?v)]"
    have "set_entry ?k (merge_into a ?v) (em_m em @ [(?k, ?v)]) = ?m"
      using k by (rule set_entry_append)
    then have p: "em_Push a em = em\<lparr>em_ids := em_ids em @ [ac_ID a], em_m := ?m\<rparr>"
      using new M(1) by (simp add: em_Push_def forActivity_def Let_def)
    have ids: "filter (\<lambda>b. activity_key b \<in> fst ` set ?m) as = filter (\<lambda>b. activity_key b \<in> keys_of em) as"
      using none by (intro filter_cong) auto
    have e: "entry_ok (as @ [a]) (j, u)" if "(j, u) \<in> set ?m" for j u
      using that M(5) entry_ok_first [OF none] entry_ok_other [of as j u a] k by (force simp: image_iff)
    have known: "\<forall>b \<in> set as. activity_key b \<in> keys_of em" using M(6) new(2) by force
    show ?thesis
      using M(1-4) e k new(2) none ids known unfolding merged_def p by (auto simp: image_iff)
  qed
qed

lemma fold_Push_merged: "merged M as em \<Longrightarrow> merged M (as @ bs) (fold em_Push bs em)"
proof (induction bs arbitrary: as em)
  case (Cons b bs)
  from Cons.IH [OF em_Push_merged [OF Cons.prems]] show ?case by simp
qed simp

section \<open>What the jobs do\<close>

text \<open>\<open>U\<close> are all rows there are in the course of a job; a key belongs to one row, and the database returns rows it has.\<close>

definition rows_ok :: "cron_env \<Rightarrow> activity set \<Rightarrow> bool" where
  "rows_ok x U \<longleftrightarrow> (\<forall>n. set (cx_arrive x n) \<subseteq> U) \<and> (\<forall>a \<in> U. \<forall>b \<in> U. ac_ID a = ac_ID b \<longrightarrow> a = b) \<and>
     (\<forall>as. set (cx_order x as) \<subseteq> set as)"

definition has_row :: "activity set \<Rightarrow> activity \<Rightarrow> activity list list \<Rightarrow> cron_state \<Rightarrow> bool" where
  "has_row U a l s \<longleftrightarrow> set (cs_db s) \<subseteq> U \<and> a \<in> set (cs_db s) \<and> cs_sent s = l"

lemma db_query_rows:
  assumes "rows_ok x U" "\<And>db. set db \<subseteq> U \<Longrightarrow> P (f db)"
  shows "triple (has_row U a l) (db_query x f) (\<lambda>r s. has_row U a l s \<and> (\<forall>v. r = Inr v \<longrightarrow> P v))"
  using assms by (auto simp: triple_def db_query_def rows_ok_def has_row_def Let_def)

lemma fetch_rows:
  assumes "rows_ok x U"
  shows "triple (has_row U a l) (fetchRecords x off) (\<lambda>r s. has_row U a l s \<and> (\<forall>as. r = Inr as \<longrightarrow> set as \<subseteq> U))"
  unfolding fetchRecords_def
proof (rule db_query_rows [OF assms])
  fix db :: "activity list" assume "set db \<subseteq> U"
  moreover have "set (cx_order x (filter is_sftp db)) \<subseteq> set (filter is_sftp db)" using assms unfolding rows_ok_def by blast
  ultimately show "set (take (cx_max x) (drop off (cx_order x (filter is_sftp db)))) \<subseteq> U"
    by (auto dest!: in_set_takeD in_set_dropD)
qed

lemma fetch_pages_rows:
  "rows_ok x U \<Longrightarrow> merged M as0 em \<Longrightarrow> set as0 \<subseteq> U \<Longrightarrow> set as \<subseteq> U \<Longrightarrow>
    triple (has_row U a l) (fetch_pages n x off as em)
      (\<lambda>r s. has_row U a l s \<and> (\<forall>em'. r = Some (Inr em') \<longrightarrow> (\<exists>as'. merged M as' em' \<and> set as' \<subseteq> U)))"
proof (induction n x off as em arbitrary: as0 rule: fetch_pages.induct)
  case (2 n x off as em)
  let ?em = "fold em_Push as em"
  have m: "merged M (as0 @ as) ?em" by (rule fold_Push_merged [OF "2.prems"(2)])
  have all: "\<exists>as'. merged M as' ?em \<and> set as' \<subseteq> U" using m "2.prems" by (intro exI [of _ "as0 @ as"]) auto
  have next_page: "triple (\<lambda>s. has_row U a l s \<and> (\<forall>v. r = Inr v \<longrightarrow> set v \<subseteq> U))
      (case r of Inl e \<Rightarrow> ret (Some (Inl e)) | Inr as' \<Rightarrow> fetch_pages n x (off + length as') as' ?em)
      (\<lambda>r s. has_row U a l s \<and> (\<forall>em'. r = Some (Inr em') \<longrightarrow> (\<exists>as'. merged M as' em' \<and> set as' \<subseteq> U)))"
    if "as \<noteq> []" "length (em_ids em) < length (em_ids ?em)" for r
    using that "2.prems" m by (cases r) (auto intro!: triple_ret triple_pure "2.IH" simp del: fold_append)
  show ?case
    unfolding fetch_pages.simps Let_def
    by (intro triple_if triple_ret triple_bind [OF fetch_rows [OF "2.prems"(1)]] next_page)
       (use "2.prems" all in auto)
qed (simp add: triple_ret)

text \<open>Deleting removes only rows with the given identifiers.\<close>

abbreviation row_or_id :: "int set \<Rightarrow> activity \<Rightarrow> activity list list \<Rightarrow> cron_state \<Rightarrow> bool" where
  "row_or_id I a l \<equiv> \<lambda>s. (a \<in> set (cs_db s) \<or> ac_ID a \<in> I) \<and> cs_sent s = l"

lemma db_delete_rows: "set ids \<subseteq> I \<Longrightarrow> keeps (row_or_id I a l) (db_delete x ids)"
  unfolding db_delete_def
  by (intro keeps_bind triple_sum triple_ret triple_modify) (auto simp: triple_def db_query_def Let_def)

lemma delete_chunks_rows: "set ids \<subseteq> I \<Longrightarrow> keeps (row_or_id I a l) (delete_chunks x ids)"
proof (induction x ids rule: delete_chunks.induct)
  case (1 x ids)
  have "keeps (row_or_id I a l) (delete_chunks x (drop 32000 ids))" if "ids \<noteq> []"
    using 1 that by (auto dest: in_set_dropD)
  then show ?case
    by (subst delete_chunks.simps)
       (use 1 in \<open>auto intro!: triple_if triple_ret keeps_bind db_delete_rows triple_option dest: in_set_takeD\<close>)
qed

text \<open>A batch that was sent covers a record: its group has all files of the record.\<close>

definition covers :: "activity list \<Rightarrow> activity \<Rightarrow> bool" where
  "covers batch a \<longleftrightarrow> list_ex (\<lambda>v. ac_User v = ac_User a \<and> ac_Server v = ac_Server a \<and> ac_IP v = ac_IP a \<and> ac_Event v = ac_Event a \<and>
     ac_Timestamp v \<le> ac_Timestamp a \<and> ac_Timestamp v div 60 = ac_Timestamp a div 60 \<and>
     set (files_of a) \<subseteq> set (files_of v)) batch"

lemma merged_covers:
  assumes "merged M as em" "a \<in> set as" "activity_key a \<in> keys_of em"
  shows "covers (Elements em) a"
proof -
  obtain v where v: "(activity_key a, v) \<in> set (em_m em)" using assms(3) by auto
  then have e: "entry_ok as (activity_key a, v)" using assms(1) by (simp add: merged_def)
  then obtain b where b: "ac_Timestamp v = ac_Timestamp b" "activity_key b = activity_key a" by (auto simp: entry_ok_def)
  have "v \<in> set (Elements em)" using v by (force simp: Elements_def)
  moreover have "set (files_of a) \<subseteq> set (files_of v)" using e assms(2) by (auto simp: entry_ok_def files_of_def)
  moreover have "ac_Timestamp v \<le> ac_Timestamp a" using e assms(2) by (simp add: entry_ok_def)
  moreover have "ac_Timestamp v div 60 = ac_Timestamp a div 60" using b by (simp add: activity_key_def)
  ultimately show ?thesis
    using e unfolding covers_def list_ex_iff by (intro bexI [of _ v]) (auto simp: entry_ok_def activity_key_def)
qed

text \<open>A row is lost only when what was sent covers it.\<close>

definition accounted :: "activity \<Rightarrow> cron_state \<Rightarrow> bool" where
  "accounted a s \<longleftrightarrow> a \<in> set (cs_db s) \<or> (\<exists>batch \<in> set (cs_sent s). covers batch a)"

lemma has_row_accounted: "has_row U a l s \<Longrightarrow> accounted a s"
  by (simp add: has_row_def accounted_def)

lemma sftp_body_accounted:
  assumes "rows_ok x U" "a \<in> U"
  shows "triple (has_row U a l) (sftp_body n x) (\<lambda>_. accounted a)"
proof -
  have em: "triple (has_row U a l) (do {
      s \<leftarrow> SendActivityLogs x (Elements em);
      (case s of Some e \<Rightarrow> ret (Some (Some e)) | None \<Rightarrow> do { d \<leftarrow> delete_chunks x (em_ids em); ret (Some d) }) }) (\<lambda>_. accounted a)"
    if "merged M as em" "set as \<subseteq> U" for M as em
  proof -
    have cov: "covers (Elements em) a" if i: "ac_ID a \<in> set (em_ids em)"
    proof -
      have "em_ids em = map ac_ID (filter (\<lambda>a. activity_key a \<in> keys_of em) as)"
        using \<open>merged M as em\<close> by (simp add: merged_def)
      then obtain b where b: "b \<in> set as" "ac_ID b = ac_ID a" "activity_key b \<in> keys_of em"
        using i by force
      then have "b = a" using assms \<open>set as \<subseteq> U\<close> unfolding rows_ok_def by blast
      with b show ?thesis using merged_covers [OF \<open>merged M as em\<close>] by blast
    qed
    let ?J = "row_or_id (set (em_ids em)) a (l @ [Elements em])"
    have s: "triple (has_row U a l) (SendActivityLogs x (Elements em)) (\<lambda>r s. if r = None then ?J s else has_row U a l s)"
      by (auto simp: SendActivityLogs_def triple_def has_row_def)
    have d: "triple ?J (do { d \<leftarrow> delete_chunks x (em_ids em); ret (Some d) }) (\<lambda>_. accounted a)"
      by (rule triple_bind [OF delete_chunks_rows [OF order_refl]], rule triple_ret) (use cov in \<open>auto simp: accounted_def\<close>)
    show ?thesis
      by (rule triple_bind [OF s], rule triple_option) (use d has_row_accounted in \<open>auto intro!: triple_ret\<close>)
  qed
  note pages = triple_bind [OF fetch_pages_rows [OF assms(1) merged_empty]]
  show ?thesis
    unfolding sftp_body_def
    by (intro triple_bind [OF fetch_rows [OF assms(1)]] triple_pure triple_sum triple_ret pages triple_option triple_if)
       (auto intro: has_row_accounted em [THEN triple_pre])
qed

text \<open>The ordinary job sends the records as they are; one with an address that does not parse is dropped.\<close>

definition delivered :: "cron_env \<Rightarrow> activity \<Rightarrow> cron_state \<Rightarrow> bool" where
  "delivered x a s \<longleftrightarrow> a \<in> set (cs_db s) \<or> (\<exists>batch \<in> set (cs_sent s). a \<in> set batch) \<or> \<not> cx_ip x (ac_IP a)"

lemma activity_body_delivered:
  assumes "rows_ok x U" "a \<in> U"
  shows "triple (has_row U a l) (activity_body x) (\<lambda>_. delivered x a)"
proof -
  have keep: "has_row U a l s \<Longrightarrow> delivered x a s" for s by (simp add: has_row_def delivered_def)
  have same: "b = a" if "b \<in> U" "ac_ID b = ac_ID a" for b using assms that unfolding rows_ok_def by blast
  have q: "triple (has_row U a l) (db_query x (\<lambda>db. take (cx_max x) (filter (\<lambda>a. \<not> is_sftp a) db)))
     (\<lambda>r s. has_row U a l s \<and> (\<forall>as. r = Inr as \<longrightarrow> set as \<subseteq> U))"
    by (rule db_query_rows [OF assms(1)]) (auto dest!: in_set_takeD)
  let ?I = "\<lambda>s. set (cs_db s) \<subseteq> U \<and> (a \<in> set (cs_db s) \<or> \<not> cx_ip x (ac_IP a)) \<and> cs_sent s = l"
  have send: "triple ?I (do {
      p \<leftarrow> SendActivityLogs x as;
      (case p of Some e \<Rightarrow> ret (Some e) | None \<Rightarrow> delete_chunks x (map ac_ID as)) }) (\<lambda>_. delivered x a)"
    if "set as \<subseteq> U" for as
  proof -
    have s: "triple ?I (SendActivityLogs x as)
       (\<lambda>r s. if r = None then row_or_id (set (map ac_ID as) \<union> (if cx_ip x (ac_IP a) then {} else {ac_ID a})) a (l @ [as]) s else ?I s)"
      by (auto simp: SendActivityLogs_def triple_def)
    have d: "triple (row_or_id (set (map ac_ID as) \<union> (if cx_ip x (ac_IP a) then {} else {ac_ID a})) a (l @ [as])) (delete_chunks x (map ac_ID as)) (\<lambda>_. delivered x a)"
      by (rule triple_post [OF delete_chunks_rows]) (use same that in \<open>auto simp: delivered_def split: if_splits\<close>)
    show ?thesis
      by (rule triple_bind [OF s], rule triple_option) (use d in \<open>auto intro!: triple_ret simp: delivered_def\<close>)
  qed
  have del: "triple (has_row U a l) (if bad \<noteq> [] then db_delete x (map ac_ID bad) else ret None) (\<lambda>r. ?I)"
    if "bad = filter (\<lambda>a. \<not> cx_ip x (ac_IP a)) as" "set as \<subseteq> U" for bad as
  proof -
    have ids: "\<not> cx_ip x (ac_IP a)" if "ac_ID a \<in> set (map ac_ID bad)"
      using same that \<open>bad = _\<close> \<open>set as \<subseteq> U\<close> by auto
    have "triple (has_row U a l) (db_delete x (map ac_ID bad)) (\<lambda>r. ?I)"
      using assms(1) ids unfolding db_delete_def
      by (auto simp: triple_def db_query_def has_row_def rows_ok_def Let_def split: sum.splits)
    then show ?thesis by (auto intro!: triple_ret simp: has_row_def)
  qed
  show ?thesis
    unfolding activity_body_def Let_def
  proof (rule triple_bind [OF q], rule triple_pure, rule triple_sum)
    fix r :: "cron_error + activity list" and as assume r: "r = Inr as" and U: "\<forall>as. r = Inr as \<longrightarrow> set as \<subseteq> U"
    have "set (filter (\<lambda>a. cx_ip x (ac_IP a)) as) \<subseteq> U" using r U by auto
    note snd = send [OF this]
    show "triple (has_row U a l)
      (if as = [] then ret None
       else do {
         d \<leftarrow> (if filter (\<lambda>a. \<not> cx_ip x (ac_IP a)) as \<noteq> [] then db_delete x (map ac_ID (filter (\<lambda>a. \<not> cx_ip x (ac_IP a)) as)) else ret None);
         (case d of
            Some e \<Rightarrow> ret (Some e)
          | None \<Rightarrow>
              if filter (\<lambda>a. cx_ip x (ac_IP a)) as = [] then ret None
              else do {
                p \<leftarrow> SendActivityLogs x (filter (\<lambda>a. cx_ip x (ac_IP a)) as);
                (case p of Some e \<Rightarrow> ret (Some e) | None \<Rightarrow> delete_chunks x (map ac_ID (filter (\<lambda>a. cx_ip x (ac_IP a)) as))) }) })
      (\<lambda>_. delivered x a)"
      by (intro triple_if triple_ret triple_bind [OF del [OF refl]] triple_option snd)
         (use r U in \<open>auto simp: delivered_def has_row_def\<close>)
  qed (auto intro!: triple_ret keep)
qed

section \<open>The SFTP job ends\<close>

lemma fetch_steady:
  assumes "\<forall>n. cx_arrive x n = []" "\<forall>as. length (cx_order x as) = length as"
  shows "triple (\<lambda>s. cs_db s = db) (fetchRecords x off)
    (\<lambda>r s. cs_db s = db \<and> (\<forall>as. r = Inr as \<longrightarrow> length as \<le> length (filter is_sftp db) - off))"
  using assms by (auto simp: triple_def fetchRecords_def db_query_def Let_def)

lemma fetch_pages_end:
  assumes "\<forall>n. cx_arrive x n = []" "\<forall>as. length (cx_order x as) = length as"
  shows "(if as = [] then 1 else length (filter is_sftp db) - off + 2) \<le> n \<Longrightarrow>
    triple (\<lambda>s. cs_db s = db) (fetch_pages n x off as em) (\<lambda>r _. r \<noteq> None)"
proof (induction n arbitrary: off as em)
  case (Suc n)
  let ?em = "fold em_Push as em"
  have page: "triple (\<lambda>s. cs_db s = db) (case r of Inl e \<Rightarrow> ret (Some (Inl e)) | Inr as' \<Rightarrow> fetch_pages n x (off + length as') as' ?em) (\<lambda>r _. r \<noteq> None)"
    if "as \<noteq> []" "\<forall>as. r = Inr as \<longrightarrow> length as \<le> length (filter is_sftp db) - off" for r
  proof (cases r)
    case (Inr as')
    have "(if as' = [] then 1 else length (filter is_sftp db) - (off + length as') + 2) \<le> n"
      using that Suc.prems Inr by (auto simp: Suc_le_eq) (cases as', auto)
    then show ?thesis using Suc.IH Inr by simp
  qed (auto intro: triple_ret)
  show ?case
    unfolding fetch_pages.simps Let_def
    by (intro triple_if triple_ret triple_bind [OF fetch_steady [OF assms]] triple_pure page) auto
qed (auto split: if_splits)

lemma sftp_body_ends:
  assumes "\<forall>n. cx_arrive x n = []" "\<forall>as. length (cx_order x as) = length as" "length (filter is_sftp db) + 2 \<le> n"
  shows "triple (\<lambda>s. cs_db s = db) (sftp_body n x) (\<lambda>r _. r \<noteq> None)"
proof -
  have pages: "triple (\<lambda>s. cs_db s = db) (fetch_pages n x off as em) (\<lambda>r _. r \<noteq> None)" for off as em
    by (rule fetch_pages_end [OF assms(1,2)]) (use assms(3) in auto)
  have tail: "triple (\<lambda>_. True) (case s of Some e \<Rightarrow> ret (Some (Some e)) | None \<Rightarrow> do { d \<leftarrow> delete_chunks x ids; ret (Some d) }) (\<lambda>r _. r \<noteq> None)" for s ids
    by (intro triple_option triple_ret triple_bind [where R = "\<lambda>_ _. True"]) (auto simp: triple_def split_beta)
  show ?thesis
    unfolding sftp_body_def
  proof (rule triple_bind [OF fetch_steady [OF assms(1,2)]], rule triple_pure, rule triple_sum)
    fix r :: "cron_error + activity list" and as
    have send: "triple (\<lambda>_. True) (do { s \<leftarrow> SendActivityLogs x (Elements em);
        (case s of Some e \<Rightarrow> ret (Some (Some e)) | None \<Rightarrow> do { d \<leftarrow> delete_chunks x (em_ids em); ret (Some d) }) }) (\<lambda>r _. r \<noteq> None)" for em
      by (rule triple_bind [where R = "\<lambda>_ _. True"], simp add: triple_def split_beta) (rule tail)
    show "triple (\<lambda>s. cs_db s = db) (do {
        p \<leftarrow> fetch_pages n x (length as) as \<lparr>em_max = cx_max x, em_ids = [], em_m = []\<rparr>;
        (case p of
           None \<Rightarrow> ret None
         | Some (Inl e) \<Rightarrow> ret (Some (Some e))
         | Some (Inr em) \<Rightarrow>
             if em_m em = [] then ret (Some None)
             else do { s \<leftarrow> SendActivityLogs x (Elements em);
               (case s of Some e \<Rightarrow> ret (Some (Some e)) | None \<Rightarrow> do { d \<leftarrow> delete_chunks x (em_ids em); ret (Some d) }) }) })
      (\<lambda>r _. r \<noteq> None)"
      by (rule triple_bind [OF pages], intro triple_option triple_sum triple_if triple_ret triple_pre [OF send]) auto
  qed (auto intro: triple_ret)
qed

section \<open>Examples\<close>

definition upload_row :: "int \<Rightarrow> string \<Rightarrow> string \<Rightarrow> activity" where
  "upload_row i ev f = \<lparr>ac_ID = i, ac_User = ''u'', ac_Server = ''s'', ac_IP = ''::1'', ac_Event = ev, ac_files = Some [f], ac_Timestamp = 60 + i\<rparr>"

definition cron_example :: "(nat \<Rightarrow> activity list) \<Rightarrow> cron_env" where
  "cron_example arrive = \<lparr>cx_max = 1, cx_arrive = arrive, cx_fails = (\<lambda>_. False),
     cx_order = (\<lambda>as. filter (\<lambda>a. ac_Event a = ''server:sftp.write'') as @ filter (\<lambda>a. ac_Event a \<noteq> ''server:sftp.write'') as),
     cx_panel = True, cx_ip = (\<lambda>ip. ip \<noteq> [])\<rparr>"

definition cron_start :: "activity list \<Rightarrow> cron_state" where
  "cron_start db = \<lparr>cs_db = db, cs_queries = 0, cs_sent = [], cs_activity = NewAtomic False, cs_sftp = NewAtomic False\<rparr>"

lemma delete_chunks_few: "ids \<noteq> [] \<Longrightarrow> length ids \<le> 32000 \<Longrightarrow> delete_chunks x ids = db_delete x ids"
proof -
  assume ids: "ids \<noteq> []" "length ids \<le> 32000"
  have "(\<lambda>r. case r of Some e \<Rightarrow> ret (Some e) | None \<Rightarrow> ret None) = (ret :: cron_error option \<Rightarrow> (cron_state, _) state)"
    by (auto split: option.splits)
  moreover have "delete_chunks x [] = ret None" by (simp add: delete_chunks.simps)
  ultimately show ?thesis using ids by (subst delete_chunks.simps) simp
qed

lemmas cron_eval =
  sftp_Run_def sftp_body_def fetchRecords_def db_query_def db_delete_def SendActivityLogs_def delete_chunks_few em_Push_def forActivity_def
  merge_into_def activity_key_def Elements_def is_sftp_def cron_example_def cron_start_def upload_row_def SwapIf_def Store_def NewAtomic_def Let_def

text \<open>The pages are counted from the start of a result that grows: a row that arrives in between makes the job see another row twice.\<close>

lemma sftp_run_duplicates:
  "cs_sent (snd (run_state (sftp_Run (Suc (Suc (Suc (Suc 0)))) (cron_example (\<lambda>n. if n = 1 then [upload_row 2 ''server:sftp.write'' ''b''] else [])))
      (cron_start [upload_row 1 ''server:sftp.delete'' ''a'']))) =
     [[(upload_row 1 ''server:sftp.delete'' ''a'')\<lparr>ac_files := Some [''a'', ''a'']\<rparr>]]"
  by (simp add: cron_eval)

section \<open>Properties\<close>



text \<open>Merging SFTP records is grouping: there are at most as many groups as may be sent, a group has the files of exactly the
  records with its key, in their order, and the records marked for deletion are exactly those of the groups.\<close>

theorem sftp_merge_groups:
  "length (Elements (fold em_Push as \<lparr>em_max = M, em_ids = [], em_m = []\<rparr>)) \<le> M \<and>
   em_ids (fold em_Push as \<lparr>em_max = M, em_ids = [], em_m = []\<rparr>) =
     map ac_ID (filter (\<lambda>a. activity_key a \<in> keys_of (fold em_Push as \<lparr>em_max = M, em_ids = [], em_m = []\<rparr>)) as) \<and>
   list_all (\<lambda>(k, v). ac_files v = Some (concat (map files_of (filter (\<lambda>a. activity_key a = k) as))))
     (em_m (fold em_Push as \<lparr>em_max = M, em_ids = [], em_m = []\<rparr>))"
  using fold_Push_merged [OF merged_empty, of M as]
  by (auto simp: merged_def Elements_def entry_ok_def list_all_iff)

text \<open>When no rows arrive the SFTP job ends, after at most one page for each of its rows and one more.\<close>

theorem sftp_run_ends:
  assumes "\<forall>n. cx_arrive x n = []" "\<forall>as. length (cx_order x as) = length as" "length (filter is_sftp (cs_db s)) + 2 \<le> n"
  shows "fst (run_state (sftp_Run n x) s) \<noteq> None"
proof -
  obtain b t where sw: "SwapIf True (cs_sftp s) = (b, t)" by (rule prod.exhaust)
  have "fst (run_state (sftp_body n x) (s\<lparr>cs_sftp := t\<rparr>)) \<noteq> None"
    using sftp_body_ends [OF assms] by (simp add: triple_def split_beta)
  then show ?thesis by (simp add: sftp_Run_def sw split_beta)
qed

theorem sftp_run_ends_witness:
  "fst (run_state (sftp_Run 3 ((cron_example (\<lambda>_. []))\<lparr>cx_order := rev\<rparr>)) (cron_start [upload_row 1 ''server:sftp.delete'' ''a''])) \<noteq> None"
  by (rule sftp_run_ends) (simp_all add: cron_example_def cron_start_def upload_row_def is_sftp_def)

end
