(* ===== verification/Server_Manager.thy ===== *)
theory Server_Manager
  imports Server_Power Sink_Pool "HOL-Library.AList" "HOL-Library.Multiset"
begin

text \<open>
  The servers of a node: the contexts that end their background tasks, the bags of open connections
  (\<^verbatim>\<open>server/websockets.go\<close>, \<^verbatim>\<open>system/context_bag.go\<close>), the event bus (\<^verbatim>\<open>events/events.go\<close>), the manager
  (\<^verbatim>\<open>server/manager.go\<close>) and the restoring of the states at boot (\<^verbatim>\<open>cmd/root.go\<close>). Servers are shared by
  reference, so they live in a store and the manager keeps addresses. JSON, the panel and the process
  backends are parameters.
\<close>

section \<open>Contexts\<close>

text \<open>
  A context is the list of the numbers of itself and of the contexts it was derived from; the background
  context has none. It is done when one of them has been cancelled.
\<close>

type_synonym ctx_id = "nat list"

record contexts =
  next_ctx :: nat
  cancelled :: "nat list"

definition WithCancel :: "ctx_id \<Rightarrow> contexts \<Rightarrow> ctx_id \<times> contexts" where
  "WithCancel p cs = (next_ctx cs # p, cs\<lparr>next_ctx := Suc (next_ctx cs)\<rparr>)"

definition cancel_ctx :: "ctx_id \<Rightarrow> contexts \<Rightarrow> contexts" where
  "cancel_ctx c cs = (case c of [] \<Rightarrow> cs | n # _ \<Rightarrow> cs\<lparr>cancelled := n # cancelled cs\<rparr>)"

definition ctx_over :: "contexts \<Rightarrow> ctx_id \<Rightarrow> bool" where
  "ctx_over cs c = list_ex (\<lambda>n. n \<in> set (cancelled cs)) c"

section \<open>Connections\<close>

text \<open>Both bags are maps to contexts; a nil map and an empty one behave alike.\<close>

type_synonym bag = "(string \<times> ctx_id) list"

definition bag_Len :: "bag \<Rightarrow> nat" where
  "bag_Len b = length b"

definition bag_Push :: "string \<Rightarrow> ctx_id \<Rightarrow> bag \<Rightarrow> bag" where
  "bag_Push u c b = AList.update u c b"

definition bag_Remove :: "string \<Rightarrow> bag \<Rightarrow> bag" where
  "bag_Remove u b = AList.delete u b"

definition bag_CancelAll :: "bag \<Rightarrow> contexts \<Rightarrow> bag \<times> contexts" where
  "bag_CancelAll b cs = ([], fold (\<lambda>(_, c). cancel_ctx c) b cs)"

text \<open>The context bag of the SFTP sessions, for the context \<open>p\<close> of the server.\<close>

definition cb_Context :: "ctx_id \<Rightarrow> string \<Rightarrow> bag \<Rightarrow> contexts \<Rightarrow> ctx_id \<times> bag \<times> contexts" where
  "cb_Context p key b cs =
     (case map_of b key of
        Some c \<Rightarrow> (c, b, cs)
      | None \<Rightarrow> (case WithCancel p cs of (c, cs') \<Rightarrow> (c, AList.update key c b, cs')))"

definition cb_Cancel :: "string \<Rightarrow> bag \<Rightarrow> contexts \<Rightarrow> bag \<times> contexts" where
  "cb_Cancel key b cs =
     (case map_of b key of None \<Rightarrow> (b, cs) | Some c \<Rightarrow> (AList.delete key b, cancel_ctx c cs))"

definition cb_CancelAll :: "bag \<Rightarrow> contexts \<Rightarrow> bag \<times> contexts" where
  "cb_CancelAll b cs = ([], fold (\<lambda>(_, c). cancel_ctx c) b cs)"

section \<open>The event bus\<close>

text \<open>
  \<open>enc\<close> and \<open>dec\<close> are the JSON of an event, \<open>None\<close> when it fails; \<open>reader\<close> says which readers of the sinks
  take a value in time.
\<close>

definition event_topic :: "string \<Rightarrow> string" where
  "event_topic topic = (case IndexByte topic (CHR '':'') of None \<Rightarrow> topic | Some i \<Rightarrow> take i topic)"

definition Publish :: "(string \<times> 'd \<Rightarrow> bytes option) \<Rightarrow> (nat \<Rightarrow> bool) \<Rightarrow> string \<Rightarrow> 'd \<Rightarrow> pool \<Rightarrow> chan_store \<Rightarrow> chan_store outcome" where
  "Publish enc reader topic data p m =
     (case enc (event_topic topic, data) of
        None \<Rightarrow> Panic ''json''
      | Some bs \<Rightarrow> Push reader bs p m)"

definition DecodeTo :: "(bytes \<Rightarrow> (string \<times> 'd) option) \<Rightarrow> bytes \<Rightarrow> string + string \<times> 'd" where
  "DecodeTo dec bs = (case dec bs of None \<Rightarrow> Inl ''events: failed to decode byte slice'' | Some e \<Rightarrow> Inr e)"

definition MustDecode :: "(bytes \<Rightarrow> (string \<times> 'd) option) \<Rightarrow> bytes \<Rightarrow> (string \<times> 'd) outcome" where
  "MustDecode dec bs = (case DecodeTo dec bs of Inl e \<Rightarrow> Panic e | Inr e \<Rightarrow> Return e)"

section \<open>Servers and the manager\<close>

text \<open>
  A server with what its life cycle touches. \<open>m_stuck\<close> says that the mutex of the power lock was left locked
  by a panic: \<^verbatim>\<open>Destroy\<close> of the locker unlocks it without \<^verbatim>\<open>defer\<close>.
\<close>

record 'e managed =
  m_uuid :: string
  m_srv :: "'e server"
  m_ctx :: ctx_id
  m_emitter :: pool
  m_logSink :: pool
  m_installSink :: pool
  m_wsBag :: bag
  m_sftpBag :: bag
  m_stuck :: bool

text \<open>The store of servers, the manager's slice of them, and what they share.\<close>

record 'e node =
  n_store :: "'e managed list"
  n_servers :: "nat list"
  n_ctxs :: contexts
  n_chans :: chan_store
  n_states :: "bytes option"  \<comment> \<open>the file with the states\<close>

abbreviation server_ID :: "'e node \<Rightarrow> nat \<Rightarrow> string" where
  "server_ID n a \<equiv> m_uuid (n_store n ! a)"

definition manager_Len :: "'e node \<Rightarrow> nat" where
  "manager_Len n = length (n_servers n)"

definition Keys :: "'e node \<Rightarrow> string list" where
  "Keys n = map (server_ID n) (n_servers n)"

definition Put :: "nat list \<Rightarrow> 'e node \<Rightarrow> 'e node" where
  "Put s n = n\<lparr>n_servers := s\<rparr>"

definition All :: "'e node \<Rightarrow> nat list" where
  "All n = n_servers n"

definition manager_Add :: "nat \<Rightarrow> 'e node \<Rightarrow> 'e node" where
  "manager_Add s n = n\<lparr>n_servers := n_servers n @ [s]\<rparr>"

fun find_from :: "(nat \<Rightarrow> bool) \<Rightarrow> nat list \<Rightarrow> nat option" where
  "find_from f [] = None"
| "find_from f (v # vs) = (if f v then Some v else find_from f vs)"

definition Find :: "(nat \<Rightarrow> bool) \<Rightarrow> 'e node \<Rightarrow> nat option" where
  "Find f n = find_from f (n_servers n)"

definition manager_Get :: "string \<Rightarrow> 'e node \<Rightarrow> nat option" where
  "manager_Get uuid n = Find (\<lambda>s. server_ID n s = uuid) n"

definition manager_Filter :: "(nat \<Rightarrow> bool) \<Rightarrow> 'e node \<Rightarrow> nat list" where
  "manager_Filter f n = filter f (n_servers n)"

definition manager_Remove :: "(nat \<Rightarrow> bool) \<Rightarrow> 'e node \<Rightarrow> 'e node" where
  "manager_Remove f n = n\<lparr>n_servers := filter (\<lambda>v. \<not> f v) (n_servers n)\<rparr>"

subsection \<open>The states on disk\<close>

text \<open>
  \<open>enc\<close> and \<open>dec\<close> are the JSON of a map of strings, a map being given as the list of its entries; \<open>disk\<close> is the
  error of writing or opening the file. Decoding an empty file ends with \<^verbatim>\<open>io.EOF\<close>, which leaves the map nil.
\<close>

datatype states_error = DiskError string | DecodeFailed

type_synonym states = "(string \<times> string) list"

definition tracked_states :: "('e \<Rightarrow> pstate) \<Rightarrow> 'e node \<Rightarrow> states" where
  "tracked_states state n =
     fold (\<lambda>s. AList.update (server_ID n s) (state_name (state (environment (m_srv (n_store n ! s)))))) (All n) []"

definition PersistStates :: "(states \<Rightarrow> bytes) \<Rightarrow> ('e \<Rightarrow> pstate) \<Rightarrow> string option \<Rightarrow> 'e node \<Rightarrow> states_error option \<times> 'e node" where
  "PersistStates enc state disk n =
     (case disk of
        Some e \<Rightarrow> (Some (DiskError e), n)
      | None \<Rightarrow> (None, n\<lparr>n_states := Some (enc (tracked_states state n))\<rparr>))"

definition ReadStates :: "(bytes \<Rightarrow> states option) \<Rightarrow> string option \<Rightarrow> 'e node \<Rightarrow> (states_error + states) \<times> 'e node" where
  "ReadStates dec disk n =
     (case disk of
        Some e \<Rightarrow> (Inl (DiskError e), n)
      | None \<Rightarrow>
          (let bs = (case n_states n of None \<Rightarrow> [] | Some bs \<Rightarrow> bs);
               n' = n\<lparr>n_states := Some bs\<rparr>
           in case (if bs = [] then Some [] else dec bs) of
                None \<Rightarrow> (Inl DecodeFailed, n')
              | Some kvs \<Rightarrow> (Inr (filter (\<lambda>(uuid, _). manager_Get uuid n \<noteq> None) kvs), n')))"

subsection \<open>Creating servers\<close>

text \<open>
  What \<^verbatim>\<open>InitServer\<close> meets: the configuration, \<open>None\<close> when it does not parse, the error of opening the file
  system and the environment or the error of creating it.
\<close>

record 'e server_data =
  sd_config :: "(string \<times> settings) option"
  sd_fs :: "string option"
  sd_env :: "string + 'e"

datatype init_error = BadConfiguration | FsFailed string | EnvFailed string

definition server_New' :: "contexts \<Rightarrow> string \<Rightarrow> settings \<Rightarrow> 'e \<Rightarrow> 'e managed \<times> contexts" where
  "server_New' cs uuid c e =
     (case WithCancel [] cs of (x, cs') \<Rightarrow>
       (\<lparr>m_uuid = uuid, m_srv = server_New c e, m_ctx = x, m_emitter = NewSinkPool, m_logSink = NewSinkPool,
         m_installSink = NewSinkPool, m_wsBag = [], m_sftpBag = [], m_stuck = False\<rparr>, cs'))"

definition InitServer :: "'e server_data \<Rightarrow> 'e node \<Rightarrow> (init_error + nat) \<times> 'e node" where
  "InitServer d n =
     (case sd_config d of
        None \<Rightarrow> (Inl BadConfiguration, n)
      | Some (uuid, c) \<Rightarrow>
          (case sd_fs d of
             Some e \<Rightarrow> (Inl (FsFailed e), n)
           | None \<Rightarrow>
               (case sd_env d of
                  Inl e \<Rightarrow> (Inl (EnvFailed e), n)
                | Inr env \<Rightarrow>
                    (case server_New' (n_ctxs n) uuid c env of (s, cs) \<Rightarrow>
                       (Inr (length (n_store n)), n\<lparr>n_store := n_store n @ [s], n_ctxs := cs\<rparr>)))))"

text \<open>
  One task of the worker pool; \<open>parses\<close> says whether the process configuration is JSON. The pool runs the
  tasks in the order \<open>sched\<close>, a list of positions.
\<close>

definition load_one :: "bool \<times> 'e server_data \<Rightarrow> 'e node \<Rightarrow> 'e node" where
  "load_one t n =
     (case t of (parses, d) \<Rightarrow>
       if \<not> parses then n
       else (case InitServer d n of (Inl _, n') \<Rightarrow> n' | (Inr s, n') \<Rightarrow> manager_Add s n'))"

definition manager_init :: "string + (bool \<times> 'e server_data) list \<Rightarrow> nat list \<Rightarrow> 'e node \<Rightarrow> string option \<times> 'e node" where
  "manager_init servers sched n =
     (case servers of
        Inl e \<Rightarrow> (Some e, n)
      | Inr ds \<Rightarrow> (None, fold load_one (map (\<lambda>i. ds ! i) sched) n))"

definition empty_node :: "bytes option \<Rightarrow> 'e node" where
  "empty_node states = \<lparr>n_store = [], n_servers = [], n_ctxs = \<lparr>next_ctx = 0, cancelled = []\<rparr>,
     n_chans = Map.empty, n_states = states\<rparr>"

definition NewManager :: "bytes option \<Rightarrow> string + (bool \<times> 'e server_data) list \<Rightarrow> nat list \<Rightarrow> string + 'e node" where
  "NewManager states servers sched =
     (case manager_init servers sched (empty_node states) of (Some e, _) \<Rightarrow> Inl e | (None, n) \<Rightarrow> Inr n)"

section \<open>Boot\<close>

text \<open>What the daemon asks of a process environment outside of the power actions.\<close>

record ('e, 'x) platform =
  pf_backend :: "('e, 'x) backend"
  pf_create :: "('e, 'x option) state"
  pf_is_running :: "('e, 'x + bool) state"
  pf_set_state :: "pstate \<Rightarrow> ('e, unit) state"
  pf_attach :: "('e, 'x option) state"
  pf_destroy :: "('e, 'x option) state"
  pf_send :: "string \<Rightarrow> ('e, 'x option) state"

definition IsRunning :: "('e, 'x) backend \<Rightarrow> 'e server \<Rightarrow> bool" where
  "IsRunning b s = live (b_state b (environment s))"

text \<open>The data directory, and the result of creating it; a failure to change its owner is only logged.\<close>

datatype lstat_reply = DirPresent | DirAbsent | LstatFailed string

definition EnsureDataDirectoryExists :: "lstat_reply \<Rightarrow> string option \<Rightarrow> string option" where
  "EnsureDataDirectoryExists lstat mkdir =
     (case lstat of DirPresent \<Rightarrow> None | DirAbsent \<Rightarrow> mkdir | LstatFailed e \<Rightarrow> Some e)"

text \<open>\<open>machine\<close> is the result of writing the machine id, where that is enabled.\<close>

record create_reply =
  cr_lstat :: lstat_reply
  cr_mkdir :: "string option"
  cr_machine :: "string option option"

definition CreateEnvironment :: "('e, 'x) platform \<Rightarrow> create_reply \<Rightarrow> ('e server, bool) state" where
  "CreateEnvironment pf c =
     (if EnsureDataDirectoryExists (cr_lstat c) (cr_mkdir c) \<noteq> None then ret False
      else case cr_machine c of
             Some (Some _) \<Rightarrow> ret False
           | _ \<Rightarrow> do { r \<leftarrow> in_env (pf_create pf); ret (r = None) })"

text \<open>The task of the pool at boot, with the state that was saved.\<close>

definition restore_state :: "('e, 'x) platform \<Rightarrow> world_reply \<Rightarrow> world_reply \<Rightarrow> states \<Rightarrow> string \<Rightarrow> ('e server, 'x power_result option) state" where
  "restore_state pf w w' states uuid = do {
     let st = (case map_of states uuid of Some state \<Rightarrow> state | None \<Rightarrow> []);
     a \<leftarrow> in_env (pf_is_running pf);
     let r = (case a of Inl _ \<Rightarrow> False | Inr r \<Rightarrow> r);
     s \<leftarrow> read_st id;
     p \<leftarrow> (if \<not> r \<and> (st = state_name Running \<or> st = state_name Starting)
          then do {
            p \<leftarrow> State (HandlePowerAction (pf_backend pf) w CtxLive 0 [] PowerActionStart);
            ret (Some p)
          }
          else if r \<or> IsRunning (pf_backend pf) s
          then do { in_env (pf_set_state pf Running); _ \<leftarrow> in_env (pf_attach pf); ret None }
          else do { in_env (pf_set_state pf Offline); ret None });
     s' \<leftarrow> read_st id;
     if IsRunning (pf_backend pf) s' then do { _ \<leftarrow> Sync (pf_backend pf) w'; ret p } else ret p
   }"

definition boot_one :: "('e, 'x) platform \<Rightarrow> world_reply \<Rightarrow> world_reply \<Rightarrow> create_reply \<Rightarrow> states \<Rightarrow> string \<Rightarrow> ('e server, 'x power_result option) state" where
  "boot_one pf w w' c states uuid = do {
     ok \<leftarrow> CreateEnvironment pf c;
     if \<not> ok then ret None else restore_state pf w w' states uuid
   }"

section \<open>Cancelled contexts\<close>

lemma ctx_over_cancel: "c \<noteq> [] \<Longrightarrow> ctx_over (cancel_ctx c cs) c"
  by (cases c) (simp_all add: ctx_over_def cancel_ctx_def)

lemma ctx_over_mono: "ctx_over cs d \<Longrightarrow> ctx_over (cancel_ctx c cs) d"
  by (cases c) (auto simp: ctx_over_def cancel_ctx_def list_ex_iff)

lemma ctx_over_derived: "ctx_over cs p \<Longrightarrow> ctx_over cs (cs' @ p)"
  by (auto simp: ctx_over_def list_ex_iff)

lemma cancel_all_mono: "ctx_over cs d \<Longrightarrow> ctx_over (fold (\<lambda>(_, c). cancel_ctx c) b cs) d"
  by (induction b arbitrary: cs) (auto intro: ctx_over_mono)

lemma cancel_all_over: "(k, c) \<in> set b \<Longrightarrow> c \<noteq> [] \<Longrightarrow> ctx_over (fold (\<lambda>(_, c). cancel_ctx c) b cs) c"
  by (induction b arbitrary: cs) (auto intro: cancel_all_mono ctx_over_cancel)

section \<open>The manager is a collection\<close>

lemma find_from_Some: "find_from f vs = Some v \<Longrightarrow> v \<in> set vs \<and> f v"
  by (induction vs) (auto split: if_splits)

lemma find_from_None: "find_from f vs = None \<longleftrightarrow> (\<forall>v \<in> set vs. \<not> f v)"
  by (induction vs) auto

lemma manager_Get_Some: "manager_Get u n = Some a \<Longrightarrow> a \<in> set (n_servers n) \<and> server_ID n a = u"
  by (auto simp: manager_Get_def Find_def dest: find_from_Some)

lemma manager_Get_None: "manager_Get u n = None \<longleftrightarrow> u \<notin> set (Keys n)"
  by (auto simp: manager_Get_def Find_def find_from_None Keys_def)

lemma manager_Get_unique:
  assumes "distinct (Keys n)" "a \<in> set (n_servers n)"
  shows "manager_Get (server_ID n a) n = Some a"
proof -
  have "manager_Get (server_ID n a) n \<noteq> None" using assms(2) by (auto simp: manager_Get_None Keys_def)
  then obtain b where b: "manager_Get (server_ID n a) n = Some b" by blast
  moreover have "inj_on (server_ID n) (set (n_servers n))" using assms(1) by (simp add: Keys_def distinct_map)
  ultimately show ?thesis using manager_Get_Some [OF b] assms(2) by (auto dest: inj_onD)
qed

lemma Keys_Remove: "Keys (manager_Remove (\<lambda>s. server_ID n s = u) n) = filter (\<lambda>k. k \<noteq> u) (Keys n)"
  by (simp add: Keys_def manager_Remove_def filter_map o_def)

section \<open>Saved states\<close>

lemma map_of_fold_update:
  "map_of (fold (\<lambda>s. AList.update (k s) (v s)) xs m) u =
     (case map_of (rev (map (\<lambda>s. (k s, v s)) xs)) u of Some x \<Rightarrow> Some x | None \<Rightarrow> map_of m u)"
  by (induction xs arbitrary: m) (auto simp: map_add_def update_conv' split: option.splits)

lemma tracked_of:
  assumes "distinct (Keys n)"
  shows "map_of (tracked_states state n) u =
    map_option (\<lambda>a. state_name (state (environment (m_srv (n_store n ! a))))) (manager_Get u n)"
proof -
  let ?v = "\<lambda>a. state_name (state (environment (m_srv (n_store n ! a))))"
  let ?l = "rev (map (\<lambda>s. (server_ID n s, ?v s)) (n_servers n))"
  have "map fst ?l = rev (Keys n)" by (simp add: Keys_def rev_map)
  then have d: "distinct (map fst ?l)" using assms by (metis distinct_rev)
  have "map_of ?l u = map_option ?v (manager_Get u n)"
  proof (cases "manager_Get u n")
    case None
    then have "u \<notin> fst ` set ?l" by (auto simp: manager_Get_None Keys_def)
    then have "map_of ?l u = None" by (simp only: map_of_eq_None_iff not_False_eq_True)
    then show ?thesis using None by simp
  next
    case (Some a)
    then have "(u, ?v a) \<in> set ?l" using manager_Get_Some [OF Some] by force
    then show ?thesis using Some d by simp
  qed
  then show ?thesis by (simp add: tracked_states_def All_def map_of_fold_update split: option.splits)
qed

lemma map_of_filter_keys: "map_of (filter (\<lambda>(k, _). P k) kvs) u = (if P u then map_of kvs u else None)"
  by (induction kvs) auto

text \<open>What decoding promises about encoding.\<close>

definition codec_ok :: "(states \<Rightarrow> bytes) \<Rightarrow> (bytes \<Rightarrow> states option) \<Rightarrow> bool" where
  "codec_ok enc dec \<longleftrightarrow> (\<forall>kvs. enc kvs \<noteq> [] \<and> dec (enc kvs) = Some kvs)"

lemma ReadStates_saved:
  assumes "codec_ok enc dec" "n_states n = n_states (snd (PersistStates enc state None n0))"
  shows "fst (ReadStates dec None n) = Inr (filter (\<lambda>(uuid, _). manager_Get uuid n \<noteq> None) (tracked_states state n0))"
  using assms by (simp add: codec_ok_def ReadStates_def PersistStates_def Let_def)

section \<open>Loading the servers\<close>

definition node_wf :: "'e node \<Rightarrow> bool" where
  "node_wf n \<longleftrightarrow> list_all (\<lambda>a. a < length (n_store n)) (n_servers n)"

text \<open>The identifier of a server that loads.\<close>

definition loadable :: "bool \<times> 'e server_data \<Rightarrow> string option" where
  "loadable t = (case t of (parses, d) \<Rightarrow>
     if parses \<and> sd_fs d = None \<and> \<not> isl (sd_env d) then map_option fst (sd_config d) else None)"

text \<open>A server as it is created.\<close>

definition fresh_server :: "'e managed \<Rightarrow> bool" where
  "fresh_server s \<longleftrightarrow> (\<exists>c e. m_srv s = server_New c e) \<and> \<not> m_stuck s \<and> m_wsBag s = [] \<and> m_sftpBag s = []"

lemma Keys_append:
  assumes "node_wf n"
  shows "Keys (n\<lparr>n_store := n_store n @ l, n_ctxs := c\<rparr>) = Keys n"
  using assms by (auto simp: Keys_def node_wf_def list_all_iff nth_append)

text \<open>After the servers \<open>us\<close> have been loaded.\<close>

definition loaded :: "bytes option \<Rightarrow> string list \<Rightarrow> 'e node \<Rightarrow> bool" where
  "loaded states us n \<longleftrightarrow> node_wf n \<and> Keys n = us \<and> n_states n = states \<and> list_all fresh_server (n_store n)"

lemma loaded_one:
  assumes "loaded f us n"
  shows "loaded f (us @ (case loadable t of None \<Rightarrow> [] | Some u \<Rightarrow> [u])) (load_one t n)"
proof (cases "loadable t")
  case None
  then have "load_one t n = n"
    by (auto simp: load_one_def loadable_def InitServer_def isl_def split: prod.splits option.splits sum.splits if_splits)
  then show ?thesis using assms None by simp
next
  case (Some u)
  then obtain d c e where t: "t = (True, d)" "sd_config d = Some (u, c)" "sd_fs d = None" "sd_env d = Inr e"
    by (cases "sd_env (snd t)") (auto simp: loadable_def split: prod.splits if_splits)
  let ?new = "fst (server_New' (n_ctxs n) u c e)"
  have new: "load_one t n = manager_Add (length (n_store n)) (n\<lparr>n_store := n_store n @ [?new], n_ctxs := snd (server_New' (n_ctxs n) u c e)\<rparr>)"
    by (simp add: load_one_def InitServer_def t split_beta)
  have "m_uuid ?new = u" "fresh_server ?new"
    by (auto simp: server_New'_def WithCancel_def fresh_server_def)
  moreover have "map (\<lambda>a. m_uuid ((n_store n @ [?new]) ! a)) (n_servers n) = us"
    using assms by (auto simp: loaded_def node_wf_def Keys_def list_all_iff nth_append)
  ultimately show ?thesis
    using assms Some unfolding new loaded_def
    by (auto simp: manager_Add_def Keys_def node_wf_def list_all_iff)
qed

lemma loaded_all:
  "loaded f us n \<Longrightarrow> loaded f (us @ List.map_filter loadable ts) (fold load_one ts n)"
proof (induction ts arbitrary: us n)
  case (Cons t ts)
  from Cons.IH [OF loaded_one [OF Cons.prems, of t]] show ?case
    by (simp add: map_filter_simps split: option.splits)
qed (simp add: map_filter_simps)

lemma NewManager_loaded:
  assumes "NewManager f (Inr ds) sched = Inr n"
  shows "loaded f (List.map_filter loadable (map (\<lambda>i. ds ! i) sched)) n"
proof -
  have "loaded f [] (empty_node f)" by (simp add: loaded_def empty_node_def node_wf_def Keys_def)
  from loaded_all [OF this, of "map (\<lambda>i. ds ! i) sched"] assms show ?thesis by (simp add: NewManager_def manager_init_def)
qed

lemma mset_map_filter: "mset (List.map_filter f xs) = image_mset (\<lambda>x. the (f x)) (filter_mset (\<lambda>x. f x \<noteq> None) (mset xs))"
  by (induction xs) (auto simp: map_filter_simps split: option.splits)

text \<open>
  Whatever the order in which the worker pool takes them, starting the daemon loads exactly the servers of
  the panel whose configuration parses and whose file system and environment come up; a broken one is left out and does
  not stop the others.
\<close>

theorem boot_loads_servers:
  assumes "mset sched = mset [0..<length ds]"
  shows "\<exists>n. NewManager f (Inr ds) sched = Inr n \<and> mset (Keys n) = mset (List.map_filter loadable ds)"
proof -
  obtain n where n: "NewManager f (Inr ds) sched = Inr n" by (simp add: NewManager_def manager_init_def)
  have "mset (map (\<lambda>i. ds ! i) sched) = mset (map (\<lambda>i. ds ! i) [0..<length ds])" using assms by (metis mset_map)
  then have "mset (map (\<lambda>i. ds ! i) sched) = mset ds" by (simp add: map_nth)
  then show ?thesis using n NewManager_loaded [OF n] by (auto simp: loaded_def mset_map_filter)
qed

definition boot_data :: "(bool \<times> env_cell server_data) list" where
  "boot_data = [(True, \<lparr>sd_config = Some (''a'', simple_settings), sd_fs = None, sd_env = Inr \<lparr>st = Offline, published = []\<rparr>\<rparr>),
     (False, \<lparr>sd_config = Some (''b'', simple_settings), sd_fs = None, sd_env = Inr \<lparr>st = Offline, published = []\<rparr>\<rparr>),
     (True, \<lparr>sd_config = Some (''c'', simple_settings), sd_fs = None, sd_env = Inr \<lparr>st = Offline, published = []\<rparr>\<rparr>)]"

theorem boot_loads_servers_witness:
  "\<exists>n. NewManager None (Inr boot_data) [2, 0, 1] = Inr n \<and> mset (Keys n) = {#''a'', ''c''#}"
proof -
  have "mset [2, 0, 1] = mset [0..<length boot_data]" by (simp add: boot_data_def)
  from boot_loads_servers [OF this, of None] show ?thesis
    by (simp add: boot_data_def map_filter_simps loadable_def)
qed

section \<open>A running server comes back\<close>

lemma fresh_idle: "fresh_server s \<Longrightarrow> busy_error (m_srv s) = None"
  by (auto simp: fresh_server_def server_New_def busy_error_def NewAtomic_def Load_def)

lemma boot_server_starts:
  assumes "DidStart \<notin> set (log s)"
  shows "DidStart \<in> set (log (snd (run_state (boot_server b w) s))) \<longleftrightarrow> may_boot w"
proof (cases "run_state (onBeforeStart b w) s")
  case (Pair r s')
  have "DidStart \<notin> set (log s')" using onBeforeStart_never_starts [of b w s] Pair assms by auto
  moreover have "(r = None) = may_boot w" using onBeforeStart_result [of b w s] Pair by simp
  ultimately show ?thesis
    using Pair by (auto simp: boot_server_def emit_def in_env_def split: option.splits prod.splits)
qed

lemma Sync_starts: "DidStart \<in> set (log (snd (run_state (Sync b w) s))) \<longleftrightarrow> DidStart \<in> set (log s)"
  by (auto simp: Sync_def SyncWithEnvironment_def emit_def if_st_def split: sync_reply.splits)

lemma start_fresh:
  assumes "fresh_server s" "b_state b e = Offline"
  shows "DidStart \<in> set (log (snd (HandlePowerAction b w CtxLive 0 [] PowerActionStart ((m_srv s)\<lparr>environment := e\<rparr>)))) \<longleftrightarrow> may_boot w"
proof -
  obtain c e0 where s: "m_srv s = server_New c e0" using assms(1) by (auto simp: fresh_server_def)
  obtain lk where lk: "Acquire NewLocker = Return (None, lk)" using Acquire_cases [OF NewLocker_inv] by auto
  let ?s = "(m_srv s)\<lparr>environment := e, powerLock := lk\<rparr>"
  have "DidStart \<notin> set (log ?s)" by (simp add: s server_New_def)
  from boot_server_starts [OF this, of b w] show ?thesis
    using assms lk fresh_idle [OF assms(1)]
    by (auto simp: s server_New_def HandlePowerAction_def locked_run_def run_action_def busy_error_def split: prod.splits)
qed


text \<open>A coding of the states, for examples: every string ends with a bar, and bars in it are escaped.\<close>

definition bar_quote :: "string \<Rightarrow> string" where
  "bar_quote s = concat (map (\<lambda>c. if c = CHR ''|'' \<or> c = CHR ''%'' then [CHR ''%'', c] else [c]) s) @ ''|''"

fun bar_unquote :: "string \<Rightarrow> string \<Rightarrow> (string \<times> string) option" where
  "bar_unquote acc [] = None"
| "bar_unquote acc (c # cs) =
     (if c = CHR ''|'' then Some (rev acc, cs)
      else if c = CHR ''%'' then (case cs of [] \<Rightarrow> None | d # ds \<Rightarrow> bar_unquote (d # acc) ds)
      else bar_unquote (c # acc) cs)"

lemma bar_unquote_quote: "bar_unquote acc (bar_quote s @ r) = Some (rev acc @ s, r)"
  by (induction s arbitrary: acc) (auto simp: bar_quote_def)

definition bar_enc :: "states \<Rightarrow> bytes" where
  "bar_enc kvs = CHR ''{'' # concat (map (\<lambda>(k, v). bar_quote k @ bar_quote v) kvs)"

fun bar_entries :: "nat \<Rightarrow> string \<Rightarrow> states option" where
  "bar_entries 0 cs = None"
| "bar_entries (Suc m) cs =
     (if cs = [] then Some []
      else case bar_unquote [] cs of
             None \<Rightarrow> None
           | Some (k, cs') \<Rightarrow>
               (case bar_unquote [] cs' of
                  None \<Rightarrow> None
                | Some (v, cs'') \<Rightarrow> map_option (\<lambda>kvs. (k, v) # kvs) (bar_entries m cs'')))"

definition bar_dec :: "bytes \<Rightarrow> states option" where
  "bar_dec bs = bar_entries (length bs) (tl bs)"

lemma bar_quote_length: "0 < length (bar_quote s)"
  by (simp add: bar_quote_def)

lemma bar_entries_enc:
  "length (concat (map (\<lambda>(k, v). bar_quote k @ bar_quote v) kvs)) < m \<Longrightarrow>
     bar_entries m (concat (map (\<lambda>(k, v). bar_quote k @ bar_quote v) kvs)) = Some kvs"
proof (induction kvs arbitrary: m)
  case Nil
  then show ?case by (cases m) auto
next
  case (Cons kv kvs)
  obtain k v where kv: "kv = (k, v)" by force
  obtain m' where m: "m = Suc m'" using Cons.prems by (cases m) auto
  have ne: "bar_quote k \<noteq> []" using bar_quote_length [of k] by auto
  have "length (concat (map (\<lambda>(k, v). bar_quote k @ bar_quote v) kvs)) < m'"
    using Cons.prems bar_quote_length [of k] bar_quote_length [of v] by (auto simp: kv m simp del: length_greater_0_conv)
  from Cons.IH [OF this] show ?case by (simp add: kv m ne bar_unquote_quote)
qed

lemma bar_codec: "codec_ok bar_enc bar_dec"
  using bar_entries_enc by (simp add: codec_ok_def bar_dec_def bar_enc_def del: bar_entries.simps)

definition simple_platform :: "(env_cell, string) platform" where
  "simple_platform = \<lparr>pf_backend = simple_backend, pf_create = ret None, pf_is_running = ret (Inr False), pf_set_state = enter_state,
     pf_attach = ret None, pf_destroy = ret None, pf_send = (\<lambda>_. ret None)\<rparr>"

definition old_node :: "env_cell node" where
  "old_node = manager_Add 0 ((empty_node None)\<lparr>n_store := [fst (server_New' \<lparr>next_ctx = 0, cancelled = []\<rparr> ''a'' simple_settings \<lparr>st = Running, published = []\<rparr>)]\<rparr>)"


end
