(* ===== verification/Server_Requests.thy ===== *)
theory Server_Requests
  imports Server_Manager Backends Access_Tokens Net_Guard Installation
begin

text \<open>
  The HTTP requests on servers and on the node: \<^verbatim>\<open>router/router_server.go\<close>, \<^verbatim>\<open>router/router_system.go\<close> and
  \<^verbatim>\<open>server/installer\<close>, with the cleaning up of a server that is deleted. A request gets its parsed body,
  \<open>None\<close> when it does not parse (the framework then answers 400); goroutines that a handler starts are
  put on a list of jobs, and a job is run by itself.
\<close>

section \<open>State and answers\<close>

datatype job =
  PowerJob nat string int | InstallJob nat | ReinstallJob nat | RemoveFilesJob nat | CreateJob nat bool

record 'e web_node =
  wn_node :: "'e node"
  wn_denials :: denials
  wn_downloads :: downloader
  wn_jobs :: "job list"

text \<open>A status, an error left to the middleware, a panic that the framework recovers, or a handler that never ends.\<close>

datatype 'x answer = Status nat | Aborted 'x | Recovered string | Hangs

text \<open>Steps of a handler; one that answers ends it.\<close>

type_synonym ('e, 'x) step = "('e web_node, 'x answer option) state"

definition and_then :: "('s, 'a option) state \<Rightarrow> ('s, 'a option) state \<Rightarrow> ('s, 'a option) state" where
  "and_then m k = do { r \<leftarrow> m; (case r of Some x \<Rightarrow> ret (Some x) | None \<Rightarrow> k) }"

definition quietly :: "('s \<Rightarrow> 's) \<Rightarrow> ('s, 'a option) state" where
  "quietly f = do { modify_st f; ret None }"

abbreviation answer :: "'x answer \<Rightarrow> ('s, 'x answer option) state" where
  "answer a \<equiv> ret (Some a)"

abbreviation at_server :: "'e web_node \<Rightarrow> nat \<Rightarrow> 'e managed" where
  "at_server wn a \<equiv> n_store (wn_node wn) ! a"

definition upd_server :: "nat \<Rightarrow> ('e managed \<Rightarrow> 'e managed) \<Rightarrow> 'e web_node \<Rightarrow> 'e web_node" where
  "upd_server a f wn = wn\<lparr>wn_node := (wn_node wn)\<lparr>n_store := (n_store (wn_node wn))[a := f (at_server wn a)]\<rparr>\<rparr>"

definition upd_ctxs :: "(contexts \<Rightarrow> contexts) \<Rightarrow> 'e web_node \<Rightarrow> 'e web_node" where
  "upd_ctxs f wn = wn\<lparr>wn_node := (wn_node wn)\<lparr>n_ctxs := f (n_ctxs (wn_node wn))\<rparr>\<rparr>"

definition on_server :: "nat \<Rightarrow> ('e server, 'r) state \<Rightarrow> ('e web_node, 'r) state" where
  "on_server a m = State (\<lambda>wn. case run_state m (m_srv (at_server wn a)) of (r, s) \<Rightarrow>
     (r, upd_server a (\<lambda>x. x\<lparr>m_srv := s\<rparr>) wn))"

definition spawn :: "job \<Rightarrow> 'e web_node \<Rightarrow> 'e web_node" where
  "spawn j wn = wn\<lparr>wn_jobs := wn_jobs wn @ [j]\<rparr>"

section \<open>Deleting a server\<close>

definition publish_event :: "(string \<times> string option \<Rightarrow> bytes option) \<Rightarrow> (nat \<Rightarrow> bool) \<Rightarrow> nat \<Rightarrow> string \<Rightarrow> string option \<Rightarrow> ('e, 'x) step" where
  "publish_event enc reader a topic data = State (\<lambda>wn.
     case Publish enc reader topic data (m_emitter (at_server wn a)) (n_chans (wn_node wn)) of
       Panic m \<Rightarrow> (Some (Recovered m), wn)
     | Return chs \<Rightarrow> (None, wn\<lparr>wn_node := (wn_node wn)\<lparr>n_chans := chs\<rparr>\<rparr>))"

definition destroy_pool :: "nat \<Rightarrow> ('e managed \<Rightarrow> pool) \<Rightarrow> (pool \<Rightarrow> 'e managed \<Rightarrow> 'e managed) \<Rightarrow> ('e, 'x) step" where
  "destroy_pool a get put = State (\<lambda>wn.
     case Destroy_pool (get (at_server wn a)) (n_chans (wn_node wn)) of
       Panic m \<Rightarrow> (Some (Recovered m), wn)
     | Return (p, chs) \<Rightarrow> (None, upd_server a (put p) (wn\<lparr>wn_node := (wn_node wn)\<lparr>n_chans := chs\<rparr>\<rparr>)))"

text \<open>The sinks are kept in a map; the two pools share no channel, so the order does not matter.\<close>

definition DestroyAllSinks :: "nat \<Rightarrow> ('e, 'x) step" where
  "DestroyAllSinks a =
     and_then (destroy_pool a m_logSink (\<lambda>p s. s\<lparr>m_logSink := p\<rparr>))
              (destroy_pool a m_installSink (\<lambda>p s. s\<lparr>m_installSink := p\<rparr>))"

definition CtxCancel :: "nat \<Rightarrow> 'e web_node \<Rightarrow> 'e web_node" where
  "CtxCancel a wn = upd_ctxs (cancel_ctx (m_ctx (at_server wn a))) wn"

definition cancel_sockets :: "nat \<Rightarrow> 'e web_node \<Rightarrow> 'e web_node" where
  "cancel_sockets a wn =
     (case bag_CancelAll (m_wsBag (at_server wn a)) (n_ctxs (wn_node wn)) of (b, cs) \<Rightarrow>
       upd_server a (\<lambda>s. s\<lparr>m_wsBag := b\<rparr>) (upd_ctxs (\<lambda>_. cs) wn))"

definition cancel_sftp :: "nat \<Rightarrow> 'e web_node \<Rightarrow> 'e web_node" where
  "cancel_sftp a wn =
     (case cb_CancelAll (m_sftpBag (at_server wn a)) (n_ctxs (wn_node wn)) of (b, cs) \<Rightarrow>
       upd_server a (\<lambda>s. s\<lparr>m_sftpBag := b\<rparr>) (upd_ctxs (\<lambda>_. cs) wn))"

definition cancel_sftp_user :: "string \<Rightarrow> nat \<Rightarrow> 'e web_node \<Rightarrow> 'e web_node" where
  "cancel_sftp_user user a wn =
     (case cb_Cancel user (m_sftpBag (at_server wn a)) (n_ctxs (wn_node wn)) of (b, cs) \<Rightarrow>
       upd_server a (\<lambda>s. s\<lparr>m_sftpBag := b\<rparr>) (upd_ctxs (\<lambda>_. cs) wn))"

text \<open>The end of the power lock; a panic inside leaves its mutex locked.\<close>

definition destroy_lock :: "nat \<Rightarrow> ('e, 'x) step" where
  "destroy_lock a = State (\<lambda>wn.
     if m_stuck (at_server wn a) then (Some Hangs, wn)
     else (case Destroy (powerLock (m_srv (at_server wn a))) of
             Panic m \<Rightarrow> (Some (Recovered m), upd_server a (\<lambda>s. s\<lparr>m_stuck := True\<rparr>) wn)
           | Return l \<Rightarrow> (None, upd_server a (\<lambda>s. s\<lparr>m_srv := (m_srv s)\<lparr>powerLock := l\<rparr>\<rparr>) wn)))"

definition CleanupForDestroy :: "nat \<Rightarrow> ('e, 'x) step" where
  "CleanupForDestroy a =
     and_then (quietly (CtxCancel a))
    (and_then (destroy_pool a m_emitter (\<lambda>p s. s\<lparr>m_emitter := p\<rparr>))
    (and_then (DestroyAllSinks a)
    (and_then (quietly (cancel_sockets a))
              (destroy_lock a))))"

abbreviation TransferStatusEvent :: string where "TransferStatusEvent \<equiv> ''transfer status''"
abbreviation DeletedEvent :: string where "DeletedEvent \<equiv> ''deleted''"

definition set_cfg_suspended :: "nat \<Rightarrow> 'e web_node \<Rightarrow> 'e web_node" where
  "set_cfg_suspended a = upd_server a (\<lambda>s. s\<lparr>m_srv := (m_srv s)\<lparr>cfg := (cfg (m_srv s))\<lparr>suspended := True\<rparr>\<rparr>\<rparr>)"

definition cancel_downloads :: "nat \<Rightarrow> 'e web_node \<Rightarrow> 'e web_node" where
  "cancel_downloads a wn =
     wn\<lparr>wn_downloads := fold (\<lambda>dl. Cancel (Identifier dl)) (ByServer (server_ID (wn_node wn) a) (wn_downloads wn)) (wn_downloads wn)\<rparr>"

definition forget_server :: "nat \<Rightarrow> 'e web_node \<Rightarrow> 'e web_node" where
  "forget_server a wn =
     wn\<lparr>wn_node := manager_Remove (\<lambda>s. server_ID (wn_node wn) s = server_ID (wn_node wn) a) (wn_node wn)\<rparr>"

definition deleteServer ::
  "('e, 'x) platform \<Rightarrow> (string \<times> string option \<Rightarrow> bytes option) \<Rightarrow> (nat \<Rightarrow> bool) \<Rightarrow> nat \<Rightarrow> ('e, 'x) step" where
  "deleteServer pf enc reader a =
     and_then (quietly (set_cfg_suspended a))
    (and_then (do {
        t \<leftarrow> read_st (\<lambda>wn. Load (transferring (m_srv (at_server wn a))));
        if t then publish_event enc reader a TransferStatusEvent (Some ''completed'') else ret None
      })
    (and_then (publish_event enc reader a DeletedEvent None)
    (and_then (CleanupForDestroy a)
    (and_then (quietly (cancel_downloads a))
    (and_then (do { r \<leftarrow> on_server a (in_env (pf_destroy pf)); ret (map_option Aborted r) })
    (and_then (quietly (spawn (RemoveFilesJob a)))
    (and_then (quietly (forget_server a))
              (answer (Status 204)))))))))"

section \<open>Power, commands and synchronising\<close>

text \<open>The number of lines that \<^verbatim>\<open>getServerLogs\<close> reads, for the query if there is one.\<close>

definition log_lines :: "string option \<Rightarrow> int" where
  "log_lines q =
     (let l = Atoi (case q of None \<Rightarrow> ''100'' | Some s \<Rightarrow> s)
      in if l \<le> 0 then 100 else if l > 100 then 100 else l)"

definition getServerLogs :: "(int \<Rightarrow> ('e, 'x + string list) state) \<Rightarrow> nat \<Rightarrow> string option \<Rightarrow> ('e, 'x) step" where
  "getServerLogs readlog a q = do {
     r \<leftarrow> on_server a (in_env (readlog (log_lines q)));
     (case r of Inl e \<Rightarrow> answer (Aborted e) | Inr _ \<Rightarrow> answer (Status 200))
   }"

definition wait_clamp :: "int \<Rightarrow> int" where
  "wait_clamp n = (if n < 0 \<or> n > 300 then 30 else n)"

definition postServerPower :: "nat \<Rightarrow> (string \<times> int) option \<Rightarrow> ('e, 'x) step" where
  "postServerPower a body =
     (case body of
        None \<Rightarrow> answer (Status 400)
      | Some (action, wait) \<Rightarrow>
          if \<not> IsValid action then answer (Status 422)
          else do {
            s \<leftarrow> read_st (\<lambda>wn. suspended (cfg (m_srv (at_server wn a))));
            if (action = PowerActionStart \<or> action = PowerActionRestart) \<and> s then answer (Status 400)
            else do { modify_st (spawn (PowerJob a action (wait_clamp wait))); answer (Status 202) }
          })"

text \<open>
  The goroutine of a power action. Nothing recovers a panic in it: that ends the daemon. The mutex of a stuck
  lock is needed by all ways to take the lock but the waiting one.
\<close>

datatype 'x job_end = JobEnded "'x power_error option" | JobWaits | DaemonCrashes string | JobHangs

definition run_power :: "('e, 'x) platform \<Rightarrow> world_reply \<Rightarrow> ctx \<Rightarrow> nat \<Rightarrow> nat \<Rightarrow> string \<Rightarrow> int \<Rightarrow> ('e web_node, 'x job_end) state" where
  "run_power pf w cx pick a action wait = do {
     s \<leftarrow> read_st (\<lambda>wn. at_server wn a);
     if busy_error (m_srv s) = (None :: 'x power_error option) \<and> m_stuck s \<and> (action = PowerActionTerminate \<or> wait \<le> 0)
     then ret JobHangs
     else do {
       r \<leftarrow> on_server a (State (HandlePowerAction (pf_backend pf) w cx pick [wait] action));
       ret (case r of Returned e \<Rightarrow> JobEnded e | Waiting \<Rightarrow> JobWaits | Panicked m \<Rightarrow> DaemonCrashes m)
     }
   }"

fun send_all :: "('e, 'x) platform \<Rightarrow> nat \<Rightarrow> string list \<Rightarrow> ('e web_node, unit) state" where
  "send_all pf a [] = ret ()"
| "send_all pf a (c # cs) = do { _ \<leftarrow> on_server a (in_env (pf_send pf c)); send_all pf a cs }"

definition postServerCommands :: "('e, 'x) platform \<Rightarrow> nat \<Rightarrow> string list option \<Rightarrow> ('e, 'x) step" where
  "postServerCommands pf a body = do {
     r \<leftarrow> on_server a (in_env (pf_is_running pf));
     (case r of
        Inl e \<Rightarrow> answer (Aborted e)
      | Inr up \<Rightarrow>
          if \<not> up then answer (Status 502)
          else (case body of
                  None \<Rightarrow> answer (Status 400)
                | Some cs \<Rightarrow> do { send_all pf a cs; answer (Status 204) }))
   }"

text \<open>\<^verbatim>\<open>Sync\<close> with what it does to the connections of a suspended server.\<close>

definition node_Sync :: "('e, 'x) platform \<Rightarrow> world_reply \<Rightarrow> nat \<Rightarrow> ('e web_node, 'x power_error option) state" where
  "node_Sync pf w a = do {
     r \<leftarrow> on_server a (Sync (pf_backend pf) w);
     s \<leftarrow> read_st (\<lambda>wn. suspended (cfg (m_srv (at_server wn a))));
     if_st (r = None \<and> s) (do { modify_st (cancel_sockets a); modify_st (cancel_sftp a) });
     ret r
   }"

definition postServerSync :: "('e, 'x) platform \<Rightarrow> world_reply \<Rightarrow> nat \<Rightarrow> ('e, 'x power_error) step" where
  "postServerSync pf w a = do {
     r \<leftarrow> node_Sync pf w a;
     (case r of Some e \<Rightarrow> answer (Aborted e) | None \<Rightarrow> answer (Status 204))
   }"

section \<open>Installing\<close>

definition postServerInstall :: "nat \<Rightarrow> ('e, 'x) step" where
  "postServerInstall a = do { modify_st (spawn (InstallJob a)); answer (Status 202) }"

definition postServerReinstall :: "nat \<Rightarrow> ('e, 'x) step" where
  "postServerReinstall a = do {
     s \<leftarrow> read_st (\<lambda>wn. at_server wn a);
     if m_stuck s then answer Hangs
     else if IsLocked (powerLock (m_srv s)) then answer (Status 409)
     else do { modify_st (spawn (ReinstallJob a)); answer (Status 202) }
   }"

text \<open>A task on the server together with what it told the outside.\<close>

definition as_task :: "nat \<Rightarrow> ('e tasks, 'r) state \<Rightarrow> ('e web_node, 'r \<times> task_event list) state" where
  "as_task a m = on_server a (State (\<lambda>s.
     case run_state m \<lparr>srv = s, journal = []\<rparr> of (r, t) \<Rightarrow> ((r, journal t), srv t)))"

definition run_install :: "('a env_cell_scheme, 'x) platform \<Rightarrow> world_reply \<Rightarrow> install_reply \<Rightarrow> nat
    \<Rightarrow> ('a env_cell_scheme web_node, ('x power_error + 'x install_error option outcome) \<times> task_event list) state" where
  "run_install pf w i a = do {
     r \<leftarrow> node_Sync pf w a;
     (case r of
        Some e \<Rightarrow> ret (Inl e, [])
      | None \<Rightarrow> do { (r, j) \<leftarrow> as_task a (Install i); ret (Inr r, j) })
   }"

definition run_reinstall :: "('a env_cell_scheme, 'x) platform \<Rightarrow> install_reply \<Rightarrow> nat
    \<Rightarrow> ('a env_cell_scheme web_node, 'x install_error option outcome \<times> task_event list) state" where
  "run_reinstall pf i a = as_task a (Reinstall (pf_backend pf) i)"

section \<open>The node\<close>

text \<open>\<open>uuid4\<close> is the validator; \<open>data\<close> the answer of the panel.\<close>

datatype create_error = ValidationError | ConfigurationError string | InitError init_error

definition installer_New :: "(string \<Rightarrow> bool) \<Rightarrow> string + 'e server_data \<Rightarrow> string \<Rightarrow> 'e node \<Rightarrow> (create_error + nat) \<times> 'e node" where
  "installer_New uuid4 data uuid n =
     (if \<not> uuid4 uuid then (Inl ValidationError, n)
      else case data of
             Inl e \<Rightarrow> (Inl (ConfigurationError e), n)
           | Inr d \<Rightarrow> (case InitServer d n of (Inl e, n') \<Rightarrow> (Inl (InitError e), n') | (Inr a, n') \<Rightarrow> (Inr a, n')))"

definition postCreateServer :: "(string \<Rightarrow> bool) \<Rightarrow> string + 'e server_data \<Rightarrow> (string \<times> bool) option \<Rightarrow> ('e, create_error) step" where
  "postCreateServer uuid4 data body = State (\<lambda>wn.
     case body of
       None \<Rightarrow> (Some (Status 400), wn)
     | Some (uuid, start_on) \<Rightarrow>
         (case installer_New uuid4 data uuid (wn_node wn) of
            (Inl ValidationError, n) \<Rightarrow> (Some (Status 422), wn\<lparr>wn_node := n\<rparr>)
          | (Inl e, n) \<Rightarrow> (Some (Aborted e), wn\<lparr>wn_node := n\<rparr>)
          | (Inr a, n) \<Rightarrow> (Some (Status 202), spawn (CreateJob a start_on) (wn\<lparr>wn_node := manager_Add a n\<rparr>))))"

datatype 'x create_end = NoEnvironment | InstallEnded "'x install_error option outcome" | PowerEnded "'x job_end" | NotStarted

definition run_create :: "('a env_cell_scheme, 'x) platform \<Rightarrow> create_reply \<Rightarrow> install_reply \<Rightarrow> world_reply \<Rightarrow> ctx \<Rightarrow> nat \<Rightarrow> nat \<Rightarrow> bool
    \<Rightarrow> ('a env_cell_scheme web_node, 'x create_end) state" where
  "run_create pf c i w cx pick a start_on = do {
     ok \<leftarrow> on_server a (CreateEnvironment pf c);
     if \<not> ok then ret NoEnvironment
     else do {
       (r, j) \<leftarrow> as_task a (Install i);
       if r \<noteq> Return None then ret (InstallEnded r)
       else if start_on then do { e \<leftarrow> run_power pf w cx pick a PowerActionStart 30; ret (PowerEnded e) }
       else ret NotStarted
     }
   }"

definition deauthorize_at :: "int \<Rightarrow> string \<Rightarrow> nat \<Rightarrow> 'e web_node \<Rightarrow> 'e web_node" where
  "deauthorize_at now user a wn =
     cancel_sftp_user user a (cancel_sockets a
       (wn\<lparr>wn_denials := DenyForServer now (server_ID (wn_node wn) a) user (wn_denials wn)\<rparr>))"

definition postDeauthorizeUser :: "int \<Rightarrow> (string \<times> string list) option \<Rightarrow> ('e, 'x) step" where
  "postDeauthorizeUser now body =
     (case body of
        None \<Rightarrow> answer (Status 400)
      | Some (user, servers) \<Rightarrow>
          and_then (quietly (\<lambda>wn.
            if servers \<noteq> []
            then fold (\<lambda>uuid wn. case manager_Get uuid (wn_node wn) of Some a \<Rightarrow> deauthorize_at now user a wn | None \<Rightarrow> wn) servers wn
            else fold (deauthorize_at now user) (All (wn_node wn)) wn))
          (answer (Status 204)))"

definition postServerDenyWSTokens :: "int \<Rightarrow> string list option \<Rightarrow> ('e, 'x) step" where
  "postServerDenyWSTokens now body =
     (case body of
        None \<Rightarrow> answer (Status 400)
      | Some jtis \<Rightarrow> do { modify_st (\<lambda>wn. wn\<lparr>wn_denials := fold (DenyJTI now) jtis (wn_denials wn)\<rparr>); answer (Status 204) })"

record api_response =
  api_State :: string
  api_IsSuspended :: bool

definition ToAPIResponse :: "('e, 'x) platform \<Rightarrow> 'e managed \<Rightarrow> api_response" where
  "ToAPIResponse pf s = \<lparr>api_State = state_name (b_state (pf_backend pf) (environment (m_srv s))), api_IsSuspended = suspended (cfg (m_srv s))\<rparr>"

definition getAllServers :: "('e, 'x) platform \<Rightarrow> 'e web_node \<Rightarrow> api_response list" where
  "getAllServers pf wn = map (\<lambda>a. ToAPIResponse pf (at_server wn a)) (All (wn_node wn))"

text \<open>
  The configuration of the daemon as far as the update looks at it; \<open>bound\<close> is the body merged into a copy of it,
  \<open>written\<close> the result of writing it to the disk.
\<close>

record 'o daemon_config =
  IgnorePanelConfigUpdates :: bool
  KeyFile :: string
  CertificateFile :: string
  other_config :: 'o

definition postUpdateConfiguration ::
  "('o daemon_config \<Rightarrow> 'o daemon_config option) \<Rightarrow> string option \<Rightarrow> 'o daemon_config \<Rightarrow> (nat \<times> bool option + string) \<times> 'o daemon_config" where
  "postUpdateConfiguration bound written c =
     (if IgnorePanelConfigUpdates c then (Inl (200, Some False), c)
      else case bound c of
             None \<Rightarrow> (Inl (400, None), c)
           | Some c1 \<Rightarrow>
               (let c2 = (if HasPrefix (KeyFile c1) ''/etc/letsencrypt/live/''
                          then c1\<lparr>KeyFile := KeyFile c, CertificateFile := CertificateFile c\<rparr> else c1)
                in case written of
                     Some e \<Rightarrow> (Inr e, c)
                   | None \<Rightarrow> (Inl (200, Some True), c2)))"

section \<open>The backends\<close>

definition docker_platform :: "'w engine \<Rightarrow> ('w docker_env, env_error) platform" where
  "docker_platform d =
     \<lparr>pf_backend = docker_backend d,
      pf_create = do { r \<leftarrow> docker_Create d; ret (map_option Engine r) },
      pf_is_running = do { r \<leftarrow> docker_IsRunning d; ret (map_sum Engine id r) },
      pf_set_state = enter_state,
      pf_attach = do { r \<leftarrow> docker_Attach d; ret (map_option Engine r) },
      pf_destroy = do { r \<leftarrow> docker_Destroy d; ret (map_option Engine r) },
      pf_send = docker_SendCommand d\<rparr>"

section \<open>What a deletion leaves\<close>

text \<open>A step that does not answer.\<close>

abbreviation goes_on :: "('s \<Rightarrow> bool) \<Rightarrow> ('s, 'a option) state \<Rightarrow> ('s \<Rightarrow> bool) \<Rightarrow> bool" where
  "goes_on P m Q \<equiv> triple P m (\<lambda>r s. r = None \<and> Q s)"

lemma and_then_triple: "goes_on P m R \<Longrightarrow> triple R k Q \<Longrightarrow> triple P (and_then m k) Q"
  unfolding and_then_def triple_def by (fastforce split: option.splits prod.splits)

lemma quietly_goes_on: "(\<And>s. P s \<Longrightarrow> Q (f s)) \<Longrightarrow> goes_on P (quietly f) Q"
  by (simp add: triple_def quietly_def)

lemma upd_server_simps [simp]:
  "wn_denials (upd_server a f w) = wn_denials w" "wn_downloads (upd_server a f w) = wn_downloads w" "wn_jobs (upd_server a f w) = wn_jobs w"
  "n_servers (wn_node (upd_server a f w)) = n_servers (wn_node w)" "n_ctxs (wn_node (upd_server a f w)) = n_ctxs (wn_node w)"
  "n_chans (wn_node (upd_server a f w)) = n_chans (wn_node w)" "length (n_store (wn_node (upd_server a f w))) = length (n_store (wn_node w))"
  by (simp_all add: upd_server_def)

lemma at_upd_server: "a < length (n_store (wn_node w)) \<Longrightarrow> at_server (upd_server a f w) x = (if x = a then f (at_server w a) else at_server w x)"
  by (simp add: upd_server_def)

lemma upd_ctxs_simps [simp]:
  "wn_denials (upd_ctxs f w) = wn_denials w" "wn_downloads (upd_ctxs f w) = wn_downloads w" "wn_jobs (upd_ctxs f w) = wn_jobs w"
  "n_servers (wn_node (upd_ctxs f w)) = n_servers (wn_node w)" "n_ctxs (wn_node (upd_ctxs f w)) = f (n_ctxs (wn_node w))"
  "n_chans (wn_node (upd_ctxs f w)) = n_chans (wn_node w)" "n_store (wn_node (upd_ctxs f w)) = n_store (wn_node w)"
  by (simp_all add: upd_ctxs_def)

definition same_flags :: "'e server \<Rightarrow> 'e server \<Rightarrow> bool" where
  "same_flags s t \<longleftrightarrow> installing t = installing s \<and> transferring t = transferring s \<and> restoring t = restoring s"

lemma same_flags_busy: "same_flags s t \<Longrightarrow> busy_error t = busy_error s"
  by (simp add: same_flags_def busy_error_def)

text \<open>What the steps of a deletion leave as it was before, in \<open>w0\<close>, of the server at \<open>a\<close> and around it.\<close>

definition doomed :: "'e web_node \<Rightarrow> nat \<Rightarrow> 'e web_node \<Rightarrow> bool" where
  "doomed w0 a w \<longleftrightarrow> a < length (n_store (wn_node w)) \<and> n_servers (wn_node w) = n_servers (wn_node w0) \<and>
     (\<forall>x. server_ID (wn_node w) x = server_ID (wn_node w0) x) \<and> m_ctx (at_server w a) = m_ctx (at_server w0 a) \<and>
     environment (m_srv (at_server w a)) = environment (m_srv (at_server w0 a)) \<and> same_flags (m_srv (at_server w0 a)) (m_srv (at_server w a)) \<and>
     wn_downloads w = wn_downloads w0 \<and> suspended (cfg (m_srv (at_server w a)))"

text \<open>All channels registered with the server are open; a server that has been destroyed has none.\<close>

abbreviation all_sinks :: "'e managed \<Rightarrow> nat option list" where
  "all_sinks s \<equiv> sinks (m_emitter s) @ sinks (m_logSink s) @ sinks (m_installSink s)"

definition pools_open :: "nat \<Rightarrow> 'e web_node \<Rightarrow> bool" where
  "pools_open a w \<longleftrightarrow> pool_inv \<lparr>sinks = all_sinks (at_server w a)\<rparr> (n_chans (wn_node w))"

text \<open>The server is in use: its lock has not been destroyed, and its contexts are real ones.\<close>

definition ready :: "nat \<Rightarrow> 'e web_node \<Rightarrow> bool" where
  "ready a w \<longleftrightarrow> a < length (n_store (wn_node w)) \<and> pools_open a w \<and> \<not> m_stuck (at_server w a) \<and>
     locker_inv (powerLock (m_srv (at_server w a))) \<and> m_ctx (at_server w a) \<noteq> [] \<and> (\<forall>(u, c) \<in> set (m_wsBag (at_server w a)). c \<noteq> [])"

text \<open>A stage of the deletion; \<open>L\<close> is about the lock, \<open>C\<close> about the contexts.\<close>

abbreviation stage :: "(locker \<Rightarrow> bool \<Rightarrow> bool) \<Rightarrow> (contexts \<Rightarrow> bool) \<Rightarrow> bag \<Rightarrow> 'e web_node \<Rightarrow> nat \<Rightarrow> 'e web_node \<Rightarrow> bool" where
  "stage L C b w0 a w \<equiv> doomed w0 a w \<and> pools_open a w \<and> L (powerLock (m_srv (at_server w a))) (m_stuck (at_server w a)) \<and>
     m_wsBag (at_server w a) = b \<and> C (n_ctxs (wn_node w))"

lemma Destroy_pool_between:
  assumes "pool_inv \<lparr>sinks = xs @ sinks p @ ys\<rparr> m"
  shows "\<exists>m'. Destroy_pool p m = Return (p\<lparr>sinks := []\<rparr>, m') \<and> pool_inv \<lparr>sinks = xs @ ys\<rparr> m'"
proof -
  have "pool_inv p m" using assms by (simp add: pool_inv_def)
  from pool_destroy_closes [OF this] assms show ?thesis
    by (auto simp: pool_inv_def open_chan_def)
qed

lemma Push_rest:
  assumes "pool_inv \<lparr>sinks = sinks p @ ys\<rparr> m"
  shows "\<exists>m'. Push r d p m = Return m' \<and> pool_inv \<lparr>sinks = sinks p @ ys\<rparr> m'"
  using assms push_all_open [of "sinks p" m r d] by (auto simp: Push_def pool_inv_def)

lemma publish_stage:
  assumes "\<And>e. enc e \<noteq> None"
  shows "goes_on (stage L C b w0 a) (publish_event enc reader a topic data) (stage L C b w0 a)"
proof (rule tripleI)
  fix w r w' assume st: "stage L C b w0 a w" and run: "run_state (publish_event enc reader a topic data) w = (r, w')"
  obtain bs where bs: "enc (event_topic topic, data) = Some bs" using assms by blast
  obtain m' where "Push reader bs (m_emitter (at_server w a)) (n_chans (wn_node w)) = Return m'"
    "pool_inv \<lparr>sinks = all_sinks (at_server w a)\<rparr> m'"
    using Push_rest st unfolding pools_open_def by blast
  then show "r = None \<and> stage L C b w0 a w'"
    using run st bs by (auto simp: publish_event_def Publish_def doomed_def pools_open_def)
qed

lemma destroy_stage:
  assumes "\<And>s. all_sinks s = xs s @ sinks (get s) @ ys s" "\<And>s p. sinks p = [] \<Longrightarrow> all_sinks (put p s) = xs s @ ys s"
    "\<And>s p. m_uuid (put p s) = m_uuid s \<and> m_srv (put p s) = m_srv s \<and> m_ctx (put p s) = m_ctx s \<and>
        m_stuck (put p s) = m_stuck s \<and> m_wsBag (put p s) = m_wsBag s"
  shows "goes_on (stage L C b w0 a) (destroy_pool a get put) (stage L C b w0 a)"
proof (rule tripleI)
  fix w r w' assume st: "stage L C b w0 a w" and run: "run_state (destroy_pool a get put) w = (r, w')"
  let ?s = "at_server w a"
  obtain m' where m': "Destroy_pool (get ?s) (n_chans (wn_node w)) = Return ((get ?s)\<lparr>sinks := []\<rparr>, m')" "pool_inv \<lparr>sinks = xs ?s @ ys ?s\<rparr> m'"
    using Destroy_pool_between st unfolding pools_open_def assms(1) by blast
  have "sinks ((get ?s)\<lparr>sinks := []\<rparr>) = []" by simp
  from assms(2) [OF this] have "all_sinks (put ((get ?s)\<lparr>sinks := []\<rparr>) ?s) = xs ?s @ ys ?s" .
  then show "r = None \<and> stage L C b w0 a w'"
    using run st m' assms(3) by (auto simp: destroy_pool_def doomed_def pools_open_def at_upd_server)
qed

lemma DestroyAllSinks_stage: "goes_on (stage L C b w0 a) (DestroyAllSinks a) (stage L C b w0 a)"
  unfolding DestroyAllSinks_def
proof (rule and_then_triple)
  show "goes_on (stage L C b w0 a) (destroy_pool a m_logSink (\<lambda>p s. s\<lparr>m_logSink := p\<rparr>)) (stage L C b w0 a)"
    by (rule destroy_stage [where xs = "\<lambda>s. sinks (m_emitter s)" and ys = "\<lambda>s. sinks (m_installSink s)"]) auto
  show "goes_on (stage L C b w0 a) (destroy_pool a m_installSink (\<lambda>p s. s\<lparr>m_installSink := p\<rparr>)) (stage L C b w0 a)"
    by (rule destroy_stage [where xs = "\<lambda>s. sinks (m_emitter s) @ sinks (m_logSink s)" and ys = "\<lambda>s. []"]) auto
qed

lemma emitter_stage: "goes_on (stage L C b w0 a) (destroy_pool a m_emitter (\<lambda>p s. s\<lparr>m_emitter := p\<rparr>)) (stage L C b w0 a)"
  by (rule destroy_stage [where xs = "\<lambda>s. []" and ys = "\<lambda>s. sinks (m_logSink s) @ sinks (m_installSink s)"]) auto

text \<open>The contexts that are done once a server has been cleaned up.\<close>

definition all_over :: "'e managed \<Rightarrow> contexts \<Rightarrow> bool" where
  "all_over s cs \<longleftrightarrow> ctx_over cs (m_ctx s) \<and> (\<forall>(u, c) \<in> set (m_wsBag s). ctx_over cs c)"

lemma ctx_stage:
  "m_ctx (at_server w0 a) \<noteq> [] \<Longrightarrow>
   goes_on (stage L C b w0 a) (quietly (CtxCancel a)) (stage L (\<lambda>cs. ctx_over cs (m_ctx (at_server w0 a))) b w0 a)"
  by (rule quietly_goes_on) (auto simp: CtxCancel_def doomed_def pools_open_def ctx_over_cancel)

lemma sockets_stage:
  assumes "\<forall>(u, c) \<in> set b. c \<noteq> []"
  shows "goes_on (stage L (\<lambda>cs. ctx_over cs x) b w0 a) (quietly (cancel_sockets a))
     (stage L (\<lambda>cs. ctx_over cs x \<and> (\<forall>(u, c) \<in> set b. ctx_over cs c)) [] w0 a)"
  using assms
  by (intro quietly_goes_on)
     (auto simp: cancel_sockets_def bag_CancelAll_def doomed_def pools_open_def at_upd_server intro: cancel_all_mono cancel_all_over)

text \<open>A lock that has been destroyed.\<close>

definition lock_dead :: "locker \<Rightarrow> bool" where
  "lock_dead l \<longleftrightarrow> (\<exists>c. ch l = Some c \<and> cclosed c)"

lemma lock_stage:
  "goes_on (stage (\<lambda>l stuck. locker_inv l \<and> \<not> stuck) C b w0 a) (destroy_lock a) (stage (\<lambda>l stuck. lock_dead l \<and> \<not> stuck) C b w0 a)"
proof (rule tripleI)
  fix w r w' assume st: "stage (\<lambda>l stuck. locker_inv l \<and> \<not> stuck) C b w0 a w" and run: "run_state (destroy_lock a) w = (r, w')"
  obtain l where "Destroy (powerLock (m_srv (at_server w a))) = Return l" "lock_dead l"
    using st by (auto simp: Destroy_def Release_def chan_recv_def chan_close_def lock_dead_def Let_def elim!: locker_invE)
  then show "r = None \<and> stage (\<lambda>l stuck. lock_dead l \<and> \<not> stuck) C b w0 a w'"
    using run st by (auto simp: destroy_lock_def doomed_def pools_open_def at_upd_server same_flags_def)
qed

text \<open>A panic is recovered, but only the first time: it leaves the mutex of the lock locked.\<close>

lemma dead_lock_panics:
  assumes "lock_dead l"
  shows "\<exists>m. Destroy l = Panic m" "\<exists>m. Acquire l = Panic m"
  using assms by (auto simp: lock_dead_def Destroy_def Release_def chan_recv_def chan_close_def Acquire_def chan_send_def Let_def split: list.splits)

lemma and_then_split:
  "triple P m (\<lambda>r s. case r of None \<Rightarrow> R s | Some x \<Rightarrow> Q (Some x) s) \<Longrightarrow> triple R k Q \<Longrightarrow> triple P (and_then m k) Q"
  unfolding and_then_def triple_def by (fastforce split: option.splits prod.splits)

lemma CleanupForDestroy_triple:
  assumes "m_ctx (at_server w0 a) \<noteq> []" "\<forall>(u, c) \<in> set b. c \<noteq> []"
    "triple (stage L (\<lambda>cs. ctx_over cs (m_ctx (at_server w0 a)) \<and> (\<forall>(u, c) \<in> set b. ctx_over cs c)) [] w0 a) (destroy_lock a) Q"
  shows "triple (stage L (\<lambda>_. True) b w0 a) (CleanupForDestroy a) Q"
  unfolding CleanupForDestroy_def
  by (intro and_then_triple [OF ctx_stage [OF assms(1)]] and_then_triple [OF emitter_stage] and_then_triple [OF DestroyAllSinks_stage]
      and_then_triple [OF sockets_stage [OF assms(2)]] assms(3))

text \<open>Everything up to the lock goes through; \<open>Q\<close> is shown of what happens at the lock and after it.\<close>

lemma deleteServer_triple:
  assumes enc: "\<And>e. enc e \<noteq> None"
    and w: "a < length (n_store (wn_node w))" "pools_open a w" "m_ctx (at_server w a) \<noteq> []" "\<forall>(u, c) \<in> set (m_wsBag (at_server w a)). c \<noteq> []"
      "L (powerLock (m_srv (at_server w a))) (m_stuck (at_server w a))"
    and lock: "triple (stage L (all_over (at_server w a)) [] w a) (destroy_lock a) (\<lambda>r s. case r of None \<Rightarrow> R s | Some x \<Rightarrow> Q (Some x) s)"
    and rest: "triple R (and_then (quietly (cancel_downloads a))
       (and_then (do { r \<leftarrow> on_server a (in_env (pf_destroy pf)); ret (map_option Aborted r) })
       (and_then (quietly (spawn (RemoveFilesJob a))) (and_then (quietly (forget_server a)) (answer (Status 204)))))) Q"
  shows "triple (\<lambda>v. v = w) (deleteServer pf enc reader a) Q"
proof -
  let ?b = "m_wsBag (at_server w a)" and ?P = "stage L (\<lambda>_. True) (m_wsBag (at_server w a)) w a"
  have start: "goes_on (\<lambda>v. v = w) (quietly (set_cfg_suspended a)) ?P"
    by (rule quietly_goes_on) (use w in \<open>auto simp: same_flags_def set_cfg_suspended_def doomed_def pools_open_def at_upd_server\<close>)
  have transfer: "goes_on ?P (do { t \<leftarrow> read_st (\<lambda>w. Load (transferring (m_srv (at_server w a))));
      if t then publish_event enc reader a TransferStatusEvent (Some ''completed'') else ret None }) ?P"
    by (intro triple_bind [OF read_keeps] triple_if publish_stage [OF enc] triple_ret) auto
  have clean: "triple ?P (CleanupForDestroy a) (\<lambda>r s. case r of None \<Rightarrow> R s | Some x \<Rightarrow> Q (Some x) s)"
    by (rule CleanupForDestroy_triple [OF w(3,4)]) (use lock in \<open>simp add: all_over_def\<close>)
  show ?thesis
    unfolding deleteServer_def
    by (intro and_then_triple [OF start] and_then_triple [OF transfer] and_then_triple [OF publish_stage [OF enc]]
        and_then_split [OF clean] rest)
qed

lemma fold_Cancel_running:
  "table_ok d \<Longrightarrow> table_ok (fold (\<lambda>dl. Cancel (Identifier dl)) dls d) \<and>
     running (fold (\<lambda>dl. Cancel (Identifier dl)) dls d) sid = running d sid - Identifier ` set dls"
proof (induction dls arbitrary: d)
  case (Cons dl dls)
  have "running (Cancel (Identifier dl) d) sid = running d sid - {Identifier dl}"
    by (auto simp: Cancel_def remove_download_def running_def split: option.splits)
  then show ?case using Cons.IH [of "Cancel (Identifier dl) d"] remove_ok [OF Cons.prems, of "Identifier dl"] by (auto simp: Cancel_def)
qed simp

lemma cancel_downloads_none:
  assumes "table_ok d"
  shows "ByServer sid (fold (\<lambda>dl. Cancel (Identifier dl)) (ByServer sid d) d) = []"
proof -
  let ?d = "fold (\<lambda>dl. Cancel (Identifier dl)) (ByServer sid d) d"
  have "set (map Identifier (ByServer sid d)) = running d sid"
    using assms by (simp only: ByServer_ids [OF assms]) (simp add: table_ok_def)
  then have "table_ok ?d" and "running ?d sid = {}" using fold_Cancel_running [OF assms, of "ByServer sid d" sid] by auto
  moreover have "set (ids_of ?d sid) = running ?d sid" using calculation(1) unfolding table_ok_def by blast
  ultimately have "map Identifier (ByServer sid ?d) = []" using ByServer_ids [of ?d sid] by simp
  then show ?thesis by simp
qed

text \<open>The state after a deletion that has destroyed the environment, and after one that has not.\<close>

definition gone :: "'e web_node \<Rightarrow> nat \<Rightarrow> 'e web_node \<Rightarrow> bool" where
  "gone w a w' \<longleftrightarrow> Keys (wn_node w') = filter (\<lambda>k. k \<noteq> server_ID (wn_node w) a) (Keys (wn_node w)) \<and>
     all_over (at_server w a) (n_ctxs (wn_node w')) \<and> ByServer (server_ID (wn_node w) a) (wn_downloads w') = [] \<and>
     RemoveFilesJob a \<in> set (wn_jobs w') \<and> lock_dead (powerLock (m_srv (at_server w' a))) \<and> \<not> m_stuck (at_server w' a) \<and>
     same_flags (m_srv (at_server w a)) (m_srv (at_server w' a))"

definition halfway :: "'e web_node \<Rightarrow> nat \<Rightarrow> 'e web_node \<Rightarrow> bool" where
  "halfway w a w' \<longleftrightarrow> a < length (n_store (wn_node w')) \<and> Keys (wn_node w') = Keys (wn_node w) \<and>
     lock_dead (powerLock (m_srv (at_server w' a))) \<and> pools_open a w' \<and> m_ctx (at_server w' a) = m_ctx (at_server w a) \<and>
     m_wsBag (at_server w' a) = [] \<and> same_flags (m_srv (at_server w a)) (m_srv (at_server w' a))"

lemma destroy_env_run:
  "run_state (on_server a (in_env (pf_destroy pf))) v =
     (fst (run_state (pf_destroy pf) (environment (m_srv (at_server v a)))),
      upd_server a (\<lambda>x. x\<lparr>m_srv := (m_srv (at_server v a))\<lparr>environment := snd (run_state (pf_destroy pf) (environment (m_srv (at_server v a))))\<rparr>\<rparr>) v)"
  by (simp add: on_server_def in_env_def split_beta)

lemma delete_tail:
  assumes "table_ok (wn_downloads w)" "\<not> stuck"
  shows "triple (stage (\<lambda>l s. lock_dead l \<and> s = stuck) (all_over (at_server w a)) [] w a)
    (and_then (quietly (cancel_downloads a))
       (and_then (do { r \<leftarrow> on_server a (in_env (pf_destroy pf)); ret (map_option Aborted r) })
       (and_then (quietly (spawn (RemoveFilesJob a))) (and_then (quietly (forget_server a)) (answer (Status 204))))))
    (\<lambda>r w'. case fst (run_state (pf_destroy pf) (environment (m_srv (at_server w a)))) of
        None \<Rightarrow> r = Some (Status 204) \<and> gone w a w'
      | Some x \<Rightarrow> r = Some (Aborted x) \<and> halfway w a w' \<and> \<not> m_stuck (at_server w' a))"
proof (rule tripleI)
  fix v r w'
  assume st: "stage (\<lambda>l s. lock_dead l \<and> s = stuck) (all_over (at_server w a)) [] w a v"
    and run: "run_state (and_then (quietly (cancel_downloads a))
       (and_then (do { r \<leftarrow> on_server a (in_env (pf_destroy pf)); ret (map_option Aborted r) })
       (and_then (quietly (spawn (RemoveFilesJob a))) (and_then (quietly (forget_server a)) (answer (Status 204)))))) v = (r, w')"
  let ?e = "environment (m_srv (at_server w a))"
  have id: "server_ID (wn_node v) x = server_ID (wn_node w) x" for x using st by (simp add: doomed_def)
  let ?v = "cancel_downloads a v"
  let ?u = "upd_server a (\<lambda>x. x\<lparr>m_srv := (m_srv (at_server v a))\<lparr>environment := snd (run_state (pf_destroy pf) ?e)\<rparr>\<rparr>) ?v"
  have u: "run_state (on_server a (in_env (pf_destroy pf))) ?v = (fst (run_state (pf_destroy pf) ?e), ?u)"
    using st by (simp add: destroy_env_run cancel_downloads_def doomed_def)
  have len: "a < length (n_store (wn_node ?v))" using st by (simp add: cancel_downloads_def doomed_def)
  have u_id: "server_ID (wn_node ?u) x = server_ID (wn_node w) x" for x
    using len id [of x] by (auto simp: at_upd_server cancel_downloads_def)
  have u_servers: "n_servers (wn_node ?u) = n_servers (wn_node w)" using st by (simp add: cancel_downloads_def doomed_def)
  show "case fst (run_state (pf_destroy pf) ?e) of
        None \<Rightarrow> r = Some (Status 204) \<and> gone w a w'
      | Some x \<Rightarrow> r = Some (Aborted x) \<and> halfway w a w' \<and> \<not> m_stuck (at_server w' a)"
  proof (cases "fst (run_state (pf_destroy pf) ?e)")
    case None
    then have "r = Some (Status 204)" "w' = forget_server a (spawn (RemoveFilesJob a) ?u)"
      using run u by (auto simp: and_then_def quietly_def)
    moreover have "gone w a (forget_server a (spawn (RemoveFilesJob a) ?u))"
      using st cancel_downloads_none [OF assms(1)] u_id u_servers assms(2) len
      by (auto simp: at_upd_server same_flags_def gone_def forget_server_def spawn_def manager_Remove_def Keys_def filter_map o_def doomed_def cancel_downloads_def id)
    ultimately show ?thesis using None by simp
  next
    case (Some x)
    then have "r = Some (Aborted x)" "w' = ?u" using run u by (auto simp: and_then_def quietly_def)
    moreover have "halfway w a ?u \<and> \<not> m_stuck (at_server ?u a)"
      using st u_id u_servers len assms(2)
      by (auto simp: halfway_def Keys_def at_upd_server doomed_def pools_open_def cancel_downloads_def same_flags_def)
    ultimately show ?thesis using Some by simp
  qed
qed

lemma delete_result:
  assumes "ready a w" "\<And>e. enc e \<noteq> None" "table_ok (wn_downloads w)"
  shows "triple (\<lambda>v. v = w) (deleteServer pf enc reader a)
    (\<lambda>r w'. case fst (run_state (pf_destroy pf) (environment (m_srv (at_server w a)))) of
        None \<Rightarrow> r = Some (Status 204) \<and> gone w a w'
      | Some x \<Rightarrow> r = Some (Aborted x) \<and> halfway w a w' \<and> \<not> m_stuck (at_server w' a))"
proof (rule deleteServer_triple [where L = "\<lambda>l stuck. locker_inv l \<and> \<not> stuck"])
  show "triple (stage (\<lambda>l stuck. locker_inv l \<and> \<not> stuck) (all_over (at_server w a)) [] w a) (destroy_lock a)
     (\<lambda>r s. case r of None \<Rightarrow> stage (\<lambda>l s. lock_dead l \<and> s = False) (all_over (at_server w a)) [] w a s
       | Some x \<Rightarrow> (case fst (run_state (pf_destroy pf) (environment (m_srv (at_server w a)))) of
            None \<Rightarrow> Some x = Some (Status 204) \<and> gone w a s
          | Some y \<Rightarrow> Some x = Some (Aborted y) \<and> halfway w a s \<and> \<not> m_stuck (at_server s a)))"
    by (rule triple_post [OF lock_stage]) auto
  show "triple (stage (\<lambda>l s. lock_dead l \<and> s = False) (all_over (at_server w a)) [] w a)
    (and_then (quietly (cancel_downloads a))
       (and_then (do { r \<leftarrow> on_server a (in_env (pf_destroy pf)); ret (map_option Aborted r) })
       (and_then (quietly (spawn (RemoveFilesJob a))) (and_then (quietly (forget_server a)) (answer (Status 204))))))
    (\<lambda>r w'. case fst (run_state (pf_destroy pf) (environment (m_srv (at_server w a)))) of
        None \<Rightarrow> r = Some (Status 204) \<and> gone w a w'
      | Some x \<Rightarrow> r = Some (Aborted x) \<and> halfway w a w' \<and> \<not> m_stuck (at_server w' a))"
    by (rule delete_tail [OF assms(3)]) simp
qed (use assms in \<open>auto simp: ready_def\<close>)

text \<open>Deleting a server whose lock is dead already.\<close>

lemma delete_dead:
  assumes "a < length (n_store (wn_node w))" "pools_open a w" "lock_dead (powerLock (m_srv (at_server w a)))" "m_ctx (at_server w a) \<noteq> []"
    "m_wsBag (at_server w a) = []" "\<And>e. enc e \<noteq> None"
  shows "triple (\<lambda>v. v = w) (deleteServer pf enc reader a)
    (\<lambda>r w'. if m_stuck (at_server w a) then r = Some Hangs
       else (\<exists>m. r = Some (Recovered m)) \<and> m_stuck (at_server w' a) \<and> a < length (n_store (wn_node w')) \<and> pools_open a w' \<and>
         lock_dead (powerLock (m_srv (at_server w' a))) \<and> m_ctx (at_server w' a) \<noteq> [] \<and> m_wsBag (at_server w' a) = [])"
    (is "triple _ _ ?Q")
proof (rule deleteServer_triple [where L = "\<lambda>l s. lock_dead l \<and> s = m_stuck (at_server w a)" and R = "\<lambda>_. False"])
  show "triple (stage (\<lambda>l s. lock_dead l \<and> s = m_stuck (at_server w a)) (all_over (at_server w a)) [] w a) (destroy_lock a)
     (\<lambda>r s. case r of None \<Rightarrow> False | Some x \<Rightarrow> ?Q (Some x) s)"
  proof (rule tripleI)
    fix v v' and r :: "'b answer option" assume st: "stage (\<lambda>l s. lock_dead l \<and> s = m_stuck (at_server w a)) (all_over (at_server w a)) [] w a v"
      and run: "run_state (destroy_lock a) v = (r, v')"
    obtain m where "Destroy (powerLock (m_srv (at_server v a))) = Panic m" using dead_lock_panics(1) st by blast
    then show "case r of None \<Rightarrow> False | Some x \<Rightarrow> ?Q (Some x) v'"
      using run st assms(4) by (auto simp: destroy_lock_def doomed_def at_upd_server pools_open_def)
  qed
qed (use assms in \<open>auto simp: triple_def\<close>)

text \<open>A power action on a server whose lock is dead.\<close>

lemma run_power_dead:
  assumes "lock_dead (powerLock (m_srv (at_server w a)))" "busy_error (m_srv (at_server w a)) = (None :: 'x power_error option)"
    "\<not> m_stuck (at_server w a)" "cx = CtxLive \<or> action = PowerActionTerminate \<or> n \<le> 0"
  shows "\<exists>m. fst (run_state (run_power (pf :: ('e, 'x) platform) wr cx pick a action n) w) = DaemonCrashes m"
proof -
  obtain c where c: "ch (powerLock (m_srv (at_server w a))) = Some c" "cclosed c" using assms(1) by (auto simp: lock_dead_def)
  then show ?thesis
    using assms by (auto simp: run_power_def on_server_def HandlePowerAction_def TryAcquire_def Acquire_def chan_send_def Let_def)
qed

section \<open>Deauthorizing a user\<close>

definition bags_ok :: "'e web_node \<Rightarrow> bool" where
  "bags_ok w \<longleftrightarrow> list_all (\<lambda>s. list_all (\<lambda>(u, c). c \<noteq> []) (m_wsBag s) \<and> list_all (\<lambda>(u, c). c \<noteq> []) (m_sftpBag s)) (n_store (wn_node w))"

text \<open>The user is out of the server at \<open>x\<close>, as it was in \<open>w0\<close>.\<close>

definition user_out :: "'e web_node \<Rightarrow> int \<Rightarrow> string \<Rightarrow> nat \<Rightarrow> 'e web_node \<Rightarrow> bool" where
  "user_out w0 now user x w \<longleftrightarrow> (\<forall>(u, c) \<in> set (m_wsBag (at_server w0 x)). ctx_over (n_ctxs (wn_node w)) c) \<and>
     (\<forall>c. map_of (m_sftpBag (at_server w0 x)) user = Some c \<longrightarrow> ctx_over (n_ctxs (wn_node w)) c) \<and>
     userDenylist (wn_denials w) (deny_key (server_ID (wn_node w0) x) user) = Some now"

definition sweeping :: "'e web_node \<Rightarrow> int \<Rightarrow> string \<Rightarrow> 'e web_node \<Rightarrow> bool" where
  "sweeping w0 now user w \<longleftrightarrow> n_servers (wn_node w) = n_servers (wn_node w0) \<and> length (n_store (wn_node w)) = length (n_store (wn_node w0)) \<and>
     (\<forall>x. server_ID (wn_node w) x = server_ID (wn_node w0) x) \<and>
     (\<forall>x. user_out w0 now user x w \<or>
        m_wsBag (at_server w x) = m_wsBag (at_server w0 x) \<and> m_sftpBag (at_server w x) = m_sftpBag (at_server w0 x))"

lemma cb_Cancel_mono: "ctx_over cs c \<Longrightarrow> ctx_over (snd (cb_Cancel k b cs)) c"
  by (auto simp: cb_Cancel_def intro: ctx_over_mono split: option.splits)

lemma deauthorize_ctxs:
  assumes "a < length (n_store (wn_node w))"
  shows "n_ctxs (wn_node (deauthorize_at now user a w)) =
    snd (cb_Cancel user (m_sftpBag (at_server w a)) (snd (bag_CancelAll (m_wsBag (at_server w a)) (n_ctxs (wn_node w)))))"
  using assms
  by (simp add: deauthorize_at_def cancel_sftp_user_def cancel_sockets_def at_upd_server bag_CancelAll_def split: prod.splits)

lemma deauthorize_frame [simp]:
  "n_servers (wn_node (deauthorize_at now user a w)) = n_servers (wn_node w)"
  "length (n_store (wn_node (deauthorize_at now user a w))) = length (n_store (wn_node w))"
  "wn_denials (deauthorize_at now user a w) = DenyForServer now (server_ID (wn_node w) a) user (wn_denials w)"
  by (simp_all add: deauthorize_at_def cancel_sftp_user_def cancel_sockets_def split: prod.splits)

lemma deauthorize_at_other:
  assumes "a < length (n_store (wn_node w))"
  shows "server_ID (wn_node (deauthorize_at now user a w)) x = server_ID (wn_node w) x"
    "x \<noteq> a \<Longrightarrow> at_server (deauthorize_at now user a w) x = at_server w x"
  using assms by (auto simp: deauthorize_at_def cancel_sftp_user_def cancel_sockets_def at_upd_server split: prod.splits)

lemma deauthorize_over_mono:
  assumes "a < length (n_store (wn_node w))" "ctx_over (n_ctxs (wn_node w)) c"
  shows "ctx_over (n_ctxs (wn_node (deauthorize_at now user a w))) c"
  unfolding deauthorize_ctxs [OF assms(1)] using assms(2) by (auto intro!: cb_Cancel_mono cancel_all_mono simp: bag_CancelAll_def)

lemma user_out_mono:
  assumes "user_out w0 now user x w" "a < length (n_store (wn_node w))"
  shows "user_out w0 now user x (deauthorize_at now user a w)"
  using assms deauthorize_over_mono [OF assms(2)] by (auto simp: user_out_def DenyForServer_def)

lemma deauthorize_sweeps:
  assumes w: "sweeping w0 now user w" and b: "bags_ok w0" and a: "a < length (n_store (wn_node w0))"
  shows "sweeping w0 now user (deauthorize_at now user a w) \<and> user_out w0 now user a (deauthorize_at now user a w)"
proof -
  let ?w = "deauthorize_at now user a w"
  have a': "a < length (n_store (wn_node w))" using w a by (simp add: sweeping_def)
  have id: "server_ID (wn_node w) x = server_ID (wn_node w0) x" for x using w by (simp add: sweeping_def)
  have out: "user_out w0 now user a ?w"
  proof (cases "user_out w0 now user a w")
    case True
    then show ?thesis by (rule user_out_mono [OF _ a'])
  next
    case False
    then have same: "m_wsBag (at_server w a) = m_wsBag (at_server w0 a)" "m_sftpBag (at_server w a) = m_sftpBag (at_server w0 a)"
      using w by (auto simp: sweeping_def)
    have ne: "\<forall>(u, c) \<in> set (m_wsBag (at_server w0 a)). c \<noteq> []" "\<forall>(u, c) \<in> set (m_sftpBag (at_server w0 a)). c \<noteq> []"
      using b nth_mem [OF a] unfolding bags_ok_def list_all_iff by blast+
    have "ctx_over (n_ctxs (wn_node ?w)) c" if "(u, c) \<in> set (m_wsBag (at_server w0 a))" for u c
      using ne(1) that by (auto simp: deauthorize_ctxs [OF a'] same bag_CancelAll_def intro!: cb_Cancel_mono cancel_all_over)
    moreover have "ctx_over (n_ctxs (wn_node ?w)) c" if "map_of (m_sftpBag (at_server w0 a)) user = Some c" for c
      using ne(2) map_of_SomeD [OF that] that by (auto simp: deauthorize_ctxs [OF a'] same cb_Cancel_def intro!: ctx_over_cancel)
    ultimately show ?thesis by (auto simp: user_out_def DenyForServer_def id)
  qed
  have "user_out w0 now user x ?w \<or> m_wsBag (at_server ?w x) = m_wsBag (at_server w0 x) \<and> m_sftpBag (at_server ?w x) = m_sftpBag (at_server w0 x)" for x
  proof (cases "x = a")
    case False
    then show ?thesis using w user_out_mono [OF _ a', of w0 now user x] deauthorize_at_other(2) [OF a' False, of now user]
      unfolding sweeping_def by metis
  qed (simp add: out)
  then show ?thesis using w out deauthorize_at_other(1) [OF a', of now user] by (simp add: sweeping_def)
qed

lemma sweep_all:
  assumes "bags_ok w0" "\<forall>a \<in> set as. a < length (n_store (wn_node w0))"
  shows "sweeping w0 now user w \<Longrightarrow> sweeping w0 now user (fold (deauthorize_at now user) as w) \<and>
    (\<forall>x. x \<in> set as \<or> user_out w0 now user x w \<longrightarrow> user_out w0 now user x (fold (deauthorize_at now user) as w))"
  using assms(2)
proof (induction as arbitrary: w)
  case (Cons a as)
  have a: "a < length (n_store (wn_node w0))" "a < length (n_store (wn_node w))" using Cons.prems by (auto simp: sweeping_def)
  from deauthorize_sweeps [OF Cons.prems(1) assms(1) a(1)] Cons.IH [of "deauthorize_at now user a w"] Cons.prems(2)
    user_out_mono [OF _ a(2), of w0 now user]
  show ?case by auto
qed simp

text \<open>Looking the servers up one after the other is the same as doing it before.\<close>

definition named_servers :: "'e node \<Rightarrow> string list \<Rightarrow> nat list" where
  "named_servers n servers = List.map_filter (\<lambda>uuid. manager_Get uuid n) servers"

lemma in_map_filter: "y \<in> set (List.map_filter f xs) \<longleftrightarrow> (\<exists>x \<in> set xs. f x = Some y)"
  by (induction xs) (auto simp: map_filter_simps split: option.splits)

lemma manager_Get_cong:
  "n_servers n = n_servers m \<Longrightarrow> (\<And>x. server_ID n x = server_ID m x) \<Longrightarrow> manager_Get u n = manager_Get u m"
  by (simp add: manager_Get_def Find_def)

lemma named_fold:
  assumes "node_wf (wn_node w)"
  shows "fold (\<lambda>uuid wn. case manager_Get uuid (wn_node wn) of Some a \<Rightarrow> deauthorize_at now user a wn | None \<Rightarrow> wn) servers w =
    fold (deauthorize_at now user) (named_servers (wn_node w) servers) w"
  using assms
proof (induction servers arbitrary: w)
  case (Cons u us)
  show ?case
  proof (cases "manager_Get u (wn_node w)")
    case None
    then show ?thesis using Cons by (simp add: named_servers_def map_filter_simps)
  next
    case (Some a)
    let ?w = "deauthorize_at now user a w"
    have a: "a < length (n_store (wn_node w))" using manager_Get_Some [OF Some] Cons.prems by (auto simp: node_wf_def list_all_iff)
    have "manager_Get v (wn_node ?w) = manager_Get v (wn_node w)" for v
      by (rule manager_Get_cong) (simp_all add: deauthorize_at_other(1) [OF a])
    moreover have "node_wf (wn_node ?w)" using Cons.prems by (simp add: node_wf_def)
    ultimately show ?thesis using Cons.IH [of ?w] Some by (simp add: named_servers_def map_filter_simps)
  qed
qed (simp add: named_servers_def map_filter_simps)

section \<open>Properties\<close>

text \<open>C10: A deletion whose environment could be destroyed answers 204, and then the server is no longer in the manager
  while all others still are; its own context and all contexts derived from it (installation, SFTP sessions) are done, so is the
  context of every websocket it had; none of its remote downloads goes on, and the removal of its files has been started.
\<close>

theorem deleted_server_gone:
  assumes "ready a w" "\<forall>e. enc e \<noteq> None" "table_ok (wn_downloads w)"
    "fst (run_state (pf_destroy pf) (environment (m_srv (at_server w a)))) = None"
    "run_state (deleteServer pf enc reader a) w = (r, w')"
  shows "r = Some (Status 204) \<and> manager_Get (server_ID (wn_node w) a) (wn_node w') = None \<and>
    Keys (wn_node w') = filter (\<lambda>k. k \<noteq> server_ID (wn_node w) a) (Keys (wn_node w)) \<and>
    (\<forall>c. ctx_over (n_ctxs (wn_node w')) (c @ m_ctx (at_server w a))) \<and>
    (\<forall>(u, c) \<in> set (m_wsBag (at_server w a)). ctx_over (n_ctxs (wn_node w')) c) \<and>
    ByServer (server_ID (wn_node w) a) (wn_downloads w') = [] \<and> RemoveFilesJob a \<in> set (wn_jobs w')"
proof -
  have "r = Some (Status 204)" "gone w a w'"
    using tripleD [OF delete_result [OF assms(1) _ assms(3)] refl assms(5)] assms(2,4) by auto
  then show ?thesis by (auto simp: gone_def all_over_def manager_Get_None ctx_over_derived)
qed

text \<open>
  A deletion whose environment could not be destroyed is reported, but leaves the server in the manager with a
  destroyed power lock: the next action to stop or kill it brings the daemon down, deleting it again ends in a panic,
  and deleting it once more never ends.
\<close>

theorem failed_deletion_poisons:
  assumes "ready a w" "\<forall>e. enc e \<noteq> None" "table_ok (wn_downloads w)"
    "fst (run_state (pf_destroy pf) (environment (m_srv (at_server w a)))) = Some x"
    "busy_error (m_srv (at_server w a)) = (None :: 'x power_error option)"
    "run_state (deleteServer (pf :: ('e, 'x) platform) enc reader a) w = (r1, w1)"
    "run_state (deleteServer pf enc reader a) w1 = (r2, w2)"
    "run_state (deleteServer pf enc reader a) w2 = (r3, w3)"
  shows "r1 = Some (Aborted x) \<and> Keys (wn_node w1) = Keys (wn_node w) \<and>
    (\<exists>m. fst (run_state (run_power pf wr cx pick a PowerActionTerminate n) w1) = DaemonCrashes m) \<and>
    (\<exists>m. r2 = Some (Recovered m)) \<and> r3 = Some Hangs"
proof -
  have enc: "enc e \<noteq> None" for e using assms(2) by blast
  have 1: "r1 = Some (Aborted x)" "halfway w a w1" "\<not> m_stuck (at_server w1 a)"
    using tripleD [OF delete_result [OF assms(1) enc assms(3)] refl assms(6)] assms(4) by auto
  have ctx: "m_ctx (at_server w a) \<noteq> []" using assms(1) by (simp add: ready_def)
  have 2: "(\<exists>m. r2 = Some (Recovered m)) \<and> m_stuck (at_server w2 a) \<and> a < length (n_store (wn_node w2)) \<and> pools_open a w2 \<and>
      lock_dead (powerLock (m_srv (at_server w2 a))) \<and> m_ctx (at_server w2 a) \<noteq> [] \<and> m_wsBag (at_server w2 a) = []"
    using tripleD [OF delete_dead refl assms(7)] 1(2,3) enc ctx by (auto simp: halfway_def)
  then have 3: "r3 = Some Hangs" using tripleD [OF delete_dead refl assms(8)] enc by auto
  have "busy_error (m_srv (at_server w1 a)) = (None :: 'x power_error option)"
    using same_flags_busy 1(2) assms(5) by (metis halfway_def)
  then show ?thesis using 1 2 3 run_power_dead [of w1 a cx PowerActionTerminate n pf wr pick] by (auto simp: halfway_def)
qed

text \<open>A server for examples, with a websocket, a reader of its events, a running download and a lock that may be held.\<close>

definition example_managed :: "env_cell managed" where
  "example_managed = \<lparr>m_uuid = ''a'', m_srv = simple_server Running, m_ctx = [0], m_emitter = \<lparr>sinks = [Some 3]\<rparr>,
     m_logSink = NewSinkPool, m_installSink = NewSinkPool, m_wsBag = [(''ws'', [1])], m_sftpBag = [(''user'', [2, 0])], m_stuck = False\<rparr>"

definition example_web :: "env_cell web_node" where
  "example_web = \<lparr>wn_node = \<lparr>n_store = [example_managed, example_managed\<lparr>m_uuid := ''b'', m_ctx := [4]\<rparr>], n_servers = [0, 1],
       n_ctxs = \<lparr>next_ctx = 5, cancelled = []\<rparr>, n_chans = [3 \<mapsto> make_chan 1], n_states = None\<rparr>,
     wn_denials = booted_at 0, wn_downloads = dl_New ''d'' ''a'' no_downloads, wn_jobs = []\<rparr>"

definition destroying :: "string option \<Rightarrow> (env_cell, string) platform" where
  "destroying r = simple_platform\<lparr>pf_destroy := ret r\<rparr>"

lemma example_ready: "ready 0 example_web"
  by (simp add: ready_def example_web_def example_managed_def pools_open_def pool_inv_def open_chan_def make_chan_def chan_wf_def
      NewSinkPool_def simple_server_def server_New_def NewLocker_inv)

lemma example_table: "table_ok (wn_downloads example_web)"
  by (simp add: example_web_def dl_New_def track_ok no_downloads_ok)

theorem deleted_server_gone_witness:
  "case run_state (deleteServer (destroying None) (\<lambda>_. Some ''e'') (\<lambda>_. False) 0) example_web of (r, w') \<Rightarrow>
     r = Some (Status 204) \<and> Keys (wn_node w') = [''b''] \<and> ctx_over (n_ctxs (wn_node w')) [2, 0] \<and> ctx_over (n_ctxs (wn_node w')) [1] \<and>
     ByServer ''a'' (wn_downloads w') = []"
proof (cases "run_state (deleteServer (destroying None) (\<lambda>_. Some ''e'') (\<lambda>_. False) 0) example_web")
  case (Pair r w')
  have "fst (run_state (pf_destroy (destroying None)) (environment (m_srv (at_server example_web 0)))) = None"
    by (simp add: destroying_def)
  note gone = deleted_server_gone [OF example_ready _ example_table this Pair]
  have "\<forall>c. ctx_over (n_ctxs (wn_node w')) (c @ [0])" using gone by (simp add: example_web_def example_managed_def)
  from spec [OF this, of "[2]"] show ?thesis
    using gone Pair by (simp add: example_web_def example_managed_def Keys_def)
qed

theorem failed_deletion_poisons_witness:
  "\<exists>r1 w1 r2 w2 r3 w3 m. run_state (deleteServer (destroying (Some ''down'')) (\<lambda>_. Some ''e'') (\<lambda>_. False) 0) example_web = (r1, w1) \<and>
     run_state (deleteServer (destroying (Some ''down'')) (\<lambda>_. Some ''e'') (\<lambda>_. False) 0) w1 = (r2, w2) \<and>
     run_state (deleteServer (destroying (Some ''down'')) (\<lambda>_. Some ''e'') (\<lambda>_. False) 0) w2 = (r3, w3) \<and>
     r1 = Some (Aborted ''down'') \<and> Keys (wn_node w1) = [''a'', ''b''] \<and>
     fst (run_state (run_power (destroying (Some ''down'')) simple_world CtxLive 0 0 ''kill'' 0) w1) = DaemonCrashes m \<and> r3 = Some Hangs"
proof -
  let ?d = "run_state (deleteServer (destroying (Some ''down'')) (\<lambda>_. Some ''e'') (\<lambda>_. False) 0)"
  obtain r1 w1 r2 w2 r3 w3 where runs: "?d example_web = (r1, w1)" "?d w1 = (r2, w2)" "?d w2 = (r3, w3)" by force
  have x: "fst (run_state (pf_destroy (destroying (Some ''down''))) (environment (m_srv (at_server example_web 0)))) = Some ''down''"
    by (simp add: destroying_def)
  have b: "busy_error (m_srv (at_server example_web 0)) = (None :: string power_error option)"
    by (simp add: example_web_def example_managed_def simple_server_def server_New_def busy_error_def NewAtomic_def Load_def)
  show ?thesis
    using failed_deletion_poisons [OF example_ready _ example_table x b runs, of simple_world CtxLive 0 0] runs
    by (auto simp: example_web_def example_managed_def Keys_def)
qed

text \<open>A power action that waits for the lock of a server when the server is deleted ends the whole daemon: the
  deletion closes the channel that the action is about to send to.
\<close>

theorem deletion_crashes_waiting_action:
  assumes "ready a w" "\<forall>e. enc e \<noteq> None" "table_ok (wn_downloads w)"
    "fst (run_state (pf_destroy pf) (environment (m_srv (at_server w a)))) = None"
    "fst (run_state (run_power (pf :: ('e, 'x) platform) wr CtxLive pick a action n) w) = JobWaits"
    "run_state (deleteServer pf enc reader a) w = (r, w')"
  shows "\<exists>m. fst (run_state (run_power pf wr CtxLive pick a action n) w') = DaemonCrashes m"
proof -
  have g: "gone w a w'" using tripleD [OF delete_result [OF assms(1) _ assms(3)] refl assms(6)] assms(2,4) by auto
  have "busy_error (m_srv (at_server w a)) = (None :: 'x power_error option)"
    using assms(1,5) by (auto simp: run_power_def on_server_def HandlePowerAction_def ready_def split: option.splits)
  then have "busy_error (m_srv (at_server w' a)) = (None :: 'x power_error option)"
    using same_flags_busy g by (metis gone_def)
  then show ?thesis using run_power_dead [of w' a CtxLive action n pf wr pick] g by (auto simp: gone_def)
qed

definition held_web :: "env_cell web_node" where
  "held_web = upd_server 0 (\<lambda>s. s\<lparr>m_srv := (m_srv s)\<lparr>powerLock := \<lparr>ch = Some ((make_chan 1)\<lparr>cbuf := [True]\<rparr>)\<rparr>\<rparr>\<rparr>) example_web"

theorem deletion_crashes_waiting_action_witness:
  "\<exists>r w' m. run_state (deleteServer (destroying None) (\<lambda>_. Some ''e'') (\<lambda>_. False) 0) held_web = (r, w') \<and>
     fst (run_state (run_power (destroying None) simple_world CtxLive 0 0 ''stop'' 30) held_web) = JobWaits \<and>
     fst (run_state (run_power (destroying None) simple_world CtxLive 0 0 ''stop'' 30) w') = DaemonCrashes m"
proof -
  obtain r w' where run: "run_state (deleteServer (destroying None) (\<lambda>_. Some ''e'') (\<lambda>_. False) 0) held_web = (r, w')" by force
  have ready: "ready 0 held_web"
    using example_ready by (simp add: ready_def held_web_def at_upd_server pools_open_def locker_inv_def make_chan_def chan_wf_def)
  have table: "table_ok (wn_downloads held_web)" using example_table by (simp add: held_web_def)
  have env: "fst (run_state (pf_destroy (destroying None)) (environment (m_srv (at_server held_web 0)))) = None"
    by (simp add: destroying_def)
  have waits: "fst (run_state (run_power (destroying None) simple_world CtxLive 0 0 ''stop'' 30) held_web) = JobWaits"
    by (simp add: run_power_def on_server_def HandlePowerAction_def held_web_def upd_server_def example_web_def example_managed_def
        simple_server_def server_New_def busy_error_def NewAtomic_def Load_def TryAcquire_def chan_send_def make_chan_def)
  show ?thesis
    using deletion_crashes_waiting_action [OF ready _ table env waits run] run waits by blast
qed

text \<open>C14: After a user has been deauthorized, on the named servers or on all of them, no older token of the user is good for
  these servers, every websocket that was open there is cancelled, and so are the SFTP sessions of the user.
\<close>

theorem deauthorized_user_out:
  assumes "node_wf (wn_node w)" "bags_ok w" "run_state (postDeauthorizeUser now (Some (user, servers))) w = (r, w')"
    "manager_Get uuid (wn_node w) = Some a" "servers = [] \<or> uuid \<in> set servers"
    "ServerUUID p = uuid" "UserUUID p = user" "IssuedAt p = Some t" "t < now"
  shows "r = Some (Status 204) \<and> Denylisted (wn_denials w') p \<and>
    (\<forall>(u, c) \<in> set (m_wsBag (at_server w a)). ctx_over (n_ctxs (wn_node w')) c) \<and>
    (\<forall>c. map_of (m_sftpBag (at_server w a)) user = Some c \<longrightarrow> ctx_over (n_ctxs (wn_node w')) c)"
proof -
  let ?as = "if servers \<noteq> [] then named_servers (wn_node w) servers else n_servers (wn_node w)"
  have w': "r = Some (Status 204)" "w' = fold (deauthorize_at now user) ?as w"
    using assms(3) by (auto simp: postDeauthorizeUser_def and_then_def quietly_def named_fold [OF assms(1)] All_def split: if_splits)
  have lt: "\<forall>a \<in> set ?as. a < length (n_store (wn_node w))"
    using assms(1) manager_Get_Some [where n = "wn_node w"]
    by (auto simp: node_wf_def list_all_iff named_servers_def in_map_filter)
  have a: "a \<in> set ?as"
  proof (cases "servers = []")
    case False
    then have "uuid \<in> set servers" using assms(5) by simp
    then show ?thesis using False assms(4) by (auto simp: named_servers_def in_map_filter)
  qed (use manager_Get_Some [OF assms(4)] in simp)
  have "sweeping w now user w" by (simp add: sweeping_def)
  from sweep_all [OF assms(2) lt this] a have out: "user_out w now user a w'" unfolding w'(2) by blast
  have "server_ID (wn_node w) a = uuid" using manager_Get_Some [OF assms(4)] by simp
  then have "Denylisted (wn_denials w') p"
    using out assms(6-9) by (auto simp: user_out_def Denylisted_def before_def)
  with out w'(1) show ?thesis by (simp add: user_out_def)
qed

theorem deauthorized_user_out_witness:
  "case run_state (postDeauthorizeUser 100 (Some (''user'', [''a'']))) example_web of (r, w') \<Rightarrow>
     (r :: string answer option) = Some (Status 204) \<and> ctx_over (n_ctxs (wn_node w')) [2, 0] \<and>
     Denylisted (wn_denials w') (any_user\<lparr>ServerUUID := ''a'', UserUUID := ''user'', IssuedAt := Some 50\<rparr>)"
proof (cases "run_state (postDeauthorizeUser 100 (Some (''user'', [''a'']))) example_web :: string answer option \<times> env_cell web_node")
  case (Pair r w')
  have wf: "node_wf (wn_node example_web)" "bags_ok example_web" "manager_Get ''a'' (wn_node example_web) = Some 0"
    by (simp_all add: example_web_def node_wf_def bags_ok_def example_managed_def manager_Get_def Find_def)
  from deauthorized_user_out [OF wf(1,2) Pair wf(3), of "any_user\<lparr>ServerUUID := ''a'', UserUUID := ''user'', IssuedAt := Some 50\<rparr>" 50]
  show ?thesis using Pair by (simp add: example_web_def example_managed_def)
qed

text \<open>Synchronising a server that the panel has suspended cancels every connection to it.\<close>

theorem suspended_server_disconnected:
  assumes "bags_ok w" "a < length (n_store (wn_node w))" "r_sync wr = SyncSettings c" "suspended c"
    "run_state (node_Sync pf wr a) w = (r, w')"
  shows "r = None \<and> m_wsBag (at_server w' a) = [] \<and> m_sftpBag (at_server w' a) = [] \<and>
    (\<forall>(u, x) \<in> set (m_wsBag (at_server w a)) \<union> set (m_sftpBag (at_server w a)). ctx_over (n_ctxs (wn_node w')) x)"
proof -
  have ne: "\<forall>(u, c) \<in> set (m_wsBag (at_server w a)). c \<noteq> []" "\<forall>(u, c) \<in> set (m_sftpBag (at_server w a)). c \<noteq> []"
    using assms(1) nth_mem [OF assms(2)] unfolding bags_ok_def list_all_iff by blast+
  obtain s where s: "run_state (Sync (pf_backend pf) wr) (m_srv (at_server w a)) = (None, s)" "suspended (cfg s)"
    using assms(3,4) by (cases "b_state (pf_backend pf) (environment (m_srv (at_server w a))) = Offline")
      (auto simp: Sync_def SyncWithEnvironment_def emit_def if_st_def)
  let ?F = "fold (\<lambda>(_, c). cancel_ctx c)"
  have over: "ctx_over (?F (m_sftpBag (at_server w a)) (?F (m_wsBag (at_server w a)) (n_ctxs (wn_node w)))) x"
    if "(u, x) \<in> set (m_wsBag (at_server w a)) \<union> set (m_sftpBag (at_server w a))" for u x
    using ne that cancel_all_mono [OF cancel_all_over [of u x "m_wsBag (at_server w a)"]] cancel_all_over [of u x "m_sftpBag (at_server w a)"]
    by auto
  have "r = None \<and> m_wsBag (at_server w' a) = [] \<and> m_sftpBag (at_server w' a) = [] \<and>
      n_ctxs (wn_node w') = ?F (m_sftpBag (at_server w a)) (?F (m_wsBag (at_server w a)) (n_ctxs (wn_node w)))"
    using assms(2,5) s
    by (auto simp: node_Sync_def on_server_def at_upd_server cancel_sockets_def cancel_sftp_def bag_CancelAll_def cb_CancelAll_def)
  with over show ?thesis by (metis (no_types, lifting) case_prodI2)
qed

text \<open>A creation is not refused for a server the node has already: the manager then keeps two with one identifier.\<close>

lemma create_makes_duplicate:
  assumes "uuid4 uuid" "loadable (True, d) = Some uuid" "node_wf (wn_node w)"
  shows "Keys (wn_node (snd (run_state (postCreateServer uuid4 (Inr d) (Some (uuid, b))) w))) = Keys (wn_node w) @ [uuid]"
proof -
  obtain c e where d: "sd_config d = Some (uuid, c)" "sd_fs d = None" "sd_env d = Inr e"
    using assms(2) by (cases "sd_env d") (auto simp: loadable_def split: if_splits)
  then show ?thesis
    using assms(1,3)
    by (auto simp: postCreateServer_def installer_New_def InitServer_def manager_Add_def spawn_def Keys_def node_wf_def list_all_iff nth_append
        server_New'_def WithCancel_def split: prod.splits)
qed

lemma log_lines_bounds: "1 \<le> log_lines q \<and> log_lines q \<le> 100"
  by (simp add: log_lines_def Let_def)

lemma power_wait_bounds: "0 \<le> wait_clamp n \<and> wait_clamp n \<le> 300"
  by (simp add: wait_clamp_def)

end
