(* ===== verification/Panel_Client.thy ===== *)
theory Panel_Client
  imports Go_Strings Effects "HOL-Library.Multiset"
begin

text \<open>
  The client of the panel, \<^verbatim>\<open>remote/http.go\<close>, \<^verbatim>\<open>remote/servers.go\<close> and \<^verbatim>\<open>remote/errors.go\<close>: how a request is
  put together, when it is tried again, what becomes of an answer, and the calls the daemon makes. The network,
  JSON and the library that spaces the attempts are parameters.
\<close>

section \<open>Requests and answers\<close>

record panel_client =
  baseUrl :: string
  tokenId :: string
  token :: string
  version :: string

record http_request =
  rq_method :: string
  rq_url :: string
  rq_headers :: "(string \<times> string) list"
  rq_query :: "(string \<times> string) list"
  rq_body :: string

record http_response =
  rs_status :: int
  rs_body :: string

datatype net_error = NetCanceled | NetDeadline | NetOther string

text \<open>\<open>RequestError\<close> has the code and the detail of the panel, and the status of the response.\<close>

datatype remote_error =
  RequestError string string int | NetworkError net_error | BadRequest string | JsonError | BackoffEnded | InvalidCredentials

text \<open>
  What stands around the client: the network, which may fail; whether a URL is good; the errors in a body,
  the empty list when there are none to be read; how many times the back-off lets a request be tried again and
  whether it ends because the context is done.
\<close>

record 'w panel_env =
  px_net :: "http_request \<Rightarrow> 'w \<Rightarrow> (net_error + http_response) \<times> 'w"
  px_url :: "string \<Rightarrow> string option"
  px_errors :: "string \<Rightarrow> (string \<times> string) list"
  px_retries :: nat
  px_done :: bool

record 'w panel_net =
  pn_world :: 'w
  pn_sent :: "http_request list"

definition client_New :: "string \<Rightarrow> string \<Rightarrow> string \<Rightarrow> string \<Rightarrow> panel_client" where
  "client_New base i t v = \<lparr>baseUrl = TrimSuffix base ''/'' @ ''/api/remote'', tokenId = i, token = t, version = v\<rparr>"

definition HasError :: "http_response \<Rightarrow> bool" where
  "HasError r \<longleftrightarrow> rs_status r \<ge> 300 \<or> rs_status r < 200"

definition response_Error :: "'w panel_env \<Rightarrow> http_response \<Rightarrow> remote_error option" where
  "response_Error x r =
     (if \<not> HasError r then None
      else (case px_errors x (rs_body r) of
              (code, detail) # _ \<Rightarrow> Some (RequestError code detail (rs_status r))
            | [] \<Rightarrow> Some (RequestError ''_MissingResponseCode'' ''No error response returned from API endpoint.'' (rs_status r))))"

fun AsRequestError :: "remote_error \<Rightarrow> int option" where
  "AsRequestError (RequestError _ _ s) = Some s"
| "AsRequestError _ = None"

definition IsRequestError :: "remote_error \<Rightarrow> bool" where
  "IsRequestError e \<longleftrightarrow> AsRequestError e \<noteq> None"

section \<open>Sending\<close>

definition make_request :: "panel_client \<Rightarrow> string \<Rightarrow> string \<Rightarrow> (string \<times> string) list \<Rightarrow> string \<Rightarrow> http_request" where
  "make_request c method p query body =
     \<lparr>rq_method = method, rq_url = baseUrl c @ p,
      rq_headers = [(''User-Agent'', ''Pterodactyl Wings/v'' @ version c @ '' (id:'' @ tokenId c @ '')''),
        (''Accept'', ''application/vnd.pterodactyl.v1+json''), (''Content-Type'', ''application/json''),
        (''Authorization'', ''Bearer '' @ tokenId c @ ''.'' @ token c)],
      rq_query = query, rq_body = body\<rparr>"

definition requestOnce :: "panel_client \<Rightarrow> 'w panel_env \<Rightarrow> string \<Rightarrow> string \<Rightarrow> (string \<times> string) list \<Rightarrow> string
    \<Rightarrow> ('w panel_net, remote_error + http_response) state" where
  "requestOnce c x method p query body =
     (case px_url x (baseUrl c @ p) of
        Some e \<Rightarrow> ret (Inl (BadRequest e))
      | None \<Rightarrow> State (\<lambda>s.
          let rq = make_request c method p query body
          in case px_net x rq (pn_world s) of (r, w) \<Rightarrow>
               (map_sum NetworkError id r, s\<lparr>pn_world := w, pn_sent := pn_sent s @ [rq]\<rparr>)))"

text \<open>The outcome of one attempt, as the operation reports it to the back-off.\<close>

datatype attempt = Done http_response | Permanent remote_error | Again remote_error

definition judge :: "'w panel_env \<Rightarrow> remote_error + http_response \<Rightarrow> attempt" where
  "judge x r =
     (case r of
        Inl e \<Rightarrow> if e = NetworkError NetCanceled \<or> e = NetworkError NetDeadline then Permanent e else Again e
      | Inr res \<Rightarrow>
          (case response_Error x res of
             None \<Rightarrow> Done res
           | Some e \<Rightarrow> if rs_status res \<ge> 400 \<and> rs_status res < 500 then Permanent e else Again e))"

text \<open>\<^verbatim>\<open>backoff.Retry\<close> with so many retries left; when they are used up the last error is returned, or that of the context.\<close>

fun retry :: "bool \<Rightarrow> nat \<Rightarrow> ('s, attempt) state \<Rightarrow> ('s, remote_error + http_response) state" where
  "retry over n m = do {
     a \<leftarrow> m;
     (case a of
        Done r \<Rightarrow> ret (Inr r)
      | Permanent e \<Rightarrow> ret (Inl e)
      | Again e \<Rightarrow> (case n of 0 \<Rightarrow> ret (Inl (if over then BackoffEnded else e)) | Suc k \<Rightarrow> retry over k m))
   }"

declare retry.simps [simp del]

definition request :: "panel_client \<Rightarrow> 'w panel_env \<Rightarrow> string \<Rightarrow> string \<Rightarrow> (string \<times> string) list \<Rightarrow> string
    \<Rightarrow> ('w panel_net, remote_error + http_response) state" where
  "request c x method p query body =
     retry (px_done x) (px_retries x) (do { r \<leftarrow> requestOnce c x method p query body; ret (judge x r) })"

definition client_Get :: "panel_client \<Rightarrow> 'w panel_env \<Rightarrow> string \<Rightarrow> (string \<times> string) list \<Rightarrow> ('w panel_net, remote_error + http_response) state" where
  "client_Get c x p query = request c x ''GET'' p query []"

text \<open>\<open>data\<close> is the JSON of what is posted, \<open>None\<close> when it cannot be encoded.\<close>

definition client_Post :: "panel_client \<Rightarrow> 'w panel_env \<Rightarrow> string \<Rightarrow> string option \<Rightarrow> ('w panel_net, remote_error + http_response) state" where
  "client_Post c x p data = (case data of None \<Rightarrow> ret (Inl JsonError) | Some b \<Rightarrow> request c x ''POST'' p [] b)"

definition BindJSON :: "(string \<Rightarrow> 'v option) \<Rightarrow> http_response \<Rightarrow> remote_error + 'v" where
  "BindJSON dec r = (case dec (rs_body r) of None \<Rightarrow> Inl JsonError | Some v \<Rightarrow> Inr v)"

section \<open>The calls\<close>

definition fetch_json :: "(string \<Rightarrow> 'v option) \<Rightarrow> ('w panel_net, remote_error + http_response) state \<Rightarrow> ('w panel_net, remote_error + 'v) state" where
  "fetch_json dec m = do { r \<leftarrow> m; ret (case r of Inl e \<Rightarrow> Inl e | Inr res \<Rightarrow> BindJSON dec res) }"

definition tell_panel :: "('w panel_net, remote_error + http_response) state \<Rightarrow> ('w panel_net, remote_error option) state" where
  "tell_panel m = do { r \<leftarrow> m; ret (case r of Inl e \<Rightarrow> Some e | Inr _ \<Rightarrow> None) }"

definition ResetServersState :: "panel_client \<Rightarrow> 'w panel_env \<Rightarrow> ('w panel_net, remote_error option) state" where
  "ResetServersState c x = tell_panel (client_Post c x ''/servers/reset'' (Some ''null''))"

definition GetServerConfiguration :: "panel_client \<Rightarrow> 'w panel_env \<Rightarrow> (string \<Rightarrow> 'v option) \<Rightarrow> string \<Rightarrow> ('w panel_net, remote_error + 'v) state" where
  "GetServerConfiguration c x dec uuid = fetch_json dec (client_Get c x (''/servers/'' @ uuid) [])"

definition GetInstallationScript :: "panel_client \<Rightarrow> 'w panel_env \<Rightarrow> (string \<Rightarrow> 'v option) \<Rightarrow> string \<Rightarrow> ('w panel_net, remote_error + 'v) state" where
  "GetInstallationScript c x dec uuid = fetch_json dec (client_Get c x (''/servers/'' @ uuid @ ''/install'') [])"

definition json_bool :: "bool \<Rightarrow> string" where
  "json_bool b = (if b then ''true'' else ''false'')"

definition json_key :: "string \<Rightarrow> string \<Rightarrow> string" where
  "json_key k v = CHR 0x22 # k @ CHR 0x22 # CHR '':'' # v"

definition SetInstallationStatus :: "panel_client \<Rightarrow> 'w panel_env \<Rightarrow> string \<Rightarrow> bool \<Rightarrow> bool \<Rightarrow> ('w panel_net, remote_error option) state" where
  "SetInstallationStatus c x uuid successful reinstall = tell_panel (client_Post c x (''/servers/'' @ uuid @ ''/install'')
     (Some (''{'' @ json_key ''successful'' (json_bool successful) @ '','' @ json_key ''reinstall'' (json_bool reinstall) @ ''}'')))"

definition SetArchiveStatus :: "panel_client \<Rightarrow> 'w panel_env \<Rightarrow> string \<Rightarrow> bool \<Rightarrow> ('w panel_net, remote_error option) state" where
  "SetArchiveStatus c x uuid successful = tell_panel (client_Post c x (''/servers/'' @ uuid @ ''/archive'')
     (Some (''{'' @ json_key ''successful'' (json_bool successful) @ ''}'')))"

definition SetTransferStatus :: "panel_client \<Rightarrow> 'w panel_env \<Rightarrow> string \<Rightarrow> bool \<Rightarrow> ('w panel_net, remote_error option) state" where
  "SetTransferStatus c x uuid successful =
     tell_panel (client_Post c x (''/servers/'' @ uuid @ ''/transfer/'' @ (if successful then ''success'' else ''failure'')) (Some ''null''))"

definition SendRestorationStatus :: "panel_client \<Rightarrow> 'w panel_env \<Rightarrow> string \<Rightarrow> bool \<Rightarrow> ('w panel_net, remote_error option) state" where
  "SendRestorationStatus c x backup successful = tell_panel (client_Post c x (''/backups/'' @ backup @ ''/restore'')
     (Some (''{'' @ json_key ''successful'' (json_bool successful) @ ''}'')))"

definition SetBackupStatus :: "panel_client \<Rightarrow> 'w panel_env \<Rightarrow> string \<Rightarrow> string option \<Rightarrow> ('w panel_net, remote_error option) state" where
  "SetBackupStatus c x backup data = tell_panel (client_Post c x (''/backups/'' @ backup) data)"

definition GetBackupRemoteUploadURLs :: "panel_client \<Rightarrow> 'w panel_env \<Rightarrow> (string \<Rightarrow> 'v option) \<Rightarrow> string \<Rightarrow> int \<Rightarrow> ('w panel_net, remote_error + 'v) state" where
  "GetBackupRemoteUploadURLs c x dec backup sz = fetch_json dec (client_Get c x (''/backups/'' @ backup) [(''size'', Itoa sz)])"

definition ValidateSftpCredentials :: "panel_client \<Rightarrow> 'w panel_env \<Rightarrow> (string \<Rightarrow> 'v option) \<Rightarrow> string option \<Rightarrow> ('w panel_net, remote_error + 'v) state" where
  "ValidateSftpCredentials c x dec credentials = do {
     r \<leftarrow> client_Post c x ''/sftp/auth'' credentials;
     ret (case r of
       Inl e \<Rightarrow> Inl (case AsRequestError e of Some s \<Rightarrow> if s \<ge> 400 \<and> s < 500 then InvalidCredentials else e | None \<Rightarrow> e)
     | Inr res \<Rightarrow> BindJSON dec res)
   }"

subsection \<open>All servers, page by page\<close>

record pagination =
  CurrentPage :: nat
  LastPage :: nat

definition getServersPaged :: "panel_client \<Rightarrow> 'w panel_env \<Rightarrow> (string \<Rightarrow> ('v list \<times> pagination) option) \<Rightarrow> nat \<Rightarrow> nat
    \<Rightarrow> ('w panel_net, remote_error + 'v list \<times> pagination) state" where
  "getServersPaged c x dec page limit =
     fetch_json dec (client_Get c x ''/servers'' [(''page'', Itoa (int page)), (''per_page'', Itoa (int limit))])"

text \<open>
  The other pages are fetched by a group of goroutines; \<open>sched\<close> is the order in which their answers come in. A failed
  one makes the whole call fail, with the error that came first.
\<close>

fun fetch_pages_in :: "panel_client \<Rightarrow> 'w panel_env \<Rightarrow> (string \<Rightarrow> ('v list \<times> pagination) option) \<Rightarrow> nat \<Rightarrow> nat list \<Rightarrow> 'v list \<Rightarrow> remote_error option
    \<Rightarrow> ('w panel_net, remote_error + 'v list) state" where
  "fetch_pages_in c x dec limit [] servers err = ret (case err of Some e \<Rightarrow> Inl e | None \<Rightarrow> Inr servers)"
| "fetch_pages_in c x dec limit (p # ps) servers err = do {
     r \<leftarrow> getServersPaged c x dec p limit;
     (case r of
        Inl e \<Rightarrow> fetch_pages_in c x dec limit ps servers (if err = None then Some e else err)
      | Inr (ss, _) \<Rightarrow> fetch_pages_in c x dec limit ps (servers @ ss) err)
   }"

definition pages_left :: "pagination \<Rightarrow> nat list" where
  "pages_left m = (if LastPage m > 1 then [Suc (CurrentPage m)..<Suc (LastPage m)] else [])"

definition GetServers :: "panel_client \<Rightarrow> 'w panel_env \<Rightarrow> (string \<Rightarrow> ('v list \<times> pagination) option) \<Rightarrow> (nat list \<Rightarrow> nat list) \<Rightarrow> nat
    \<Rightarrow> ('w panel_net, remote_error + 'v list) state" where
  "GetServers c x dec sched limit = do {
     r \<leftarrow> getServersPaged c x dec 0 limit;
     (case r of
        Inl e \<Rightarrow> ret (Inl e)
      | Inr (servers, meta) \<Rightarrow> fetch_pages_in c x dec limit (sched (pages_left meta)) servers None)
   }"

section \<open>When a request is tried again\<close>

text \<open>The first \<open>n\<close> answers of the network to a request that is sent over and over.\<close>

fun answers :: "'w panel_env \<Rightarrow> http_request \<Rightarrow> nat \<Rightarrow> 'w \<Rightarrow> (net_error + http_response) list" where
  "answers x rq 0 w = []"
| "answers x rq (Suc n) w = (case px_net x rq w of (a, w') \<Rightarrow> a # answers x rq n w')"

lemma answers_length [simp]: "length (answers x rq n w) = n"
  by (induction n arbitrary: w) (auto split: prod.splits)

definition verdict :: "'w panel_env \<Rightarrow> net_error + http_response \<Rightarrow> attempt" where
  "verdict x a = judge x (map_sum NetworkError id a)"

text \<open>What the caller gets when the last of the attempts ended so.\<close>

fun outcome_of :: "bool \<Rightarrow> attempt \<Rightarrow> remote_error + http_response" where
  "outcome_of over (Done r) = Inr r"
| "outcome_of over (Permanent e) = Inl e"
| "outcome_of over (Again e) = Inl (if over then BackoffEnded else e)"

definition is_Again :: "attempt \<Rightarrow> bool" where
  "is_Again a = (case a of Again _ \<Rightarrow> True | _ \<Rightarrow> False)"

text \<open>The answers after which a request is worth another attempt, and those that are good.\<close>

definition transient :: "net_error + http_response \<Rightarrow> bool" where
  "transient a = (case a of
     Inl e \<Rightarrow> e \<noteq> NetCanceled \<and> e \<noteq> NetDeadline
   | Inr r \<Rightarrow> rs_status r < 200 \<or> 300 \<le> rs_status r \<and> rs_status r < 400 \<or> 500 \<le> rs_status r)"

definition success :: "net_error + http_response \<Rightarrow> http_response option" where
  "success a = (case a of Inl _ \<Rightarrow> None | Inr r \<Rightarrow> if 200 \<le> rs_status r \<and> rs_status r < 300 then Some r else None)"

lemma response_Error_None: "response_Error x r = None \<longleftrightarrow> 200 \<le> rs_status r \<and> rs_status r < 300"
  by (auto simp: response_Error_def HasError_def split: list.splits)

lemma verdict_transient: "is_Again (verdict x a) \<longleftrightarrow> transient a"
proof (cases a)
  case (Inl e)
  then show ?thesis by (auto simp: is_Again_def verdict_def judge_def transient_def)
next
  case (Inr r)
  then show ?thesis
    using response_Error_None [of x r] by (auto simp: is_Again_def verdict_def judge_def transient_def split: option.splits)
qed

lemma verdict_success: "outcome_of over (verdict x a) = Inr r \<longleftrightarrow> success a = Some r"
proof (cases a)
  case (Inl e)
  then show ?thesis by (auto simp: verdict_def judge_def success_def)
next
  case (Inr res)
  then show ?thesis using response_Error_None [of x res] by (auto simp: verdict_def judge_def success_def split: option.splits)
qed

definition tried :: "'w panel_env \<Rightarrow> http_request \<Rightarrow> nat \<Rightarrow> 'w \<Rightarrow> (net_error + http_response) list \<Rightarrow> bool" where
  "tried x rq n w as \<longleftrightarrow> as \<noteq> [] \<and> length as \<le> Suc n \<and> as = answers x rq (length as) w \<and>
     (\<forall>a \<in> set (butlast as). transient a) \<and> (transient (last as) \<longrightarrow> length as = Suc n)"

lemma tried_Cons:
  assumes "px_net x rq w = (a, w')" "transient a" "tried x rq n w' as"
  shows "tried x rq (Suc n) w (a # as)"
  using assms by (auto simp: tried_def)

lemma tried_one:
  "px_net x rq w = (a, w') \<Longrightarrow> (transient a \<longrightarrow> n = 0) \<Longrightarrow> tried x rq n w [a]"
  by (auto simp: tried_def)

lemma retry_tried:
  fixes meth body p :: string and query :: "(string \<times> string) list" and c :: panel_client
  assumes "px_url x (baseUrl c @ p) = None"
  defines "rq \<equiv> make_request c meth p query body"
  shows "run_state (retry over n (do { r \<leftarrow> requestOnce c x meth p query body; ret (judge x r) })) s = (r, s') \<Longrightarrow>
    \<exists>as. tried x rq n (pn_world s) as \<and> pn_sent s' = pn_sent s @ replicate (length as) rq \<and> r = outcome_of over (verdict x (last as))"
proof (induction n arbitrary: s)
  case (0 s)
  obtain a w where a: "px_net x rq (pn_world s) = (a, w)" by force
  have "pn_sent s' = pn_sent s @ [rq] \<and> r = outcome_of over (verdict x a)"
    using 0 a assms(1)
    by (cases "verdict x a") (auto simp: retry.simps requestOnce_def rq_def [symmetric] Let_def verdict_def)
  moreover have "tried x rq 0 (pn_world s) [a]" using a by (rule tried_one) simp
  ultimately show ?case by (intro exI [of _ "[a]"]) simp
next
  case (Suc n s)
  obtain a w where a: "px_net x rq (pn_world s) = (a, w)" by force
  let ?t = "s\<lparr>pn_world := w, pn_sent := pn_sent s @ [rq]\<rparr>"
  show ?case
  proof (cases "transient a")
    case True
    then have "is_Again (verdict x a)" by (simp add: verdict_transient)
    then have "run_state (retry over n (do { r \<leftarrow> requestOnce c x meth p query body; ret (judge x r) })) ?t = (r, s')"
      using Suc.prems a assms(1)
      by (cases "verdict x a") (auto simp: retry.simps [of over "Suc n"] requestOnce_def rq_def [symmetric] Let_def verdict_def is_Again_def)
    from Suc.IH [OF this] obtain as where as: "tried x rq n w as" "pn_sent s' = pn_sent s @ rq # replicate (length as) rq"
      "r = outcome_of over (verdict x (last as))" by auto
    then have "as \<noteq> []" by (simp add: tried_def)
    with as tried_Cons [OF a True as(1)] show ?thesis by (intro exI [of _ "a # as"]) simp
  next
    case False
    then have "\<not> is_Again (verdict x a)" by (simp add: verdict_transient)
    then have "s' = ?t \<and> r = outcome_of over (verdict x a)"
      using Suc.prems a assms(1)
      by (cases "verdict x a") (auto simp: retry.simps [of over "Suc n"] requestOnce_def rq_def [symmetric] Let_def verdict_def is_Again_def)
    with tried_one [OF a, of "Suc n"] False show ?thesis by (intro exI [of _ "[a]"]) simp
  qed
qed


text \<open>A panel that fails with 502 twice, and then answers.\<close>

definition flaky_panel :: "nat panel_env" where
  "flaky_panel = \<lparr>px_net = (\<lambda>_ n. (Inr \<lparr>rs_status = (if n < 2 then 502 else 200), rs_body = ''ok''\<rparr>, Suc n)), px_url = (\<lambda>_. None),
     px_errors = (\<lambda>_. []), px_retries = Suc (Suc (Suc 0)), px_done = False\<rparr>"


section \<open>All pages or none\<close>

lemma fetch_pages_all:
  assumes "\<And>p s. fst (run_state (getServersPaged c x dec p limit) s) = ans p"
  shows "fst (run_state (fetch_pages_in c x dec limit ps servers err) s) =
    (case err of Some e \<Rightarrow> Inl e
     | None \<Rightarrow> (case List.find (\<lambda>p. isl (ans p)) ps of
                 Some p \<Rightarrow> Inl (projl (ans p))
               | None \<Rightarrow> Inr (servers @ concat (map (\<lambda>p. fst (projr (ans p))) ps))))"
proof (induction ps arbitrary: servers err s)
  case (Cons p ps)
  obtain r s' where run: "run_state (getServersPaged c x dec p limit) s = (r, s')" by force
  then have "r = ans p" using assms [of p s] by simp
  then show ?case using run Cons.IH by (cases "ans p") (auto split: option.splits)
qed (simp split: option.splits)

text \<open>When the answer of the panel to a page does not change meanwhile, asking for all servers gives the servers of all
  pages, each page once, in whatever order the concurrent requests end; and if any page fails the call fails, so a
  partial list is never taken for the whole.
\<close>

theorem all_servers_or_error:
  assumes "\<forall>p s. fst (run_state (getServersPaged c x dec p limit) s) = ans p" "\<forall>ps. mset (sched ps) = mset ps"
  shows "case ans 0 of
      Inl e \<Rightarrow> fst (run_state (GetServers c x dec sched limit) s) = Inl e
    | Inr (ss, meta) \<Rightarrow>
        if \<exists>p \<in> set (pages_left meta). isl (ans p)
        then \<exists>e. fst (run_state (GetServers c x dec sched limit) s) = Inl e
        else \<exists>all. fst (run_state (GetServers c x dec sched limit) s) = Inr all \<and>
          mset all = mset ss + (\<Sum>p \<in># mset (pages_left meta). mset (fst (projr (ans p))))"
proof -
  obtain r s' where run: "run_state (getServersPaged c x dec 0 limit) s = (r, s')" by force
  then have r: "r = ans 0" using assms(1) by (metis fst_conv)
  have sets: "set (sched ps) = set ps" for ps using assms(2) by (metis set_mset_mset)
  have sum: "mset (concat (map f ps)) = (\<Sum>p \<in># mset ps. mset (f p))" for f :: "nat \<Rightarrow> 'c list" and ps
    by (induction ps) auto
  note all = fetch_pages_all [where ans = ans and err = None, OF assms(1) [rule_format]]
  show ?thesis
  proof (cases "ans 0")
    case (Inl e)
    then show ?thesis using run r by (simp add: GetServers_def)
  next
    case (Inr v)
    obtain ss meta where v: "v = (ss, meta)" by force
    let ?ps = "sched (pages_left meta)"
    have g: "fst (run_state (GetServers c x dec sched limit) s) = fst (run_state (fetch_pages_in c x dec limit ?ps ss None) s')"
      using run r Inr v by (simp add: GetServers_def)
    show ?thesis
    proof (cases "\<exists>p \<in> set (pages_left meta). isl (ans p)")
      case True
      then have "List.find (\<lambda>p. isl (ans p)) ?ps \<noteq> None" by (auto simp: find_None_iff sets)
      then show ?thesis using Inr v True g all [of ?ps ss s'] by auto
    next
      case False
      then have "List.find (\<lambda>p. isl (ans p)) ?ps = None" by (auto simp: find_None_iff sets)
      then show ?thesis
        using Inr v False g all [of ?ps ss s'] assms(2) by (auto simp: sum)
    qed
  qed
qed

definition paged_panel :: "unit panel_env" where
  "paged_panel = \<lparr>px_net = (\<lambda>rq w. (Inr \<lparr>rs_status = 200, rs_body = snd (hd (rq_query rq))\<rparr>, w)), px_url = (\<lambda>_. None),
     px_errors = (\<lambda>_. []), px_retries = 0, px_done = False\<rparr>"

definition paged_dec :: "string \<Rightarrow> (string list \<times> pagination) option" where
  "paged_dec b = Some ((if b = ''0'' then [''a'', ''b''] else if b = ''2'' then [''c''] else if b = ''3'' then [''d''] else []),
     \<lparr>CurrentPage = 1, LastPage = 3\<rparr>)"

theorem all_servers_or_error_witness:
  "\<exists>all. fst (run_state (GetServers (client_New ''https://panel'' ''id'' ''key'' ''1'') paged_panel paged_dec rev 2) \<lparr>pn_world = (), pn_sent = []\<rparr>) = Inr all \<and>
     mset all = {#''a'', ''b'', ''c'', ''d''#}"
proof -
  let ?c = "client_New ''https://panel'' ''id'' ''key'' ''1''"
  define ans :: "nat \<Rightarrow> remote_error + string list \<times> pagination" where "ans p = Inr (the (paged_dec (Itoa (int p))))" for p
  have a: "\<forall>p s. fst (run_state (getServersPaged ?c paged_panel paged_dec p 2) s) = ans p"
    by (simp add: getServersPaged_def fetch_json_def client_Get_def request_def paged_panel_def retry.simps [of _ 0] requestOnce_def Let_def
        make_request_def judge_def response_Error_def HasError_def BindJSON_def paged_dec_def ans_def)
  have "Itoa 0 = ''0''" "Itoa 2 = ''2''" "Itoa 3 = ''3''" by code_simp+
  moreover have pages: "pages_left \<lparr>CurrentPage = 1, LastPage = 3\<rparr> = [2, 3]" by code_simp
  ultimately have v: "ans 0 = Inr ([''a'', ''b''], \<lparr>CurrentPage = 1, LastPage = 3\<rparr>)" "fst (projr (ans 2)) = [''c'']" "fst (projr (ans 3)) = [''d'']"
    "\<not> isl (ans 2)" "\<not> isl (ans 3)"
    by (simp_all add: ans_def paged_dec_def)
  show ?thesis
    using all_servers_or_error [OF a, of rev "\<lparr>pn_world = (), pn_sent = []\<rparr>"] by (simp add: v pages [simplified] add_mset_commute)
qed

text \<open>Every 4xx answer to a login, also that the panel is asked too often, is reported as wrong credentials, after one attempt.\<close>

lemma throttled_login_invalid:
  assumes "px_url x (baseUrl c @ ''/sftp/auth'') = None" "\<And>rq w. px_net x rq w = (Inr \<lparr>rs_status = 429, rs_body = b\<rparr>, w)"
  shows "fst (run_state (ValidateSftpCredentials c x dec (Some cred)) s) = Inl InvalidCredentials"
  using assms
  by (cases "px_errors x b")
     (auto simp: ValidateSftpCredentials_def client_Post_def request_def retry.simps [of _ "px_retries x"] requestOnce_def Let_def judge_def
       response_Error_def HasError_def)

text \<open>An answer that is neither an error of the server nor of the client is tried again as well.\<close>

lemma redirect_retried: "is_Again (verdict x (Inr \<lparr>rs_status = 304, rs_body = b\<rparr>))"
  by (auto simp: is_Again_def verdict_def judge_def response_Error_def HasError_def split: list.splits prod.splits)

end
