(* ===== verification/Node_Config.thy ===== *)
theory Node_Config
  imports File_Requests
begin

text \<open>
  The configuration of the daemon, \<^verbatim>\<open>config/config.go\<close>: reading and writing it, the token that authenticates the
  panel, and what the daemon prepares on the system when it starts. The operating system, YAML and the user
  database are parameters.
\<close>

section \<open>The configuration\<close>

record system_config =
  RootDirectory :: string
  sc_Data :: string
  TmpDirectory :: string
  ArchiveDirectory :: string
  BackupDirectory :: string
  LogDirectory :: string
  Passwd :: "string option"  \<comment> \<open>the directory, when enabled\<close>
  MachineID :: "string option"
  Timezone :: string
  Username :: string
  Uid :: int
  Gid :: int
  Rootless :: bool
  EnableLogRotate :: bool
  OpenatMode :: string

record configuration =
  AuthenticationTokenId :: string
  AuthenticationToken :: string
  Token_ID :: string
  Token_Token :: string
  Debug :: bool
  cfg_path :: string
  cfg_System :: system_config

text \<open>The global variables of the package.\<close>

record config_globals =
  g_config :: "configuration option"
  g_jwt :: "string option"  \<comment> \<open>the key of the algorithm\<close>
  g_debug :: bool
  g_openat2 :: bool
  g_openat2Set :: bool

definition config_Set :: "configuration \<Rightarrow> config_globals \<Rightarrow> config_globals" where
  "config_Set c0 g =
     (let c = (if Token_Token c0 = [] then c0\<lparr>Token_Token := AuthenticationToken c0\<rparr> else c0);
          changed = (case g_config g of None \<Rightarrow> True | Some old \<Rightarrow> Token_Token old \<noteq> Token_Token c)
      in g\<lparr>g_config := Some c, g_jwt := (if changed then Some (Token_Token c) else g_jwt g)\<rparr>)"

definition SetDebugViaFlag :: "bool \<Rightarrow> config_globals \<Rightarrow> config_globals" where
  "SetDebugViaFlag d g = g\<lparr>g_config := map_option (\<lambda>c. c\<lparr>Debug := d\<rparr>) (g_config g), g_debug := d\<rparr>"

definition config_Update :: "(configuration \<Rightarrow> configuration) \<Rightarrow> config_globals \<Rightarrow> config_globals" where
  "config_Update f g = g\<lparr>g_config := map_option f (g_config g)\<rparr>"

section \<open>The system\<close>

datatype file_error = FileMissing | FileError string

text \<open>
  \<open>ox_links\<close> resolves symbolic links, \<open>ox_yaml\<close> merges a file into a configuration, \<open>ox_lookup\<close> is the user
  database, which depends on the commands run before, \<open>ox_location\<close> says whether a time zone exists.
\<close>

record os_env =
  ox_getenv :: "string \<Rightarrow> string"
  ox_read :: "string \<Rightarrow> file_error + string"
  ox_stat :: "string \<Rightarrow> file_error + bool"  \<comment> \<open>whether it is a directory\<close>
  ox_mkdir :: "string \<Rightarrow> string option"
  ox_write :: "string \<Rightarrow> string option"
  ox_links :: "string \<Rightarrow> file_error + string"
  ox_defaults :: "configuration option"
  ox_yaml :: "string \<Rightarrow> configuration \<Rightarrow> configuration option"
  ox_marshal :: "configuration \<Rightarrow> string option"
  ox_release :: "string + string"
  ox_current :: "string + string \<times> string \<times> string"
  ox_lookup :: "string list list \<Rightarrow> string \<Rightarrow> (bool \<times> string) + string \<times> string"  \<comment> \<open>on the left, whether the user is unknown\<close>
  ox_exec :: "string list \<Rightarrow> string option"
  ox_timedatectl :: "string option"
  ox_location :: "string \<Rightarrow> bool"
  ox_openat2 :: bool

record os_state =
  os_dirs :: "(string \<times> nat) list"
  os_files :: "(string \<times> string \<times> nat) list"
  os_commands :: "string list list"

definition os_mkdir :: "os_env \<Rightarrow> string \<Rightarrow> nat \<Rightarrow> (os_state, string option) state" where
  "os_mkdir x d mode =
     (case ox_mkdir x d of
        Some e \<Rightarrow> ret (Some e)
      | None \<Rightarrow> do { modify_st (\<lambda>s. s\<lparr>os_dirs := os_dirs s @ [(d, mode)]\<rparr>); ret None })"

definition os_write :: "os_env \<Rightarrow> string \<Rightarrow> string \<Rightarrow> nat \<Rightarrow> (os_state, string option) state" where
  "os_write x f b mode =
     (case ox_write x f of
        Some e \<Rightarrow> ret (Some e)
      | None \<Rightarrow> do { modify_st (\<lambda>s. s\<lparr>os_files := os_files s @ [(f, b, mode)]\<rparr>); ret None })"

definition os_exec :: "os_env \<Rightarrow> string list \<Rightarrow> (os_state, string option) state" where
  "os_exec x cmd = do { modify_st (\<lambda>s. s\<lparr>os_commands := os_commands s @ [cmd]\<rparr>); ret (ox_exec x cmd) }"

section \<open>Values with variables and files\<close>

text \<open>\<^verbatim>\<open>os.ExpandEnv\<close>: the name after a dollar and how many bytes it takes.\<close>

definition special_var :: "char \<Rightarrow> bool" where
  "special_var c \<longleftrightarrow> c \<in> set ''*#$@!?-0123456789''"

definition word_char :: "char \<Rightarrow> bool" where
  "word_char c \<longleftrightarrow> c = CHR ''_'' \<or> (48 \<le> (of_char c :: nat) \<and> (of_char c :: nat) \<le> 57) \<or>
     (65 \<le> (of_char c :: nat) \<and> (of_char c :: nat) \<le> 90) \<or> (97 \<le> (of_char c :: nat) \<and> (of_char c :: nat) \<le> 122)"

definition shell_name :: "string \<Rightarrow> string \<times> nat" where
  "shell_name s =
     (if HasPrefix s ''{'' then
        (if length s > 2 \<and> special_var (s ! 1) \<and> s ! 2 = CHR ''}'' then ([s ! 1], 3)
         else (case IndexByte (tl s) (CHR ''}'') of
                 None \<Rightarrow> ([], 1)
               | Some i \<Rightarrow> (take i (tl s), i + 2)))
      else if special_var (hd s) then ([hd s], 1)
      else (takeWhile word_char s, length (takeWhile word_char s)))"

function ExpandEnv :: "(string \<Rightarrow> string) \<Rightarrow> string \<Rightarrow> string" where
  "ExpandEnv env [] = []"
| "ExpandEnv env (c # s) =
     (if c = CHR ''$'' \<and> s \<noteq> [] then
        (let (name, w) = shell_name s
         in if name = [] \<and> w > 0 then ExpandEnv env (drop w s)
            else if name = [] then c # ExpandEnv env s
            else env name @ ExpandEnv env (drop w s))
      else c # ExpandEnv env s)"
  by pat_completeness auto
termination by (relation "measure (length \<circ> snd)") auto

definition trim_right :: "char \<Rightarrow> string \<Rightarrow> string" where
  "trim_right c s = rev (dropWhile (\<lambda>x. x = c) (rev s))"

definition config_Expand :: "os_env \<Rightarrow> string \<Rightarrow> string" where
  "config_Expand x v0 =
     (let v = ExpandEnv (ox_getenv x) v0
      in if HasPrefix v ''file://''
         then (case ox_read x (drop 7 v) of
                 Inl _ \<Rightarrow> []
               | Inr b \<Rightarrow> trim_right (CHR 0x0A) (trim_right (CHR 0x0D) b))
         else v)"

section \<open>Reading and writing\<close>

definition NewAtPath :: "os_env \<Rightarrow> string \<Rightarrow> configuration option" where
  "NewAtPath x p = map_option (\<lambda>c. c\<lparr>cfg_path := p\<rparr>) (ox_defaults x)"

definition FromFile :: "os_env \<Rightarrow> string \<Rightarrow> config_globals \<Rightarrow> bool \<times> config_globals" where
  "FromFile x p g =
     (case ox_read x p of
        Inl _ \<Rightarrow> (False, g)
      | Inr b \<Rightarrow>
          (case NewAtPath x p of
             None \<Rightarrow> (False, g)
           | Some c0 \<Rightarrow>
               (case ox_yaml x b c0 of
                  None \<Rightarrow> (False, g)
                | Some c \<Rightarrow>
                    (let i = ox_getenv x ''WINGS_TOKEN_ID''; t = ox_getenv x ''WINGS_TOKEN'';
                         i' = (if i = [] then AuthenticationTokenId c else i);
                         t' = (if t = [] then AuthenticationToken c else t)
                     in (True, config_Set (c\<lparr>Token_ID := config_Expand x i', Token_Token := config_Expand x t'\<rparr>) g)))))"

definition WriteToDisk :: "os_env \<Rightarrow> config_globals \<Rightarrow> configuration \<Rightarrow> (os_state, string option) state" where
  "WriteToDisk x g c =
     (let copy = (if g_debug g then c\<lparr>Debug := False\<rparr> else c)
      in if cfg_path c = [] then ret (Some ''cannot write configuration, no path defined in struct'')
         else case ox_marshal x copy of
                None \<Rightarrow> ret (Some ''yaml'')
              | Some b \<Rightarrow> os_write x (cfg_path c) b 0x180)"

section \<open>Preparing the system\<close>

text \<open>Steps that stop at the first error.\<close>

definition or_fail :: "('s, string option) state \<Rightarrow> ('s, string option) state \<Rightarrow> ('s, string option) state" where
  "or_fail m k = do { r \<leftarrow> m; (case r of Some e \<Rightarrow> ret (Some e) | None \<Rightarrow> k) }"

definition ConfigureDirectories :: "os_env \<Rightarrow> system_config \<Rightarrow> (os_state, string option \<times> system_config) state" where
  "ConfigureDirectories x c = do {
     r \<leftarrow> os_mkdir x (RootDirectory c) 0x1C0;
     (case r of
        Some e \<Rightarrow> ret (Some e, c)
      | None \<Rightarrow>
          (case ox_links x (sc_Data c) of
             Inl (FileError e) \<Rightarrow> ret (Some e, c)
           | d \<Rightarrow>
               (let c' = (case d of Inr p \<Rightarrow> c\<lparr>sc_Data := p\<rparr> | Inl _ \<Rightarrow> c)
                in do {
                  r \<leftarrow> or_fail (os_mkdir x (sc_Data c') 0x1C0)
                      (or_fail (os_mkdir x (TmpDirectory c') 0x1C0)
                      (or_fail (os_mkdir x (ArchiveDirectory c') 0x1C0)
                      (or_fail (os_mkdir x (BackupDirectory c') 0x1C0)
                      (or_fail (case Passwd c' of Some p \<Rightarrow> os_mkdir x p 0x1ED | None \<Rightarrow> ret None)
                               (case MachineID c' of Some p \<Rightarrow> os_mkdir x p 0x1ED | None \<Rightarrow> ret None)))));
                  ret (r, c')
                })))
   }"

definition GetStatesPath :: "system_config \<Rightarrow> string" where
  "GetStatesPath c = path_Join [RootDirectory c, ''/states.json'']"

definition UseOpenat2 :: "os_env \<Rightarrow> system_config \<Rightarrow> config_globals \<Rightarrow> bool \<times> config_globals" where
  "UseOpenat2 x c g =
     (if g_openat2Set g then (g_openat2 g, g)
      else (let v = (if OpenatMode c = ''openat2'' then True else if OpenatMode c = ''openat'' then False else ox_openat2 x)
            in (v, g\<lparr>g_openat2 := v, g_openat2Set := True\<rparr>)))"

text \<open>\<open>parse_int\<close> of a numeric identifier; anything else panics.\<close>

fun decimal :: "string \<Rightarrow> int \<Rightarrow> int option" where
  "decimal [] n = Some n"
| "decimal (c # cs) n =
     (let d = int (of_char c) - 48 in if 0 \<le> d \<and> d \<le> 9 then decimal cs (n * 10 + d) else None)"

definition MustInt :: "string \<Rightarrow> int outcome" where
  "MustInt s =
     (let neg = HasPrefix s ''-''; ds = (if neg \<or> HasPrefix s ''+'' then tl s else s)
      in case (if ds = [] then None else decimal ds 0) of
           None \<Rightarrow> Panic ''system/utils: could not parse int''
         | Some n \<Rightarrow> (let v = (if neg then - n else n)
                     in if - (2 ^ 63) \<le> v \<and> v < 2 ^ 63 then Return v else Panic ''system/utils: could not parse int''))"

fun FirstNotEmpty :: "string list \<Rightarrow> string" where
  "FirstNotEmpty [] = []"
| "FirstNotEmpty (v # vs) = (if v \<noteq> [] then v else FirstNotEmpty vs)"

definition set_ids :: "string \<Rightarrow> string \<Rightarrow> system_config \<Rightarrow> (string option \<times> system_config) outcome" where
  "set_ids u g c =
     (case MustInt u of
        Panic m \<Rightarrow> Panic m
      | Return i \<Rightarrow> (case MustInt g of Panic m \<Rightarrow> Panic m | Return j \<Rightarrow> Return (None, c\<lparr>Uid := i, Gid := j\<rparr>)))"

definition useradd_command :: "string \<Rightarrow> string \<Rightarrow> string list" where
  "useradd_command sysName name =
     Split (if HasPrefix sysName ''alpine'' then ''adduser -S -D -H -G '' @ name @ '' -s /sbin/nologin '' @ name
            else ''useradd --system --no-create-home --shell /usr/sbin/nologin '' @ name) (CHR '' '')"

definition EnsurePterodactylUser :: "os_env \<Rightarrow> system_config \<Rightarrow> (os_state, (string option \<times> system_config) outcome) state" where
  "EnsurePterodactylUser x c =
     (case ox_release x of
        Inl e \<Rightarrow> ret (Return (Some e, c))
      | Inr sysName \<Rightarrow>
          if sysName = ''distroless'' then
            ret (set_ids (FirstNotEmpty [ox_getenv x ''WINGS_UID'', ''988'']) (FirstNotEmpty [ox_getenv x ''WINGS_GID'', ''988''])
                   (c\<lparr>Username := FirstNotEmpty [ox_getenv x ''WINGS_USERNAME'', ''pterodactyl'']\<rparr>))
          else if Rootless c then
            ret (case ox_current x of
                   Inl e \<Rightarrow> Return (Some e, c)
                 | Inr (name, u, g) \<Rightarrow> set_ids u g (c\<lparr>Username := name\<rparr>))
          else (case ox_lookup x [] (Username c) of
                  Inr (u, g) \<Rightarrow> ret (set_ids u g c)
                | Inl (unknown, e) \<Rightarrow>
                    if \<not> unknown then ret (Return (Some e, c))
                    else do {
                      r \<leftarrow> or_fail (if HasPrefix sysName ''alpine'' then os_exec x [''addgroup'', ''-S'', Username c] else ret None)
                                   (os_exec x (useradd_command sysName (Username c)));
                      cmds \<leftarrow> read_st os_commands;
                      ret (case r of
                             Some e \<Rightarrow> Return (Some e, c)
                           | None \<Rightarrow>
                               (case ox_lookup x cmds (Username c) of
                                  Inl (_, e) \<Rightarrow> Return (Some e, c)
                                | Inr (u, g) \<Rightarrow> set_ids u g c))
                    }))"

definition newline :: string where
  "newline = [CHR 0x0A]"

definition ConfigurePasswd :: "os_env \<Rightarrow> system_config \<Rightarrow> (os_state, string option) state" where
  "ConfigurePasswd x c =
     (case Passwd c of
        None \<Rightarrow> ret None
      | Some dir \<Rightarrow>
          or_fail (os_write x (path_Join [dir, ''group''])
             (''root:x:0:'' @ newline @ ''container:x:'' @ Itoa (Gid c) @ '':'' @ newline @ ''nogroup:x:65534:'') 0x1A4)
            (os_write x (path_Join [dir, ''passwd''])
             (''root:x:0:0::/root:/bin/sh'' @ newline @ ''container:x:'' @ Itoa (Uid c) @ '':'' @ Itoa (Gid c) @ ''::/home/container:/bin/sh'' @ newline @
              ''nobody:x:65534:65534::/var/empty:/bin/sh'' @ newline) 0x1A4))"

definition rotation_file :: "string \<Rightarrow> string" where
  "rotation_file dir = Join [dir @ ''/wings.log {'', ''    size 10M'', ''    compress'', ''    delaycompress'', ''    dateext'', ''    maxage 7'',
     ''    missingok'', ''    notifempty'', ''    postrotate'', ''        /usr/bin/systemctl kill -s HUP wings.service >/dev/null 2>&1 || true'',
     ''    endscript'', ''}''] newline"

definition EnableLogRotation :: "os_env \<Rightarrow> system_config \<Rightarrow> (os_state, string option) state" where
  "EnableLogRotation x c =
     (if \<not> EnableLogRotate c then ret None
      else case ox_stat x ''/etc/logrotate.d'' of
             Inl (FileError e) \<Rightarrow> ret (Some e)
           | Inl FileMissing \<Rightarrow> ret None
           | Inr is_dir \<Rightarrow>
               if \<not> is_dir then ret None
               else (case ox_stat x ''/etc/logrotate.d/wings'' of
                       Inr _ \<Rightarrow> ret None
                     | Inl (FileError e) \<Rightarrow> ret (Some e)
                     | Inl FileMissing \<Rightarrow> os_write x ''/etc/logrotate.d/wings'' (rotation_file (LogDirectory c)) 0x1B6))"

text \<open>The first match of the expression for the time zone in the output of \<^verbatim>\<open>timedatectl\<close>.\<close>

definition zone_char :: "char \<Rightarrow> bool" where
  "zone_char c \<longleftrightarrow> word_char c \<or> c = CHR ''/''"

fun find_zone :: "string \<Rightarrow> string" where
  "find_zone [] = []"
| "find_zone (c # s) =
     (if HasPrefix (c # s) ''Time zone: '' \<and> takeWhile zone_char (drop 11 (c # s)) \<noteq> []
      then takeWhile zone_char (drop 11 (c # s)) else find_zone s)"

definition zone_clean :: "string \<Rightarrow> string" where
  "zone_clean z = filter (\<lambda>c. c = CHR ''_'' \<or> c = CHR ''/'' \<or> (65 \<le> (of_char c :: nat) \<and> (of_char c :: nat) \<le> 90) \<or>
     (97 \<le> (of_char c :: nat) \<and> (of_char c :: nat) \<le> 122)) z"

text \<open>The fallback to UTC returns at once, before the name is checked.\<close>

definition ConfigureTimezone :: "os_env \<Rightarrow> system_config \<Rightarrow> bool \<times> system_config" where
  "ConfigureTimezone x c =
     (let tz = ox_getenv x ''TZ'';
          zone = (if Timezone c = [] \<and> tz \<noteq> [] then tz else Timezone c);
          finish = (\<lambda>z. (ox_location x (zone_clean z), c\<lparr>Timezone := zone_clean z\<rparr>))
      in if zone \<noteq> [] then finish zone
         else case ox_read x ''/etc/timezone'' of
                Inr b \<Rightarrow> finish b
              | Inl (FileError _) \<Rightarrow> (False, c)
              | Inl FileMissing \<Rightarrow>
                  (case ox_timedatectl x of
                     None \<Rightarrow> (True, c\<lparr>Timezone := ''UTC''\<rparr>)
                   | Some out \<Rightarrow>
                       if find_zone out = [] then (True, c\<lparr>Timezone := ''UTC''\<rparr>) else finish (find_zone out)))"

section \<open>The key of signed requests\<close>

text \<open>What changes the global configuration: the file, a new one of the panel, the flag for debugging, the preparations.\<close>

datatype config_event = ReadFile string | PanelUpdate configuration | DebugFlag bool | SystemUpdate "system_config \<Rightarrow> system_config"

text \<open>The panel sends all but the token in use and the path, which are not part of the JSON.\<close>

fun config_step :: "os_env \<Rightarrow> config_event \<Rightarrow> config_globals \<Rightarrow> config_globals" where
  "config_step x (ReadFile p) g = snd (FromFile x p g)"
| "config_step x (PanelUpdate c) g =
     (case g_config g of
        None \<Rightarrow> g
      | Some old \<Rightarrow> config_Set (c\<lparr>Token_ID := Token_ID old, Token_Token := Token_Token old, cfg_path := cfg_path old\<rparr>) g)"
| "config_step x (DebugFlag d) g = SetDebugViaFlag d g"
| "config_step x (SystemUpdate f) g = config_Update (\<lambda>c. c\<lparr>cfg_System := f (cfg_System c)\<rparr>) g"

definition key_in_use :: "config_globals \<Rightarrow> bool" where
  "key_in_use g \<longleftrightarrow> g_jwt g = map_option Token_Token (g_config g)"

lemma config_Set_key: "key_in_use g \<Longrightarrow> key_in_use (config_Set c g)"
  by (auto simp: key_in_use_def config_Set_def Let_def split: option.splits)

lemma config_step_key: "key_in_use g \<Longrightarrow> key_in_use (config_step x e g)"
  by (cases e)
     (auto simp: FromFile_def Let_def SetDebugViaFlag_def config_Update_def option.map_comp o_def
       intro!: config_Set_key split: sum.splits option.splits, auto simp: key_in_use_def option.map_comp o_def)

text \<open>Before the configuration is read there is none.\<close>

definition no_config :: config_globals where
  "no_config = \<lparr>g_config = None, g_jwt = None, g_debug = False, g_openat2 = False, g_openat2Set = False\<rparr>"

text \<open>C34: However the configuration is read, replaced by the panel or changed, the key with which tokens of websockets, downloads
  and transfers are checked is the token in the configuration, the same that authenticates the panel.
\<close>

theorem key_is_the_token: "key_in_use (fold (config_step x) es no_config)"
proof -
  have "key_in_use g \<Longrightarrow> key_in_use (fold (config_step x) es g)" for g
    by (induction es arbitrary: g) (auto intro: config_step_key)
  then show ?thesis by (simp add: key_in_use_def no_config_def)
qed

section \<open>What the code makes of some values\<close>

lemma ExpandEnv_plain: "CHR ''$'' \<notin> set s \<Longrightarrow> ExpandEnv env s = s"
  by (induction s) auto

text \<open>
  A token that is to be read from a file which cannot be read is silently replaced by the name of the file: whoever
  knows where the node keeps its token can then speak for the panel.
\<close>

lemma unreadable_token_guessable:
  assumes "ox_read x cf = Inr b" "NewAtPath x cf = Some c0" "ox_yaml x b c0 = Some c" "ox_getenv x ''WINGS_TOKEN'' = []"
    "AuthenticationToken c = ''file://'' @ p" "CHR ''$'' \<notin> set p" "ox_read x p = Inl e" "CHR '' '' \<notin> set p"
  shows "\<exists>c'. g_config (snd (FromFile x cf g)) = Some c' \<and> Token_Token c' = ''file://'' @ p \<and>
    RequireAuthorization (Token_Token c') (''Bearer file://'' @ p) = None"
proof -
  have v: "ExpandEnv (ox_getenv x) (''file://'' @ p) = ''file://'' @ p" using assms(6) by (intro ExpandEnv_plain) auto
  have "config_Expand x (''file://'' @ p) = []"
    unfolding config_Expand_def v Let_def using assms(7) by (simp add: HasPrefix_def)
  then show ?thesis
    using assms by (auto simp: FromFile_def Let_def config_Set_def RequireAuthorization_def SplitN2_def)
qed

text \<open>A file with the line ending of Windows leaves a carriage return in the token.\<close>

lemma crlf_stays_in_token: "trim_right (CHR 0x0A) (trim_right (CHR 0x0D) (''tok'' @ [CHR 0x0D, CHR 0x0A])) = ''tok'' @ [CHR 0x0D]"
  by (simp add: trim_right_def)

text \<open>A token that the panel replaces is written to the disk, but the old one stays in use.\<close>

lemma token_rotation_ignored:
  assumes "g_config g = Some old" "Token_Token old \<noteq> []"
  shows "\<exists>c'. g_config (config_step x (PanelUpdate c) g) = Some c' \<and> AuthenticationToken c' = AuthenticationToken c \<and>
    Token_Token c' = Token_Token old \<and> g_jwt (config_step x (PanelUpdate c) g) = g_jwt g"
  using assms by (simp add: config_Set_def)

text \<open>Time zones with a hyphen or a number are not left as they are.\<close>

lemma zones_mangled:
  "zone_clean ''America/Port-au-Prince'' = ''America/PortauPrince''" "zone_clean ''Etc/GMT+5'' = ''Etc/GMT''"
  by code_simp+

text \<open>What the daemon keeps for itself is created for its owner only; the two directories mounted into containers are not.\<close>

lemma directories_made:
  assumes "run_state (ConfigureDirectories x c) s = ((None, c'), s')"
  shows "os_dirs s' = os_dirs s @ map (\<lambda>d. (d, 0x1C0)) [RootDirectory c, sc_Data c', TmpDirectory c, ArchiveDirectory c, BackupDirectory c] @
    map (\<lambda>d. (d, 0x1ED)) (case Passwd c of Some d \<Rightarrow> [d] | None \<Rightarrow> []) @ map (\<lambda>d. (d, 0x1ED)) (case MachineID c of Some d \<Rightarrow> [d] | None \<Rightarrow> [])"
proof -
  have d: "run_state (os_mkdir x d m) t = (if ox_mkdir x d = None then (None, t\<lparr>os_dirs := os_dirs t @ [(d, m)]\<rparr>) else (ox_mkdir x d, t))" for d m t
    by (simp add: os_mkdir_def split: option.splits)
  show ?thesis
  proof (cases "ox_links x (sc_Data c)")
    case (Inl e)
    then show ?thesis using assms
      by (cases e) (auto simp: ConfigureDirectories_def or_fail_def d Let_def split: option.splits if_splits)
  next
    case (Inr p)
    then show ?thesis using assms
      by (auto simp: ConfigureDirectories_def or_fail_def d Let_def split: option.splits if_splits)
  qed
qed

end
