(* ===== verification/Config_Values.thy ===== *)
theory Config_Values
  imports Go_Strings
begin

text \<open>
  What the parsers of configuration files (\<^verbatim>\<open>parser/parser.go\<close>, \<^verbatim>\<open>parser/helpers.go\<close>) are made of: lines of a scanner, the
  regular expressions of the sources as recognisers, replacement values and the lookup of daemon settings in them, the paths
  into INI and JSON files, and the quoting of property values.

  The library \<^verbatim>\<open>jsonparser\<close> and the conversion of names to snake case are parameters.
\<close>

section \<open>Lines\<close>

text \<open>\<^verbatim>\<open>bufio.Scanner\<close> with \<^verbatim>\<open>ScanLines\<close>: the lines without their ends, and whether a line did not fit the buffer.\<close>

abbreviation NL :: char where "NL \<equiv> CHR 0x0A"

definition dropCR :: "string \<Rightarrow> string" where
  "dropCR l = (if l \<noteq> [] \<and> last l = CHR 0x0D then butlast l else l)"

function scan_lines :: "nat \<Rightarrow> string \<Rightarrow> string list \<times> bool" where
  "scan_lines m s =
     (if s = [] then ([], False)
      else let l = takeWhile (\<lambda>c. c \<noteq> NL) s; rest = drop (Suc (length l)) s
           in if m \<le> length l then ([], True)
              else let (ls, long) = scan_lines m rest in (dropCR l # ls, long))"
  by pat_completeness auto
termination by (relation "measure (\<lambda>(m, s). length s)") auto

declare scan_lines.simps [simp del]

section \<open>Regular expressions\<close>

definition word_char :: "char \<Rightarrow> bool" where
  "word_char c \<longleftrightarrow> c \<in> set ''abcdefghijklmnopqrstuvwxyzABCDEFGHIJKLMNOPQRSTUVWXYZ0123456789_''"

definition digit_char :: "char \<Rightarrow> bool" where
  "digit_char c \<longleftrightarrow> c \<in> set ''0123456789''"

definition blank_char :: "char \<Rightarrow> bool" where
  "blank_char c \<longleftrightarrow> c \<in> {CHR 0x09, CHR 0x0A, CHR 0x0C, CHR 0x0D, CHR '' ''}"

fun opt_blank :: "string \<Rightarrow> string" where
  "opt_blank [] = []"
| "opt_blank (c # s) = (if blank_char c then s else c # s)"

text \<open>
  \<^verbatim>\<open>configMatchRegex\<close> at the start of a text: the group it captures and what follows the match. No choice of the
  expression has two ways to go on, so the first match is the only one.
\<close>

definition config_at :: "string \<Rightarrow> (string \<times> string) option" where
  "config_at s =
     (if \<not> HasPrefix s ''{{'' then None
      else let t = opt_blank (drop 2 s)
           in if \<not> HasPrefix t ''config.'' then None
              else let u = drop 7 t; name = takeWhile (\<lambda>c. word_char c \<or> c = CHR ''.'' \<or> c = CHR ''-'') u;
                       v = opt_blank (drop (length name) u)
                   in if name = [] \<or> \<not> HasPrefix v ''}}'' then None else Some (name, drop 2 v))"

lemma opt_blank_length: "length (opt_blank s) \<le> length s"
  by (cases s) auto

lemma config_at_shorter:
  assumes "config_at s = Some (g, r)"
  shows "length r < length s"
proof -
  have "HasPrefix s ''{{''"
    and r: "r = drop 2 (opt_blank (drop (length g) (drop 7 (opt_blank (drop 2 s)))))"
    using assms by (auto simp: config_at_def Let_def split: if_splits)
  then have "2 \<le> length s" by (auto simp: HasPrefix_iff)
  then show ?thesis
    using opt_blank_length [of "drop (length g) (drop 7 (opt_blank (drop 2 s)))"] opt_blank_length [of "drop 2 s"]
    unfolding r by simp
qed

fun config_Match :: "string \<Rightarrow> bool" where
  "config_Match s = (config_at s \<noteq> None \<or> (case s of [] \<Rightarrow> False | _ # t \<Rightarrow> config_Match t))"

text \<open>\<^verbatim>\<open>FindString\<close>: the first match, or nothing.\<close>

fun config_FindString :: "string \<Rightarrow> string" where
  "config_FindString s =
     (case config_at s of
        Some (_, r) \<Rightarrow> take (length s - length r) s
      | None \<Rightarrow> (case s of [] \<Rightarrow> [] | _ # t \<Rightarrow> config_FindString t))"

text \<open>
  \<^verbatim>\<open>ReplaceAllString\<close>, with the template of the replacement: \<^verbatim>\<open>$\<close> and a name stands for a group, \<^verbatim>\<open>$$\<close> for a dollar. Groups
  that the expression does not have are empty; a dollar with no name after it is kept.
\<close>

definition group_value :: "string list \<Rightarrow> string \<Rightarrow> string" where
  "group_value gs name =
     (if list_all digit_char name \<and> name \<noteq> [] \<and> (hd name \<noteq> CHR ''0'' \<or> length name = 1) then
        (case digits_value name 0 of Some n \<Rightarrow> if nat n < length gs then gs ! nat n else [] | None \<Rightarrow> [])
      else [])"

function expand_template :: "string list \<Rightarrow> string \<Rightarrow> string" where
  "expand_template gs [] = []"
| "expand_template gs (c # t) =
     (if c \<noteq> CHR ''$'' then c # expand_template gs t
      else if HasPrefix t ''$'' then CHR ''$'' # expand_template gs (drop 1 t)
      else if HasPrefix t ''{'' then
        let name = takeWhile word_char (drop 1 t); r = drop (length name) (drop 1 t)
        in if name = [] \<or> \<not> HasPrefix r ''}'' then CHR ''$'' # expand_template gs t
           else group_value gs name @ expand_template gs (drop 1 r)
      else let name = takeWhile word_char t
           in if name = [] then CHR ''$'' # expand_template gs t
              else group_value gs name @ expand_template gs (drop (length name) t))"
  by pat_completeness auto
termination by (relation "measure (\<lambda>(gs, s). length s)") auto

function config_ReplaceAll :: "string \<Rightarrow> string \<Rightarrow> string" where
  "config_ReplaceAll tpl s =
     (case config_at s of
        Some (g, r) \<Rightarrow> expand_template [take (length s - length r) s, g] tpl @ config_ReplaceAll tpl r
      | None \<Rightarrow> (case s of [] \<Rightarrow> [] | c # t \<Rightarrow> c # config_ReplaceAll tpl t))"
  by pat_completeness auto
termination by (relation "measure (\<lambda>(tpl, s). length s)") (auto dest: config_at_shorter)

declare config_Match.simps [simp del] config_FindString.simps [simp del] config_ReplaceAll.simps [simp del]

text \<open>\<^verbatim>\<open>xmlValueMatchRegex\<close>: the attribute and its value.\<close>

definition xmlValueMatch :: "string \<Rightarrow> (string \<times> string) option" where
  "xmlValueMatch s =
     (if \<not> HasPrefix s ''['' then None
      else let k = takeWhile word_char (drop 1 s); r = drop (length k) (drop 1 s); q = [CHR ''='', CHR 0x27]; e = [CHR 0x27, CHR '']''];
               v = TrimSuffix (drop 2 r) e
           in if k = [] \<or> \<not> HasPrefix r q \<or> \<not> HasSuffix (drop 2 r) e \<or> NL \<in> set v then None else Some (k, v))"

text \<open>\<^verbatim>\<open>checkForArrayElement.FindStringSubmatch\<close>: nothing, or the match and its three groups, the last of which may be empty.\<close>

definition checkForArrayElement :: "string \<Rightarrow> string list" where
  "checkForArrayElement p =
     (let a = takeWhile (\<lambda>c. c \<noteq> CHR ''['' \<and> c \<noteq> CHR '']'') p; r = drop (length a) p;
          d = takeWhile digit_char (drop 1 r); t = drop (Suc (length d)) r
      in if a \<noteq> [] \<and> HasPrefix r ''['' \<and> d \<noteq> [] \<and> HasPrefix t '']''
            \<and> (drop 1 t = [] \<or> HasPrefix (drop 1 t) ''.'' \<and> 1 < length (drop 1 t) \<and> NL \<notin> set (drop 1 t))
         then [p, a, d, drop 1 t] else [])"

section \<open>Replacement values\<close>

datatype value_type = NotExist | TString | TNumber | TObject | TArray | TBoolean | TNull | TUnknown

record ReplaceValue =
  rv_value :: string
  rv_type :: value_type

record replacement =
  rp_Match :: string
  rp_IfValue :: string
  rp_ReplaceWith :: ReplaceValue

datatype get_error = KeyPathNotFound | GetError string

text \<open>
  The libraries: \<^verbatim>\<open>ParseString\<close>, \<^verbatim>\<open>Unescape\<close> and \<^verbatim>\<open>Get\<close> of \<^verbatim>\<open>jsonparser\<close> (the latter with the value and type it returns
  along with an error), and \<^verbatim>\<open>strcase.ToSnake\<close>.
\<close>

record json_lib =
  jl_ParseString :: "string \<Rightarrow> string option"
  jl_Unescape :: "string \<Rightarrow> string option"
  jl_Get :: "string \<Rightarrow> string list \<Rightarrow> string \<times> value_type \<times> get_error option"
  jl_ToSnake :: "string \<Rightarrow> string"

definition rv_String :: "json_lib \<Rightarrow> ReplaceValue \<Rightarrow> string outcome" where
  "rv_String L cv =
     (case rv_type cv of
        TString \<Rightarrow>
          (case jl_ParseString L (rv_value cv) of
             None \<Rightarrow> Panic ''parser: could not parse value''
           | Some s \<Rightarrow> Return s)
      | TNull \<Rightarrow> Return ''<nil>''
      | TBoolean \<Rightarrow> Return (rv_value cv)
      | TNumber \<Rightarrow> Return (rv_value cv)
      | _ \<Rightarrow> Return ''<invalid>'')"

definition rv_Bytes :: "json_lib \<Rightarrow> ReplaceValue \<Rightarrow> string outcome" where
  "rv_Bytes L cv =
     (case rv_type cv of
        TString \<Rightarrow>
          (case jl_Unescape L (rv_value cv) of
             None \<Rightarrow> Panic ''parser: could not parse value''
           | Some s \<Rightarrow> Return s)
      | TNull \<Rightarrow> Return ''<nil>''
      | TBoolean \<Rightarrow> Return (rv_value cv)
      | TNumber \<Rightarrow> Return (rv_value cv)
      | _ \<Rightarrow> Return ''<invalid>'')"

text \<open>The part of the configuration that a value may refer to, as the JSON text that is searched.\<close>

definition hex_digit :: "nat \<Rightarrow> char" where
  "hex_digit d = ''0123456789abcdef'' ! (d mod 16)"

fun hex_digits :: "nat \<Rightarrow> nat \<Rightarrow> string" where
  "hex_digits 0 n = []"
| "hex_digits (Suc k) n = hex_digits k (n div 16) @ [hex_digit n]"

definition json_char :: "char \<Rightarrow> string" where
  "json_char c =
     (let n = of_char c
      in if c = CHR 0x22 \<or> c = CHR 0x5C then [CHR 0x5C, c]
         else if n = 8 then [CHR 0x5C, CHR ''b'']
         else if n = 12 then [CHR 0x5C, CHR ''f'']
         else if n = 10 then [CHR 0x5C, CHR ''n'']
         else if n = 13 then [CHR 0x5C, CHR ''r'']
         else if n = 9 then [CHR 0x5C, CHR ''t'']
         else if n < 32 \<or> c \<in> {CHR ''<'', CHR ''>'', CHR ''&''} then CHR 0x5C # CHR ''u'' # hex_digits 4 n
         else [c])"

function json_escape :: "string \<Rightarrow> string" where
  "json_escape [] = []"
| "json_escape (c # s) =
     (if c = CHR 0xE2 \<and> take 2 s = [CHR 0x80, CHR 0xA8] then CHR 0x5C # ''u2028'' @ json_escape (drop 2 s)
      else if c = CHR 0xE2 \<and> take 2 s = [CHR 0x80, CHR 0xA9] then CHR 0x5C # ''u2029'' @ json_escape (drop 2 s)
      else json_char c @ json_escape s)"
  by pat_completeness auto
termination by (relation "measure length") auto

definition quoted :: "string \<Rightarrow> string" where
  "quoted s = CHR 0x22 # s @ [CHR 0x22]"

definition templatableConfig :: "string \<Rightarrow> string" where
  "templatableConfig iface =
     (let i = quoted ''interface'' @ '':'' @ quoted (json_escape iface)
      in ''{'' @ quoted ''docker'' @ '':{'' @ i @ '','' @ quoted ''network'' @ '':{'' @ i @ ''}}}'')"

section \<open>Looking up settings\<close>

definition LookupConfigurationValue :: "json_lib \<Rightarrow> string \<Rightarrow> replacement \<Rightarrow> (get_error + string) outcome" where
  "LookupConfigurationValue L configuration cfr =
     (if rv_type (rp_ReplaceWith cfr) \<noteq> TString \<or> \<not> config_Match (rv_value (rp_ReplaceWith cfr))
      then on_return (\<lambda>s. Return (Inr s)) (rv_String L (rp_ReplaceWith cfr))
      else on_return (\<lambda>s.
        let huntPath = config_ReplaceAll ''$1'' (config_FindString s);
            (match, dataType, err) = jl_Get L configuration (map (jl_ToSnake L) (Split huntPath CHR ''.''))
        in case err of
             Some KeyPathNotFound \<Rightarrow> Return (Inr match)
           | Some e \<Rightarrow> Return (Inl e)
           | None \<Rightarrow>
               if dataType = TObject \<or> dataType = TArray then Return (Inr s)
               else Return (Inr (config_ReplaceAll match s)))
        (rv_String L (rp_ReplaceWith cfr)))"

text \<open>The value that is written to a JSON or YAML file.\<close>

datatype json_value = JBool bool | JInt int | JString string | JNull | JEmptyObject | JArray json_value

definition ParseBool :: "string \<Rightarrow> bool option" where
  "ParseBool s =
     (if s \<in> {''1'', ''t'', ''T'', ''TRUE'', ''true'', ''True''} then Some True
      else if s \<in> {''0'', ''f'', ''F'', ''FALSE'', ''false'', ''False''} then Some False
      else None)"

definition getKeyValue :: "replacement \<Rightarrow> string \<Rightarrow> json_value" where
  "getKeyValue cfr v =
     (if rv_type (rp_ReplaceWith cfr) = TBoolean then JBool (case ParseBool v of None \<Rightarrow> False | Some b \<Rightarrow> b)
      else case parse_int v of
             Some n \<Rightarrow> if in_i64 n then JInt n else JString v
           | None \<Rightarrow> JString v)"

section \<open>Paths into INI files\<close>

text \<open>The loop over the characters: the finished parts, the depth of brackets, the part being read.\<close>

fun ini_split :: "string list \<Rightarrow> int \<Rightarrow> string \<Rightarrow> string \<Rightarrow> string list" where
  "ini_split path depth v [] = path @ [v]"
| "ini_split path depth v (c # s) =
     (if c = CHR ''['' then ini_split path (depth + 1) v s
      else if c = CHR '']'' then ini_split path (depth - 1) v s
      else if c = CHR ''.'' then
        (if depth > 0 \<or> length path = 1 then ini_split path depth (v @ [c]) s
         else ini_split (path @ [v]) depth [] s)
      else ini_split path depth (v @ [c]) s)"

definition ini_path :: "string \<Rightarrow> string list" where
  "ini_path match = ini_split [] 0 [] match"

section \<open>Property values\<close>

text \<open>\<^verbatim>\<open>utf8.DecodeRuneInString\<close> on a text that starts with a byte above 127: the rune and its width, or an invalid byte.\<close>

definition cont :: "nat \<Rightarrow> nat \<Rightarrow> nat \<Rightarrow> bool" where
  "cont lo hi b \<longleftrightarrow> lo \<le> b \<and> b \<le> hi"

definition decode_rune :: "nat list \<Rightarrow> (nat \<times> nat) option" where
  "decode_rune bs =
     (case bs of
        a # b # rest \<Rightarrow>
          if 0xC2 \<le> a \<and> a \<le> 0xDF then (if cont 0x80 0xBF b then Some ((a - 0xC0) * 64 + (b - 0x80), 2) else None)
          else if 0xE0 \<le> a \<and> a \<le> 0xEF then
            (case rest of
               c # _ \<Rightarrow>
                 if cont (if a = 0xE0 then 0xA0 else 0x80) (if a = 0xED then 0x9F else 0xBF) b \<and> cont 0x80 0xBF c
                 then Some (((a - 0xE0) * 64 + (b - 0x80)) * 64 + (c - 0x80), 3) else None
             | [] \<Rightarrow> None)
          else if 0xF0 \<le> a \<and> a \<le> 0xF4 then
            (case rest of
               c # d # _ \<Rightarrow>
                 if cont (if a = 0xF0 then 0x90 else 0x80) (if a = 0xF4 then 0x8F else 0xBF) b \<and> cont 0x80 0xBF c \<and> cont 0x80 0xBF d
                 then Some ((((a - 0xF0) * 64 + (b - 0x80)) * 64 + (c - 0x80)) * 64 + (d - 0x80), 4) else None
             | _ \<Rightarrow> None)
          else None
      | _ \<Rightarrow> None)"

definition backslash :: "string \<Rightarrow> string" where
  "backslash s = CHR 0x5C # s"

definition escape_rune :: "nat \<Rightarrow> string" where
  "escape_rune r =
     (if r = 0x22 \<or> r = 0x5C then backslash [char_of r]
      else if 32 \<le> r \<and> r \<le> 126 then [char_of r]
      else if r = 7 then backslash ''a''
      else if r = 8 then backslash ''b''
      else if r = 12 then backslash ''f''
      else if r = 10 then backslash ''n''
      else if r = 13 then backslash ''r''
      else if r = 9 then backslash ''t''
      else if r = 11 then backslash ''v''
      else if r < 32 \<or> r = 127 then backslash (CHR ''x'' # hex_digits 2 r)
      else if r < 0x10000 then backslash (CHR ''u'' # hex_digits 4 r)
      else backslash (CHR ''U'' # hex_digits 8 r))"

function escape_text :: "string \<Rightarrow> string" where
  "escape_text [] = []"
| "escape_text (c # s) =
     (let b = of_char c
      in if b < 128 then escape_rune b @ escape_text s
         else case decode_rune (b # map of_char (take 3 s)) of
                None \<Rightarrow> backslash (CHR ''x'' # hex_digits 2 b) @ escape_text s
              | Some (r, w) \<Rightarrow> escape_rune r @ escape_text (drop (w - 1) s))"
  by pat_completeness auto
termination by (relation "measure length") auto

definition QuoteToASCII :: "string \<Rightarrow> string" where
  "QuoteToASCII s = quoted (escape_text s)"

text \<open>\<^verbatim>\<open>strings.Trim\<close>: every leading and trailing character of the set is removed.\<close>

definition Trim :: "string \<Rightarrow> string \<Rightarrow> string" where
  "Trim s cutset = rev (dropWhile (\<lambda>c. c \<in> set cutset) (rev (dropWhile (\<lambda>c. c \<in> set cutset) s)))"

definition property_line :: "string \<Rightarrow> string \<Rightarrow> string" where
  "property_line key v = key @ ''='' @ Trim (QuoteToASCII v) [CHR 0x22] @ [NL]"

section \<open>Lines of a scanner\<close>

abbreviation unlines :: "string list \<Rightarrow> string" where
  "unlines ls \<equiv> concat (map (\<lambda>l. l @ [NL]) ls)"

lemma scan_lines_Nil [simp]: "scan_lines m [] = ([], False)"
  by (simp add: scan_lines.simps)

lemma scan_lines_line:
  "NL \<notin> set l \<Longrightarrow> length l < m \<Longrightarrow>
   scan_lines m (l @ NL # s) = (dropCR l # fst (scan_lines m s), snd (scan_lines m s))"
proof -
  assume l: "NL \<notin> set l" "length l < m"
  have "takeWhile (\<lambda>c. c \<noteq> NL) (l @ NL # s) = l" using l(1) by (subst takeWhile_append2) auto
  then show ?thesis using l(2) by (subst scan_lines.simps) (simp add: Let_def split: prod.split)
qed

lemma scan_lines_last:
  "NL \<notin> set l \<Longrightarrow> length l < m \<Longrightarrow> l \<noteq> [] \<Longrightarrow> scan_lines m l = ([dropCR l], False)"
proof -
  assume l: "NL \<notin> set l" "length l < m" "l \<noteq> []"
  have tw: "takeWhile (\<lambda>c. c \<noteq> NL) l = l" using l(1) by (auto simp: takeWhile_eq_all_conv)
  show ?thesis using l(2,3) by (subst scan_lines.simps) (simp add: Let_def tw)
qed

lemma dropCR_plain [simp]: "CHR 0x0D \<notin> set l \<Longrightarrow> dropCR l = l"
  by (metis dropCR_def last_in_set)

lemma scan_unlines:
  "\<forall>l \<in> set ls. NL \<notin> set l \<and> CHR 0x0D \<notin> set l \<and> length l < m \<Longrightarrow> scan_lines m (unlines ls) = (ls, False)"
  by (induction ls) (simp_all add: scan_lines_line)

lemma scan_no_newline: "l \<in> set (fst (scan_lines m s)) \<Longrightarrow> NL \<notin> set l"
proof (induction m s rule: scan_lines.induct)
  case (1 m s)
  then show ?case
    by (subst (asm) scan_lines.simps)
       (auto simp: dropCR_def Let_def split: if_splits prod.splits dest: in_set_butlastD set_takeWhileD)
qed

section \<open>Paths\<close>

lemma ini_split_length: "length path \<le> 1 \<Longrightarrow> length (ini_split path d v s) \<in> {1, 2}"
  by (induction path d v s rule: ini_split.induct) (auto simp: le_Suc_eq)

lemma ini_split_key:
  "length path = 1 \<Longrightarrow> ini_split path d v s = path @ [v @ filter (\<lambda>c. c \<noteq> CHR ''['' \<and> c \<noteq> CHR '']'') s]"
  by (induction s arbitrary: d v) auto

lemma ini_split_section:
  "set sec \<inter> set ''[].'' = {} \<Longrightarrow> ini_split [] 0 v (sec @ CHR ''.'' # key) = ini_split [v @ sec] 0 [] key"
  by (induction sec arbitrary: v) auto

lemma checkForArrayElement_length: "length (checkForArrayElement p) = (if checkForArrayElement p = [] then 0 else 4)"
  by (simp add: checkForArrayElement_def Let_def)

section \<open>Settings in values\<close>

lemma expand_plain: "CHR ''$'' \<notin> set t \<Longrightarrow> expand_template gs t = t"
  by (induction t) auto

lemma expand_group: "expand_template [m, g] ''$1'' = g"
  by (simp add: word_char_def group_value_def digit_char_def HasPrefix_def)

abbreviation setting_name :: "string \<Rightarrow> bool" where
  "setting_name n \<equiv> n \<noteq> [] \<and> list_all (\<lambda>c. word_char c \<or> c = CHR ''.'' \<or> c = CHR ''-'') n"

abbreviation setting :: "string \<Rightarrow> string" where
  "setting n \<equiv> ''{{config.'' @ n @ ''}}''"

lemma config_at_none: "\<not> HasPrefix s ''{{'' \<Longrightarrow> config_at s = None"
  by (simp add: config_at_def)

lemma config_at_setting:
  assumes "setting_name n"
  shows "config_at (setting n @ r) = Some (n, r)"
proof -
  let ?P = "\<lambda>c. word_char c \<or> c = CHR ''.'' \<or> c = CHR ''-''"
  have "takeWhile ?P (n @ CHR ''}'' # CHR ''}'' # r) = n"
    using assms by (subst takeWhile_append2) (auto simp: list_all_iff word_char_def)
  then show ?thesis using assms by (simp add: config_at_def Let_def HasPrefix_def blank_char_def)
qed

lemma config_at_other: "CHR ''{'' \<noteq> c \<Longrightarrow> config_at (c # s) = None"
  by (auto simp add: config_at_def HasPrefix_def)

lemma take_front: "take (length (a @ b) - length b) (a @ b) = a"
  by simp

lemma config_Match_setting: "setting_name n \<Longrightarrow> config_Match (pre @ setting n @ post)"
proof (induction pre)
  case Nil
  then show ?case by (simp add: config_Match.simps config_at_setting [simplified])
next
  case (Cons c pre)
  then show ?case by (subst config_Match.simps) simp
qed

lemma config_FindString_setting:
  "setting_name n \<Longrightarrow> CHR ''{'' \<notin> set pre \<Longrightarrow> config_FindString (pre @ setting n @ post) = setting n"
proof (induction pre)
  case Nil
  then show ?case
    by (subst config_FindString.simps) (simp only: append_Nil config_at_setting [OF Nil(1)] option.case prod.case take_front)
next
  case (Cons c pre)
  then show ?case by (subst config_FindString.simps) (simp add: config_at_other)
qed

lemma config_ReplaceAll_plain: "CHR ''{'' \<notin> set s \<Longrightarrow> config_ReplaceAll t s = s"
proof (induction s)
  case Nil
  then show ?case by (simp add: config_ReplaceAll.simps config_at_def HasPrefix_def)
next
  case (Cons c s)
  then show ?case by (subst config_ReplaceAll.simps) (simp add: config_at_other)
qed

lemma config_ReplaceAll_setting:
  assumes "setting_name n" "CHR ''{'' \<notin> set post"
  shows "CHR ''{'' \<notin> set pre \<Longrightarrow>
    config_ReplaceAll t (pre @ setting n @ post) = pre @ expand_template [setting n, n] t @ post"
proof (induction pre)
  case Nil
  show ?case
    by (subst config_ReplaceAll.simps)
       (simp only: append_Nil config_at_setting [OF assms(1)] option.case prod.case take_front config_ReplaceAll_plain [OF assms(2)])
next
  case (Cons c pre)
  then show ?case by (subst config_ReplaceAll.simps) (simp add: config_at_other)
qed

section \<open>Quoting\<close>

lemma hex_digit_printable: "of_char (hex_digit n) \<in> {48..102 :: nat}"
proof -
  have "n mod 16 < length ''0123456789abcdef''" by simp
  then have "hex_digit n \<in> set ''0123456789abcdef''" unfolding hex_digit_def by (rule nth_mem)
  then show ?thesis by auto
qed

lemma hex_digits_printable: "c \<in> set (hex_digits k n) \<Longrightarrow> of_char c \<in> {48..102 :: nat}"
  by (induction k arbitrary: n) (auto dest: arg_cong [where f = of_char] simp: hex_digit_printable [simplified])

lemma escape_rune_cases:
  "(\<exists>s. escape_rune r = backslash s \<and> set s \<subseteq> {c. of_char c \<in> {32..126 :: nat}}) \<or> 32 \<le> r \<and> r \<le> 126 \<and> escape_rune r = [char_of r]"
proof -
  have h: "set (hex_digits k n) \<subseteq> {c. of_char c \<in> {32..126 :: nat}}" for k n
    using hex_digits_printable by fastforce
  show ?thesis unfolding escape_rune_def using h by (simp add: backslash_def)
qed

lemma escape_rune_printable: "c \<in> set (escape_rune r) \<Longrightarrow> of_char c \<in> {32..126 :: nat}"
  using escape_rune_cases [of r] by (elim disjE exE conjE) (auto simp: backslash_def)

lemma escape_rune_nonempty [simp]: "escape_rune r \<noteq> []"
  by (simp add: escape_rune_def backslash_def)

lemma char_of_quote: "r < 256 \<Longrightarrow> char_of r = CHR 0x22 \<longleftrightarrow> r = (34 :: nat)"
  by (simp add: char_of_eq_iff take_bit_eq_mod)

lemma escape_rune_hd: "hd (escape_rune r) \<noteq> CHR 0x22"
  by (auto simp: escape_rune_def backslash_def char_of_quote)

lemma last_hex_digits: "k \<noteq> 0 \<Longrightarrow> last (hex_digits k n) \<noteq> CHR 0x22"
  using hex_digit_printable [of n] by (cases k) (auto simp: hex_digit_def)

lemma escape_rune_last: "128 \<le> r \<Longrightarrow> last (escape_rune r) \<noteq> CHR 0x22"
  using last_hex_digits [of 4 r] last_hex_digits [of 8 r] by (auto simp: escape_rune_def backslash_def)

lemma escape_ascii_last: "r < 128 \<Longrightarrow> last (escape_rune r) = CHR 0x22 \<longleftrightarrow> r = 0x22"
  using last_hex_digits [of 2 r]
  by (auto simp: escape_rune_def backslash_def char_of_quote)

lemma decode_rune_bounds: "decode_rune (b # bs) = Some (r, w) \<Longrightarrow> 128 \<le> r \<and> 2 \<le> w \<and> w \<le> Suc (length bs)"
  by (auto simp: decode_rune_def cont_def split: list.splits if_splits)

lemma escape_text_printable: "c \<in> set (escape_text s) \<Longrightarrow> of_char c \<in> {32..126 :: nat}"
proof (induction s rule: escape_text.induct)
  case (2 d s)
  then show ?case
    by (auto simp: Let_def backslash_def split: if_splits option.splits dest!: escape_rune_printable hex_digits_printable)
qed simp

lemma escape_text_nonempty: "escape_text s = [] \<longleftrightarrow> s = []"
  by (cases s) (auto simp: Let_def backslash_def split: option.splits)

lemma escape_text_hd: "s \<noteq> [] \<Longrightarrow> hd (escape_text s) \<noteq> CHR 0x22"
  by (cases s) (auto simp: Let_def backslash_def escape_rune_hd split: option.splits)

lemma escape_text_last: "s \<noteq> [] \<Longrightarrow> last (escape_text s) = CHR 0x22 \<Longrightarrow> last s = CHR 0x22"
proof (induction s rule: escape_text.induct)
  case (2 c s)
  let ?b = "of_char c :: nat"
  consider "?b < 128" | "\<not> ?b < 128" "decode_rune (?b # map of_char (take 3 s)) = None"
    | r w where "\<not> ?b < 128" "decode_rune (?b # map of_char (take 3 s)) = Some (r, w)" by fastforce
  then show ?case
  proof cases
    case 1
    show ?thesis
    proof (cases "s = []")
      case True
      then have "?b = 34" using 1 "2.prems" by (simp add: escape_ascii_last)
      then show ?thesis using True by (metis char_of_char last.simps char_of_quote [of 34] zero_less_numeral numeral_less_iff semiring_norm(76,78,79,81))
    next
      case False
      then show ?thesis using 1 2 by (simp add: escape_text_nonempty)
    qed
  next
    case 2
    then show ?thesis
      using "2.prems" "2.IH"(2) last_hex_digits [of 2 ?b] by (cases "s = []") (auto simp: escape_text_nonempty backslash_def split: if_splits)
  next
    case 3
    note w = decode_rune_bounds [OF 3(2)]
    show ?thesis
    proof (cases "drop (w - 1) s = []")
      case True
      then show ?thesis using 3 "2.prems" escape_rune_last w by simp
    next
      case False
      then have "last (escape_text (drop (w - 1) s)) = CHR 0x22" using 3 "2.prems" by (simp add: escape_text_nonempty)
      then have "last (drop (w - 1) s) = CHR 0x22" using "2.IH"(3) [OF refl 3 refl False] by simp
      then show ?thesis using False by (auto simp: last_drop)
    qed
  qed
qed simp

lemma decode_rune_quote:
  "128 \<le> b \<Longrightarrow> decode_rune (b # map of_char (take 3 (s @ [CHR 0x22]))) = decode_rune (b # map of_char (take 3 s))"
proof -
  consider "s = []" | x where "s = [x]" | x y where "s = [x, y]" | x y z t where "s = x # y # z # t"
    by (metis list.exhaust)
  then show ?thesis by cases (auto simp: decode_rune_def cont_def numeral_3_eq_3)
qed

lemma escape_text_quote: "escape_text (s @ [CHR 0x22]) = escape_text s @ backslash [CHR 0x22]"
proof (induction s rule: escape_text.induct)
  case 1
  show ?case using char_of_quote [of 34] by (simp add: escape_rune_def)
next
  case (2 c s)
  let ?b = "of_char c :: nat"
  show ?case
  proof (cases "?b < 128")
    case True
    then show ?thesis using 2 by simp
  next
    case False
    then have d: "decode_rune (?b # map of_char (take 3 (s @ [CHR 0x22]))) = decode_rune (?b # map of_char (take 3 s))"
      by (intro decode_rune_quote) simp
    show ?thesis
    proof (cases "decode_rune (?b # map of_char (take 3 s))")
      case None
      then show ?thesis using 2 False d by (simp add: Let_def del: take_append)
    next
      case (Some q)
      obtain r w where q: "q = (r, w)" by (rule prod.exhaust)
      have "w - 1 \<le> length s" using decode_rune_bounds [OF Some [unfolded q]] by auto
      then have "drop (w - 1) (s @ [CHR 0x22]) = drop (w - 1) s @ [CHR 0x22]" by simp
      then show ?thesis
        using "2.IH"(3) [OF refl False Some [unfolded q] refl] False d Some q by (simp add: Let_def del: take_append drop_append)
    qed
  qed
qed

lemma dropWhile_hd: "(s \<noteq> [] \<Longrightarrow> \<not> P (hd s)) \<Longrightarrow> dropWhile P s = s"
  by (cases s) auto

lemma Trim_quoted:
  "Trim (QuoteToASCII v) [CHR 0x22] =
     (if v \<noteq> [] \<and> last v = CHR 0x22 then escape_text (butlast v) @ backslash [] else escape_text v)"
proof -
  let ?q = "\<lambda>c. c \<in> set [CHR 0x22]"
  have front: "v \<noteq> [] \<Longrightarrow> dropWhile ?q (QuoteToASCII v) = escape_text v @ [CHR 0x22]"
    using escape_text_hd [of v] by (simp add: QuoteToASCII_def quoted_def) (subst dropWhile_hd, auto simp: escape_text_nonempty)
  consider "v = []" | "v \<noteq> []" "last v \<noteq> CHR 0x22" | u where "v = u @ [CHR 0x22]" by (metis append_butlast_last_id)
  then show ?thesis
  proof cases
    case 1
    then show ?thesis by (simp add: Trim_def QuoteToASCII_def quoted_def)
  next
    case 2
    then have "last (escape_text v) \<noteq> CHR 0x22" using escape_text_last by blast
    then have "dropWhile ?q (rev (escape_text v)) = rev (escape_text v)" using 2 by (intro dropWhile_hd) (auto simp: hd_rev)
    then show ?thesis using 2 front by (simp add: Trim_def)
  next
    case 3
    then show ?thesis using front by (simp add: Trim_def escape_text_quote backslash_def)
  qed
qed

section \<open>Properties\<close>


definition plain_json :: json_lib where
  "plain_json =
     \<lparr>jl_ParseString = Some, jl_Unescape = Some,
      jl_Get = (\<lambda>conf p. if p = [''docker'', ''interface''] then (''172.18.0.1'', TString, None) else ([], NotExist, Some KeyPathNotFound)),
      jl_ToSnake = (\<lambda>s. s)\<rparr>"


text \<open>C37: A property value is written on its own line, in printable ASCII: whatever the value holds, it cannot add a line. The
  line reads back as the value was escaped, except that a value that ends with a double quote loses it and leaves a
  backslash at the end of the line, which joins the next line to it.\<close>

theorem property_line_written:
  "property_line key v =
     key @ ''='' @ (if v \<noteq> [] \<and> last v = CHR 0x22 then escape_text (butlast v) @ [CHR 0x5C] else escape_text v) @ [NL]
   \<and> list_all (\<lambda>c. of_char c \<in> {32..126 :: nat}) (escape_text v)"
  using escape_text_printable [of _ v] unfolding property_line_def Trim_quoted by (auto simp: backslash_def list_all_iff)

text \<open>Text of printable characters other than quotes and backslashes is written as it is.\<close>

lemma escape_text_plain:
  "list_all (\<lambda>c. of_char c \<in> {32..126 :: nat} - {0x22, 0x5C}) v \<Longrightarrow> escape_text v = v"
  by (induction v) (auto simp: escape_rune_def)

text \<open>Characters outside of the basic plane get an escape that property files do not have.\<close>

lemma astral_escape: "escape_text [CHR 0xF0, CHR 0x9F, CHR 0x98, CHR 0x80] = CHR 0x5C # ''U0001f600''"
proof -
  have h: "hex_digits (numeral k) n = hex_digits (pred_numeral k) (n div 16) @ [hex_digit n]" for k n
    by (simp only: numeral_eq_Suc [of k] hex_digits.simps)
  show ?thesis by (simp add: decode_rune_def cont_def escape_rune_def backslash_def h hex_digit_def)
qed

text \<open>A path into an INI file is a key, or a section and a key; of a section whose name has neither brackets nor dots the
  key is all that follows the first dot, without the brackets it has.\<close>

theorem ini_path_parts:
  "length (ini_path match) \<in> {1, 2} \<and>
   (set sec \<inter> set ''[].'' = {} \<longrightarrow>
    ini_path (sec @ ''.'' @ key) = [sec, filter (\<lambda>c. c \<noteq> CHR ''['' \<and> c \<noteq> CHR '']'') key])"
  using ini_split_length [of "[]" 0 "[]" match] ini_split_section [of sec "[]" key]
  by (simp add: ini_path_def ini_split_key)

theorem ini_path_parts_witness:
  "ini_path ''game.Stats[1]'' = [''game'', ''Stats1''] \<and> ini_path ''[a.b].c'' = [''a.b'', ''c'']"
  using ini_path_parts [of "[]" "''game''" "''Stats[1]''"] by (simp add: ini_path_def)

text \<open>The form of an attribute that the sources describe, with double quotes, is not recognised.\<close>

lemma xml_attribute_quotes:
  "xmlValueMatch (''[value='' @ quoted ''testing'' @ '']'') = None"
  "xmlValueMatch (''[value='' @ [CHR 0x27] @ ''testing'' @ [CHR 0x27] @ '']'') = Some (''value'', ''testing'')"
  by code_simp+

text \<open>A text that looks like a number becomes one, and loses its leading zeros.\<close>

lemma zeros_lost:
  "rv_type (rp_ReplaceWith cfr) = TString \<Longrightarrow> getKeyValue cfr ''007'' = JInt 7"
  by (simp add: getKeyValue_def parse_int_def HasPrefix_def in_i64_def)

end
