(* ===== verification/Config_Files.thy ===== *)
theory Config_Files
  imports Config_Values Walk
begin

text \<open>
  The configuration files that are rewritten before a server boots: the parsers of \<^verbatim>\<open>parser/parser.go\<close> and
  \<^verbatim>\<open>parser/helpers.go\<close>, and \<^verbatim>\<open>UpdateConfigurationFiles\<close> of \<^verbatim>\<open>server/config_parser.go\<close>.

  The libraries that read and write JSON, YAML, XML, INI and property files are parameters. Their documents are mutable and
  shared, so a library works on a heap of its own, and containers, elements and sections are references into it. Regular
  expressions that a replacement brings along are a parameter too. Each parser has one part that computes the new text from
  what was read, and ends by rewinding, truncating and writing the file; a panic of a parser is not recovered.
\<close>

section \<open>Results\<close>

datatype gabs_error = GabsNotFound | GabsNotArray | GabsError string

datatype parser_error =
  StatFailed errno | TooLarge int | ReadFailed string | LineTooLong | Unparsable string | LookupFailed get_error
| SetFailed gabs_error | NotSet string | Unprintable string | SeekFailed string | TruncateFailed string | WriteFailed string

type_synonym 'a parsed = "(parser_error + 'a) outcome"

definition and_ok :: "'a parsed \<Rightarrow> ('a \<Rightarrow> 'b parsed) \<Rightarrow> 'b parsed" where
  "and_ok m f = on_return (\<lambda>r. case r of Inl e \<Rightarrow> Return (Inl e) | Inr a \<Rightarrow> f a) m"

abbreviation failed :: "parser_error \<Rightarrow> 'a parsed" where
  "failed e \<equiv> Return (Inl e)"

abbreviation done_with :: "'a \<Rightarrow> 'a parsed" where
  "done_with a \<equiv> Return (Inr a)"

lemma and_ok_simps [simp]:
  "and_ok (Return (Inr a)) f = f a" "and_ok (Return (Inl e)) f = Return (Inl e)" "and_ok (Panic m) f = Panic m"
  by (simp_all add: and_ok_def)

definition looked_up :: "json_lib \<Rightarrow> string \<Rightarrow> replacement \<Rightarrow> string parsed" where
  "looked_up L conf r =
     on_return (\<lambda>v. case v of Inl e \<Rightarrow> failed (LookupFailed e) | Inr s \<Rightarrow> done_with s) (LookupConfigurationValue L conf r)"

section \<open>JSON and YAML\<close>

record ('c, 'h) gabs =
  gb_ParseJSON :: "string \<Rightarrow> string + 'c \<times> 'h"
  gb_Path :: "'c \<Rightarrow> string \<Rightarrow> 'h \<Rightarrow> 'c"
  gb_Children :: "'c \<Rightarrow> 'h \<Rightarrow> 'c list"
  gb_ExistsP :: "'c \<Rightarrow> string \<Rightarrow> 'h \<Rightarrow> bool"
  gb_Bytes :: "'c \<Rightarrow> 'h \<Rightarrow> string"
  gb_String :: "'c \<Rightarrow> 'h \<Rightarrow> string"
  gb_SetP :: "'c \<Rightarrow> json_value \<Rightarrow> string \<Rightarrow> 'h \<Rightarrow> gabs_error option \<times> 'h"
  gb_Set :: "'c \<Rightarrow> json_value \<Rightarrow> 'h \<Rightarrow> gabs_error option \<times> 'h"
  gb_ArrayElementP :: "'c \<Rightarrow> int \<Rightarrow> string \<Rightarrow> 'h \<Rightarrow> gabs_error + 'c"
  gb_BytesIndent :: "'c \<Rightarrow> 'h \<Rightarrow> string"

definition setValueAtPath :: "('c, 'h) gabs \<Rightarrow> 'c \<Rightarrow> string \<Rightarrow> json_value \<Rightarrow> 'h \<Rightarrow> gabs_error option \<times> 'h" where
  "setValueAtPath G c path v h =
     (let matches = checkForArrayElement path
      in if length matches < 3 then gb_SetP G c v path h
         else let i = Atoi (matches ! 2);
                  store = (\<lambda>ct. if length matches = 4 then gb_SetP G ct v (TrimPrefix (matches ! 3) ''.'') else gb_Set G ct v)
              in case gb_ArrayElementP G c i (matches ! 1) h of
                   Inr ct \<Rightarrow> store ct h
                 | Inl e \<Rightarrow>
                     if i \<noteq> 0 \<or> e \<noteq> GabsNotArray \<and> e \<noteq> GabsNotFound then (Some e, h)
                     else (case gb_SetP G c (JArray (if length matches = 4 then JEmptyObject else JNull)) (matches ! 1) h of
                             (Some e, h) \<Rightarrow> (Some e, h)
                           | (None, h) \<Rightarrow>
                               (case gb_ArrayElementP G c 0 (matches ! 1) h of
                                  Inl e \<Rightarrow> (Some e, h)
                                | Inr ct \<Rightarrow> store ct h)))"

text \<open>A regular expression: whether it compiles, and then its \<^verbatim>\<open>Match\<close> and \<^verbatim>\<open>ReplaceAllString\<close>.\<close>

type_synonym regexps = "string \<Rightarrow> ((string \<Rightarrow> bool) \<times> (string \<Rightarrow> string \<Rightarrow> string)) option"

definition SetAtPathway ::
  "('c, 'h) gabs \<Rightarrow> regexps \<Rightarrow> replacement \<Rightarrow> 'c \<Rightarrow> string \<Rightarrow> string \<Rightarrow> 'h \<Rightarrow> gabs_error option \<times> 'h" where
  "SetAtPathway G rx cfr c path v h =
     (if rp_IfValue cfr = [] then setValueAtPath G c path (getKeyValue cfr v) h
      else if HasPrefix (rp_IfValue cfr) ''regex:'' then
        (if gb_ExistsP G c path h then (Some GabsNotFound, h)
         else case rx (TrimPrefix (rp_IfValue cfr) ''regex:'') of
                None \<Rightarrow> (None, h)
              | Some (matches, replace) \<Rightarrow>
                  let old = Trim (gb_String G (gb_Path G c path h) h) [CHR 0x22]
                  in if matches old then setValueAtPath G c path (JString (replace old v)) h else (None, h))
      else if gb_ExistsP G c path h \<and> gb_Bytes G c h \<noteq> rp_IfValue cfr then (None, h)
      else setValueAtPath G c path (getKeyValue cfr v) h)"

text \<open>\<^verbatim>\<open>strings.SplitN\<close> in two: before and after the first separator.\<close>

fun cut_first :: "string \<Rightarrow> string \<Rightarrow> string \<times> string" where
  "cut_first sep [] = ([], [])"
| "cut_first sep (c # s) =
     (if HasPrefix (c # s) sep then ([], drop (length sep) (c # s))
      else let (a, b) = cut_first sep s in (c # a, b))"

fun set_children ::
  "('c, 'h) gabs \<Rightarrow> regexps \<Rightarrow> replacement \<Rightarrow> string \<Rightarrow> string \<Rightarrow> 'c list \<Rightarrow> 'h \<Rightarrow> (parser_error + 'h)" where
  "set_children G rx cfr path v [] h = Inr h"
| "set_children G rx cfr path v (c # cs) h =
     (case SetAtPathway G rx cfr c path v h of
        (None, h) \<Rightarrow> set_children G rx cfr path v cs h
      | (Some GabsNotFound, h) \<Rightarrow> set_children G rx cfr path v cs h
      | (Some e, h) \<Rightarrow> Inl (SetFailed e))"

definition set_one :: "('c, 'h) gabs \<Rightarrow> regexps \<Rightarrow> 'c \<Rightarrow> replacement \<Rightarrow> string \<Rightarrow> 'h \<Rightarrow> (parser_error + 'h)" where
  "set_one G rx root r v h =
     (if Contains (rp_Match r) ''.*'' then
        let (before, after) = cut_first ''.*'' (rp_Match r)
        in set_children G rx r (Trim after ''.'') v (gb_Children G (gb_Path G root (Trim before ''.'') h) h) h
      else set_children G rx r (rp_Match r) v [root] h)"

fun set_all :: "json_lib \<Rightarrow> string \<Rightarrow> ('c, 'h) gabs \<Rightarrow> regexps \<Rightarrow> 'c \<Rightarrow> replacement list \<Rightarrow> 'h \<Rightarrow> 'h parsed" where
  "set_all L conf G rx root [] h = done_with h"
| "set_all L conf G rx root (r # rs) h =
     and_ok (looked_up L conf r) (\<lambda>v.
       case set_one G rx root r v h of
         Inl e \<Rightarrow> failed e
       | Inr h \<Rightarrow> set_all L conf G rx root rs h)"

definition IterateOverJson ::
  "json_lib \<Rightarrow> string \<Rightarrow> ('c, 'h) gabs \<Rightarrow> regexps \<Rightarrow> replacement list \<Rightarrow> string \<Rightarrow> ('c \<times> 'h) parsed" where
  "IterateOverJson L conf G rx rs data =
     (case gb_ParseJSON G data of
        Inl e \<Rightarrow> failed (Unparsable e)
      | Inr (root, h) \<Rightarrow> and_ok (set_all L conf G rx root rs h) (\<lambda>h. done_with (root, h)))"

text \<open>YAML goes through JSON: the text of the document as JSON, and the text of a container as YAML.\<close>

record ('c, 'h) yaml_lib =
  yl_json :: "string \<Rightarrow> string + string"
  yl_Marshal :: "'c \<Rightarrow> 'h \<Rightarrow> string + string"

section \<open>The other libraries\<close>

text \<open>What a reader gave: the bytes, and the error that ended it before the end of the file.\<close>

type_synonym read_result = "string \<times> string option"

record ('e, 'x) etree =
  xt_ReadFrom :: "read_result \<Rightarrow> string + 'x"
  xt_Root :: "'x \<Rightarrow> 'e option"
  xt_CreateProcInst :: "string \<Rightarrow> string \<Rightarrow> 'x \<Rightarrow> 'x"
  xt_doc_CreateElement :: "string \<Rightarrow> 'x \<Rightarrow> 'e \<times> 'x"
  xt_SetRoot :: "'e \<Rightarrow> 'x \<Rightarrow> 'x"
  xt_FindElement :: "'e \<Rightarrow> string \<Rightarrow> 'x \<Rightarrow> 'e option outcome"  \<comment> \<open>panics on a malformed path\<close>
  xt_CreateElement :: "'e \<Rightarrow> string \<Rightarrow> 'x \<Rightarrow> 'e \<times> 'x"
  xt_FindElements :: "string \<Rightarrow> 'x \<Rightarrow> 'e list outcome"
  xt_CreateAttr :: "'e \<Rightarrow> string \<Rightarrow> string \<Rightarrow> 'x \<Rightarrow> 'x"
  xt_SetText :: "'e \<Rightarrow> string \<Rightarrow> 'x \<Rightarrow> 'x"
  xt_Indent :: "'x \<Rightarrow> 'x"
  xt_text :: "'x \<Rightarrow> string"

record ('s, 'i) ini_lib =
  il_Load :: "read_result \<Rightarrow> string + 'i"
  il_Section :: "string \<Rightarrow> 'i \<Rightarrow> 's option \<times> 'i"
  il_NewSection :: "string \<Rightarrow> 'i \<Rightarrow> (string + 's) \<times> 'i"
  il_HasKey :: "'s \<Rightarrow> string \<Rightarrow> 'i \<Rightarrow> bool"
  il_SetValue :: "'s \<Rightarrow> string \<Rightarrow> string \<Rightarrow> 'i \<Rightarrow> 'i"
  il_NewKey :: "'s \<Rightarrow> string \<Rightarrow> string \<Rightarrow> 'i \<Rightarrow> string option \<times> 'i"
  il_text :: "'i \<Rightarrow> string"

record 'p prop_lib =
  pl_Load :: "string \<Rightarrow> string + 'p"
  pl_Get :: "string \<Rightarrow> 'p \<Rightarrow> string option"
  pl_Set :: "string \<Rightarrow> string \<Rightarrow> 'p \<Rightarrow> string option \<times> 'p"
  pl_Keys :: "'p \<Rightarrow> string list"

record ('c, 'h, 'e, 'x, 's, 'i, 'p) libs =
  lib_json :: json_lib
  lib_gabs :: "('c, 'h) gabs"
  lib_yaml :: "('c, 'h) yaml_lib"
  lib_regexps :: regexps
  lib_xml :: "('e, 'x) etree"
  lib_ini :: "('s, 'i) ini_lib"
  lib_prop :: "'p prop_lib"

section \<open>XML\<close>

text \<open>Creating the elements on the way to a path. A document without a root has no element to start from.\<close>

fun make_path :: "('e, 'x) etree \<Rightarrow> string list \<Rightarrow> 'e option \<Rightarrow> 'x \<Rightarrow> 'x outcome" where
  "make_path X [] el x = Return x"
| "make_path X (t # ts) None x = Panic ''nil pointer dereference''"
| "make_path X (t # ts) (Some el) x =
     on_return (\<lambda>found. case found of
         None \<Rightarrow> (case xt_CreateElement X el t x of (el, x) \<Rightarrow> make_path X ts (Some el) x)
       | Some el \<Rightarrow> make_path X ts (Some el) x)
     (xt_FindElement X el t x)"

definition set_element :: "('e, 'x) etree \<Rightarrow> string \<Rightarrow> 'x \<Rightarrow> 'e \<Rightarrow> 'x" where
  "set_element X v x el =
     (case xmlValueMatch v of
        Some (k, a) \<Rightarrow> xt_CreateAttr X el k a x
      | None \<Rightarrow> xt_SetText X el v x)"

definition xml_one :: "('e, 'x) etree \<Rightarrow> bool \<Rightarrow> string \<Rightarrow> string \<Rightarrow> 'x \<Rightarrow> 'x outcome" where
  "xml_one X first match v x =
     (let x = (if first \<and> xt_Root X x = None
               then case xt_doc_CreateElement X (hd (Split match CHR ''.'')) x of (el, x) \<Rightarrow> xt_SetRoot X el x
               else x);
          path = ''./'' @ map (\<lambda>c. if c = CHR ''.'' then CHR ''/'' else c) match
      in on_return (\<lambda>x. on_return (\<lambda>els. Return (foldl (set_element X v) x els)) (xt_FindElements X path x))
           (if CHR ''*'' \<in> set path then Return x else make_path X (tl (Split match CHR ''.'')) (xt_Root X x) x))"

fun xml_all :: "json_lib \<Rightarrow> string \<Rightarrow> ('e, 'x) etree \<Rightarrow> bool \<Rightarrow> replacement list \<Rightarrow> 'x \<Rightarrow> 'x parsed" where
  "xml_all L conf X first [] x = done_with x"
| "xml_all L conf X first (r # rs) x =
     and_ok (looked_up L conf r) (\<lambda>v.
       on_return (\<lambda>x. xml_all L conf X False rs x) (xml_one X first (rp_Match r) v x))"

definition xml_text :: "json_lib \<Rightarrow> string \<Rightarrow> ('e, 'x) etree \<Rightarrow> replacement list \<Rightarrow> read_result \<Rightarrow> string parsed" where
  "xml_text L conf X rs inp =
     (case xt_ReadFrom X inp of
        Inl e \<Rightarrow> failed (Unparsable e)
      | Inr x \<Rightarrow>
          let x = (if xt_Root X x = None
                   then xt_CreateProcInst X ''xml'' (''version='' @ quoted ''1.0'' @ '' encoding='' @ quoted ''utf-8'') x else x)
          in and_ok (xml_all L conf X True rs x) (\<lambda>x. done_with (xt_text X (xt_Indent X x))))"

section \<open>INI\<close>

definition ini_one :: "('s, 'i) ini_lib \<Rightarrow> string \<Rightarrow> string \<Rightarrow> 'i \<Rightarrow> parser_error + 'i" where
  "ini_one I match v i =
     (let path = ini_path match; (s, i) = il_Section I [] i;
          (k, s, i) = (if length path = 2 then (case il_Section I (path ! 0) i of (s, i) \<Rightarrow> (path ! 1, s, i)) else (path ! 0, s, i));
          (s, i) = (case s of Some s \<Rightarrow> (Inr s, i) | None \<Rightarrow> il_NewSection I (path ! 0) i)
      in case s of
           Inl e \<Rightarrow> Inl (NotSet e)
         | Inr s \<Rightarrow>
             if il_HasKey I s k i then Inr (il_SetValue I s k v i)
             else (case il_NewKey I s k v i of (None, i) \<Rightarrow> Inr i | (Some e, i) \<Rightarrow> Inl (NotSet e)))"

fun ini_all :: "json_lib \<Rightarrow> string \<Rightarrow> ('s, 'i) ini_lib \<Rightarrow> replacement list \<Rightarrow> 'i \<Rightarrow> 'i parsed" where
  "ini_all L conf I [] i = done_with i"
| "ini_all L conf I (r # rs) i =
     and_ok (looked_up L conf r) (\<lambda>v.
       case ini_one I (rp_Match r) v i of Inl e \<Rightarrow> failed e | Inr i \<Rightarrow> ini_all L conf I rs i)"

definition ini_text :: "json_lib \<Rightarrow> string \<Rightarrow> ('s, 'i) ini_lib \<Rightarrow> replacement list \<Rightarrow> read_result \<Rightarrow> string parsed" where
  "ini_text L conf I rs inp =
     (case il_Load I inp of
        Inl e \<Rightarrow> failed (Unparsable e)
      | Inr i \<Rightarrow> and_ok (ini_all L conf I rs i) (\<lambda>i. done_with (il_text I i)))"

section \<open>JSON and YAML files\<close>

definition read_all :: "read_result \<Rightarrow> string parsed" where
  "read_all inp = (case snd inp of Some e \<Rightarrow> failed (ReadFailed e) | None \<Rightarrow> done_with (fst inp))"

definition json_text :: "json_lib \<Rightarrow> string \<Rightarrow> ('c, 'h) gabs \<Rightarrow> regexps \<Rightarrow> replacement list \<Rightarrow> read_result \<Rightarrow> string parsed" where
  "json_text L conf G rx rs inp =
     and_ok (read_all inp) (\<lambda>b.
       and_ok (IterateOverJson L conf G rx rs b) (\<lambda>(root, h). done_with (gb_BytesIndent G root h)))"

definition yaml_text ::
  "json_lib \<Rightarrow> string \<Rightarrow> ('c, 'h) gabs \<Rightarrow> ('c, 'h) yaml_lib \<Rightarrow> regexps \<Rightarrow> replacement list \<Rightarrow> read_result \<Rightarrow> string parsed" where
  "yaml_text L conf G Y rx rs inp =
     and_ok (read_all inp) (\<lambda>b.
       case yl_json Y b of
         Inl e \<Rightarrow> failed (Unparsable e)
       | Inr j \<Rightarrow>
           and_ok (IterateOverJson L conf G rx rs j) (\<lambda>(root, h).
             case yl_Marshal Y root h of Inl e \<Rightarrow> failed (Unprintable e) | Inr s \<Rightarrow> done_with s))"

section \<open>Text\<close>

definition maxConfigFileSize :: nat where "maxConfigFileSize = 67108864"
definition maxTextScanTokenSize :: nat where "maxTextScanTokenSize = 67108864"

text \<open>What is written for a line, and whether a replacement matched it.\<close>

fun replace_line :: "json_lib \<Rightarrow> replacement list \<Rightarrow> string \<Rightarrow> (string \<times> bool) outcome" where
  "replace_line L [] line = Return ([], False)"
| "replace_line L (r # rs) line =
     (if \<not> HasPrefix line (rp_Match r) then replace_line L rs line
      else on_return (\<lambda>b. on_return (\<lambda>(t, _). Return (b @ t, True)) (replace_line L rs line)) (rv_Bytes L (rp_ReplaceWith r)))"

fun replace_lines :: "json_lib \<Rightarrow> replacement list \<Rightarrow> string list \<Rightarrow> string outcome" where
  "replace_lines L rs [] = Return []"
| "replace_lines L rs (l # ls) =
     on_return (\<lambda>(t, replaced).
       on_return (\<lambda>rest. Return ((if replaced then t else l) @ NL # rest)) (replace_lines L rs ls))
     (replace_line L rs l)"

definition plain_text :: "json_lib \<Rightarrow> replacement list \<Rightarrow> read_result \<Rightarrow> string parsed" where
  "plain_text L rs inp =
     (let (ls, long) = scan_lines maxTextScanTokenSize (fst inp)
      in on_return (\<lambda>b.
           if long then failed LineTooLong
           else case snd inp of Some e \<Rightarrow> failed (ReadFailed e) | None \<Rightarrow> done_with b)
         (replace_lines L rs ls))"

section \<open>Property files\<close>

definition MaxScanTokenSize :: nat where "MaxScanTokenSize = 65536"

text \<open>The comments and blank lines at the head of the file, and whether a line with a property ended them.\<close>

fun head_comments :: "string list \<Rightarrow> string \<times> bool" where
  "head_comments [] = ([], False)"
| "head_comments (l # ls) =
     (if l \<noteq> [] \<and> hd l \<noteq> CHR ''#'' then ([], True)
      else let (s, stopped) = head_comments ls in (l @ NL # s, stopped))"

fun set_properties :: "json_lib \<Rightarrow> string \<Rightarrow> 'p prop_lib \<Rightarrow> replacement list \<Rightarrow> 'p \<Rightarrow> 'p parsed" where
  "set_properties L conf P [] p = done_with p"
| "set_properties L conf P (r # rs) p =
     and_ok (looked_up L conf r) (\<lambda>v.
       if rp_IfValue r \<noteq> [] \<and> pl_Get P (rp_Match r) p \<noteq> Some (rp_IfValue r) then set_properties L conf P rs p
       else case pl_Set P (rp_Match r) v p of
              (Some e, p) \<Rightarrow> failed (NotSet e)
            | (None, p) \<Rightarrow> set_properties L conf P rs p)"

definition property_lines :: "'p prop_lib \<Rightarrow> 'p \<Rightarrow> string" where
  "property_lines P p = concat (map (\<lambda>k. case pl_Get P k p of None \<Rightarrow> [] | Some v \<Rightarrow> property_line k v) (pl_Keys P p))"

definition properties_text :: "json_lib \<Rightarrow> string \<Rightarrow> 'p prop_lib \<Rightarrow> replacement list \<Rightarrow> read_result \<Rightarrow> string parsed" where
  "properties_text L conf P rs inp =
     and_ok (read_all inp) (\<lambda>b.
       let (ls, long) = scan_lines MaxScanTokenSize b; (s, stopped) = head_comments ls
       in if long \<and> \<not> stopped then failed LineTooLong
          else case pl_Load P b of
                 Inl e \<Rightarrow> failed (Unparsable e)
               | Inr p \<Rightarrow> and_ok (set_properties L conf P rs p) (\<lambda>p. done_with (s @ property_lines P p)))"

section \<open>Parsing a file\<close>

record ConfigurationFile =
  cf_FileName :: string
  cf_Parser :: string
  cf_Replace :: "replacement list"

text \<open>The text a parser makes of what it read; there is none for an unknown parser.\<close>

definition parser_text ::
  "('c, 'h, 'e, 'x, 's, 'i, 'p) libs \<Rightarrow> string \<Rightarrow> ConfigurationFile \<Rightarrow> (read_result \<Rightarrow> string parsed) option" where
  "parser_text M iface f =
     (let L = lib_json M; conf = templatableConfig iface; rs = cf_Replace f
      in if cf_Parser f = ''properties'' then Some (properties_text L conf (lib_prop M) rs)
         else if cf_Parser f = ''file'' then Some (plain_text L rs)
         else if cf_Parser f = ''yaml'' \<or> cf_Parser f = ''yml'' then Some (yaml_text L conf (lib_gabs M) (lib_yaml M) (lib_regexps M) rs)
         else if cf_Parser f = ''json'' then Some (json_text L conf (lib_gabs M) (lib_regexps M) rs)
         else if cf_Parser f = ''ini'' then Some (ini_text L conf (lib_ini M) rs)
         else if cf_Parser f = ''xml'' then Some (xml_text L conf (lib_xml M) rs)
         else None)"

text \<open>
  The calls on the open file: reading at most so many bytes up to the end, rewinding, truncating to nothing, writing. The error
  of a write may come after a part has been written.
\<close>

record 'w file_io =
  io_read :: "fd \<Rightarrow> nat \<Rightarrow> 'w \<Rightarrow> read_result \<times> 'w"
  io_rewind :: "fd \<Rightarrow> 'w \<Rightarrow> string option \<times> 'w"
  io_truncate :: "fd \<Rightarrow> 'w \<Rightarrow> string option \<times> 'w"
  io_write :: "fd \<Rightarrow> string \<Rightarrow> 'w \<Rightarrow> string option \<times> 'w"

definition on_world :: "('w \<Rightarrow> 'a \<times> 'w) \<Rightarrow> ('w proc, 'a) state" where
  "on_world act = State (\<lambda>ps. case act (world ps) of (r, w) \<Rightarrow> (r, ps\<lparr>world := w\<rparr>))"

definition rewrite_file :: "'w file_io \<Rightarrow> fd \<Rightarrow> string \<Rightarrow> ('w proc, parser_error option) state" where
  "rewrite_file io f s = do {
     e \<leftarrow> on_world (io_rewind io f);
     (case e of
        Some e \<Rightarrow> ret (Some (SeekFailed e))
      | None \<Rightarrow> do {
          e \<leftarrow> on_world (io_truncate io f);
          (case e of
             Some e \<Rightarrow> ret (Some (TruncateFailed e))
           | None \<Rightarrow> do {
               e \<leftarrow> on_world (io_write io f s);
               ret (map_option WriteFailed e)
             })
        })
   }"

definition Parse ::
  "'w kernel \<Rightarrow> 'w file_io \<Rightarrow> ('c, 'h, 'e, 'x, 's, 'i, 'p) libs \<Rightarrow> string \<Rightarrow> ConfigurationFile \<Rightarrow> fd
    \<Rightarrow> ('w proc, parser_error option outcome) state" where
  "Parse k io M iface cf f = do {
     info \<leftarrow> sys_fstat k f;
     (case info of
        Inl e \<Rightarrow> ret (Return (Some (StatFailed e)))
      | Inr s \<Rightarrow>
          if st_size s > int maxConfigFileSize then ret (Return (Some (TooLarge (st_size s))))
          else (case parser_text M iface cf of
                  None \<Rightarrow> ret (Return None)
                | Some text \<Rightarrow> do {
                    inp \<leftarrow> on_world (io_read io f maxConfigFileSize);
                    (case text inp of
                       Panic m \<Rightarrow> ret (Panic m)
                     | Return (Inl e) \<Rightarrow> ret (Return (Some e))
                     | Return (Inr t) \<Rightarrow> do { e \<leftarrow> rewrite_file io f t; ret (Return e) })
                  }))
   }"

section \<open>The files of a server\<close>

definition update_file ::
  "unixfs \<Rightarrow> 'w kernel \<Rightarrow> 'w file_io \<Rightarrow> ('c, 'h, 'e, 'x, 's, 'i, 'p) libs \<Rightarrow> string \<Rightarrow> ConfigurationFile
    \<Rightarrow> ('w proc, unit outcome) state" where
  "update_file fs k io M iface cf = do {
     absent \<leftarrow> (if cf_Parser cf = ''file'' then do {
                   r \<leftarrow> Stat fs k (cf_FileName cf);
                   ret (case r of Inl e \<Rightarrow> is_not_exist e | Inr _ \<Rightarrow> False)
                 } else ret False);
     (if absent then ret (Return ())
      else do {
        r \<leftarrow> Touch fs k (cf_FileName cf) {O_RDWR, O_CREATE} 0x1A4;
        (case r of
           Inl e \<Rightarrow> ret (Return ())
         | Inr (f, nm) \<Rightarrow> do {
             out \<leftarrow> do { e \<leftarrow> Parse k io M iface cf f; ret (on_return (\<lambda>_. Return ()) e) };
             sys_close f;
             ret out
           })
      })
   }"

text \<open>The jobs of the pool, one file after the other; the daemon dies with the first that panics.\<close>

fun UpdateConfigurationFiles ::
  "unixfs \<Rightarrow> 'w kernel \<Rightarrow> 'w file_io \<Rightarrow> ('c, 'h, 'e, 'x, 's, 'i, 'p) libs \<Rightarrow> string \<Rightarrow> ConfigurationFile list
    \<Rightarrow> ('w proc, unit outcome) state" where
  "UpdateConfigurationFiles fs k io M iface [] = ret (Return ())"
| "UpdateConfigurationFiles fs k io M iface (cf # cfs) = do {
     r \<leftarrow> update_file fs k io M iface cf;
     (case r of Panic m \<Rightarrow> ret (Panic m) | Return _ \<Rightarrow> UpdateConfigurationFiles fs k io M iface cfs)
   }"

section \<open>Reading the replacements\<close>

text \<open>\<^verbatim>\<open>GetString\<close> and \<^verbatim>\<open>Get\<close> of \<^verbatim>\<open>jsonparser\<close> on the raw text of a replacement.\<close>

record raw_lib =
  rl_GetString :: "string \<Rightarrow> string \<Rightarrow> get_error + string"
  rl_Get :: "string \<Rightarrow> string \<Rightarrow> get_error + string \<times> value_type"

definition replacement_UnmarshalJSON :: "raw_lib \<Rightarrow> string \<Rightarrow> get_error + replacement" where
  "replacement_UnmarshalJSON R data =
     (case rl_GetString R data ''match'' of
        Inl e \<Rightarrow> Inl e
      | Inr m \<Rightarrow>
          (case (case rl_GetString R data ''if_value'' of Inl KeyPathNotFound \<Rightarrow> Inr [] | x \<Rightarrow> x) of
             Inl e \<Rightarrow> Inl e
           | Inr iv \<Rightarrow>
               (case (case rl_Get R data ''replace_with'' of Inl KeyPathNotFound \<Rightarrow> rl_Get R data ''value'' | x \<Rightarrow> x) of
                  Inl e \<Rightarrow> Inl e
                | Inr (rw, dt) \<Rightarrow> Inr \<lparr>rp_Match = m, rp_IfValue = iv, rp_ReplaceWith = \<lparr>rv_value = rw, rv_type = dt\<rparr>\<rparr>)))"

fun all_ok :: "('a \<Rightarrow> 'e + 'b) \<Rightarrow> 'a list \<Rightarrow> 'e + 'b list" where
  "all_ok f [] = Inr []"
| "all_ok f (x # xs) = (case f x of Inl e \<Rightarrow> Inl e | Inr y \<Rightarrow> map_sum id (\<lambda>ys. y # ys) (all_ok f xs))"

text \<open>A decoded JSON document of a configuration file: its members, with the raw text of the elements of arrays.\<close>

datatype raw_json = RawString string | RawNull | RawArray "string list" | RawOther

definition member :: "(string \<rightharpoonup> raw_json) \<Rightarrow> string \<Rightarrow> raw_json outcome" where
  "member m key =
     (case m key of
        None \<Rightarrow> Panic ''nil pointer dereference''
      | Some RawNull \<Rightarrow> Panic ''nil pointer dereference''
      | Some v \<Rightarrow> Return v)"

definition file_UnmarshalJSON :: "raw_lib \<Rightarrow> (string \<rightharpoonup> raw_json) option \<Rightarrow> ConfigurationFile option outcome" where
  "file_UnmarshalJSON R doc =
     (case doc of
        None \<Rightarrow> Return None
      | Some m \<Rightarrow> on_return (\<lambda>file. case file of
            RawString name \<Rightarrow> on_return (\<lambda>p. case p of
                RawString parser \<Rightarrow> on_return (\<lambda>rep. Return (Some
                    \<lparr>cf_FileName = name, cf_Parser = parser,
                     cf_Replace = (case rep of
                        RawArray xs \<Rightarrow> (case all_ok (replacement_UnmarshalJSON R) xs of Inl e \<Rightarrow> [] | Inr rs \<Rightarrow> rs)
                      | _ \<Rightarrow> [])\<rparr>))
                  (member m ''replace'')
              | _ \<Rightarrow> Return None) (member m ''parser'')
          | _ \<Rightarrow> Return None) (member m ''file''))"

section \<open>What is left of a file\<close>

text \<open>
  What the calls on an open regular file promise, for its contents \<open>obs\<close> and its offset \<open>pos\<close>: its size is that of the contents,
  reading, rewinding and failed truncations keep them, and what is written to an empty file is the text or, when the write
  fails, a beginning of it.
\<close>

definition file_laws :: "'w kernel \<Rightarrow> 'w file_io \<Rightarrow> (fd \<Rightarrow> 'w \<Rightarrow> string) \<Rightarrow> (fd \<Rightarrow> 'w \<Rightarrow> nat) \<Rightarrow> fd \<Rightarrow> bool" where
  "file_laws k io obs pos f \<longleftrightarrow>
     (\<forall>w s. k_fstat k f w = Inr s \<longrightarrow> st_size s = int (length (obs f w))) \<and>
     (\<forall>n w b e w'. io_read io f n w = ((b, e), w') \<longrightarrow>
        obs f w' = obs f w \<and> (e = None \<and> pos f w = 0 \<longrightarrow> b = take n (obs f w))) \<and>
     (\<forall>w e w'. io_rewind io f w = (e, w') \<longrightarrow> obs f w' = obs f w \<and> (e = None \<longrightarrow> pos f w' = 0)) \<and>
     (\<forall>w e w'. io_truncate io f w = (e, w') \<longrightarrow> obs f w' = (if e = None then [] else obs f w) \<and> pos f w' = pos f w) \<and>
     (\<forall>s w e w'. io_write io f s w = (e, w') \<and> pos f w = 0 \<and> obs f w = [] \<longrightarrow>
        (\<exists>n. obs f w' = take n s) \<and> (e = None \<longrightarrow> obs f w' = s))"

lemma run_on_world [simp]: "run_state (on_world act) ps = (fst (act (world ps)), ps\<lparr>world := snd (act (world ps))\<rparr>)"
  by (simp add: on_world_def split: prod.split)

text \<open>Rewriting a file: it keeps its contents until it is truncated, and then holds a beginning of the new text.\<close>

primrec rewritten :: "string \<Rightarrow> string \<Rightarrow> string \<Rightarrow> parser_error option \<Rightarrow> bool" where
  "rewritten old t new None \<longleftrightarrow> new = t"
| "rewritten old t new (Some e) \<longleftrightarrow> (case e of WriteFailed _ \<Rightarrow> \<exists>n. new = take n t | _ \<Rightarrow> new = old)"

lemma rewrite_file_laws:
  assumes "file_laws k io obs pos f"
  shows "triple (\<lambda>ps. obs f (world ps) = old) (rewrite_file io f t) (\<lambda>r ps. rewritten old t (obs f (world ps)) r)"
proof (rule tripleI)
  fix ps r ps'
  assume o: "obs f (world ps) = old" and run: "run_state (rewrite_file io f t) ps = (r, ps')"
  obtain e1 w1 where 1: "io_rewind io f (world ps) = (e1, w1)" by force
  obtain e2 w2 where 2: "io_truncate io f w1 = (e2, w2)" by force
  obtain e3 w3 where 3: "io_write io f t w2 = (e3, w3)" by force
  note laws = assms [unfolded file_laws_def]
  have a: "obs f w1 = old" "e1 = None \<Longrightarrow> pos f w1 = 0" using laws 1 o by blast+
  have b: "obs f w2 = (if e2 = None then [] else old)" "e1 = None \<Longrightarrow> pos f w2 = 0" using laws 2 a by metis+
  have c: "e1 = None \<Longrightarrow> e2 = None \<Longrightarrow> (\<exists>n. obs f w3 = take n t) \<and> (e3 = None \<longrightarrow> obs f w3 = t)" using laws 3 b by metis
  show "rewritten old t (obs f (world ps')) r"
    using run a b c 1 2 3 by (cases e1; cases e2; cases e3) (auto simp: rewrite_file_def)
qed

text \<open>C35: Updating a configuration file replaces it by what the parser makes of its contents, or leaves it as it is: after an
  error, a panic or with an unknown parser the contents are unchanged. Only a write that fails leaves a part of the new
  text, since the file is truncated first.\<close>

theorem parse_replaces_or_keeps:
  assumes laws: "file_laws k io obs pos f" and p: "pos f (world ps) = 0"
    and run: "run_state (Parse k io M iface cf f) ps = (r, ps')"
  shows "case r of
      Panic m \<Rightarrow> obs f (world ps') = obs f (world ps)
    | Return None \<Rightarrow>
        (case parser_text M iface cf of
           None \<Rightarrow> obs f (world ps') = obs f (world ps)
         | Some text \<Rightarrow> \<exists>b e. text (b, e) = Return (Inr (obs f (world ps'))) \<and> (e = None \<longrightarrow> b = obs f (world ps)))
    | Return (Some e) \<Rightarrow>
        obs f (world ps') = obs f (world ps) \<or>
        (\<exists>m text inp t n. e = WriteFailed m \<and> parser_text M iface cf = Some text \<and> text inp = Return (Inr t) \<and> obs f (world ps') = take n t)"
proof -
  let ?old = "obs f (world ps)"
  note stat = laws [unfolded file_laws_def, THEN conjunct1] and reads = laws [unfolded file_laws_def, THEN conjunct2, THEN conjunct1]
  have start: "?thesis" if "obs f (world ps') = ?old" "\<forall>text. r = Return None \<longrightarrow> parser_text M iface cf \<noteq> Some text"
    using that by (auto split: outcome.split option.split)
  show ?thesis
  proof (cases "k_fstat k f (world ps)")
    case (Inl e)
    then show ?thesis using run by (intro start) (auto simp: Parse_def sys_fstat_def)
  next
    case (Inr s)
    then have size: "st_size s = int (length ?old)" using stat by blast
    show ?thesis
    proof (cases "parser_text M iface cf")
      case None
      then show ?thesis using run Inr by (intro start) (auto simp: Parse_def sys_fstat_def split: if_splits)
    next
      case (Some g)
      obtain b e w where read: "io_read io f maxConfigFileSize (world ps) = ((b, e), w)" by (metis surj_pair)
      show ?thesis
      proof (cases "st_size s > int maxConfigFileSize \<or> \<not> (\<exists>t. g (b, e) = Return (Inr t))")
        case True
        have "obs f w = ?old" using reads read by blast
        then show ?thesis
          using run Inr Some read True by (intro start) (auto simp: Parse_def sys_fstat_def split: if_splits outcome.splits sum.splits)
      next
        case False
        then obtain t where t: "g (b, e) = Return (Inr t)" and small: "length ?old \<le> maxConfigFileSize" using size by auto
        have b: "obs f w = ?old" "e = None \<longrightarrow> b = ?old" using reads [rule_format, OF read] small p by auto
        let ?ps = "ps\<lparr>events := EvFstat f # events ps, world := w\<rparr>"
        obtain x where rw: "run_state (rewrite_file io f t) ?ps = (x, ps')" and r: "r = Return x"
          using run Inr Some read t False by (auto simp: Parse_def sys_fstat_def split: prod.splits)
        have "rewritten ?old t (obs f (world ps')) x"
          by (rule tripleD [OF rewrite_file_laws [OF laws] _ rw]) (simp add: b)
        then show ?thesis using r Some t b by (cases x) (fastforce split: parser_error.splits)+
      qed
    qed
  qed
qed

text \<open>A disk with one file: its contents and the offset of the descriptor.\<close>

definition disk_kernel :: "(string \<times> nat) kernel" where
  "disk_kernel =
     \<lparr>k_openat = (\<lambda>_ _ _ _ _ _ w. (None, w)), k_eval = (\<lambda>_ _. Inr ''/srv''), k_at = (\<lambda>_ w. (None, w)),
      k_fstatat = (\<lambda>_ _ _ w. Inr \<lparr>st_mode = 0x81A4, st_size = int (length (fst w)), st_mtim = 0, st_nlink = 1, st_ino = 2\<rparr>),
      k_fstat = (\<lambda>_ w. Inr \<lparr>st_mode = 0x81A4, st_size = int (length (fst w)), st_mtim = 0, st_nlink = 1, st_ino = 2\<rparr>),
      k_getdents = (\<lambda>_ _. Inr []), k_readnames = (\<lambda>_ _ w. (Inr [], w))\<rparr>"

definition disk_io :: "(string \<times> nat) file_io" where
  "disk_io =
     \<lparr>io_read = (\<lambda>f n (s, p). ((take n (drop p s), None), (s, p + min n (length s - p)))),
      io_rewind = (\<lambda>f (s, p). (None, (s, 0))),
      io_truncate = (\<lambda>f (s, p). (None, ([], p))),
      io_write = (\<lambda>f t (s, p). (None, (take p s @ t @ drop (p + length t) s, p + length t)))\<rparr>"

definition disk_start :: "string \<Rightarrow> (string \<times> nat) proc" where
  "disk_start s = \<lparr>world = (s, 0), next_fd = 4, open_fds = {3}, events = [], usage = 0\<rparr>"

lemma disk_laws: "file_laws disk_kernel disk_io (\<lambda>f w. fst w) (\<lambda>f w. snd w) f"
  by (auto simp: file_laws_def disk_kernel_def disk_io_def) (metis order_refl take_all)

definition no_libs :: "(unit, unit, unit, unit, unit, unit, unit) libs" where
  "no_libs =
     \<lparr>lib_json = plain_json,
      lib_gabs = \<lparr>gb_ParseJSON = (\<lambda>_. Inl ''json''), gb_Path = (\<lambda>c _ _. c), gb_Children = (\<lambda>_ _. []), gb_ExistsP = (\<lambda>_ _ _. False),
        gb_Bytes = (\<lambda>_ _. []), gb_String = (\<lambda>_ _. []), gb_SetP = (\<lambda>_ _ _ h. (None, h)), gb_Set = (\<lambda>_ _ h. (None, h)),
        gb_ArrayElementP = (\<lambda>_ _ _ _. Inl GabsNotFound), gb_BytesIndent = (\<lambda>_ _. [])\<rparr>,
      lib_yaml = \<lparr>yl_json = Inr, yl_Marshal = (\<lambda>_ _. Inr [])\<rparr>, lib_regexps = (\<lambda>_. None),
      lib_xml = \<lparr>xt_ReadFrom = (\<lambda>_. Inl ''xml''), xt_Root = (\<lambda>_. None), xt_CreateProcInst = (\<lambda>_ _ x. x),
        xt_doc_CreateElement = (\<lambda>_ x. ((), x)), xt_SetRoot = (\<lambda>_ x. x), xt_FindElement = (\<lambda>_ _ _. Return None),
        xt_CreateElement = (\<lambda>_ _ x. ((), x)), xt_FindElements = (\<lambda>_ _. Return []), xt_CreateAttr = (\<lambda>_ _ _ x. x),
        xt_SetText = (\<lambda>_ _ x. x), xt_Indent = (\<lambda>x. x), xt_text = (\<lambda>_. [])\<rparr>,
      lib_ini = \<lparr>il_Load = (\<lambda>_. Inl ''ini''), il_Section = (\<lambda>_ i. (Some (), i)), il_NewSection = (\<lambda>_ i. (Inr (), i)),
        il_HasKey = (\<lambda>_ _ _. False), il_SetValue = (\<lambda>_ _ _ i. i), il_NewKey = (\<lambda>_ _ _ i. (None, i)), il_text = (\<lambda>_. [])\<rparr>,
      lib_prop = \<lparr>pl_Load = (\<lambda>_. Inl ''properties''), pl_Get = (\<lambda>_ _. None), pl_Set = (\<lambda>_ _ p. (None, p)), pl_Keys = (\<lambda>_. [])\<rparr>\<rparr>"

abbreviation port_file :: "string \<Rightarrow> ConfigurationFile" where
  "port_file parser \<equiv> \<lparr>cf_FileName = ''server.txt'', cf_Parser = parser,
     cf_Replace = [\<lparr>rp_Match = ''port='', rp_IfValue = [], rp_ReplaceWith = \<lparr>rv_value = ''port=25565'', rv_type = TString\<rparr>\<rparr>]\<rparr>"

theorem parse_replaces_or_keeps_witness:
  "fst (world (snd (run_state (Parse disk_kernel disk_io no_libs [] (port_file ''ini'') 3) (disk_start ''port=1''))))
     = ''port=1''"
proof -
  obtain r ps' where run: "run_state (Parse disk_kernel disk_io no_libs [] (port_file ''ini'') 3) (disk_start ''port=1'') = (r, ps')"
    by (rule prod.exhaust)
  have "r = Return (Some (Unparsable ''ini''))"
    using run by (auto simp: Parse_def sys_fstat_def disk_kernel_def disk_start_def disk_io_def parser_text_def ini_text_def
      no_libs_def maxConfigFileSize_def Let_def)
  with parse_replaces_or_keeps [OF disk_laws _ run] run show ?thesis by (simp add: disk_start_def)
qed

section \<open>Text files\<close>

lemma replace_line_matching:
  assumes "\<And>r. r \<in> set rs \<Longrightarrow> rv_Bytes L (rp_ReplaceWith r) = Return (by r)"
  shows "replace_line L rs l =
    Return (concat (map by (filter (\<lambda>r. HasPrefix l (rp_Match r)) rs)), filter (\<lambda>r. HasPrefix l (rp_Match r)) rs \<noteq> [])"
  using assms by (induction rs) auto

definition replaced_line :: "(replacement \<Rightarrow> string) \<Rightarrow> replacement list \<Rightarrow> string \<Rightarrow> string" where
  "replaced_line by rs l =
     (case filter (\<lambda>r. HasPrefix l (rp_Match r)) rs of [] \<Rightarrow> l | ms \<Rightarrow> concat (map by ms))"

lemma replace_lines_map:
  assumes "\<And>r. r \<in> set rs \<Longrightarrow> rv_Bytes L (rp_ReplaceWith r) = Return (by r)"
  shows "replace_lines L rs ls = Return (unlines (map (replaced_line by rs) ls))"
  by (induction ls) (auto simp: replace_line_matching [OF assms] replaced_line_def split: list.splits)



section \<open>Conditional replacements\<close>

text \<open>A replacement in a JSON or YAML file that is to happen only if there is a certain value does nothing when there is a value:
  a regular expression is tried on missing values only, and any other condition is compared with the whole document.\<close>

theorem if_value_never_applies:
  assumes "rp_IfValue r \<noteq> []" "\<not> Contains (rp_Match r) ''.*''" "gb_ExistsP G root (rp_Match r) h"
    and "HasPrefix (rp_IfValue r) ''regex:'' \<or> gb_Bytes G root h \<noteq> rp_IfValue r"
  shows "set_one G rx root r v h = Inr h"
  using assms by (auto simp: set_one_def SetAtPathway_def)

text \<open>A document that is a list of members.\<close>

definition flat_gabs :: "(unit, (string \<times> string) list) gabs" where
  "flat_gabs =
     \<lparr>gb_ParseJSON = (\<lambda>_. Inr ((), [])), gb_Path = (\<lambda>c _ _. c), gb_Children = (\<lambda>_ _. []),
      gb_ExistsP = (\<lambda>_ p h. map_of h p \<noteq> None), gb_Bytes = (\<lambda>_ h. ''{'' @ concat (map snd h) @ ''}''),
      gb_String = (\<lambda>_ h. ''{'' @ concat (map snd h) @ ''}''),
      gb_SetP = (\<lambda>_ v p h. (None, (p, case v of JString s \<Rightarrow> s | _ \<Rightarrow> ''?'') # h)), gb_Set = (\<lambda>_ _ h. (None, h)),
      gb_ArrayElementP = (\<lambda>_ _ _ _. Inl GabsNotFound), gb_BytesIndent = (\<lambda>_ _. [])\<rparr>"

theorem if_value_never_applies_witness:
  "set_one flat_gabs (\<lambda>_. None) () \<lparr>rp_Match = ''ip'', rp_IfValue = ''0.0.0.0'', rp_ReplaceWith = \<lparr>rv_value = ''::'', rv_type = TString\<rparr>\<rparr>
     ''::'' [(''ip'', ''0.0.0.0'')] = Inr [(''ip'', ''0.0.0.0'')]"
  using if_value_never_applies [of "\<lparr>rp_Match = ''ip'', rp_IfValue = ''0.0.0.0'', rp_ReplaceWith = \<lparr>rv_value = ''::'', rv_type = TString\<rparr>\<rparr>"
      flat_gabs "()" "[(''ip'', ''0.0.0.0'')]"]
  by (simp add: flat_gabs_def HasPrefix_def)

text \<open>An element of an array is always set as a member of it: the branch for the element itself is never taken.\<close>

lemma array_element_member:
  assumes "checkForArrayElement path = [m, a, d, []]" "gb_ArrayElementP G c (Atoi d) a h = Inr ct"
  shows "setValueAtPath G c path v h = gb_SetP G ct v [] h"
  using assms by (simp add: setValueAtPath_def TrimPrefix_def HasPrefix_def)

section \<open>Updating all files\<close>

lemma on_world_sbox: "keeps (sbox fs D) (on_world act)"
  by (auto simp: triple_def sbox_def split: prod.split)

lemma triple_outcome:
  "(\<And>a. x = Return a \<Longrightarrow> triple P (f a) Q) \<Longrightarrow> (\<And>m. x = Panic m \<Longrightarrow> triple P (g m) Q) \<Longrightarrow>
   triple P (case x of Return a \<Rightarrow> f a | Panic m \<Rightarrow> g m) Q"
  by (cases x) simp_all

lemma Parse_keeps:
  assumes "\<And>act :: 'w \<Rightarrow> read_result \<times> 'w. keeps I (on_world act)" "\<And>act :: 'w \<Rightarrow> string option \<times> 'w. keeps I (on_world act)"
    and "keeps I (sys_fstat k f)"
  shows "keeps I (Parse k io M iface cf f)"
  unfolding Parse_def rewrite_file_def
  by (intro keeps_bind triple_sum triple_outcome triple_option triple_if triple_ret assms)

lemma update_file_sbox: "base_ok fs bs \<Longrightarrow> keeps (sbox fs D) (update_file fs k io M iface cf)"
  unfolding update_file_def
  by (intro with_file_sbox [OF Touch_sbox] keeps_bind triple_if triple_ret stat_sbox Parse_keeps on_world_sbox sys_fstat_sbox) simp_all

lemma UpdateConfigurationFiles_sbox: "base_ok fs bs \<Longrightarrow> keeps (sbox fs D) (UpdateConfigurationFiles fs k io M iface cfs)"
  by (induction cfs) (auto intro!: triple_ret keeps_bind update_file_sbox triple_outcome)

text \<open>Whatever names the configuration files have, updating them makes no system call outside of the directory of the server.\<close>

theorem config_files_confined:
  assumes "base_ok fs bs" "confined fs (events ps)"
  shows "confined fs (events (snd (run_state (UpdateConfigurationFiles fs k io M iface cfs) ps)))"
  using triple_snd [OF UpdateConfigurationFiles_sbox [OF assms(1), of "{}"], of ps k io M iface cfs] assms(2) by (simp add: sbox_def)

theorem config_files_confined_witness:
  "confined (NewUnixFS ''/srv'' False) (events (snd (run_state (UpdateConfigurationFiles (NewUnixFS ''/srv'' False) disk_kernel disk_io
     no_libs [] [port_file ''ini'', (port_file ''file'')\<lparr>cf_FileName := ''../../etc/passwd''\<rparr>]) (disk_start ''port=1'' \<lparr>open_fds := {}\<rparr>))))"
proof -
  have "base_ok (NewUnixFS ''/srv'' False) [''srv'']"
    by (simp add: base_ok_def NewUnixFS_def TrimSuffix_def HasSuffix_def render_def proper_def)
  then show ?thesis by (rule config_files_confined) (simp add: disk_start_def)
qed

text \<open>The usage counter takes no part in it: the files are written outside of the quota.\<close>

lemma config_files_uncounted:
  "usage (snd (run_state (UpdateConfigurationFiles fs k io M iface cfs) ps)) = usage ps"
proof -
  have w: "keeps (\<lambda>ps. usage ps = u) (on_world act)" for u act by (simp add: triple_def)
  have "keeps (\<lambda>ps. usage ps = u) (update_file fs k io M iface cf)" for u cf
    unfolding update_file_def
    by (intro keeps_bind triple_if triple_ret triple_sum triple_prod usage_frame.Stat_keeps usage_frame.Touch_keeps Parse_keeps
        usage_frame.sys_keeps w)
  then have "keeps (\<lambda>ps. usage ps = u) (UpdateConfigurationFiles fs k io M iface cfs)" for u
    by (induction cfs) (auto intro!: triple_ret keeps_bind triple_outcome)
  then show ?thesis by (rule triple_snd) simp
qed

text \<open>A value that cannot be unescaped brings down the daemon, not only the update of the file: the panic is raised in the
  goroutine of a worker, which nothing recovers.\<close>

lemma bad_escape_kills_daemon:
  assumes "cf_Parser cf = ''ini''" "cf_Replace cf = r # rs" "rv_type (rp_ReplaceWith r) = TString"
    and "jl_ParseString (lib_json M) (rv_value (rp_ReplaceWith r)) = None"
    and "run_state (Touch fs k (cf_FileName cf) {O_RDWR, O_CREATE} 0x1A4) ps = (Inr (f, nm), ps1)"
    and "k_fstat k f (world ps1) = Inr s" "st_size s \<le> int maxConfigFileSize"
    and "io_read io f maxConfigFileSize (world ps1) = (inp, w)" "il_Load (lib_ini M) inp = Inr i"
  shows "\<exists>m. fst (run_state (UpdateConfigurationFiles fs k io M iface (cf # cfs)) ps) = Panic m"
proof -
  have "LookupConfigurationValue (lib_json M) conf r = Panic ''parser: could not parse value''" for conf
    using assms(3,4) by (simp add: LookupConfigurationValue_def rv_String_def)
  then have "parser_text M iface cf = Some g \<Longrightarrow> g inp = Panic ''parser: could not parse value''" for g
    using assms(1,2,9) by (auto simp: parser_text_def ini_text_def looked_up_def Let_def)
  moreover have "\<exists>g. parser_text M iface cf = Some g" using assms(1) by (simp add: parser_text_def Let_def)
  ultimately show ?thesis using assms by (auto simp: update_file_def Parse_def sys_fstat_def sys_close_def)
qed

text \<open>So does a configuration file of the panel that lacks one of its members.\<close>

lemma missing_member_panics:
  "m ''file'' = None \<Longrightarrow> file_UnmarshalJSON R (Some m) = Panic ''nil pointer dereference''"
  by (simp add: file_UnmarshalJSON_def member_def)

text \<open>One replacement that cannot be read makes the file lose all of them.\<close>

lemma bad_replacement_drops_all:
  assumes "m ''file'' = Some (RawString f)" "m ''parser'' = Some (RawString p)" "m ''replace'' = Some (RawArray (xs @ x # ys))"
    and "replacement_UnmarshalJSON R x = Inl e"
  shows "file_UnmarshalJSON R (Some m) = Return (Some \<lparr>cf_FileName = f, cf_Parser = p, cf_Replace = []\<rparr>)"
proof -
  have "\<exists>e. all_ok (replacement_UnmarshalJSON R) (xs @ x # ys) = Inl e"
    using assms(4) by (induction xs) (auto split: sum.split)
  then show ?thesis using assms(1-3) by (auto simp: file_UnmarshalJSON_def member_def)
qed

end
