(* ===== verification/Win_Fs.thy ===== *)
theory Win_Fs
  imports Unix_Kernel
begin

text \<open>
  The file system of a Windows node, \<^verbatim>\<open>internal/ufs/fs_windows.go\<close>: every operation resolves its path lexically below the base
  directory and hands the absolute path to the \<^verbatim>\<open>os\<close> package; descriptors of directories are tokens into a registry of paths.

  Windows is a parameter: a record of the calls of the \<^verbatim>\<open>os\<close> package, which answer arbitrarily, with a log of every call and of
  whether it was made under the account of the server. Base paths have a drive letter; \<open>win_Clean\<close> and \<open>win_Join\<close> are
  \<^verbatim>\<open>filepath.Clean\<close> and \<^verbatim>\<open>filepath.Join\<close> for such paths. Lower case is that of ASCII letters.
\<close>

section \<open>Errors\<close>

datatype win_code = FILE_EXISTS | NOT_FOUND | ACCESS_DENIED | WinCode nat

datatype win_cause = WExist | WNotExist | WPermission | WNotDirectory | WBadPathResolution | WInvalid | WCode win_code

datatype win_error =
  WPathError string string win_cause | WLinkError string string string win_error | WErrno win_code | WOther string

definition win_errnoToPathError :: "win_code \<Rightarrow> string \<Rightarrow> string \<Rightarrow> win_error" where
  "win_errnoToPathError e op path =
     WPathError op path (case e of FILE_EXISTS \<Rightarrow> WExist | NOT_FOUND \<Rightarrow> WNotExist | ACCESS_DENIED \<Rightarrow> WPermission | _ \<Rightarrow> WCode e)"

fun win_as_path :: "win_error \<Rightarrow> (string \<times> string \<times> win_cause) option" where
  "win_as_path (WPathError op path c) = Some (op, path, c)"
| "win_as_path (WLinkError _ _ _ e) = win_as_path e"
| "win_as_path _ = None"

fun win_as_errno :: "win_error \<Rightarrow> win_code option" where
  "win_as_errno (WPathError _ _ (WCode e)) = Some e"
| "win_as_errno (WLinkError _ _ _ e) = win_as_errno e"
| "win_as_errno (WErrno e) = Some e"
| "win_as_errno _ = None"

text \<open>\<^verbatim>\<open>errors.Is\<close> for \<^verbatim>\<open>ErrNotExist\<close>.\<close>

fun win_not_exist :: "win_error \<Rightarrow> bool" where
  "win_not_exist (WPathError _ _ c) \<longleftrightarrow> c = WNotExist \<or> c = WCode NOT_FOUND"
| "win_not_exist (WLinkError _ _ _ e) \<longleftrightarrow> win_not_exist e"
| "win_not_exist (WErrno e) \<longleftrightarrow> e = NOT_FOUND"
| "win_not_exist (WOther _) \<longleftrightarrow> False"

definition win_convertErrorType :: "win_error \<Rightarrow> win_error" where
  "win_convertErrorType err =
     (case win_as_path err of
        Some (op, path, WCode e) \<Rightarrow> win_errnoToPathError e op path
      | Some (op, path, c) \<Rightarrow> WPathError op path c
      | None \<Rightarrow>
          (case win_as_errno err of
             Some e \<Rightarrow> WPathError ''!(UNKNOWN)'' ''!(UNKNOWN)'' (WCode e)
           | None \<Rightarrow> err))"

text \<open>An error of unknown kind is wrapped; what it says does not matter here.\<close>

definition win_ensurePathError :: "win_error \<Rightarrow> string \<Rightarrow> string \<Rightarrow> win_error" where
  "win_ensurePathError err op path =
     (case win_as_path err of
        Some (op', path', WCode e) \<Rightarrow> win_errnoToPathError e op' path'
      | Some (op', path', c) \<Rightarrow> WPathError op' path' c
      | None \<Rightarrow>
          (case win_as_errno err of
             Some e \<Rightarrow> win_errnoToPathError e op path
           | None \<Rightarrow> WPathError op path WInvalid))"

section \<open>Paths\<close>

abbreviation BS :: char where "BS \<equiv> CHR 0x5C"

definition to_slash :: "string \<Rightarrow> string" where
  "to_slash s = map (\<lambda>c. if c = BS then CHR ''/'' else c) s"

definition from_slash :: "string \<Rightarrow> string" where
  "from_slash s = map (\<lambda>c. if c = CHR ''/'' then BS else c) s"

definition win_Clean :: "string \<Rightarrow> string" where
  "win_Clean p = take 2 p @ from_slash (Clean (to_slash (drop 2 p)))"

definition win_Join :: "string \<Rightarrow> string \<Rightarrow> string" where
  "win_Join a b = win_Clean (a @ BS # b)"

text \<open>\<^verbatim>\<open>filepath.Split\<close> and \<^verbatim>\<open>filepath.Dir\<close> of a cleaned path: up to the last separator, and what follows.\<close>

definition win_Split :: "string \<Rightarrow> string \<times> string" where
  "win_Split p =
     (let leaf = rev (takeWhile (\<lambda>c. c \<noteq> BS \<and> c \<noteq> CHR ''/'') (rev p)) in (take (length p - length leaf) p, leaf))"

definition win_Dir :: "string \<Rightarrow> string" where
  "win_Dir p = win_Clean (fst (win_Split p))"

record winfs =
  wf_basePath :: string
  wf_imp :: bool

text \<open>\<^verbatim>\<open>filepath.Abs\<close> depends on the working directory of the process, and is a parameter.\<close>

definition win_NewUnixFS :: "(string \<Rightarrow> win_error + string) \<Rightarrow> string \<Rightarrow> win_error + winfs" where
  "win_NewUnixFS absolute root =
     (case absolute root of Inl e \<Rightarrow> Inl e | Inr p \<Rightarrow> Inr \<lparr>wf_basePath = win_Clean p, wf_imp = False\<rparr>)"

definition SetImpersonator :: "bool \<Rightarrow> winfs \<Rightarrow> winfs" where
  "SetImpersonator given fs = fs\<lparr>wf_imp := given\<rparr>"

definition win_inside :: "winfs \<Rightarrow> string \<Rightarrow> bool" where
  "win_inside fs p \<longleftrightarrow> HasPrefix (ToLower (TrimSuffix p [BS]) @ [BS]) (ToLower (wf_basePath fs) @ [BS])"

definition win_unsafePath :: "winfs \<Rightarrow> string \<Rightarrow> win_error + string" where
  "win_unsafePath fs p =
     (let r = win_Clean (win_Join (wf_basePath fs) (TrimPrefix p (wf_basePath fs)))
      in if win_inside fs r then
           let r = TrimPrefix (TrimPrefix r (wf_basePath fs)) [BS] in Inr (if r = [] then ''.'' else r)
         else Inl (WPathError ''safePath'' p WBadPathResolution))"

definition win_resolveAbs :: "winfs \<Rightarrow> string \<Rightarrow> win_error + string" where
  "win_resolveAbs fs p =
     (case win_unsafePath fs p of
        Inl e \<Rightarrow> Inl e
      | Inr rel \<Rightarrow> Inr (if rel = ''.'' then wf_basePath fs else win_Join (wf_basePath fs) rel))"

section \<open>Calls\<close>

datatype os_call =
  OsEvalSymlinks string | OsChmod string file_mode | OsChtimes string int int | OsStat string | OsLstat string
| OsOpen string flags file_mode | OsMkdir string file_mode | OsMkdirAll string file_mode | OsReadDir string | OsRemove string
| OsRename string string | OsSymlink string string

datatype names_end = MoreNames | EndOfNames | NamesFailed win_error

record 'w win_os =
  wo_imp :: "'w \<Rightarrow> win_error option"  \<comment> \<open>whether the account of the server can be taken on\<close>
  wo_eval :: "string \<Rightarrow> 'w \<Rightarrow> win_error + string"
  wo_do :: "os_call \<Rightarrow> 'w \<Rightarrow> win_error option \<times> 'w"
  wo_info :: "os_call \<Rightarrow> 'w \<Rightarrow> win_error + file_info"
  wo_fstat :: "fd \<Rightarrow> 'w \<Rightarrow> win_error + file_info"
  wo_readdir :: "string \<Rightarrow> 'w \<Rightarrow> (string \<times> file_mode) list \<times> win_error option"  \<comment> \<open>what was read before an error, and the error\<close>
  wo_names :: "fd \<Rightarrow> nat \<Rightarrow> 'w \<Rightarrow> (string list \<times> names_end) \<times> 'w"

record 'w win_state =
  ws_world :: 'w
  ws_next :: int
  ws_dirs :: "int \<rightharpoonup> string"
  ws_calls :: "(bool \<times> os_call) list"
  ws_files :: nat

type_synonym ('w, 'a) win_op = "('w win_state, win_error + 'a) state"
type_synonym 'w win_act = "('w win_state, win_error option) state"

definition log_call :: "bool \<Rightarrow> os_call \<Rightarrow> ('w win_state, unit) state" where
  "log_call i c = modify_st (\<lambda>s. s\<lparr>ws_calls := (i, c) # ws_calls s\<rparr>)"

definition plain_do :: "bool \<Rightarrow> 'w win_os \<Rightarrow> os_call \<Rightarrow> 'w win_act" where
  "plain_do i X c = do {
     log_call i c;
     w \<leftarrow> read_st ws_world;
     (case wo_do X c w of (e, w) \<Rightarrow> do { modify_st (\<lambda>s. s\<lparr>ws_world := w\<rparr>); ret e })
   }"

definition plain_info :: "bool \<Rightarrow> 'w win_os \<Rightarrow> os_call \<Rightarrow> ('w, file_info) win_op" where
  "plain_info i X c = do { log_call i c; read_st (\<lambda>s. wo_info X c (ws_world s)) }"

definition plain_readdir :: "bool \<Rightarrow> 'w win_os \<Rightarrow> string \<Rightarrow> ('w win_state, (string \<times> file_mode) list \<times> win_error option) state" where
  "plain_readdir i X p = do { log_call i (OsReadDir p); read_st (\<lambda>s. wo_readdir X p (ws_world s)) }"

text \<open>\<^verbatim>\<open>fs.do\<close>: the call is made under the account of the server if there is one.\<close>

definition win_do :: "winfs \<Rightarrow> 'w win_os \<Rightarrow> (win_error \<Rightarrow> 'r) \<Rightarrow> (bool \<Rightarrow> ('w win_state, 'r) state) \<Rightarrow> ('w win_state, 'r) state" where
  "win_do fs X fail act =
     (if wf_imp fs then do {
        e \<leftarrow> read_st (\<lambda>s. wo_imp X (ws_world s));
        (case e of Some e \<Rightarrow> ret (fail e) | None \<Rightarrow> act True)
      } else act False)"

definition do_call :: "winfs \<Rightarrow> 'w win_os \<Rightarrow> os_call \<Rightarrow> 'w win_act" where
  "do_call fs X c = win_do fs X Some (\<lambda>i. plain_do i X c)"

definition do_info :: "winfs \<Rightarrow> 'w win_os \<Rightarrow> os_call \<Rightarrow> ('w, file_info) win_op" where
  "do_info fs X c = win_do fs X Inl (\<lambda>i. plain_info i X c)"

definition do_readdir :: "winfs \<Rightarrow> 'w win_os \<Rightarrow> string \<Rightarrow> ('w, (string \<times> file_mode) list) win_op" where
  "do_readdir fs X p = win_do fs X Inl (\<lambda>i. do {
     (es, err) \<leftarrow> plain_readdir i X p;
     ret (case err of Some e \<Rightarrow> Inl e | None \<Rightarrow> Inr es)
   })"

section \<open>The registry of directories\<close>

definition reg_add :: "string \<Rightarrow> ('w win_state, int) state" where
  "reg_add absDir = State (\<lambda>s.
     let n = i64 (ws_next s + 1); n = (if n = 0 then 1 else n)
     in (n, s\<lparr>ws_next := n, ws_dirs := (ws_dirs s)(n \<mapsto> absDir)\<rparr>))"

definition reg_get :: "int \<Rightarrow> ('w win_state, string option) state" where
  "reg_get n = read_st (\<lambda>s. ws_dirs s n)"

definition reg_release :: "int \<Rightarrow> ('w win_state, unit) state" where
  "reg_release n = modify_st (\<lambda>s. s\<lparr>ws_dirs := (ws_dirs s)(n := None)\<rparr>)"

section \<open>Resolving\<close>

definition symlinkJailCheck :: "winfs \<Rightarrow> 'w win_os \<Rightarrow> string \<Rightarrow> 'w win_act" where
  "symlinkJailCheck fs X full = do {
     log_call False (OsEvalSymlinks full);
     r \<leftarrow> read_st (\<lambda>s. wo_eval X full (ws_world s));
     ret (case r of
        Inl e \<Rightarrow> if win_not_exist e then None else Some (win_convertErrorType e)
      | Inr p \<Rightarrow> if win_inside fs p then None else Some (WPathError ''resolve'' full WBadPathResolution))
   }"

definition win_atPath :: "winfs \<Rightarrow> 'w win_os \<Rightarrow> int \<Rightarrow> string \<Rightarrow> ('w, string) win_op" where
  "win_atPath fs X dirfd name = do {
     d \<leftarrow> reg_get dirfd;
     (case d of
        None \<Rightarrow> ret (Inl (WPathError ''at'' name WInvalid))
      | Some dir \<Rightarrow>
          let full = win_Clean (win_Join dir name)
          in if \<not> win_inside fs full then ret (Inl (WPathError ''at'' name WBadPathResolution))
             else do {
               e \<leftarrow> symlinkJailCheck fs X full;
               ret (case e of Some e \<Rightarrow> Inl e | None \<Rightarrow> Inr full)
             })
   }"

text \<open>The token, the name, and the tokens to release afterwards.\<close>

definition win_safePath :: "winfs \<Rightarrow> 'w win_os \<Rightarrow> string \<Rightarrow> ('w, int \<times> string) win_op" where
  "win_safePath fs X p =
     (case win_unsafePath fs p of
        Inl e \<Rightarrow> ret (Inl e)
      | Inr name \<Rightarrow>
          let (dir, leaf) = win_Split name;
              absDir = (if dir = [] then wf_basePath fs else win_Join (wf_basePath fs) (TrimSuffix dir [BS]));
              leaf = (if dir = [] then name else leaf);
              fullPath = (if leaf \<noteq> [] \<and> leaf \<noteq> ''.'' then win_Join absDir leaf else absDir)
          in do {
               e \<leftarrow> symlinkJailCheck fs X fullPath;
               (case e of
                  Some e \<Rightarrow> ret (Inl e)
                | None \<Rightarrow> do { n \<leftarrow> reg_add absDir; ret (Inr (n, leaf)) })
             })"

text \<open>The operations that take a path, and those that take a token and a name.\<close>

definition with_abs :: "winfs \<Rightarrow> string \<Rightarrow> (win_error \<Rightarrow> 'r) \<Rightarrow> (string \<Rightarrow> ('w win_state, 'r) state) \<Rightarrow> ('w win_state, 'r) state" where
  "with_abs fs p fail act = (case win_resolveAbs fs p of Inl e \<Rightarrow> ret (fail e) | Inr full \<Rightarrow> act full)"

definition with_at :: "winfs \<Rightarrow> 'w win_os \<Rightarrow> int \<Rightarrow> string \<Rightarrow> (win_error \<Rightarrow> 'r) \<Rightarrow> (string \<Rightarrow> ('w win_state, 'r) state) \<Rightarrow> ('w win_state, 'r) state" where
  "with_at fs X dirfd name fail act = do {
     r \<leftarrow> win_atPath fs X dirfd name;
     (case r of Inl e \<Rightarrow> ret (fail e) | Inr full \<Rightarrow> act full)
   }"

definition ensure_act :: "string \<Rightarrow> string \<Rightarrow> 'w win_act \<Rightarrow> 'w win_act" where
  "ensure_act op name m = do { e \<leftarrow> m; ret (map_option (\<lambda>e. win_ensurePathError e op name) e) }"

definition ensure_op :: "string \<Rightarrow> string \<Rightarrow> ('w, 'a) win_op \<Rightarrow> ('w, 'a) win_op" where
  "ensure_op op name m = do { r \<leftarrow> m; ret (map_sum (\<lambda>e. win_ensurePathError e op name) id r) }"

section \<open>Operations\<close>

definition win_Chmod :: "winfs \<Rightarrow> 'w win_os \<Rightarrow> string \<Rightarrow> file_mode \<Rightarrow> 'w win_act" where
  "win_Chmod fs X name mode = with_abs fs name Some (\<lambda>full. ensure_act ''chmod'' name (do_call fs X (OsChmod full mode)))"

definition win_Chmodat :: "winfs \<Rightarrow> 'w win_os \<Rightarrow> int \<Rightarrow> string \<Rightarrow> file_mode \<Rightarrow> 'w win_act" where
  "win_Chmodat fs X dirfd name mode = with_at fs X dirfd name Some (\<lambda>full. ensure_act ''chmodat'' name (do_call fs X (OsChmod full mode)))"

text \<open>Changing the owner does nothing.\<close>

definition win_Chown :: "winfs \<Rightarrow> string \<Rightarrow> int \<Rightarrow> int \<Rightarrow> 'w win_act" where
  "win_Chown fs name uid gid = ret None"

definition chtimesNoFollow :: "bool \<Rightarrow> 'w win_os \<Rightarrow> string \<Rightarrow> int \<Rightarrow> int \<Rightarrow> 'w win_act" where
  "chtimesNoFollow i X full atime mtime = do {
     r \<leftarrow> plain_info i X (OsLstat full);
     (case r of
        Inl e \<Rightarrow> ret (Some e)
      | Inr fi \<Rightarrow> if IsSymlink fi then ret None else plain_do i X (OsChtimes full atime mtime))
   }"

definition win_Chtimes :: "winfs \<Rightarrow> 'w win_os \<Rightarrow> string \<Rightarrow> int \<Rightarrow> int \<Rightarrow> 'w win_act" where
  "win_Chtimes fs X name atime mtime =
     with_abs fs name Some (\<lambda>full. ensure_act ''chtimes'' name (win_do fs X Some (\<lambda>i. chtimesNoFollow i X full atime mtime)))"

definition win_Chtimesat :: "winfs \<Rightarrow> 'w win_os \<Rightarrow> int \<Rightarrow> string \<Rightarrow> int \<Rightarrow> int \<Rightarrow> 'w win_act" where
  "win_Chtimesat fs X dirfd name atime mtime =
     with_at fs X dirfd name Some (\<lambda>full. ensure_act ''chtimes'' name (win_do fs X Some (\<lambda>i. chtimesNoFollow i X full atime mtime)))"

text \<open>Opening: the flags that Windows does not have are removed; a file that is not the directory it should be is closed again.\<close>

definition sentinelFlagMask :: flags where
  "sentinelFlagMask = {O_DIRECTORY, O_NOFOLLOW, O_CLOEXEC, O_LARGEFILE}"

definition plain_open :: "bool \<Rightarrow> 'w win_os \<Rightarrow> string \<Rightarrow> flags \<Rightarrow> file_mode \<Rightarrow> ('w, fd) win_op" where
  "plain_open i X full flag mode = do {
     e \<leftarrow> plain_do i X (OsOpen full flag mode);
     (case e of
        Some e \<Rightarrow> ret (Inl e)
      | None \<Rightarrow> do { n \<leftarrow> read_st ws_files; modify_st (\<lambda>s. s\<lparr>ws_files := Suc n\<rparr>); ret (Inr n) })
   }"

definition openAbs :: "winfs \<Rightarrow> 'w win_os \<Rightarrow> string \<Rightarrow> string \<Rightarrow> flags \<Rightarrow> file_mode \<Rightarrow> ('w, fd) win_op" where
  "openAbs fs X full name flag mode = do {
     e \<leftarrow> (if O_NOFOLLOW \<in> flag \<or> O_CREATE \<notin> flag then symlinkJailCheck fs X full else ret None);
     (case e of
        Some e \<Rightarrow> ret (Inl e)
      | None \<Rightarrow> do {
          r \<leftarrow> win_do fs X Inl (\<lambda>i. plain_open i X full (flag - sentinelFlagMask) mode);
          (case r of
             Inl e \<Rightarrow> ret (Inl (win_ensurePathError e ''openat'' name))
           | Inr f \<Rightarrow>
               if O_DIRECTORY \<in> flag then do {
                 st \<leftarrow> read_st (\<lambda>s. wo_fstat X f (ws_world s));
                 ret (case st of
                    Inr i \<Rightarrow> if IsDir i then Inr f else Inl (WPathError ''openat'' name WNotDirectory)
                  | Inl _ \<Rightarrow> Inr f)
               } else ret (Inr f))
        })
   }"

definition win_OpenFile :: "winfs \<Rightarrow> 'w win_os \<Rightarrow> string \<Rightarrow> flags \<Rightarrow> file_mode \<Rightarrow> ('w, fd) win_op" where
  "win_OpenFile fs X name flag mode = with_abs fs name Inl (\<lambda>full. openAbs fs X full name flag mode)"

definition win_OpenFileat :: "winfs \<Rightarrow> 'w win_os \<Rightarrow> int \<Rightarrow> string \<Rightarrow> flags \<Rightarrow> file_mode \<Rightarrow> ('w, fd) win_op" where
  "win_OpenFileat fs X dirfd name flag mode = with_at fs X dirfd name Inl (\<lambda>full. openAbs fs X full name flag mode)"

definition winfs_Create :: "winfs \<Rightarrow> 'w win_os \<Rightarrow> string \<Rightarrow> ('w, fd) win_op" where
  "winfs_Create fs X name = win_OpenFile fs X name {O_CREATE, O_WRONLY, O_TRUNC} 0x1A4"

definition win_Open :: "winfs \<Rightarrow> 'w win_os \<Rightarrow> string \<Rightarrow> ('w, fd) win_op" where
  "win_Open fs X name = win_OpenFile fs X name {} 0"

definition win_Mkdir :: "winfs \<Rightarrow> 'w win_os \<Rightarrow> string \<Rightarrow> file_mode \<Rightarrow> 'w win_act" where
  "win_Mkdir fs X name mode = with_abs fs name Some (\<lambda>full. ensure_act ''mkdir'' name (do_call fs X (OsMkdir full mode)))"

definition win_Mkdirat :: "winfs \<Rightarrow> 'w win_os \<Rightarrow> int \<Rightarrow> string \<Rightarrow> file_mode \<Rightarrow> 'w win_act" where
  "win_Mkdirat fs X dirfd name mode = with_at fs X dirfd name Some (\<lambda>full. ensure_act ''mkdirat'' name (do_call fs X (OsMkdir full mode)))"

definition win_MkdirAll :: "winfs \<Rightarrow> 'w win_os \<Rightarrow> string \<Rightarrow> file_mode \<Rightarrow> 'w win_act" where
  "win_MkdirAll fs X name mode = with_abs fs name Some (\<lambda>full. ensure_act ''mkdirall'' name (do_call fs X (OsMkdirAll full mode)))"

text \<open>An entry of a listing, and the path it is opened with.\<close>

definition win_ReadDir :: "winfs \<Rightarrow> 'w win_os \<Rightarrow> string \<Rightarrow> ('w, (string \<times> file_mode \<times> string) list) win_op" where
  "win_ReadDir fs X p = with_abs fs p Inl (\<lambda>full. do {
     r \<leftarrow> ensure_op ''readdir'' p (do_readdir fs X full);
     ret (map_sum id (map (\<lambda>(n, t). (n, t, path_Join [p, n]))) r)
   })"

definition win_entry_Open :: "winfs \<Rightarrow> 'w win_os \<Rightarrow> string \<times> file_mode \<times> string \<Rightarrow> ('w, fd) win_op" where
  "win_entry_Open fs X d = win_OpenFile fs X (snd (snd d)) {} 0"

definition win_Stat :: "winfs \<Rightarrow> 'w win_os \<Rightarrow> string \<Rightarrow> ('w, file_info) win_op" where
  "win_Stat fs X name = with_abs fs name Inl (\<lambda>full. ensure_op ''stat'' name (do_info fs X (OsStat full)))"

definition win_Statat :: "winfs \<Rightarrow> 'w win_os \<Rightarrow> int \<Rightarrow> string \<Rightarrow> ('w, file_info) win_op" where
  "win_Statat fs X dirfd name = with_at fs X dirfd name Inl (\<lambda>full. ensure_op ''statat'' name (do_info fs X (OsStat full)))"

definition win_Lstat :: "winfs \<Rightarrow> 'w win_os \<Rightarrow> string \<Rightarrow> ('w, file_info) win_op" where
  "win_Lstat fs X name = with_abs fs name Inl (\<lambda>full. ensure_op ''lstat'' name (do_info fs X (OsLstat full)))"

definition win_Lstatat :: "winfs \<Rightarrow> 'w win_os \<Rightarrow> int \<Rightarrow> string \<Rightarrow> ('w, file_info) win_op" where
  "win_Lstatat fs X dirfd name = with_at fs X dirfd name Inl (\<lambda>full. ensure_op ''lstatat'' name (do_info fs X (OsLstat full)))"

section \<open>Removing\<close>

text \<open>The information is returned along with an error of the removal.\<close>

definition win_RemoveStat :: "winfs \<Rightarrow> 'w win_os \<Rightarrow> string \<Rightarrow> ('w win_state, file_info option \<times> win_error option) state" where
  "win_RemoveStat fs X name = with_abs fs name (\<lambda>e. (None, Some e)) (\<lambda>full. do {
     r \<leftarrow> ensure_op ''lstat'' name (do_info fs X (OsLstat full));
     (case r of
        Inl e \<Rightarrow> ret (None, Some e)
      | Inr s \<Rightarrow> do { e \<leftarrow> ensure_act ''remove'' name (do_call fs X (OsRemove full)); ret (Some s, e) })
   })"

definition win_Remove :: "winfs \<Rightarrow> 'w win_os \<Rightarrow> string \<Rightarrow> 'w win_act" where
  "win_Remove fs X name = with_abs fs name Some (\<lambda>full.
     if full = wf_basePath fs then ret (Some (WPathError ''remove'' name WBadPathResolution))
     else ensure_act ''remove'' name (do_call fs X (OsRemove full)))"

definition win_unlinkat :: "winfs \<Rightarrow> 'w win_os \<Rightarrow> int \<Rightarrow> string \<Rightarrow> 'w win_act" where
  "win_unlinkat fs X dirfd name = with_at fs X dirfd name Some (\<lambda>full. do_call fs X (OsRemove full))"

text \<open>
  The recursive removal, for any way to remove one entry: that of the file system, or that of the quota. Its recursion carries
  fuel, one unit for each directory and each batch of names; the outer \<open>None\<close> means that it ran out.
\<close>

record 'w win_remover =
  wr_Open :: "string \<Rightarrow> ('w, fd) win_op"
  wr_Remove :: "string \<Rightarrow> 'w win_act"

definition read_names :: "'w win_os \<Rightarrow> fd \<Rightarrow> nat \<Rightarrow> ('w win_state, string list \<times> names_end) state" where
  "read_names X d n = State (\<lambda>s. case wo_names X d n (ws_world s) of (r, w) \<Rightarrow> (r, s\<lparr>ws_world := w\<rparr>))"

fun each :: "('a \<Rightarrow> ('s, 'b option) state) \<Rightarrow> 'a list \<Rightarrow> ('s, bool) state" where
  "each act [] = ret True"
| "each act (x # xs) = do { r \<leftarrow> act x; (case r of None \<Rightarrow> ret False | Some _ \<Rightarrow> each act xs) }"

fun win_removeAll :: "nat \<Rightarrow> 'w win_os \<Rightarrow> 'w win_remover \<Rightarrow> string \<Rightarrow> ('w win_state, win_error option option) state"
and win_remove_names :: "nat \<Rightarrow> 'w win_os \<Rightarrow> 'w win_remover \<Rightarrow> string \<Rightarrow> fd \<Rightarrow> ('w win_state, win_error option option) state"
where
  "win_removeAll 0 X rm p = ret None"
| "win_removeAll (Suc n) X rm p =
     (if p = [] then ret (Some None)
      else do {
        r \<leftarrow> wr_Remove rm p;
        (case r of
           None \<Rightarrow> ret (Some None)
         | Some err \<Rightarrow>
             if win_not_exist err then ret (Some None)
             else do {
               d \<leftarrow> wr_Open rm p;
               (case d of
                  Inl e \<Rightarrow> ret (Some (if win_not_exist e then None else Some err))
                | Inr d \<Rightarrow> do {
                    r \<leftarrow> win_remove_names n X rm p d;
                    (case r of
                       None \<Rightarrow> ret None
                     | Some (Some e) \<Rightarrow> ret (Some (Some e))
                     | Some None \<Rightarrow> do {
                         e \<leftarrow> wr_Remove rm p;
                         ret (Some (case e of Some e \<Rightarrow> Some e | None \<Rightarrow> Some err))
                       })
                  })
             })
      })"
| "win_remove_names 0 X rm p d = ret None"
| "win_remove_names (Suc n) X rm p d = do {
     (names, stop) \<leftarrow> read_names X d 512;
     ok \<leftarrow> each (\<lambda>name. win_removeAll n X rm (path_Join [p, name])) names;
     (if \<not> ok then ret None
      else if stop = EndOfNames \<or> names = [] then ret (Some None)
      else case stop of
             NamesFailed e \<Rightarrow> ret (Some (Some e))
           | _ \<Rightarrow> win_remove_names n X rm p d)
   }"

definition plain_remover :: "winfs \<Rightarrow> 'w win_os \<Rightarrow> 'w win_remover" where
  "plain_remover fs X = \<lparr>wr_Open = win_Open fs X, wr_Remove = win_Remove fs X\<rparr>"

definition win_RemoveAll :: "nat \<Rightarrow> winfs \<Rightarrow> 'w win_os \<Rightarrow> string \<Rightarrow> ('w win_state, win_error option option) state" where
  "win_RemoveAll n fs X name = with_abs fs name (\<lambda>e. Some (Some e)) (\<lambda>full.
     if full = wf_basePath fs then ret (Some (Some (WPathError ''removeall'' name WBadPathResolution)))
     else win_removeAll n X (plain_remover fs X) name)"

fun remove_each :: "('a \<Rightarrow> ('s, 'e option option) state) \<Rightarrow> 'a list \<Rightarrow> ('s, 'e option option) state" where
  "remove_each act [] = ret (Some None)"
| "remove_each act (x # xs) = do {
     r \<leftarrow> act x;
     (case r of Some None \<Rightarrow> remove_each act xs | _ \<Rightarrow> ret r)
   }"

definition win_RemoveContents :: "nat \<Rightarrow> winfs \<Rightarrow> 'w win_os \<Rightarrow> string \<Rightarrow> ('w win_state, win_error option option) state" where
  "win_RemoveContents n fs X name = with_abs fs name (\<lambda>e. Some (Some e)) (\<lambda>full. do {
     r \<leftarrow> ensure_op ''readdir'' name (do_readdir fs X full);
     (case r of
        Inl e \<Rightarrow> ret (Some (Some e))
      | Inr es \<Rightarrow> remove_each (\<lambda>(en, _). win_removeAll n X (plain_remover fs X) (path_Join [name, en])) es)
   })"

section \<open>Renaming, linking, touching\<close>

definition win_Rename :: "winfs \<Rightarrow> 'w win_os \<Rightarrow> string \<Rightarrow> string \<Rightarrow> 'w win_act" where
  "win_Rename fs X oldpath newpath =
     (if oldpath = newpath then ret None
      else with_abs fs oldpath Some (\<lambda>oldAbs.
        if oldAbs = wf_basePath fs then ret (Some (WPathError ''rename'' oldpath WBadPathResolution))
        else with_abs fs newpath Some (\<lambda>newAbs.
          if newAbs = wf_basePath fs then ret (Some (WPathError ''rename'' newpath WBadPathResolution))
          else do {
            e \<leftarrow> ensure_act ''rename'' newpath (do_call fs X (OsMkdirAll (win_Dir newAbs) 0x1ED));
            (case e of
               Some e \<Rightarrow> ret (Some e)
             | None \<Rightarrow> do {
                 e \<leftarrow> do_call fs X (OsRename oldAbs newAbs);
                 ret (map_option (WLinkError ''rename'' oldpath newpath) e)
               })
          })))"

definition win_Symlink :: "winfs \<Rightarrow> 'w win_os \<Rightarrow> string \<Rightarrow> string \<Rightarrow> 'w win_act" where
  "win_Symlink fs X oldpath newpath = with_abs fs newpath Some (\<lambda>newAbs. do {
     e \<leftarrow> do_call fs X (OsSymlink oldpath newAbs);
     ret (map_option (WLinkError ''symlink'' oldpath newpath) e)
   })"

text \<open>Nothing is to be released after a failed \<^verbatim>\<open>safePath\<close>.\<close>

definition win_TouchPath :: "winfs \<Rightarrow> 'w win_os \<Rightarrow> string \<Rightarrow> ('w win_state, (win_error + int \<times> string) \<times> bool) state" where
  "win_TouchPath fs X p = do {
     r \<leftarrow> win_safePath fs X p;
     (case r of
        Inr q \<Rightarrow> ret (Inr q, True)
      | Inl e \<Rightarrow>
          if \<not> win_not_exist e then ret (Inl e, False)
          else (case win_as_path e of
                  None \<Rightarrow> ret (Inl e, False)
                | Some (_, missing, _) \<Rightarrow> do {
                    m \<leftarrow> win_MkdirAll fs X missing 0x1ED;
                    (case m of
                       Some e' \<Rightarrow> ret (Inl e', False)
                     | None \<Rightarrow> do { r \<leftarrow> win_safePath fs X p; ret (r, False) })
                  }))
   }"

definition win_Touch :: "winfs \<Rightarrow> 'w win_os \<Rightarrow> string \<Rightarrow> flags \<Rightarrow> file_mode \<Rightarrow> ('w, fd) win_op" where
  "win_Touch fs X p flag mode = do {
     (r, _) \<leftarrow> win_TouchPath fs X p;
     (case r of
        Inl e \<Rightarrow> ret (Inl e)
      | Inr (dirfd, name) \<Rightarrow> do {
          f \<leftarrow> win_OpenFileat fs X dirfd name (insert O_CREATE flag) mode;
          reg_release dirfd;
          ret f
        })
   }"

section \<open>Walking\<close>

datatype win_walk_error = WSkipDir | WSkipAll | WWalkErr win_error | WFnErr string

text \<open>The callback: token of the parent, name, relative path, the information if there is any, and an error.\<close>

type_synonym 'w win_walk_fn =
  "int \<Rightarrow> string \<Rightarrow> string \<Rightarrow> file_mode option \<Rightarrow> win_error option \<Rightarrow> ('w win_state, win_walk_error option) state"

fun win_walkDir :: "nat \<Rightarrow> winfs \<Rightarrow> 'w win_os \<Rightarrow> 'w win_walk_fn \<Rightarrow> int \<Rightarrow> string \<Rightarrow> string \<Rightarrow> file_info
    \<Rightarrow> ('w win_state, win_walk_error option option) state"
and win_walk_entries :: "nat \<Rightarrow> winfs \<Rightarrow> 'w win_os \<Rightarrow> 'w win_walk_fn \<Rightarrow> int \<Rightarrow> string \<Rightarrow> string \<Rightarrow> (string \<times> file_mode) list
    \<Rightarrow> ('w win_state, win_walk_error option option) state"
where
  "win_walkDir 0 fs X fn parentfd name relative d = ret None"
| "win_walkDir (Suc n) fs X fn parentfd name relative d = do {
     e \<leftarrow> fn parentfd name relative (Some (fi_mode d)) None;
     (if e \<noteq> None \<or> \<not> IsDir d then ret (Some (if e = Some WSkipDir \<and> IsDir d then None else e))
      else do {
        r \<leftarrow> win_atPath fs X parentfd name;
        (case r of
           Inl e \<Rightarrow> ret (Some (Some (WWalkErr e)))
         | Inr dirAbs \<Rightarrow> do {
             dirfd \<leftarrow> reg_add dirAbs;
             (es, err) \<leftarrow> plain_readdir False X dirAbs;
             e \<leftarrow> (case err of
                None \<Rightarrow> ret None
              | Some e \<Rightarrow> fn dirfd name relative (Some (fi_mode d)) (Some (win_ensurePathError e ''readdir'' name)));
             out \<leftarrow> (case e of
                None \<Rightarrow> win_walk_entries n fs X fn dirfd dirAbs relative es
              | Some e \<Rightarrow> ret (Some (if e = WSkipDir then None else Some e)));
             reg_release dirfd;
             ret out
           })
      })
   }"
| "win_walk_entries n fs X fn dirfd dirAbs relative [] = ret (Some None)"
| "win_walk_entries 0 fs X fn dirfd dirAbs relative (e # es) = ret None"
| "win_walk_entries (Suc n) fs X fn dirfd dirAbs relative ((childName, t) # es) =
     (let rel = (if relative = ''.'' then childName else path_Join [relative, childName])
      in do {
           ci \<leftarrow> plain_info False X (OsLstat (win_Join dirAbs childName));
           (case ci of
              Inl ce \<Rightarrow> do {
                we \<leftarrow> fn dirfd childName rel (Some t) (Some (win_ensurePathError ce ''lstat'' childName));
                (if we \<noteq> None \<and> we \<noteq> Some WSkipDir then ret (Some we) else win_walk_entries n fs X fn dirfd dirAbs relative es)
              }
            | Inr ci \<Rightarrow> do {
                r \<leftarrow> win_walkDir n fs X fn dirfd childName rel ci;
                (case r of
                   None \<Rightarrow> ret None
                 | Some None \<Rightarrow> win_walk_entries n fs X fn dirfd dirAbs relative es
                 | Some (Some e) \<Rightarrow> ret (Some (if e = WSkipDir then None else Some e)))
              })
         })"

definition win_WalkDirat :: "nat \<Rightarrow> winfs \<Rightarrow> 'w win_os \<Rightarrow> int \<Rightarrow> string \<Rightarrow> 'w win_walk_fn \<Rightarrow> ('w win_state, win_walk_error option option) state" where
  "win_WalkDirat n fs X dirfd name fn = do {
     i \<leftarrow> win_Lstatat fs X dirfd name;
     r \<leftarrow> (case i of
        Inl e \<Rightarrow> do { r \<leftarrow> fn dirfd name ''.'' None (Some e); ret (Some r) }
      | Inr i \<Rightarrow> win_walkDir n fs X fn dirfd name ''.'' i);
     ret (map_option (\<lambda>e. if e = Some WSkipDir \<or> e = Some WSkipAll then None else e) r)
   }"

text \<open>\<^verbatim>\<open>ReadDirMap\<close>: the first error of the function ends it.\<close>

fun map_entries :: "('a \<Rightarrow> ('s, 'e + 'b) state) \<Rightarrow> 'a list \<Rightarrow> ('s, 'e + 'b list) state" where
  "map_entries f [] = ret (Inr [])"
| "map_entries f (x # xs) = do {
     r \<leftarrow> f x;
     (case r of Inl e \<Rightarrow> ret (Inl e) | Inr y \<Rightarrow> do { ys \<leftarrow> map_entries f xs; ret (map_sum id (\<lambda>ys. y # ys) ys) })
   }"

definition win_ReadDirMap :: "winfs \<Rightarrow> 'w win_os \<Rightarrow> string \<Rightarrow> (string \<times> file_mode \<times> string \<Rightarrow> ('w, 'b) win_op) \<Rightarrow> ('w, 'b list) win_op" where
  "win_ReadDirMap fs X p fn = do {
     r \<leftarrow> win_ReadDir fs X p;
     (case r of Inl e \<Rightarrow> ret (Inl e) | Inr es \<Rightarrow> map_entries fn es)
   }"

end
