(* ===== verification/Win_Jail.thy ===== *)
theory Win_Jail
  imports Win_Fs
begin

text \<open>
  What the sandbox of a Windows node keeps and what it does not: every call gets a path that lies lexically below the base
  directory; whether links lead out of it is checked by some operations only. And what else the operations promise: which
  errors the recursive removal reports, and when directories are created.
\<close>

section \<open>Paths below the base\<close>

definition wproper :: "string \<Rightarrow> bool" where
  "wproper c \<longleftrightarrow> proper c \<and> BS \<notin> set c"

definition drive :: "string \<Rightarrow> bool" where
  "drive v \<longleftrightarrow> (\<exists>c. v = [c, CHR '':'']) \<and> BS \<notin> set v \<and> CHR ''/'' \<notin> set v"

definition win_path :: "string \<Rightarrow> string list \<Rightarrow> string" where
  "win_path v cs = v @ from_slash (render cs)"

definition win_base_ok :: "winfs \<Rightarrow> string \<Rightarrow> string list \<Rightarrow> bool" where
  "win_base_ok fs v bs \<longleftrightarrow> wf_basePath fs = win_path v bs \<and> drive v \<and> bs \<noteq> [] \<and> list_all wproper bs"

lemma wproper_proper: "list_all wproper cs \<Longrightarrow> list_all proper cs"
  by (simp add: list_all_iff wproper_def)

lemma drive_length: "drive v \<Longrightarrow> length v = 2"
  by (auto simp: drive_def)

lemma to_slash_append [simp]: "to_slash (a @ b) = to_slash a @ to_slash b"
  by (simp add: to_slash_def)

lemma from_slash_append [simp]: "from_slash (a @ b) = from_slash a @ from_slash b"
  by (simp add: from_slash_def)

lemma to_slash_Cons: "to_slash (c # s) = (if c = BS then CHR ''/'' else c) # to_slash s" "to_slash [] = []"
  by (simp_all add: to_slash_def)

lemma from_slash_Cons: "from_slash (c # s) = (if c = CHR ''/'' then BS else c) # from_slash s" "from_slash [] = []"
  by (simp_all add: from_slash_def)

lemma to_slash_id: "BS \<notin> set s \<Longrightarrow> to_slash s = s"
  by (induction s) (auto simp: to_slash_def)

lemma to_slash_no_BS: "BS \<notin> set (to_slash s)"
  by (auto simp: to_slash_def)

lemma to_from_slash: "BS \<notin> set s \<Longrightarrow> to_slash (from_slash s) = s"
  by (induction s) (auto simp: to_slash_def from_slash_def)

lemma length_from_slash [simp]: "length (from_slash s) = length s"
  by (simp add: from_slash_def)

lemma Join_no_BS: "list_all wproper cs \<Longrightarrow> BS \<notin> set (Join cs ''/'')"
proof (induction cs)
  case (Cons c cs)
  then show ?case by (cases cs) (auto simp: wproper_def)
qed simp

lemma render_no_BS: "list_all wproper cs \<Longrightarrow> BS \<notin> set (render cs)"
  by (simp add: render_def Join_no_BS)

lemmas to_from_render = to_from_slash [OF render_no_BS]

lemma win_Clean_drive: "drive v \<Longrightarrow> win_Clean (v @ s) = v @ from_slash (Clean (to_slash s))"
  by (simp add: win_Clean_def drive_length)

lemma win_Clean_path: "drive v \<Longrightarrow> list_all wproper cs \<Longrightarrow> win_Clean (win_path v cs) = win_path v cs"
  by (simp add: win_path_def win_Clean_drive to_from_render Clean_render wproper_proper)

lemma fold_clean_step_set: "set (fold (clean_step True) cs st) \<subseteq> set st \<union> set cs"
proof (induction cs arbitrary: st)
  case (Cons c cs)
  have "set (clean_step True c st) \<subseteq> insert c (set st)" by (auto simp: clean_step_def split: list.splits)
  then show ?case using Cons [of "clean_step True c st"] by auto
qed simp

lemma Split_chars: "w \<in> set (Split s c) \<Longrightarrow> set w \<subseteq> set s"
proof (induction s c arbitrary: w rule: Split.induct)
  case (2 x s c)
  then show ?case by (auto split: if_splits list.splits) blast+
qed simp

lemma resolve_wproper: "list_all wproper bs \<Longrightarrow> list_all wproper (resolve bs (to_slash p))"
proof -
  assume bs: "list_all wproper bs"
  have "BS \<notin> set c" if "c \<in> set (resolve bs (to_slash p))" for c
    using that fold_clean_step_set [of "Split (to_slash p) (CHR ''/'')" "rev bs"] bs to_slash_no_BS [of p] Split_chars [of c "to_slash p"]
    by (auto simp: resolve_def list_all_iff wproper_def)
  then show ?thesis
    using resolve_proper [OF wproper_proper [OF bs], of "to_slash p"] by (auto simp: list_all_iff wproper_def)
qed

lemma win_Join_path:
  assumes "drive v" "list_all wproper bs" "bs \<noteq> []"
  shows "win_Join (win_path v bs) p = win_path v (resolve bs (to_slash p))"
proof -
  have s: "to_slash (from_slash (render bs) @ BS # p) = render bs @ CHR ''/'' # to_slash p"
    by (simp add: to_from_render [OF assms(2)] to_slash_Cons)
  have "rooted (render bs @ CHR ''/'' # to_slash p)" by (simp add: rooted_def render_def)
  then show ?thesis
    using assms by (simp add: win_Join_def win_path_def win_Clean_drive s Clean_rooted(1) clean_comps_base wproper_proper
      del: to_slash_append)
qed

text \<open>A walk that never goes up stays below where it started.\<close>

lemma resolve_down:
  assumes "list_all (\<lambda>c. c = [] \<or> proper c) (Split p (CHR ''/''))"
  shows "resolve bs p = bs @ filter (\<lambda>c. c \<noteq> []) (Split p (CHR ''/''))"
proof -
  have "list_all (\<lambda>c. c = [] \<or> proper c) cs \<Longrightarrow> fold (clean_step True) cs st = rev (filter (\<lambda>c. c \<noteq> []) cs) @ st" for cs st
    by (induction cs arbitrary: st) (auto simp: clean_step_def proper_def)
  from this [OF assms] show ?thesis by (simp add: resolve_def)
qed

lemma ToLower_Cons: "ToLower (c # s) = lower_char c # ToLower s" "ToLower [] = []"
  by (simp_all add: ToLower_def)

lemma ToLower_append [simp]: "ToLower (a @ b) = ToLower a @ ToLower b"
  by (simp add: ToLower_def)

lemma lower_char_BS: "lower_char c = BS \<longleftrightarrow> c = BS"
proof
  assume "lower_char c = BS"
  then show "c = BS"
    by (auto simp: lower_char_def Let_def char_of_eq_iff take_bit_eq_mod split: if_splits)
qed (simp add: lower_char_def)

lemma from_slash_render_last: "list_all wproper cs \<Longrightarrow> cs \<noteq> [] \<Longrightarrow> last (from_slash (render cs)) \<noteq> BS"
proof -
  assume cs: "list_all wproper cs" "cs \<noteq> []"
  have j: "Join cs ''/'' \<noteq> []" "last (Join cs ''/'') \<noteq> CHR ''/''"
    using last_Join_proper [OF cs(2) wproper_proper [OF cs(1)]] by auto
  moreover have "last (Join cs ''/'') \<noteq> BS" using Join_no_BS [OF cs(1)] j(1) last_in_set by metis
  ultimately show ?thesis by (simp add: from_slash_def render_def last_map)
qed

lemma win_path_last: "list_all wproper cs \<Longrightarrow> cs \<noteq> [] \<Longrightarrow> last (win_path v cs) \<noteq> BS"
  using from_slash_render_last [of cs] by (simp add: win_path_def render_def from_slash_Cons)

lemma inside_self: "last (wf_basePath fs) \<noteq> BS \<Longrightarrow> win_inside fs (wf_basePath fs)"
  using TrimSuffix_not [of "wf_basePath fs" "[BS]"] HasPrefix_append [of "ToLower (wf_basePath fs) @ [BS]" "[]"]
  by (simp add: win_inside_def HasSuffix_char)

text \<open>Going down from a path inside stays inside.\<close>

lemma inside_down:
  assumes "win_inside fs p" "last p \<noteq> BS"
  shows "win_inside fs (p @ BS # t)"
proof -
  have p: "TrimSuffix p [BS] = p" using assms(2) by (intro TrimSuffix_not) (simp add: HasSuffix_char)
  then obtain u where u: "ToLower p @ [BS] = (ToLower (wf_basePath fs) @ [BS]) @ u"
    using assms(1) by (auto simp: win_inside_def HasPrefix_iff)
  have low: "ToLower (p @ BS # s) @ [BS] = (ToLower (wf_basePath fs) @ [BS]) @ u @ ToLower s @ [BS]" for s
  proof -
    have "ToLower (p @ BS # s) @ [BS] = (ToLower p @ [BS]) @ ToLower s @ [BS]"
      by (simp add: ToLower_Cons lower_char_BS)
    then show ?thesis unfolding u by simp
  qed
  consider "t = []" | t' where "t = t' @ [BS]" | "t \<noteq> []" "last t \<noteq> BS" by (metis append_butlast_last_id)
  then show ?thesis
  proof cases
    case 1
    then have "TrimSuffix (p @ BS # t) [BS] = p" by simp
    then show ?thesis using u by (simp add: win_inside_def HasPrefix_iff)
  next
    case 2
    then have "TrimSuffix (p @ BS # t) [BS] = p @ BS # t'" using TrimSuffix_append [of "p @ BS # t'" "[BS]"] by simp
    then show ?thesis unfolding win_inside_def by (simp only: low HasPrefix_append)
  next
    case 3
    then have "TrimSuffix (p @ BS # t) [BS] = p @ BS # t" by (intro TrimSuffix_not) (simp add: HasSuffix_char)
    then show ?thesis unfolding win_inside_def by (simp only: low HasPrefix_append)
  qed
qed

text \<open>A path inside that starts with the base goes on with a separator.\<close>

lemma inside_base_cut:
  assumes "win_inside fs (wf_basePath fs @ t)"
  shows "t = [] \<or> hd t = BS"
proof (rule ccontr)
  assume "\<not> ?thesis"
  then obtain c t' where t: "t = c # t'" and c: "c \<noteq> BS" by (cases t) auto
  have "\<exists>t''. TrimSuffix (wf_basePath fs @ t) [BS] = wf_basePath fs @ c # t''"
  proof (cases "last t = BS")
    case True
    then have "t' \<noteq> []" "t = (c # butlast t') @ [BS]" using t c by auto (metis append_butlast_last_id)
    then show ?thesis using TrimSuffix_append [of "wf_basePath fs @ c # butlast t'" "[BS]"] by auto
  next
    case False
    then show ?thesis using t TrimSuffix_not [of "wf_basePath fs @ t" "[BS]"] by (simp add: HasSuffix_char)
  qed
  then show False using assms c by (auto simp: win_inside_def HasPrefix_iff ToLower_Cons lower_char_BS)
qed

definition win_below :: "string \<Rightarrow> string list \<Rightarrow> string \<Rightarrow> bool" where
  "win_below v bs p \<longleftrightarrow> (\<exists>ds. list_all wproper ds \<and> p = win_path v (bs @ ds))"

lemma win_path_append: "bs \<noteq> [] \<Longrightarrow> ds \<noteq> [] \<Longrightarrow> win_path v (bs @ ds) = win_path v bs @ BS # from_slash (Join ds ''/'')"
  by (simp add: win_path_def render_def Join_append from_slash_Cons)

lemma below_inside: "win_base_ok fs v bs \<Longrightarrow> win_below v bs p \<Longrightarrow> win_inside fs p"
proof -
  assume b: "win_base_ok fs v bs" and "win_below v bs p"
  then obtain ds where p: "p = win_path v (bs @ ds)" by (auto simp: win_below_def)
  have l: "last (wf_basePath fs) \<noteq> BS" using b win_path_last by (simp add: win_base_ok_def)
  show ?thesis
  proof (cases "ds = []")
    case True
    then show ?thesis using b p inside_self [OF l] by (simp add: win_base_ok_def)
  next
    case False
    then show ?thesis using b p inside_down [OF inside_self [OF l] l] by (simp add: win_base_ok_def win_path_append)
  qed
qed

lemma Join_Split_proper: "list_all proper rs \<Longrightarrow> rs \<noteq> [] \<Longrightarrow> Split (Join rs ''/'') (CHR ''/'') = rs"
  by (rule Split_Join) (auto simp: list_all_iff proper_def)

text \<open>The components of a path none of which goes up.\<close>

abbreviation down_path :: "string \<Rightarrow> bool" where
  "down_path q \<equiv> list_all (\<lambda>c. c = [] \<or> wproper c) (Split (to_slash q) (CHR ''/''))"

lemma Join_down:
  assumes b: "win_base_ok fs v bs" and q: "down_path q"
  shows "win_below v bs (win_Join (wf_basePath fs) q)"
proof -
  have "list_all (\<lambda>c. c = [] \<or> proper c) (Split (to_slash q) (CHR ''/''))" using q by (auto simp: list_all_iff wproper_def)
  then show ?thesis
    using b q by (auto simp: win_base_ok_def win_below_def win_Join_path resolve_down list_all_iff
      intro!: exI [of _ "filter (\<lambda>c. c \<noteq> []) (Split (to_slash q) (CHR ''/''))"])
qed

text \<open>Whatever is asked for, the resolved path does not go up.\<close>

lemma unsafePath_down:
  assumes b: "win_base_ok fs v bs" and r: "win_unsafePath fs p = Inr q"
  shows "q = ''.'' \<or> down_path q"
proof -
  note b' = b [unfolded win_base_ok_def]
  define rs where "rs = resolve bs (to_slash (TrimPrefix p (wf_basePath fs)))"
  have rs: "list_all wproper rs" unfolding rs_def using b' by (intro resolve_wproper) simp
  have clean: "win_Clean (win_Join (wf_basePath fs) (TrimPrefix p (wf_basePath fs))) = win_path v rs"
  proof -
    have "win_Join (wf_basePath fs) (TrimPrefix p (wf_basePath fs)) = win_path v rs"
      unfolding rs_def using b' by (metis win_Join_path)
    then show ?thesis using b' rs by (simp add: win_Clean_path)
  qed
  let ?r = "win_path v rs"
  have inside: "win_inside fs ?r" and q: "q = (let q = TrimPrefix (TrimPrefix ?r (wf_basePath fs)) [BS] in if q = [] then ''.'' else q)"
    using r by (auto simp: win_unsafePath_def clean Let_def split: if_splits)
  show ?thesis
  proof (cases "\<exists>t. ?r = wf_basePath fs @ t")
    case True
    then obtain t where t: "?r = wf_basePath fs @ t" by blast
    show ?thesis
    proof (cases t)
      case Nil
      then show ?thesis using q t TrimPrefix_append [of "wf_basePath fs" "[]"] by (simp add: TrimPrefix_def HasPrefix_def)
    next
      case (Cons c u)
      then have c: "c = BS" using inside_base_cut inside t by fastforce
      have u: "TrimPrefix (TrimPrefix ?r (wf_basePath fs)) [BS] = u" unfolding t Cons c by (simp add: TrimPrefix_def HasPrefix_def)
      have "from_slash (render rs) = from_slash (render bs) @ BS # u" using t Cons c b' by (simp add: win_path_def)
      then have "to_slash (from_slash (render rs)) = to_slash (from_slash (render bs) @ BS # u)" by simp
      then have eq: "render rs = render bs @ CHR ''/'' # to_slash u"
        using b' by (simp add: to_from_render rs to_slash_Cons)
      have "rs \<noteq> []" using eq by (auto simp: render_def)
      then have "[] # rs = [] # bs @ Split (to_slash u) (CHR ''/'')"
        using eq Split_render [of bs "to_slash u"] Split_render_plain [of rs] b' rs wproper_proper by metis
      then have "down_path u" using rs by (auto simp: list_all_iff)
      then show ?thesis using q u by (auto simp: Let_def)
    qed
  next
    case False
    then have "TrimPrefix ?r (wf_basePath fs) = ?r" by (intro TrimPrefix_not) (simp add: HasPrefix_iff)
    moreover have "\<not> HasPrefix ?r [BS]" using b' by (auto simp: win_path_def HasPrefix_def drive_def)
    ultimately have u: "TrimPrefix (TrimPrefix ?r (wf_basePath fs)) [BS] = ?r" by simp
    have vol: "wproper v" using b' by (auto simp: drive_def wproper_def proper_def)
    have "to_slash ?r = v @ CHR ''/'' # Join rs ''/''"
      using b' vol by (simp add: win_path_def to_from_render [OF rs] to_slash_id wproper_def) (simp add: render_def)
    then have "Split (to_slash ?r) (CHR ''/'') = v # Split (Join rs ''/'') (CHR ''/'')"
      using vol by (simp add: Split_append_sep wproper_def proper_def)
    moreover have "Split (Join rs ''/'') (CHR ''/'') = (if rs = [] then [[]] else rs)"
      using rs by (simp add: Join_Split_proper wproper_proper)
    ultimately have "down_path ?r" using rs vol by (auto simp: list_all_iff)
    then show ?thesis using q u by (auto simp: Let_def)
  qed
qed

lemma resolveAbs_below:
  assumes "win_base_ok fs v bs" "win_resolveAbs fs p = Inr full"
  shows "win_below v bs full"
proof -
  obtain q where q: "win_unsafePath fs p = Inr q" "full = (if q = ''.'' then wf_basePath fs else win_Join (wf_basePath fs) q)"
    using assms(2) by (auto simp: win_resolveAbs_def split: sum.splits)
  have "win_below v bs (wf_basePath fs)" using assms(1) by (auto simp: win_below_def win_base_ok_def intro!: exI [of _ "[]"])
  then show ?thesis using q unsafePath_down [OF assms(1) q(1)] Join_down [OF assms(1), of q] by auto
qed

section \<open>Every call stays below the base\<close>

primrec call_paths :: "os_call \<Rightarrow> string list" where
  "call_paths (OsEvalSymlinks p) = [p]"
| "call_paths (OsChmod p m) = [p]"
| "call_paths (OsChtimes p a m) = [p]"
| "call_paths (OsStat p) = [p]"
| "call_paths (OsLstat p) = [p]"
| "call_paths (OsOpen p f m) = [p]"
| "call_paths (OsMkdir p m) = [p]"
| "call_paths (OsMkdirAll p m) = [p]"
| "call_paths (OsReadDir p) = [p]"
| "call_paths (OsRemove p) = [p]"
| "call_paths (OsRename a b) = [a, b]"
| "call_paths (OsSymlink target p) = [p]"

definition jailed :: "winfs \<Rightarrow> string \<Rightarrow> bool" where
  "jailed fs p \<longleftrightarrow> win_inside fs p \<and> (\<exists>v cs. drive v \<and> cs \<noteq> [] \<and> list_all wproper cs \<and> p = win_path v cs)"

definition win_confined :: "winfs \<Rightarrow> (bool \<times> os_call) list \<Rightarrow> bool" where
  "win_confined fs = list_all (\<lambda>(i, c). list_all (jailed fs) (call_paths c))"

definition jail :: "winfs \<Rightarrow> 'w win_state \<Rightarrow> bool" where
  "jail fs s \<longleftrightarrow> win_confined fs (ws_calls s) \<and> (\<forall>d \<in> ran (ws_dirs s). jailed fs d)"

lemma jailedI: "win_inside fs (win_path v cs) \<Longrightarrow> drive v \<Longrightarrow> cs \<noteq> [] \<Longrightarrow> list_all wproper cs \<Longrightarrow> jailed fs (win_path v cs)"
  by (auto simp: jailed_def)

lemma below_jailed: "win_base_ok fs v bs \<Longrightarrow> win_below v bs p \<Longrightarrow> jailed fs p"
  using below_inside [of fs v bs p] by (auto simp: win_below_def win_base_ok_def intro!: jailedI)

lemma base_jailed: "win_base_ok fs v bs \<Longrightarrow> jailed fs (wf_basePath fs)"
  by (rule below_jailed) (auto simp: win_below_def win_base_ok_def intro!: exI [of _ "[]"])

text \<open>The root of a drive is not inside of any base.\<close>

lemma root_not_inside: "win_base_ok fs v bs \<Longrightarrow> drive u \<Longrightarrow> \<not> win_inside fs (win_path u [])"
proof -
  assume b: "win_base_ok fs v bs" and u: "drive u"
  have "TrimSuffix (win_path u []) [BS] = u" by (simp add: win_path_def render_def from_slash_def)
  moreover have "3 < length (wf_basePath fs)"
    using b last_Join_proper [of bs] by (auto simp: win_base_ok_def win_path_def drive_length render_def wproper_proper)
  ultimately show ?thesis using drive_length [OF u] by (auto simp: win_inside_def HasPrefix_iff ToLower_def dest: arg_cong [where f = length])
qed

lemma at_jailed:
  assumes "win_base_ok fs v bs" "jailed fs dir" "win_inside fs (win_Clean (win_Join dir name))"
  shows "jailed fs (win_Clean (win_Join dir name))"
proof -
  obtain u cs where u: "drive u" "cs \<noteq> []" "list_all wproper cs" "dir = win_path u cs" using assms(2) by (auto simp: jailed_def)
  let ?rs = "resolve cs (to_slash name)"
  have rs: "list_all wproper ?rs" by (rule resolve_wproper [OF u(3)])
  then have p: "win_Clean (win_Join dir name) = win_path u ?rs" using u by (simp add: win_Join_path win_Clean_path)
  then have "?rs \<noteq> []" using root_not_inside [OF assms(1) u(1)] assms(3) by auto
  then show ?thesis using assms(3) u rs p by (auto simp: jailed_def)
qed

lemma jailed_down:
  assumes "jailed fs dir" "wproper name"
  shows "jailed fs (win_Join dir name)"
proof -
  obtain u cs where u: "drive u" "cs \<noteq> []" "list_all wproper cs" "dir = win_path u cs" using assms(1) by (auto simp: jailed_def)
  have "Split (to_slash name) (CHR ''/'') = [name]" using assms(2) by (simp add: wproper_def to_slash_id Split_plain proper_def)
  then have p: "win_Join dir name = win_path u (cs @ [name])"
    using u assms(2) resolve_down [of "to_slash name" cs] by (simp add: win_Join_path wproper_def proper_def)
  then have "win_Join dir name = dir @ BS # from_slash name" using u by (simp add: win_path_append)
  then have "win_inside fs (win_Join dir name)"
    using inside_down [of fs dir] assms(1) u win_path_last [of cs u] by (simp add: jailed_def)
  then show ?thesis using u assms(2) unfolding p by (intro jailedI) simp_all
qed

subsection \<open>The building blocks\<close>

lemma log_call_jail: "list_all (jailed fs) (call_paths c) \<Longrightarrow> keeps (jail fs) (log_call i c)"
  unfolding log_call_def by (rule triple_modify) (simp add: jail_def win_confined_def)

lemma world_jail: "keeps (jail fs) (modify_st (\<lambda>s. s\<lparr>ws_world := w\<rparr>))" "keeps (jail fs) (modify_st (\<lambda>s. s\<lparr>ws_files := n\<rparr>))"
  by (rule triple_modify, simp add: jail_def)+

lemma plain_jail:
  "list_all (jailed fs) (call_paths c) \<Longrightarrow> keeps (jail fs) (plain_do i X c)"
  "list_all (jailed fs) (call_paths c) \<Longrightarrow> keeps (jail fs) (plain_info i X c)"
  "jailed fs p \<Longrightarrow> keeps (jail fs) (plain_readdir i X p)"
  unfolding plain_do_def plain_info_def plain_readdir_def
  by (intro keeps_bind log_call_jail read_keeps triple_prod world_jail triple_ret; simp)+

lemma win_do_jail: "(\<And>i. keeps (jail fs) (act i)) \<Longrightarrow> keeps (jail fs) (win_do fs X fail act)"
  unfolding win_do_def by (intro triple_if keeps_bind read_keeps triple_option triple_ret)

lemma do_jail:
  "list_all (jailed fs) (call_paths c) \<Longrightarrow> keeps (jail fs) (do_call fs X c)"
  "list_all (jailed fs) (call_paths c) \<Longrightarrow> keeps (jail fs) (do_info fs X c)"
  "jailed fs p \<Longrightarrow> keeps (jail fs) (do_readdir fs X p)"
  unfolding do_call_def do_info_def do_readdir_def
  by (intro win_do_jail keeps_bind triple_prod triple_ret plain_jail; simp)+

lemma ensure_jail:
  "keeps (jail fs) m \<Longrightarrow> keeps (jail fs) (ensure_act op name m)"
  "keeps (jail fs) m' \<Longrightarrow> keeps (jail fs) (ensure_op op name m')"
  unfolding ensure_act_def ensure_op_def by (intro keeps_bind triple_ret; assumption)+

lemma reg_jail:
  "jailed fs d \<Longrightarrow> keeps (jail fs) (reg_add d)" "keeps (jail fs) (reg_release n)"
  by (auto simp: triple_def reg_add_def reg_release_def jail_def Let_def ran_def split: if_splits)

lemma check_jail: "jailed fs p \<Longrightarrow> keeps (jail fs) (symlinkJailCheck fs X p)"
  unfolding symlinkJailCheck_def by (intro keeps_bind log_call_jail read_keeps triple_ret; simp)

lemma atPath_jail:
  assumes "win_base_ok fs v bs"
  shows "triple (jail fs) (win_atPath fs X n name) (\<lambda>r s. jail fs s \<and> (case r of Inr p \<Rightarrow> jailed fs p | Inl _ \<Rightarrow> True))"
proof (rule tripleI)
  fix s r s'
  assume s: "jail fs s" and run: "run_state (win_atPath fs X n name) s = (r, s')"
  show "jail fs s' \<and> (case r of Inr p \<Rightarrow> jailed fs p | Inl _ \<Rightarrow> True)"
  proof (cases "ws_dirs s n")
    case None
    then show ?thesis using run s by (auto simp: win_atPath_def reg_get_def)
  next
    case (Some dir)
    then have d: "jailed fs dir" using s by (auto simp: jail_def ran_def)
    let ?p = "win_Clean (win_Join dir name)"
    show ?thesis
    proof (cases "win_inside fs ?p")
      case False
      then show ?thesis using run s Some by (auto simp: win_atPath_def reg_get_def Let_def)
    next
      case True
      obtain e t where c: "run_state (symlinkJailCheck fs X ?p) s = (e, t)" by (rule prod.exhaust)
      have j: "jailed fs ?p" by (rule at_jailed [OF assms d True])
      have "jail fs t" by (rule tripleD [OF check_jail [OF j] s c])
      then show ?thesis using run Some True c j by (auto simp: win_atPath_def reg_get_def Let_def split: option.splits)
    qed
  qed
qed

lemma with_at_jail:
  assumes "win_base_ok fs v bs" "\<And>p. jailed fs p \<Longrightarrow> keeps (jail fs) (act p)"
  shows "keeps (jail fs) (with_at fs X n name fail act)"
  unfolding with_at_def
  by (rule triple_bind [OF atPath_jail [OF assms(1)]], rule triple_sum)
     (auto intro!: triple_ret triple_pure assms(2))

lemma with_abs_jail:
  assumes "win_base_ok fs v bs" "\<And>p. win_below v bs p \<Longrightarrow> jailed fs p \<Longrightarrow> keeps (jail fs) (act p)"
  shows "keeps (jail fs) (with_abs fs name fail act)"
  unfolding with_abs_def
  using resolveAbs_below [OF assms(1), of name] below_jailed [OF assms(1)]
  by (intro triple_sum triple_ret assms(2)) auto

lemma Dir_jailed:
  assumes b: "win_base_ok fs v bs" and p: "win_below v bs p" "p \<noteq> wf_basePath fs"
  shows "jailed fs (win_Dir p)"
proof -
  obtain ds where ds: "list_all wproper ds" "p = win_path v (bs @ ds)" using p(1) by (auto simp: win_below_def)
  then have "ds \<noteq> []" using p(2) b by (auto simp: win_base_ok_def)
  then obtain es c where es: "ds = es @ [c]" by (metis rev_exhaust)
  let ?d = "win_path v (bs @ es)"
  have c: "wproper c" "list_all wproper es" using ds(1) es by simp_all
  then have "from_slash c = c" unfolding from_slash_def by (intro map_idI) (auto simp: wproper_def proper_def)
  then have d: "p = ?d @ BS # c" using ds(2) es b win_path_append [of "bs @ es" "[c]" v] by (simp add: win_base_ok_def)
  have "takeWhile (\<lambda>x. x \<noteq> BS \<and> x \<noteq> CHR ''/'') (rev p) = rev c"
    unfolding d using c(1) by (simp add: wproper_def proper_def takeWhile_append2) (subst takeWhile_append2, auto)
  then have "fst (win_Split p) = ?d @ [BS]" unfolding win_Split_def Let_def by (simp add: d)
  then have "win_Dir p = win_Join ?d []" by (simp add: win_Dir_def win_Join_def)
  then have "win_Dir p = ?d" using b c(2) by (simp add: win_base_ok_def win_Join_path resolve_down to_slash_def)
  moreover have "win_below v bs ?d" using c(2) by (auto simp: win_below_def)
  ultimately show ?thesis using below_jailed [OF b] by simp
qed

lemma win_Split_cut:
  "win_Split q = (dir, leaf) \<Longrightarrow> q = dir @ leaf \<and> BS \<notin> set leaf \<and> CHR ''/'' \<notin> set leaf \<and> (dir = [] \<or> last dir = BS \<or> last dir = CHR ''/'')"
proof -
  assume s: "win_Split q = (dir, leaf)"
  let ?P = "\<lambda>c. c \<noteq> BS \<and> c \<noteq> CHR ''/''"
  have leaf: "leaf = rev (takeWhile ?P (rev q))" and dir: "dir = take (length q - length leaf) q"
    using s by (auto simp: win_Split_def Let_def)
  have q: "q = rev (dropWhile ?P (rev q)) @ leaf" unfolding leaf by (metis rev_append rev_rev_ident takeWhile_dropWhile_id)
  then have d: "dir = rev (dropWhile ?P (rev q))" using dir by (metis append_eq_conv_conj diff_add_inverse2 length_append)
  moreover have "dropWhile ?P (rev q) \<noteq> [] \<Longrightarrow> \<not> ?P (hd (dropWhile ?P (rev q)))" by (rule hd_dropWhile)
  ultimately show ?thesis using q leaf by (auto simp: last_rev dest: set_takeWhileD)
qed

lemma split_jailed:
  assumes b: "win_base_ok fs v bs" and r: "win_unsafePath fs p = Inr q" and s: "win_Split q = (dir, leaf)"
  defines "absDir \<equiv> if dir = [] then wf_basePath fs else win_Join (wf_basePath fs) (TrimSuffix dir [BS])"
  shows "jailed fs absDir \<and> (leaf = [] \<or> leaf = ''.'' \<or> wproper leaf)"
proof (cases "q = ''.''")
  case True
  then have "dir = []" "leaf = ''.''" using s by (auto simp: win_Split_def Let_def)
  then show ?thesis using base_jailed [OF b] by (simp add: absDir_def)
next
  case False
  then have q: "down_path q" using unsafePath_down [OF b r] by blast
  note cut = win_Split_cut [OF s]
  have leaf: "to_slash leaf = leaf" "Split leaf (CHR ''/'') = [leaf]" using cut by (auto simp: to_slash_id Split_plain)
  show ?thesis
  proof (cases "dir = []")
    case True
    then show ?thesis using q cut leaf base_jailed [OF b] by (auto simp: absDir_def)
  next
    case False
    obtain d where d: "to_slash dir = d @ ''/''"
    proof -
      have "to_slash dir = to_slash (butlast dir @ [last dir])" using False by simp
      then have "to_slash dir = to_slash (butlast dir) @ ''/''"
        using cut False unfolding to_slash_append by (auto simp: to_slash_Cons)
      then show thesis by (rule that)
    qed
    then have "Split (to_slash q) (CHR ''/'') = Split d (CHR ''/'') @ [leaf]"
      using cut leaf by (simp add: Split_append)
    then have dl: "list_all (\<lambda>c. c = [] \<or> wproper c) (Split d (CHR ''/''))" "leaf = [] \<or> wproper leaf" using q by auto
    have "to_slash (TrimSuffix dir [BS]) = d \<or> to_slash (TrimSuffix dir [BS]) = d @ ''/''"
    proof (cases "last dir = BS")
      case True
      then obtain e where e: "dir = e @ [BS]" using False by (metis append_butlast_last_id)
      then show ?thesis using d by (simp add: to_slash_Cons)
    next
      case F: False
      then show ?thesis using False d TrimSuffix_not [of dir "[BS]"] by (simp add: HasSuffix_char)
    qed
    then have "down_path (TrimSuffix dir [BS])" using dl(1) by (auto simp: Split_append)
    then show ?thesis using Join_down [OF b] below_jailed [OF b] dl(2) False by (auto simp: absDir_def)
  qed
qed

lemma safePath_jail:
  assumes b: "win_base_ok fs v bs"
  shows "keeps (jail fs) (win_safePath fs X p)"
proof (cases "win_unsafePath fs p")
  case (Inl e)
  then show ?thesis by (auto simp: win_safePath_def intro: triple_ret)
next
  case (Inr q)
  obtain dir leaf where s: "win_Split q = (dir, leaf)" by (rule prod.exhaust)
  note j = split_jailed [OF b Inr s]
  have "dir = [] \<Longrightarrow> q = leaf" using win_Split_cut [OF s] by simp
  then show ?thesis
    using j jailed_down unfolding win_safePath_def Inr sum.case s Let_def prod.case
    by (intro keeps_bind check_jail triple_option triple_ret reg_jail) (auto split: if_splits)
qed

subsection \<open>The operations\<close>

lemma chtimes_jail: "jailed fs p \<Longrightarrow> keeps (jail fs) (chtimesNoFollow i X p a m)"
  unfolding chtimesNoFollow_def by (intro keeps_bind plain_jail triple_sum triple_if triple_ret; simp)

lemma openAbs_jail: "jailed fs p \<Longrightarrow> keeps (jail fs) (openAbs fs X p name fl m)"
  unfolding openAbs_def plain_open_def
  by (intro keeps_bind triple_if triple_ret check_jail triple_option triple_sum win_do_jail plain_jail read_keeps world_jail; simp)

lemma simple_jail:
  assumes "win_base_ok fs v bs"
  shows "keeps (jail fs) (win_Chmod fs X p m)" "keeps (jail fs) (win_Chmodat fs X n p m)"
    "keeps (jail fs) (win_Chtimes fs X p a t)" "keeps (jail fs) (win_Chtimesat fs X n p a t)"
    "keeps (jail fs) (win_OpenFile fs X p fl m)" "keeps (jail fs) (win_OpenFileat fs X n p fl m)"
    "keeps (jail fs) (win_Mkdir fs X p m)" "keeps (jail fs) (win_Mkdirat fs X n p m)" "keeps (jail fs) (win_MkdirAll fs X p m)"
    "keeps (jail fs) (win_Stat fs X p)" "keeps (jail fs) (win_Statat fs X n p)"
    "keeps (jail fs) (win_Lstat fs X p)" "keeps (jail fs) (win_Lstatat fs X n p)"
    "keeps (jail fs) (win_ReadDir fs X p)" "keeps (jail fs) (win_RemoveStat fs X p)" "keeps (jail fs) (win_Remove fs X p)"
    "keeps (jail fs) (win_unlinkat fs X n p)" "keeps (jail fs) (win_Symlink fs X q p)"
  unfolding win_Chmod_def win_Chmodat_def win_Chtimes_def win_Chtimesat_def win_OpenFile_def win_OpenFileat_def win_Mkdir_def
    win_Mkdirat_def win_MkdirAll_def win_Stat_def win_Statat_def win_Lstat_def win_Lstatat_def win_ReadDir_def win_RemoveStat_def
    win_Remove_def win_unlinkat_def win_Symlink_def
  by (intro with_abs_jail [OF assms] with_at_jail [OF assms] ensure_jail do_jail win_do_jail chtimes_jail openAbs_jail keeps_bind
      triple_ret triple_sum triple_if; simp)+

lemma Rename_jail:
  assumes b: "win_base_ok fs v bs"
  shows "keeps (jail fs) (win_Rename fs X p q)"
  unfolding win_Rename_def
  using Dir_jailed [OF b]
  by (intro triple_if triple_ret with_abs_jail [OF b] keeps_bind ensure_jail do_jail triple_option; simp)

lemma Touch_jail:
  assumes b: "win_base_ok fs v bs"
  shows "keeps (jail fs) (win_Touch fs X p fl m)"
  unfolding win_Touch_def win_TouchPath_def
  by (intro keeps_bind safePath_jail [OF b] triple_sum triple_if triple_ret triple_option triple_prod simple_jail [OF b] reg_jail)

definition safe_win_remover :: "winfs \<Rightarrow> 'w win_remover \<Rightarrow> bool" where
  "safe_win_remover fs rm \<longleftrightarrow> (\<forall>p. keeps (jail fs) (wr_Open rm p) \<and> keeps (jail fs) (wr_Remove rm p))"

lemma read_names_jail: "keeps (jail fs) (read_names X d n)"
  by (auto simp: triple_def read_names_def jail_def split: prod.split)

lemma each_jail: "(\<And>x. keeps (jail fs) (act x)) \<Longrightarrow> keeps (jail fs) (each act xs)"
  by (induction xs) (auto intro!: keeps_bind triple_ret triple_option)

lemma removeAll_jail:
  assumes "safe_win_remover fs rm"
  shows "keeps (jail fs) (win_removeAll n X rm p)" "keeps (jail fs) (win_remove_names n X rm p d)"
proof (induction n arbitrary: p d)
  case 0
  { case 1 then show ?case by (simp add: triple_ret) }
  { case 2 then show ?case by (simp add: triple_ret) }
next
  case (Suc n)
  have rm: "keeps (jail fs) (wr_Open rm p)" "keeps (jail fs) (wr_Remove rm p)" for p
    using assms by (simp_all add: safe_win_remover_def)
  { case 1 then show ?case
      by (auto intro!: triple_ret keeps_bind rm triple_option triple_if triple_sum Suc.IH) }
  { case 2 then show ?case
      by (auto intro!: triple_ret keeps_bind read_names_jail triple_prod each_jail Suc.IH split: names_end.split) }
qed

lemma plain_remover_safe: "win_base_ok fs v bs \<Longrightarrow> safe_win_remover fs (plain_remover fs X)"
  by (simp add: safe_win_remover_def plain_remover_def win_Open_def simple_jail)

lemma RemoveAll_jail: "win_base_ok fs v bs \<Longrightarrow> keeps (jail fs) (win_RemoveAll n fs X p)"
  unfolding win_RemoveAll_def
  by (rule with_abs_jail, assumption) (intro triple_if triple_ret removeAll_jail plain_remover_safe)

lemma remove_each_jail: "(\<And>x. keeps (jail fs) (act x)) \<Longrightarrow> keeps (jail fs) (remove_each act xs)"
  by (induction xs) (auto intro!: keeps_bind triple_ret triple_option)

lemma RemoveContents_jail: "win_base_ok fs v bs \<Longrightarrow> keeps (jail fs) (win_RemoveContents n fs X p)"
  unfolding win_RemoveContents_def
  by (rule with_abs_jail, assumption)
     (intro keeps_bind ensure_jail do_jail triple_sum triple_ret remove_each_jail triple_prod removeAll_jail plain_remover_safe)

text \<open>The walk reads the directories it finds, so their entries have to be proper names.\<close>

definition win_names_ok :: "'w win_os \<Rightarrow> bool" where
  "win_names_ok X \<longleftrightarrow> (\<forall>p w. list_all (\<lambda>(n, _). wproper n) (fst (wo_readdir X p w)))"

definition safe_win_fn :: "winfs \<Rightarrow> 'w win_walk_fn \<Rightarrow> bool" where
  "safe_win_fn fs fn \<longleftrightarrow> (\<forall>n name rel i e. keeps (jail fs) (fn n name rel i e))"

lemma readdir_names:
  assumes "win_names_ok X" "jailed fs p"
  shows "triple (jail fs) (plain_readdir i X p) (\<lambda>r s. jail fs s \<and> list_all (\<lambda>(n, _). wproper n) (fst r))"
proof (rule tripleI)
  fix s r s'
  assume s: "jail fs s" and run: "run_state (plain_readdir i X p) s = (r, s')"
  have "jail fs s'" by (rule tripleD [OF plain_jail(3) [OF assms(2)] s run])
  moreover have "list_all (\<lambda>(n, _). wproper n) (fst r)"
    using run assms(1) by (auto simp: plain_readdir_def win_names_ok_def log_call_def)
  ultimately show "jail fs s' \<and> list_all (\<lambda>(n, _). wproper n) (fst r)" ..
qed

lemma walk_jail:
  assumes b: "win_base_ok fs v bs" and X: "win_names_ok X" and fn: "safe_win_fn fs fn"
  shows "(\<forall>m name rel d. keeps (jail fs) (win_walkDir n fs X fn m name rel d)) \<and>
    (\<forall>m dir rel es. jailed fs dir \<longrightarrow> list_all (\<lambda>(n, _). wproper n) es \<longrightarrow> keeps (jail fs) (win_walk_entries n fs X fn m dir rel es))"
proof (induction n)
  case 0
  have "keeps (jail fs) (win_walk_entries 0 fs X fn m dir rel es)" for m dir rel es by (cases es) (auto simp: triple_ret)
  then show ?case by (simp add: triple_ret)
next
  case (Suc n)
  have walk: "keeps (jail fs) (win_walkDir n fs X fn m name rel d)" for m name rel d using Suc by blast
  have entries: "jailed fs dir \<Longrightarrow> list_all (\<lambda>(n, _). wproper n) es \<Longrightarrow> keeps (jail fs) (win_walk_entries n fs X fn m dir rel es)"
    for m dir rel es using Suc by blast
  have f: "keeps (jail fs) (fn m name rel i e)" for m name rel i e using fn by (simp add: safe_win_fn_def)
  have listing: "keeps (jail fs) (do { dirfd \<leftarrow> reg_add dir; (es, err) \<leftarrow> plain_readdir False X dir;
      e \<leftarrow> (case err of None \<Rightarrow> ret None | Some e \<Rightarrow> fn dirfd name rel (Some (fi_mode d)) (Some (win_ensurePathError e ''readdir'' name)));
      out \<leftarrow> (case e of None \<Rightarrow> win_walk_entries n fs X fn dirfd dir rel es | Some e \<Rightarrow> ret (Some (if e = WSkipDir then None else Some e)));
      reg_release dirfd; ret out })" if dir: "jailed fs dir" for dir name rel d
    by (intro keeps_bind reg_jail dir triple_bind [OF readdir_names [OF X dir]] triple_prod)
       (auto intro!: triple_pure keeps_bind triple_option triple_ret f entries reg_jail dir)
  have "keeps (jail fs) (win_walkDir (Suc n) fs X fn m name rel d)" for m name rel d
    unfolding win_walkDir.simps
    by (intro keeps_bind f triple_if triple_ret triple_bind [OF atPath_jail [OF b]] triple_sum)
       (auto intro!: triple_ret triple_pure listing)
  moreover have "keeps (jail fs) (win_walk_entries (Suc n) fs X fn m dir rel es)"
    if "jailed fs dir" "list_all (\<lambda>(n, _). wproper n) es" for m dir rel es
  proof (cases es)
    case Nil
    then show ?thesis by (simp add: triple_ret)
  next
    case (Cons c cs)
    obtain nm t where c: "c = (nm, t)" by (rule prod.exhaust)
    then have "jailed fs (win_Join dir nm)" using that Cons by (simp add: jailed_down)
    then show ?thesis
      using that unfolding Cons c win_walk_entries.simps Let_def
      by (intro keeps_bind plain_jail triple_sum f triple_if triple_ret triple_option walk entries) auto
  qed
  ultimately show ?case by blast
qed

lemma WalkDirat_jail:
  assumes "win_base_ok fs v bs" "win_names_ok X" "safe_win_fn fs fn"
  shows "keeps (jail fs) (win_WalkDirat n fs X m name fn)"
proof -
  have f: "keeps (jail fs) (fn m name rel i e)" for m name rel i e using assms(3) by (simp add: safe_win_fn_def)
  show ?thesis unfolding win_WalkDirat_def
    by (intro keeps_bind simple_jail [OF assms(1)] triple_sum triple_ret f walk_jail [OF assms, THEN conjunct1, rule_format])
qed

section \<open>Sequences of operations\<close>

datatype 'w win_request =
  WinChmod string file_mode | WinChtimes string int int | WinOpen string flags file_mode | WinMkdir string file_mode
| WinMkdirAll string file_mode | WinReadDir string | WinStat string | WinLstat string | WinRemoveStat string | WinRemove string
| WinRemoveAll nat string | WinRemoveContents nat string | WinRename string string | WinSymlink string string
| WinTouch string flags file_mode | WinSafePath string | WinRelease int
| WinChmodat int string file_mode | WinChtimesat int string int int | WinOpenat int string flags file_mode
| WinMkdirat int string file_mode | WinStatat int string | WinLstatat int string | WinUnlinkat int string
| WinWalk nat int string "'w win_walk_fn"

definition void :: "('s, 'a) state \<Rightarrow> ('s, unit) state" where
  "void m = do { _ \<leftarrow> m; ret () }"

primrec win_perform :: "winfs \<Rightarrow> 'w win_os \<Rightarrow> 'w win_request \<Rightarrow> ('w win_state, unit) state" where
  "win_perform fs X (WinChmod p m) = void (win_Chmod fs X p m)"
| "win_perform fs X (WinChtimes p a m) = void (win_Chtimes fs X p a m)"
| "win_perform fs X (WinOpen p fl m) = void (win_OpenFile fs X p fl m)"
| "win_perform fs X (WinMkdir p m) = void (win_Mkdir fs X p m)"
| "win_perform fs X (WinMkdirAll p m) = void (win_MkdirAll fs X p m)"
| "win_perform fs X (WinReadDir p) = void (win_ReadDir fs X p)"
| "win_perform fs X (WinStat p) = void (win_Stat fs X p)"
| "win_perform fs X (WinLstat p) = void (win_Lstat fs X p)"
| "win_perform fs X (WinRemoveStat p) = void (win_RemoveStat fs X p)"
| "win_perform fs X (WinRemove p) = void (win_Remove fs X p)"
| "win_perform fs X (WinRemoveAll n p) = void (win_RemoveAll n fs X p)"
| "win_perform fs X (WinRemoveContents n p) = void (win_RemoveContents n fs X p)"
| "win_perform fs X (WinRename p q) = void (win_Rename fs X p q)"
| "win_perform fs X (WinSymlink p q) = void (win_Symlink fs X p q)"
| "win_perform fs X (WinTouch p fl m) = void (win_Touch fs X p fl m)"
| "win_perform fs X (WinSafePath p) = void (win_safePath fs X p)"
| "win_perform fs X (WinRelease n) = reg_release n"
| "win_perform fs X (WinChmodat n p m) = void (win_Chmodat fs X n p m)"
| "win_perform fs X (WinChtimesat n p a m) = void (win_Chtimesat fs X n p a m)"
| "win_perform fs X (WinOpenat n p fl m) = void (win_OpenFileat fs X n p fl m)"
| "win_perform fs X (WinMkdirat n p m) = void (win_Mkdirat fs X n p m)"
| "win_perform fs X (WinStatat n p) = void (win_Statat fs X n p)"
| "win_perform fs X (WinLstatat n p) = void (win_Lstatat fs X n p)"
| "win_perform fs X (WinUnlinkat n p) = void (win_unlinkat fs X n p)"
| "win_perform fs X (WinWalk k n p fn) = void (win_WalkDirat k fs X n p fn)"

fun win_perform_all :: "winfs \<Rightarrow> 'w win_os \<Rightarrow> 'w win_request list \<Rightarrow> ('w win_state, unit) state" where
  "win_perform_all fs X [] = ret ()"
| "win_perform_all fs X (r # rs) = do { win_perform fs X r; win_perform_all fs X rs }"

definition walk_fn_ok :: "winfs \<Rightarrow> 'w win_request \<Rightarrow> bool" where
  "walk_fn_ok fs r \<longleftrightarrow> (case r of WinWalk k n p fn \<Rightarrow> safe_win_fn fs fn | _ \<Rightarrow> True)"

lemma void_keeps: "keeps I m \<Longrightarrow> keeps I (void m)"
  unfolding void_def by (intro keeps_bind triple_ret)

lemma win_perform_jail:
  assumes b: "win_base_ok fs v bs" and X: "win_names_ok X"
  shows "walk_fn_ok fs r \<Longrightarrow> keeps (jail fs) (win_perform fs X r)"
  by (cases r) (auto simp: walk_fn_ok_def intro!: void_keeps simple_jail [OF b] RemoveAll_jail [OF b] RemoveContents_jail [OF b] Rename_jail [OF b]
      Touch_jail [OF b] safePath_jail [OF b] reg_jail WalkDirat_jail [OF b X])

lemma win_perform_all_jail:
  assumes b: "win_base_ok fs v bs" and X: "win_names_ok X"
  shows "list_all (walk_fn_ok fs) rs \<Longrightarrow> keeps (jail fs) (win_perform_all fs X rs)"
  by (induction rs) (auto intro!: triple_ret keeps_bind win_perform_jail [OF b X])

definition win_start :: "'w \<Rightarrow> 'w win_state" where
  "win_start w = \<lparr>ws_world = w, ws_next = 0, ws_dirs = Map.empty, ws_calls = [], ws_files = 3\<rparr>"


definition quiet_os :: "unit win_os" where
  "quiet_os =
     \<lparr>wo_imp = (\<lambda>_. None), wo_eval = (\<lambda>p _. Inr p), wo_do = (\<lambda>_ w. (None, w)),
      wo_info = (\<lambda>_ _. Inr (fillFileStatFromSys \<lparr>st_mode = 0x41ED, st_size = 0, st_mtim = 0, st_nlink = 1, st_ino = 2\<rparr> ''d'')),
      wo_fstat = (\<lambda>_ _. Inr (fillFileStatFromSys \<lparr>st_mode = 0x41ED, st_size = 0, st_mtim = 0, st_nlink = 1, st_ino = 2\<rparr> ''d'')),
      wo_readdir = (\<lambda>_ _. ([(''a'', 0)], None)), wo_names = (\<lambda>_ _ w. (([], EndOfNames), w))\<rparr>"

definition win_srv :: winfs where
  "win_srv = \<lparr>wf_basePath = ''C:'' @ [BS] @ ''srv'', wf_imp = False\<rparr>"

lemma win_srv_ok: "win_base_ok win_srv ''C:'' [''srv'']"
  by (simp add: win_base_ok_def win_srv_def win_path_def from_slash_def render_def drive_def wproper_def proper_def)


section \<open>Links that lead out\<close>

lemma eval_unused [simp]:
  "plain_do i (X\<lparr>wo_eval := ev\<rparr>) c = plain_do i X c" "plain_info i (X\<lparr>wo_eval := ev\<rparr>) c = plain_info i X c"
  "plain_readdir i (X\<lparr>wo_eval := ev\<rparr>) p = plain_readdir i X p" "win_do fs (X\<lparr>wo_eval := ev\<rparr>) fail act = win_do fs X fail act"
  by (simp_all add: plain_do_def plain_info_def plain_readdir_def win_do_def)

text \<open>C39: Opening a file through a link that leads out of the base directory is refused, and nothing is opened, unless the
  file may be created: then the check is left out, and what the link leads to makes no difference.\<close>

theorem open_checks_links:
  assumes "win_resolveAbs fs p = Inr full" "wo_eval X full (ws_world s) = Inr q" "\<not> win_inside fs q"
  shows "if O_CREATE \<in> fl \<and> O_NOFOLLOW \<notin> fl
    then \<forall>ev. win_OpenFile fs (X\<lparr>wo_eval := ev\<rparr>) p fl m = win_OpenFile fs X p fl m
    else run_state (win_OpenFile fs X p fl m) s =
      (Inl (WPathError ''resolve'' full WBadPathResolution), s\<lparr>ws_calls := (False, OsEvalSymlinks full) # ws_calls s\<rparr>)"
  using assms by (simp add: win_OpenFile_def with_abs_def openAbs_def plain_open_def symlinkJailCheck_def log_call_def cong: if_cong)

definition linked_os :: "unit win_os" where
  "linked_os = quiet_os\<lparr>wo_eval := (\<lambda>_ _. Inr (''C:'' @ [BS] @ ''Windows''))\<rparr>"

theorem open_checks_links_witness:
  "fst (run_state (win_OpenFile win_srv linked_os ''x'' {} 0) (win_start ())) =
     Inl (WPathError ''resolve'' (''C:'' @ [BS] @ ''srv'' @ [BS] @ ''x'') WBadPathResolution) \<and>
   win_OpenFile win_srv linked_os ''x'' {O_CREATE} 0 = win_OpenFile win_srv quiet_os ''x'' {O_CREATE} 0"
proof -
  have r: "win_resolveAbs win_srv ''x'' = Inr (''C:'' @ [BS] @ ''srv'' @ [BS] @ ''x'')" by code_simp
  have out: "\<not> win_inside win_srv (''C:'' @ [BS] @ ''Windows'')" by code_simp
  have e: "wo_eval linked_os (''C:'' @ [BS] @ ''srv'' @ [BS] @ ''x'') (ws_world (win_start ())) = Inr (''C:'' @ [BS] @ ''Windows'')"
    by (simp add: linked_os_def)
  have "linked_os\<lparr>wo_eval := wo_eval quiet_os\<rparr> = quiet_os" by (simp add: linked_os_def)
  moreover have "win_OpenFile win_srv (linked_os\<lparr>wo_eval := wo_eval quiet_os\<rparr>) ''x'' {O_CREATE} 0 = win_OpenFile win_srv linked_os ''x'' {O_CREATE} 0"
    using open_checks_links [OF r e out, of "{O_CREATE}" 0] by simp
  ultimately show ?thesis using open_checks_links [OF r e out, of "{}" 0] by simp
qed

text \<open>The other operations that take a path do not look at links either.\<close>

lemma links_not_looked_at:
  "win_Stat fs (X\<lparr>wo_eval := ev\<rparr>) p = win_Stat fs X p" "win_ReadDir fs (X\<lparr>wo_eval := ev\<rparr>) p = win_ReadDir fs X p"
  "win_Mkdir fs (X\<lparr>wo_eval := ev\<rparr>) p m = win_Mkdir fs X p m" "win_MkdirAll fs (X\<lparr>wo_eval := ev\<rparr>) p m = win_MkdirAll fs X p m"
  "win_Chmod fs (X\<lparr>wo_eval := ev\<rparr>) p m = win_Chmod fs X p m" "win_RemoveStat fs (X\<lparr>wo_eval := ev\<rparr>) p = win_RemoveStat fs X p"
  "win_Remove fs (X\<lparr>wo_eval := ev\<rparr>) p = win_Remove fs X p" "win_Rename fs (X\<lparr>wo_eval := ev\<rparr>) p q = win_Rename fs X p q"
  by (simp_all add: win_Stat_def win_ReadDir_def win_Mkdir_def win_MkdirAll_def win_Chmod_def win_RemoveStat_def win_Remove_def
      win_Rename_def do_call_def do_info_def do_readdir_def cong: if_cong sum.case_cong option.case_cong)

section \<open>Missing directories\<close>

lemma convert_not_exist: "win_not_exist (win_convertErrorType e) \<longleftrightarrow> win_not_exist e"
proof (induction e)
  case (WPathError op p c)
  then show ?case by (cases c) (auto simp: win_convertErrorType_def win_errnoToPathError_def split: win_code.splits)
next
  case (WLinkError a b c e)
  then show ?case by (auto simp: win_convertErrorType_def win_errnoToPathError_def split: option.splits win_cause.splits win_code.splits)
qed (auto simp: win_convertErrorType_def)

lemma safePath_never_missing:
  "triple (\<lambda>s. True) (win_safePath fs X p) (\<lambda>r s. case r of Inl e \<Rightarrow> \<not> win_not_exist e | Inr _ \<Rightarrow> True)"
proof (rule tripleI)
  fix s r s'
  assume "run_state (win_safePath fs X p) s = (r, s')"
  then show "case r of Inl e \<Rightarrow> \<not> win_not_exist e | Inr _ \<Rightarrow> True"
    by (auto simp: win_safePath_def symlinkJailCheck_def log_call_def Let_def win_unsafePath_def convert_not_exist
        split: sum.splits if_splits prod.splits option.splits)
qed

text \<open>\<^verbatim>\<open>TouchPath\<close> is to create the directories that are missing on the way to a file, but it never does: the resolution it
  relies on does not report a missing directory, so it is the same as \<^verbatim>\<open>SafePath\<close>.\<close>

theorem touch_creates_no_directory:
  "win_TouchPath fs X p = do { r \<leftarrow> win_safePath fs X p; ret (r, case r of Inr _ \<Rightarrow> True | Inl _ \<Rightarrow> False) }"
proof -
  have "run_state (win_TouchPath fs X p) s = run_state (do { r \<leftarrow> win_safePath fs X p; ret (r, case r of Inr _ \<Rightarrow> True | Inl _ \<Rightarrow> False) }) s" for s
  proof -
    obtain r s' where r: "run_state (win_safePath fs X p) s = (r, s')" by (rule prod.exhaust)
    then have "case r of Inl e \<Rightarrow> \<not> win_not_exist e | Inr _ \<Rightarrow> True" using tripleD [OF safePath_never_missing _ r] by simp
    then show ?thesis using r by (cases r) (auto simp: win_TouchPath_def)
  qed
  then show ?thesis by (intro state.expand ext)
qed

section \<open>What removal reports\<close>

text \<open>C40: The recursive removal never reports success for a directory that is not empty: when the entry cannot be removed at
  once and then can be opened, the error of the first attempt is returned even though everything has been removed.\<close>

theorem removal_reports_failure:
  assumes "run_state (wr_Remove rm p) s = (Some err, s1)" "\<not> win_not_exist err" "p \<noteq> []"
    and "run_state (wr_Open rm p) s1 = (Inr d, s2)"
  shows "fst (run_state (win_removeAll n X rm p) s) \<noteq> Some None"
proof (cases n)
  case (Suc n')
  obtain r s3 where "run_state (win_remove_names n' X rm p d) s2 = (r, s3)" by (rule prod.exhaust)
  then show ?thesis using Suc assms by (cases r) (auto split: option.splits prod.splits)
qed simp

text \<open>A disk of one directory with one file: directories that have entries cannot be removed.\<close>

definition tree_os :: "string list win_os" where
  "tree_os = \<lparr>wo_imp = (\<lambda>_. None), wo_eval = (\<lambda>p _. Inr p),
     wo_do = (\<lambda>c w. case c of
        OsRemove p \<Rightarrow> (if p \<notin> set w then (Some (WErrno NOT_FOUND), w)
                       else if list_ex (\<lambda>q. HasPrefix q (p @ [BS])) w then (Some (WErrno (WinCode 145)), w) else (None, removeAll p w))
      | _ \<Rightarrow> (None, w)),
     wo_info = (\<lambda>_ _. Inl (WErrno NOT_FOUND)), wo_fstat = (\<lambda>_ _. Inl (WErrno NOT_FOUND)), wo_readdir = (\<lambda>_ _. ([], None)),
     wo_names = (\<lambda>_ _ w. ((if list_ex (\<lambda>q. HasSuffix q (BS # ''f'')) w then [''f''] else [], EndOfNames), w))\<rparr>"

abbreviation tree_start :: "string list win_state" where
  "tree_start \<equiv> win_start [''C:'' @ [BS] @ ''srv'' @ [BS] @ ''d'', ''C:'' @ [BS] @ ''srv'' @ [BS] @ ''d'' @ [BS] @ ''f'']"

theorem removal_reports_failure_witness:
  "fst (run_state (win_removeAll 9 tree_os (plain_remover win_srv tree_os) ''d'') tree_start) \<noteq> Some None \<and>
   ws_world (snd (run_state (win_removeAll 9 tree_os (plain_remover win_srv tree_os) ''d'') tree_start)) = []"
proof -
  let ?rm = "plain_remover win_srv tree_os"
  have full: "win_resolveAbs win_srv ''d'' = Inr (''C:'' @ [BS] @ ''srv'' @ [BS] @ ''d'')" by code_simp
  have "fst (run_state (wr_Remove ?rm ''d'') tree_start) = Some (WPathError ''remove'' ''d'' (WCode (WinCode 145)))" by code_simp
  then obtain s1 where 1: "run_state (wr_Remove ?rm ''d'') tree_start = (Some (WPathError ''remove'' ''d'' (WCode (WinCode 145))), s1)"
    by (cases "run_state (wr_Remove ?rm ''d'') tree_start") auto
  obtain r s2 where 2: "run_state (wr_Open ?rm ''d'') s1 = (r, s2)" by (rule prod.exhaust)
  have "\<exists>d. r = Inr d"
    using 2 full
    by (auto simp: plain_remover_def win_Open_def win_OpenFile_def with_abs_def openAbs_def symlinkJailCheck_def log_call_def tree_os_def
        win_do_def win_srv_def plain_open_def plain_do_def win_inside_def HasPrefix_def ToLower_def lower_char_def TrimSuffix_def HasSuffix_def)
  then obtain d where d: "r = Inr d" ..
  have "fst (run_state (win_removeAll 9 tree_os ?rm ''d'') tree_start) \<noteq> Some None"
    by (rule removal_reports_failure [OF 1 _ _ 2 [unfolded d]]) simp_all
  moreover have "ws_world (snd (run_state (win_removeAll 9 tree_os ?rm ''d'') tree_start)) = []" by code_simp
  ultimately show ?thesis ..
qed

text \<open>A path that spells the base in other letters is taken for one inside of it, and resolved to a name that cannot exist.\<close>

lemma other_case_misread:
  "win_resolveAbs win_srv ''../SRV/x'' = Inr (''C:'' @ [BS] @ ''srv'' @ [BS] @ ''C:'' @ [BS] @ ''SRV'' @ [BS] @ ''x'')"
  by code_simp

text \<open>The walk reads directories as the daemon, also when the server has an account of its own.\<close>

lemma walk_not_impersonated:
  "(False, OsReadDir (''C:'' @ [BS] @ ''srv'')) \<in> set (ws_calls (snd (run_state
     (do { r \<leftarrow> win_safePath (win_srv\<lparr>wf_imp := True\<rparr>) quiet_os ''/'';
           win_WalkDirat 1 (win_srv\<lparr>wf_imp := True\<rparr>) quiet_os 1 ''.'' (\<lambda>_ _ _ _ _. ret None) }) (win_start ()))))"
  by code_simp

end
