(* ===== verification/Spec2Isabelle.thy ===== *)
theory Spec2Isabelle
  imports Sink_Pool Fs_Api Server_Files Backends Crash Power_Threads Env_Settings Websocket Sftp Installation Backups Transfers
    Archives File_Requests Activity_Log Server_Manager Server_Requests Panel_Client Node_Config Config_Files Win_Jail
begin

text \<open>
  A verification of \<^bold>\<open>feathers\<close>, the daemon that runs game servers on a node: each server has a
  directory with a disk quota, a process in a Docker container (Linux) or under a Windows job
  object, and a panel that tells the daemon what to do. All paths below are under
  \<^verbatim>\<open>src/feathers/\<close>.

  \<^bold>\<open>The parts and how they interact.\<close> Requests reach the daemon over HTTP (\<^verbatim>\<open>router/\<close>), a websocket per
  connected user (\<^verbatim>\<open>router/websocket\<close>) and SFTP (\<^verbatim>\<open>sftp/\<close>); each is authorised by a token, a signed link
  or the permissions of the session. A request for a file goes through
  \<^verbatim>\<open>server/filesystem/filesystem.go\<close> (limits, names, order of listings) to
  \<^verbatim>\<open>internal/ufs/fs_quota.go\<close> (the usage counter) and \<^verbatim>\<open>internal/ufs/fs_unix.go\<close> (resolution of a path
  to a descriptor and a name below the base directory), which makes the system calls; on Windows
  \<^verbatim>\<open>internal/ufs/fs_windows.go\<close> takes the place of the latter. Archives, backups and transfers
  (\<^verbatim>\<open>server/filesystem/archive.go\<close>, \<^verbatim>\<open>compress.go\<close>, \<^verbatim>\<open>server/backup\<close>, \<^verbatim>\<open>server/transfer\<close>) walk the same file
  system. A power action goes through \<^verbatim>\<open>server/power.go\<close>: it takes the power lock
  (\<^verbatim>\<open>system/locker.go\<close>), synchronises with the panel, checks, rewrites the configuration files of the
  game (\<^verbatim>\<open>parser/\<close>), and calls the process environment, \<^verbatim>\<open>environment/docker\<close> or
  \<^verbatim>\<open>environment/winproc\<close>. The environment publishes its changes of state and its resource usage;
  \<^verbatim>\<open>server/listeners.go\<close> hands each of them to \<^verbatim>\<open>OnStateChange\<close> in \<^verbatim>\<open>server/server.go\<close>, which decides
  whether the process has crashed, and \<^verbatim>\<open>server/crash.go\<close> restarts it. Console output passes the rate
  limiter and the throttle (\<^verbatim>\<open>system/rate.go\<close>, \<^verbatim>\<open>server/console.go\<close>) to the sinks (\<^verbatim>\<open>system/sink_pool.go\<close>).
  The manager (\<^verbatim>\<open>server/manager.go\<close>) holds the servers, \<^verbatim>\<open>remote/\<close> is the client of the panel,
  \<^verbatim>\<open>internal/cron\<close> sends it the activity log, and \<^verbatim>\<open>config/\<close> holds the configuration of the node.

  \<^bold>\<open>The theories.\<close>
  \<^item> \<open>Prelude\<close>: outcomes of code that may panic, 64-bit signed arithmetic, list lemmas. \<open>Effects\<close>: programs
    of the state monad and their Hoare rules. \<open>Go_Strings\<close>: the functions of \<^verbatim>\<open>strings\<close>, \<^verbatim>\<open>strconv\<close> and
    \<^verbatim>\<open>path\<close> the sources use. \<open>Channel\<close>: Go channels. \<open>Tasks\<close>: the journal of a long task.
  \<^item> \<open>Locker\<close>: \<^verbatim>\<open>system/locker.go\<close> and the atomic cells; the locale \<open>try_lock\<close> is what clients rely on.
    \<open>Rate_Limit\<close>: the limiter and the console throttle, whose alarm is verified for any \<open>try_lock\<close>.
    \<open>Ring_Buffer\<close>: the contract of a rolling buffer, interpreted by the sinks of \<open>Sink_Pool\<close> and by the
    console history of \<open>Invocation\<close>.
  \<^item> \<open>Safe_Path\<close>: \<^verbatim>\<open>NewUnixFS\<close>, \<^verbatim>\<open>unsafePath\<close> and the errors. \<open>Unix_Kernel\<close>: the system calls, as a record of
    functions that answer arbitrarily, with a log of every call. \<open>Unix_Fs\<close>: the operations of \<^verbatim>\<open>UnixFS\<close>.
    \<open>Quota\<close>: the usage counter. \<open>Remove_All\<close>: the recursive removal, for any remover that fulfils the
    locale \<open>safe_remover\<close>; both the plain and the quota file system do. \<open>Sandbox\<close>: the invariant of the
    call log, for each operation. \<open>Fs_Api\<close>: requests and sequences of them. \<open>Fs_Frame\<close>: what system calls
    leave alone. \<open>Walk\<close>: the walk over a directory by descriptors and what the file manager does with it.
  \<^item> \<open>Win_Fs\<close>, \<open>Win_Jail\<close>: the file system of a Windows node and what its sandbox keeps.
  \<^item> \<open>Server_Files\<close>: writing, copying and listing files of a server, files opened under the quota, the
    cached usage. \<open>Archives\<close>: building, compressing and unpacking archives. \<open>File_Requests\<close>: the HTTP
    requests on files, uploads and signed links. \<open>Sftp\<close>: the handlers of an SFTP session.
  \<^item> \<open>Env_State\<close>: process states and calm histories. \<open>Docker_Env\<close>, \<open>Winproc_Env\<close>: the two environments, the
    engine and the Windows API being parameters. \<open>Env_Settings\<close>: allocations, limits, variables.
    \<open>Invocation\<close>: startup command, child environment, console history.
  \<^item> \<open>Server_Power\<close>: \<^verbatim>\<open>HandlePowerAction\<close> and the checks before a boot; the locale \<open>process_environment\<close>
    states what it needs of an environment, and \<open>Backends\<close> interprets it for both.
    \<open>Power_Threads\<close>: concurrent power actions as a step relation over the lock.
    \<open>Crash\<close>: tracking, crash handler, listeners, disk limiter, console scanner.
  \<^item> \<open>Access_Tokens\<close>: scopes, permissions and denylists. \<open>Websocket\<close>: a connection, its goroutines and its
    limiters as a step relation. \<open>Net_Guard\<close>: the guards of remote downloads and restorations.
  \<^item> \<open>Installation\<close>: the installation and its two installers, one \<open>installer\<close> each. \<open>Backups\<close>: generation,
    upload, restoration. \<open>Transfers\<close>: both ends of a transfer.
  \<^item> \<open>Server_Manager\<close>: contexts, connections, event bus, manager, boot of the node. \<open>Server_Requests\<close>: the HTTP
    requests on servers and on the node. \<open>Panel_Client\<close>: requests to the panel, retries, pages.
    \<open>Activity_Log\<close>: the jobs that send the log. \<open>Node_Config\<close>: the configuration of the daemon.
  \<^item> \<open>Config_Values\<close>, \<open>Config_Files\<close>: values, lines and parsers of the configuration files of a game.

  \<^bold>\<open>State and operations.\<close> A struct is a record with the fields the modelled operations use, named as in
  the source where Isabelle allows it; a method is a definition of the same name, with the name of
  its component in front where two components share a name (\<open>docker_Start\<close>, \<open>win_Start\<close>, \<open>qf_Write\<close>).
  Stateful code is a program of the state monad over that record. Code outside of the repository is a
  parameter, and what is assumed of it is a named hypothesis of the theorems that need it:
  \<^item> the kernel: \<open>names_ok\<close> and \<open>win_names_ok\<close> (a directory lists proper names), \<open>sizes_ok\<close> (sizes are not
    negative and fit), \<open>writer_ok\<close> (a copy writes at most what it was asked to), \<open>bounded_depth\<close> (the tree
    below a directory is finite), \<open>safe_win_fn\<close> (what a walk calls on a Windows entry stays below the base);
    the base directory itself is proper (\<open>base_ok\<close>, \<open>win_base_ok\<close>);
  \<^item> the Docker engine and the Windows API: \<open>present\<close> (the engine knows the container), \<open>quiet_ticks\<close> (nothing
    revives a process that is being stopped), \<open>ctx_ok\<close> (a context ends with one of its two errors);
  \<^item> the libraries: signatures, rate limiters and JSON as the functions of \<open>ws_lib\<close>, the JSON, YAML, XML, ini and
    property libraries of the parsers as functions on their documents; \<open>codec_ok\<close> (saved states are read back),
    \<open>uuid_ok\<close> (a parsed identifier has no slash), \<open>file_laws\<close> (what is read from a file was written to it);
  \<^item> the clock and the database: \<open>times_from\<close> and \<open>past\<close> (time does not run backwards), \<open>no_slash\<close> of a time stamp,
    \<open>rows_ok\<close> (a key belongs to one row, and the database returns rows it has);
  \<^item> the state an operation starts from: \<open>env_ok\<close> (the file system of a request is proper), \<open>ready\<close> and \<open>bags_ok\<close>
    (the lock of a server is in use and its contexts exist), \<open>table_ok\<close> (the tables of downloads agree).

  \<^bold>\<open>What is shown.\<close> The sandbox: no sequence of file operations, HTTP requests or SFTP packets makes a
  system call outside of the base directory, path resolution is exactly the walk over the components, and
  on Windows every path stays lexically below the base, with the operations that follow links named. The
  quota: the counter is clamped addition, writes and archives stay within the limit, and a file written
  in any way settles to exactly its change of size. Power: the lock is restored on every path and
  excludes concurrent actions, a termination is never blocked, nothing boots without the checks, and on
  both backends no power action looks like a crash, with the exceptions proved as such: a missing
  container, handlers that run late, and an echoed stop command. Crashes: when exactly a server is
  restarted, and that restarts keep their distance. Console: the throttle warns on rising edges only,
  sinks and history keep the newest lines. Commands: tokenizing reads back quoted arguments, and the
  environment of the child has one entry per name. Authority: what a websocket and an SFTP session may do
  and see, that a revoked user is out, that signed links work once, that downloads are not led into the
  node's own network. Life cycle: installation, transfer and deletion end in the state they report, no
  activity record is lost, running servers come back after a reboot of the node. Configuration files:
  what each parser writes, and that an update either replaces a file or keeps it. Where the code does not
  do what it means to, the theorem states what it does.

  \<^bold>\<open>Bounds and fuel.\<close> Integers of type \<^verbatim>\<open>int64\<close> are integers brought back into range by \<open>i64\<close>, counters of
  type \<^verbatim>\<open>uint64\<close> are words. Fuel is used where the code follows data that others may keep changing: the
  recursive removals and walks on both platforms, the stream of an archive, and the jobs of an SFTP
  session. The safety theorems hold for every amount of it; \<open>walks_end\<close>, \<open>Stream_ends\<close> and \<open>sftp_run_ends\<close> prove that
  enough of it gives a result on every tree of bounded depth. The retries of the panel client follow the
  answers that are given to it, as many as its back-off allows.

  \<^bold>\<open>Granularity.\<close> A method that runs under one mutex is one step. The handlers of \<open>Crash\<close> are steps that
  get the values their reads return, so that a state that changes meanwhile is covered. The goroutines of
  a websocket and concurrent power actions are interleaved by step relations. An errgroup is run in any
  order of its members; a job that a handler starts in the background is a job of the result, run by the
  theorems that follow it; the configuration files of a server are updated one after the other, which is
  what distinct files make of it.

  \<^bold>\<open>Not modelled.\<close> The table of routes and the web framework, the command line, TLS, the log and the Windows
  service, which are calls of libraries in sequence; accounts, access control lists and impersonation on Windows,
  which are system calls whose effect the sources do not show; products of floating-point numbers (memory
  overhead, processor percentages), which are parameters where a modelled operation uses them.
\<close>

section \<open>The sandbox\<close>



text \<open>C2: Path resolution computes what walking the requested components from the base directory
  gives: the remaining components when the walk ends below the base, the path error otherwise.\<close>

theorem unsafePath_walks:
  assumes "base_ok fs bs"
  shows "unsafePath fs path =
    (let rs = resolve bs (TrimPrefix path (basePath fs)) in
     if take (length bs) rs = bs
     then Inr (if rs = bs then ''.'' else Join (drop (length bs) rs) ''/'')
     else Inl (PathError ''safePath'' path ErrBadPathResolution))"
proof -
  have "(\<exists>ds. rs = bs @ ds) \<longleftrightarrow> take (length bs) rs = bs" for rs
    by (metis append_eq_conv_conj append_take_drop_id)
  moreover have "take (length bs) rs = bs \<Longrightarrow> drop (length bs) rs = [] \<longleftrightarrow> rs = bs" for rs
    by (metis append.right_neutral append_take_drop_id drop_all order_refl)
  ultimately show ?thesis by (simp add: unsafePath_resolve [OF assms] Let_def)
qed

theorem unsafePath_walks_witness:
  "unsafePath (NewUnixFS ''/srv'' True) ''/a/../../etc'' = Inl (PathError ''safePath'' ''/a/../../etc'' ErrBadPathResolution)
   \<and> unsafePath (NewUnixFS ''/srv'' True) ''a//b/./c'' = Inr ''a/b/c''"
proof -
  have b: "base_ok (NewUnixFS ''/srv'' True) [''srv'']"
    by (simp add: base_ok_def NewUnixFS_def TrimSuffix_def HasSuffix_def render_def proper_def)
  show ?thesis
    using unsafePath_walks [OF b, of "''/a/../../etc''"] unsafePath_walks [OF b, of "''a//b/./c''"]
    by (simp add: NewUnixFS_def TrimSuffix_def HasSuffix_def resolve_def TrimPrefix_def HasPrefix_def clean_step_def)
qed

section \<open>Disk usage\<close>

definition simple_fs :: filesystem where
  "simple_fs = \<lparr>fm_q = NewQuota (NewUnixFS ''/srv'' False) 100, fm_uid = 0, fm_gid = 0, fm_isTest = True\<rparr>"

definition full_writer :: "int \<Rightarrow> unit writer" where
  "full_writer n = (\<lambda>f w. ((n, None), w))"

lemma simple_fs_limit: "q_limit (fm_q simple_fs) = 100" "in_i64 100"
  by (simp_all add: simple_fs_def NewQuota_def in_i64_def)

text \<open>C3: Writing a file never takes the usage counter above the limit of the server, whatever the
  file system answers on the way; a usage that is already above it does not grow.\<close>

theorem write_within_limit:
  assumes "sizes_ok k" "writer_ok newSize (wr newSize)" "0 \<le> newSize" "in_i64 newSize"
    and "0 < q_limit (fm_q fm)" "in_i64 (q_limit (fm_q fm))" "0 \<le> usage ps" "in_i64 (usage ps)"
  shows "0 \<le> usage (snd (run_state (Write fm k wr p newSize mode) ps)) \<and>
    usage (snd (run_state (Write fm k wr p newSize mode) ps)) \<le> max (usage ps) (q_limit (fm_q fm))"
  using triple_snd [OF Write_in_bounds [where wr = wr and fm = fm and p = p and mode = mode, OF assms(1-4) refl assms(5-8)] refl]
  by (simp add: in_bounds_def)

theorem write_within_limit_witness:
  "usage (snd (run_state (Write simple_fs (quiet_kernel ''/srv'' 0x81A4 1) full_writer ''a/b'' 60 0x1A4) start)) \<le> 100"
proof -
  have "sizes_ok (quiet_kernel ''/srv'' 0x81A4 1)" by (simp add: sizes_ok_def quiet_kernel_def in_i64_def)
  moreover have "writer_ok 60 (full_writer 60)" by (simp add: writer_ok_def full_writer_def)
  ultimately show ?thesis
    using write_within_limit [of "quiet_kernel ''/srv'' 0x81A4 1" 60 full_writer simple_fs start "''a/b''" "0x1A4"]
    by (simp add: simple_fs_limit start_def in_i64_def)
qed

text \<open>C4: However a file that was opened under the quota is written, with short writes, failed writes
  and writes that were refused for lack of space, once it is closed the usage counter has changed
  by exactly the change of the size of the file.\<close>

theorem quota_file_settles:
  assumes "0 < q_limit (fm_q fm)" "in_i64 (q_limit (fm_q fm))" "session_ok ws" "file_ok f"
    and "0 \<le> usage ps" "usage ps \<le> q_limit (fm_q fm)"
    and "\<forall>w. k_fstat k (qf_fd f) w = Inr s" "0 \<le> st_size s" "in_i64 (st_size s)"
    and "qf_size f \<le> usage ps + st_size s" "in_i64 (usage ps - qf_size f + st_size s)"
  shows "usage (snd (run_state (qf_session fm k f ws) ps)) = usage ps + (st_size s - qf_size f)"
proof -
  have "balanced (q_limit (fm_q fm)) (usage ps - qf_size f) f ps" using assms(4-6) by (simp add: balanced_def)
  then have "usage (snd (run_state (qf_session fm k f ws) ps)) = usage ps - qf_size f + st_size s"
    by (intro qf_session_settles [OF refl assms(1-3)]) (use assms in auto)
  then show ?thesis by simp
qed

theorem quota_file_settles_witness:
  "usage (snd (run_state (qf_session simple_fs (quiet_kernel ''/srv'' 0x81A4 30) \<lparr>qf_fd = 3, qf_size = 10\<rparr>
     [(20, 0, full_writer 5), (90, 15, full_writer 90)]) (start\<lparr>usage := 40\<rparr>))) = 60"
proof -
  have "session_ok [(20, 0, full_writer 5), (90, 15, full_writer 90)]"
    by (simp add: writer_ok_def full_writer_def in_i64_def)
  then show ?thesis
    using quota_file_settles [of simple_fs "[(20, 0, full_writer 5), (90, 15, full_writer 90)]" "\<lparr>qf_fd = 3, qf_size = 10\<rparr>"
        "start\<lparr>usage := 40\<rparr>" "quiet_kernel ''/srv'' 0x81A4 30" "\<lparr>st_mode = 0x81A4, st_size = 30, st_mtim = 0, st_nlink = 1, st_ino = 2\<rparr>"]
    by (simp add: simple_fs_limit quiet_kernel_def file_ok_def in_i64_def)
qed

text \<open>A copy gets the first of the names \<open>x copy\<close>, \<open>x copy 1\<close>, and so on up to 50 that does not
  exist yet, with the extension kept at the end.\<close>

theorem copy_gets_free_name:
  assumes "i < 51" "\<forall>j < i. entry_exists k (world ps) d (name @ copy_suffix j @ extension)"
    and "entry_missing k (world ps) d (name @ copy_suffix i @ extension)"
  shows "fst (run_state (findCopySuffix k d name extension stamp) ps) = Inr (name @ copy_suffix i @ extension)"
  by (rule findCopySuffix_first [OF assms])

theorem copy_gets_free_name_witness:
  "fst (run_state (findCopySuffix ((quiet_kernel ''/srv'' 0x81A4 1)\<lparr>k_fstatat :=
       (\<lambda>_ n _ _. if n = ''x copy.txt'' then Inr \<lparr>st_mode = 0x81A4, st_size = 1, st_mtim = 0, st_nlink = 1, st_ino = 2\<rparr> else Inl ENOENT)\<rparr>)
       3 ''x'' ''.txt'' ''now'') start) = Inr ''x copy 1.txt''"
proof -
  have c: "copy_suffix 1 = '' copy 1''" "copy_suffix 0 = '' copy''" by code_simp+
  show ?thesis
    by (subst copy_gets_free_name [where i = 1]) (auto simp: entry_exists_def entry_missing_def c simp del: One_nat_def)
qed

section \<open>Power actions and crash detection\<close>

definition simple_engine :: "unit engine" where
  "simple_engine =
     \<lparr>d_inspect = (\<lambda>w. (Inr \<lparr>c_running = False, c_exit = 0, c_oom = False, c_log = False\<rparr>, w)),
      d_truncate = (\<lambda>w. (None, w)), d_remove = (\<lambda>_ w. (None, w)), d_pull = (\<lambda>w. (None, w)),
      d_create = (\<lambda>w. (None, w)), d_attach = (\<lambda>w. (None, w)), d_start = (\<lambda>w. (Some NotFound, w)),
      d_stop = (\<lambda>w. (None, w)), d_wait = (\<lambda>w. (WaitOk, w)), d_kill = (\<lambda>_ w. (None, w)),
      d_write = (\<lambda>_ w. (None, w))\<rparr>"

definition simple_win :: "unit win_api" where
  "simple_win =
     \<lparr>w_mkdir = (\<lambda>w. (None, w)), w_provision = (\<lambda>w. (None, w)), w_acl = (\<lambda>w. (None, w)),
      w_createjob = (\<lambda>w. (Inr 7, w)), w_close = (\<lambda>_ w. ((), w)), w_logon = (\<lambda>w. (None, w)),
      w_tmpdir = (\<lambda>w. (None, w)), w_stdin = (\<lambda>w. (None, w)), w_pipe = (\<lambda>w. (None, w)),
      w_environ = [], w_directory = ''srv'', w_join = (\<lambda>a b. a @ b), w_is_abs = (\<lambda>_. False),
      w_file_exists = (\<lambda>_ _. False), w_spawn = (\<lambda>_ _ _ w. (Some ''no such file'', w)), w_open = (\<lambda>w. (9, w)),
      w_assign = (\<lambda>_ _ w. ((), w)), w_alive = (\<lambda>_ w. (Inr True, w)), w_killjob = (\<lambda>_ w. (None, w)),
      w_write = (\<lambda>_ w. (None, w))\<rparr>"

abbreviation no_stop :: stop_config where "no_stop \<equiv> \<lparr>stop_type = [], stop_value = []\<rparr>"





text \<open>Killing a live server whose container the engine no longer knows publishes offline in one
  step, so the crash handler is started for a server that the user has just killed.\<close>

theorem kill_of_missing_container:
  assumes "fst (d_inspect d (engine_world (environment s))) = Inl NotFound" "live (st (environment s))"
    and "published (environment s) = []" "tracked (resources t) = st (environment s)"
    and "locker_inv (powerLock s)" "\<not> IsLocked (powerLock s)" "(busy_error s :: env_error power_error option) = None"
  shows "crash_handlers (snd (run_state (handle_promptly
      (published (environment (snd (HandlePowerAction (docker_backend d) w cx pick ws PowerActionTerminate s))))) t))
    = crash_handlers t + 1"
proof -
  obtain lk where lk: "Acquire (powerLock s) = Return (None, lk)" using Acquire_cases [OF assms(5)] assms(6) by auto
  obtain r e where run: "run_state (docker_Terminate d ''SIGKILL'') (environment s) = (r, e)" by (rule prod.exhaust)
  then have "published e = [Offline]" using docker_Terminate_missing [OF assms(1,2), of "''SIGKILL''"] assms(3) by simp
  then have "published (environment (snd (HandlePowerAction (docker_backend d) w cx pick ws PowerActionTerminate s))) = [Offline]"
    using assms(7) lk run
    by (simp add: HandlePowerAction_cases locked_run_def run_action_def docker_backend_def in_env_def emit_def)
  then show ?thesis using assms(2,4) by (simp add: handle_promptly_count live_def)
qed

theorem kill_of_missing_container_witness:
  "crash_handlers (snd (run_state (handle_promptly
      (published (environment (snd (HandlePowerAction (docker_backend (simple_engine\<lparr>d_inspect := (\<lambda>w. (Inl NotFound, w))\<rparr>))
         simple_world CtxLive 0 [] PowerActionTerminate
         (server_New simple_settings ((docker_New () no_stop)\<lparr>st := Running\<rparr>))))))) (simple_daemon Running))) = 1"
  by (subst kill_of_missing_container)
     (simp_all add: server_New_def docker_New_def simple_daemon_def live_def NewLocker_inv busy_error_def)

end
